(* ===== verification/Prelude.thy ===== *)
theory Prelude
  imports Main "HOL-Library.Sublist"
begin

text \<open>
  Shared vocabulary of the development: the collections of rewrite rules the
  component proofs use, Go's fixed-width integer conversions, Go's
  \<^verbatim>\<open>error\<close> values, and lemmas on lists and options that several components need.
\<close>

named_theorems dbsimps \<open>unfolding rules for statements, transactions and queries\<close>
named_theorems frame \<open>what an operation leaves unchanged\<close>
named_theorems keeps \<open>preservation of a component invariant by an operation\<close>
named_theorems strs \<open>facts about Go's strings package\<close>

section \<open>Fixed-width integers\<close>

text \<open>
  Go's \<^verbatim>\<open>int\<close> is 64 bits wide on the supported platforms.  Values are kept as
  \<^typ>\<open>int\<close>; the conversions below are the wrap-around of \<^verbatim>\<open>int32(x)\<close> and of 64-bit
  arithmetic.
\<close>

definition wrap_signed :: "nat \<Rightarrow> int \<Rightarrow> int" where
  "wrap_signed w x = (x + 2 ^ (w - 1)) mod 2 ^ w - 2 ^ (w - 1)"

definition to_i32 :: "int \<Rightarrow> int" where
  "to_i32 x = wrap_signed 32 x"

definition in_i32 :: "int \<Rightarrow> bool" where
  "in_i32 x \<longleftrightarrow> - (2 ^ 31) \<le> x \<and> x < 2 ^ 31"

lemma to_i32_range [simp, intro]: "in_i32 (to_i32 x)"
  by (simp add: in_i32_def to_i32_def wrap_signed_def)

lemma to_i32_id [simp]: "in_i32 x \<Longrightarrow> to_i32 x = x"
  by (simp add: in_i32_def to_i32_def wrap_signed_def)

lemma to_i32_idem [simp]: "to_i32 (to_i32 x) = to_i32 x"
  by simp

lemma to_i32_cong: "to_i32 x mod 2 ^ 32 = x mod 2 ^ 32"
proof -
  have "((x + 2 ^ 31) mod 2 ^ 32 - 2 ^ 31) mod 2 ^ 32 = (x + 2 ^ 31 - 2 ^ 31) mod (2 ^ 32 :: int)"
    by (rule mod_diff_left_eq)
  then show ?thesis by (simp add: to_i32_def wrap_signed_def)
qed

section \<open>Go error values\<close>

text \<open>
  A Go \<^verbatim>\<open>error\<close> is \<^const>\<open>None\<close> (nil) or a value with a text.  The code distinguishes its
  own \<^verbatim>\<open>*HTTPError\<close> (a status code, a message and an optional cause) from every
  other error, of which only the text is ever looked at.
\<close>

datatype go_error =
    HTTPErr (err_code: int) (err_message: string) (err_cause: "string option")
  | Plain (err_text: string)

type_synonym 'a res = "go_error + 'a"

fun is_ok :: "'e + 'a \<Rightarrow> bool" where
  "is_ok (Inl _) = False"
| "is_ok (Inr _) = True"

lemma is_ok_iff: "is_ok r \<longleftrightarrow> (\<exists>a. r = Inr a)"
  by (cases r) auto

section \<open>Lists\<close>

text \<open>
  Loops over a slice with an early error return: \<open>first_error f xs\<close> is the error of
  the first element on which \<open>f\<close> fails.
\<close>

fun first_error :: "('a \<Rightarrow> 'e option) \<Rightarrow> 'a list \<Rightarrow> 'e option" where
  "first_error f [] = None"
| "first_error f (x # xs) = (case f x of None \<Rightarrow> first_error f xs | Some e \<Rightarrow> Some e)"

lemma first_error_None [simp]:
  "first_error f xs = None \<longleftrightarrow> (\<forall>x\<in>set xs. f x = None)"
  by (induction xs) (auto split: option.splits)

lemma first_error_Some:
  "first_error f xs = Some e \<Longrightarrow> \<exists>x\<in>set xs. f x = Some e"
  by (induction xs) (auto split: option.splits)

text \<open>Keep the first occurrence of every element, as Go's \<^verbatim>\<open>seen\<close>-map loops do.\<close>

fun dedup :: "'a list \<Rightarrow> 'a list \<Rightarrow> 'a list" where
  "dedup seen [] = []"
| "dedup seen (x # xs) =
     (if x \<in> set seen then dedup seen xs else x # dedup (x # seen) xs)"

lemma set_dedup: "set (dedup seen xs) = set xs - set seen"
  by (induction xs arbitrary: seen) auto

lemma set_dedup_Nil [simp]: "set (dedup [] xs) = set xs"
  by (simp add: set_dedup)

lemma distinct_dedup [simp]: "distinct (dedup seen xs)"
  by (induction xs arbitrary: seen) (auto simp: set_dedup)

lemma find_Some_set: "List.find P xs = Some x \<Longrightarrow> x \<in> set xs \<and> P x"
  by (induction xs) (auto split: if_splits)

lemma find_None_set: "List.find P xs = None \<longleftrightarrow> (\<forall>x\<in>set xs. \<not> P x)"
  by (induction xs) auto

lemma distinct_map_unique:
  "distinct (map f xs) \<Longrightarrow> x \<in> set xs \<Longrightarrow> y \<in> set xs \<Longrightarrow> f x = f y \<Longrightarrow> x = y"
  by (meson distinct_map inj_onD)

lemma find_distinct_key:
  "distinct (map f xs) \<Longrightarrow> x \<in> set xs \<Longrightarrow> f x = k \<Longrightarrow> List.find (\<lambda>y. f y = k) xs = Some x"
  by (induction xs) (auto simp: image_iff)

lemma filter_key_notin: "k \<notin> set (map f xs) \<Longrightarrow> filter (\<lambda>x. f x = k) xs = []"
  by (induction xs) auto

lemma filter_key_unique:
  "distinct (map f xs) \<Longrightarrow> x \<in> set xs \<Longrightarrow> f x = k \<Longrightarrow> filter (\<lambda>y. f y = k) xs = [x]"
  by (induction xs) (auto simp: filter_key_notin)

lemma filter_eq_ConsD: "filter P xs = y # ys \<Longrightarrow> y \<in> set xs \<and> P y"
  by (induction xs) (auto split: if_splits)

lemma distinct_map_filter_key: "distinct (map f xs) \<Longrightarrow> distinct (map f (filter P xs))"
  by (induction xs) auto

lemma sorted_key_hd_le:
  "sorted (map k xs) \<Longrightarrow> xs \<noteq> [] \<Longrightarrow> x \<in> set xs \<Longrightarrow> k (hd xs) \<le> k x"
  by (cases xs) auto

lemma hd_sort_key_in:
  "xs \<noteq> [] \<Longrightarrow> hd (sort_key k xs) \<in> set xs"
  by (metis hd_in_set set_sort length_0_conv length_sort)

lemma hd_sort_key_le:
  assumes "x \<in> set xs"
  shows "k (hd (sort_key k xs)) \<le> k x"
proof -
  from assms have "sort_key k xs \<noteq> []" by (metis length_0_conv length_sort list.size(3) empty_iff empty_set)
  with assms show ?thesis
    by (intro sorted_key_hd_le) auto
qed


lemma if_eqE: "(if c then x else y) = z \<Longrightarrow> (c \<Longrightarrow> x = z \<Longrightarrow> P) \<Longrightarrow> (\<not> c \<Longrightarrow> y = z \<Longrightarrow> P) \<Longrightarrow> P"
  by (cases c) auto

end
