(* ===== verification/Errors.thy ===== *)
theory Errors
  imports GoStrings
begin

text \<open>
  The error values of \<^verbatim>\<open>internal/errors\<close>: the predefined HTTP errors, the
  constructors, the translation of database errors (\<^verbatim>\<open>ParseDBError\<close>) and the reply a
  handler writes for an error (\<^verbatim>\<open>SendHTTPError\<close>).
\<close>

definition ErrorDuplicateKey :: go_error where
  "ErrorDuplicateKey = HTTPErr 400 ''Request caused an error due to duplicate key violation'' None"

definition ErrorMalformedRequest :: go_error where
  "ErrorMalformedRequest = HTTPErr 400 ''An error occurred due to a malformed request'' None"

definition ErrorUnauthorized :: go_error where
  "ErrorUnauthorized = HTTPErr 401 ''Unauthorized'' None"

definition ErrorForbidden :: go_error where
  "ErrorForbidden = HTTPErr 403 ''Forbidden'' None"

definition ErrorNotFound :: go_error where
  "ErrorNotFound = HTTPErr 404 ''The requestes resource does not exist'' None"

definition ErrorInvalidUUID :: go_error where
  "ErrorInvalidUUID = HTTPErr 400 ''Invalid UUID'' None"

definition ErrorTooManyRequests :: go_error where
  "ErrorTooManyRequests = HTTPErr 429 ''Too many requests'' None"

definition ErrorUnprocessable :: go_error where
  "ErrorUnprocessable = HTTPErr 422 ''Unprocessable Entity'' None"

definition ErrorInvalidUnit :: go_error where
  "ErrorInvalidUnit = HTTPErr 400 ''The provided unit can not be handled'' None"

definition ErrorInvalidUnitConversion :: go_error where
  "ErrorInvalidUnitConversion = HTTPErr 400 ''Unable to convert to the requested unit'' None"

definition ErrorUndefined :: go_error where
  "ErrorUndefined = HTTPErr 500 ''Undefined error'' None"

definition ErrorLengthRequired :: go_error where
  "ErrorLengthRequired = HTTPErr 411 ''Length Required'' None"

definition ErrorRequestEntityTooLarge :: go_error where
  "ErrorRequestEntityTooLarge = HTTPErr 413 ''Request Entity Too Large'' None"

definition ErrorInvalidAPIKey :: go_error where
  "ErrorInvalidAPIKey = HTTPErr 401 ''The API key is invalid'' None"

definition ErrorDBNoRows :: go_error where
  "ErrorDBNoRows = HTTPErr 404 ''The requestes resource does not exist'' None"

definition ErrorDBUndefined :: go_error where
  "ErrorDBUndefined = HTTPErr 500 ''Undefined DB error'' None"

definition ErrorDBDown :: go_error where
  "ErrorDBDown = HTTPErr 500 ''The DB is currently inaccessible'' None"

lemmas http_errors =
  ErrorDuplicateKey_def ErrorMalformedRequest_def ErrorUnauthorized_def ErrorForbidden_def
  ErrorNotFound_def ErrorInvalidUUID_def ErrorTooManyRequests_def ErrorUnprocessable_def
  ErrorInvalidUnit_def ErrorInvalidUnitConversion_def ErrorUndefined_def ErrorDBNoRows_def
  ErrorDBUndefined_def ErrorDBDown_def

definition NewBadRequestError :: "string \<Rightarrow> go_error" where
  "NewBadRequestError msg = HTTPErr 400 msg None"

definition NewInternalServerError :: "string \<Rightarrow> go_error" where
  "NewInternalServerError msg = HTTPErr 500 msg None"

definition NewInvalidRequestError :: "string \<Rightarrow> go_error" where
  "NewInvalidRequestError msg = HTTPErr 400 msg None"

definition NewHTTPError :: "string option \<Rightarrow> int \<Rightarrow> string \<Rightarrow> go_error" where
  "NewHTTPError cause code msg = HTTPErr code msg cause"

fun error_string :: "go_error \<Rightarrow> string" where
  "error_string (HTTPErr code msg None) = msg"
| "error_string (HTTPErr code msg (Some cause)) = msg @ '' : '' @ cause"
| "error_string (Plain txt) = txt"

fun ParseDBError :: "go_error \<Rightarrow> go_error" where
  "ParseDBError (HTTPErr c m k) = HTTPErr c m k"
| "ParseDBError (Plain serr) =
     (if Contains serr ''SQLSTATE 23505'' then ErrorDuplicateKey
      else if Contains serr ''SQLSTATE 23503'' then ErrorMalformedRequest
      else if Contains serr ''no rows'' then ErrorDBNoRows
      else if Contains serr ''failed to connect to'' \<or> Contains serr ''unexpected EOF''
        then HTTPErr (err_code ErrorDBDown) (err_message ErrorDBDown) (Some serr)
      else ErrorDBUndefined)"

text \<open>A handler's reply: the status it sent, its content type and its body.\<close>

record response =
  rsp_status :: "int option"
  rsp_ctype :: string
  rsp_body :: string

definition no_reply :: response where
  "no_reply = \<lparr>rsp_status = None, rsp_ctype = [], rsp_body = []\<rparr>"

text \<open>Only the first \<^verbatim>\<open>WriteHeader\<close> of a reply counts, as in \<^verbatim>\<open>net/http\<close>.\<close>

definition WriteHeader :: "int \<Rightarrow> response \<Rightarrow> response" where
  "WriteHeader code w = (if rsp_status w = None then w\<lparr>rsp_status := Some code\<rparr> else w)"

fun SendHTTPError :: "response \<Rightarrow> go_error \<Rightarrow> response" where
  "SendHTTPError w (HTTPErr c m k) =
     (let w1 = w\<lparr>rsp_ctype := ''text/plain; charset=utf-8''\<rparr>; w2 = WriteHeader c w1
      in w2\<lparr>rsp_body := rsp_body w2 @ error_string (HTTPErr c m k)\<rparr>)"
| "SendHTTPError w (Plain t) =
     (let w1 = w\<lparr>rsp_ctype := ''text/plain; charset=utf-8''\<rparr>; w2 = WriteHeader 500 w1
      in w2\<lparr>rsp_body := rsp_body w2 @ t\<rparr>)"

section \<open>Properties\<close>

lemma ParseDBError_is_HTTPErr: "is_HTTPErr (ParseDBError e)"
  by (cases e) (auto simp: http_errors)

lemma ParseDBError_idem: "ParseDBError (ParseDBError e) = ParseDBError e"
  using ParseDBError_is_HTTPErr [of e] by (cases "ParseDBError e") auto

lemma ParseDBError_Plain_code: "err_code (ParseDBError (Plain t)) \<in> {400, 404, 500}"
  by (auto simp: http_errors)

lemma WriteHeader_fresh [simp]: "rsp_status w = None \<Longrightarrow> rsp_status (WriteHeader c w) = Some c"
  by (simp add: WriteHeader_def)

lemma SendHTTPError_status [simp]:
  "rsp_status w = None \<Longrightarrow> rsp_status (SendHTTPError w (HTTPErr c m k)) = Some c"
  by (simp add: Let_def)

end
