(* ===== verification/Schema.thy ===== *)
theory Schema
  imports Errors
begin

text \<open>
  The PostgreSQL database of one domain: a record with one list of rows per table
  of \<^verbatim>\<open>postgres/migrations\<close>, the clock behind \<^verbatim>\<open>NOW()\<close>, and the faults the
  connection will show.  A table is the list of its rows in storage order; a query
  without \<^verbatim>\<open>ORDER BY\<close> returns rows in that order, one of the orders SQL allows, and
  no property below depends on it.

  Every statement runs through \<open>stmt\<close>, which first takes the next entry of
  \<open>faults\<close>: \<open>Some e\<close> is a failure of the connection, with which the statement has no
  effect.  So each \<^verbatim>\<open>if err != nil\<close> of the Go code is a branch of the model that some
  state reaches.  \<open>with_tx\<close> is \<^verbatim>\<open>BeginTx\<close>, a body, and \<^verbatim>\<open>Commit\<close> or \<^verbatim>\<open>Rollback\<close>.

  A UUID is represented by its canonical text, so \<^verbatim>\<open>uuid.UUID.String\<close> is the
  identity.  Column values of type \<^verbatim>\<open>double precision\<close> have the type parameter \<open>'v\<close>.
\<close>

type_synonym uuid = string

definition NilUUID :: uuid where
  "NilUUID = ''00000000-0000-0000-0000-000000000000''"

section \<open>Rows\<close>

datatype effect = Allow | Deny
datatype action = Create | Read | Update | Delete

fun parse_effect :: "string \<Rightarrow> effect option" where
  "parse_effect s = (if s = ''allow'' then Some Allow else if s = ''deny'' then Some Deny else None)"

fun effect_str :: "effect \<Rightarrow> string" where
  "effect_str Allow = ''allow''"
| "effect_str Deny = ''deny''"

fun parse_action :: "string \<Rightarrow> action option" where
  "parse_action s = (if s = ''create'' then Some Create else if s = ''read'' then Some Read
     else if s = ''update'' then Some Update else if s = ''delete'' then Some Delete else None)"

fun action_str :: "action \<Rightarrow> string" where
  "action_str Create = ''create''"
| "action_str Read = ''read''"
| "action_str Update = ''update''"
| "action_str Delete = ''delete''"

lemma parse_effect_str [simp]: "parse_effect (effect_str e) = Some e"
  by (cases e) auto

lemma parse_action_str [simp]: "parse_action (action_str a) = Some a"
  by (cases a) auto

lemma parse_effect_Some: "parse_effect s = Some e \<longleftrightarrow> s = effect_str e"
  by (cases e) (auto split: if_splits)

lemma parse_action_Some: "parse_action s = Some a \<longleftrightarrow> s = action_str a"
  by (cases a) (auto split: if_splits)

lemma effect_str_inj [simp]: "effect_str a = effect_str b \<longleftrightarrow> a = b"
  by (cases a; cases b) auto

lemma action_str_inj [simp]: "action_str a = action_str b \<longleftrightarrow> a = b"
  by (cases a; cases b) auto

declare parse_effect.simps [simp del] parse_action.simps [simp del]

record user_row =
  u_uuid :: uuid
  u_name :: string
  u_state :: string

record token_row =
  tk_uuid :: uuid
  tk_user :: uuid
  tk_name :: string
  tk_hash :: string
  tk_created :: int

record group_row =
  g_uuid :: uuid
  g_name :: string

record policy_row =
  gp_uuid :: uuid
  gp_group :: uuid
  gp_priority :: int
  gp_effect :: effect
  gp_action :: action
  gp_resource :: string

record thing_row =
  th_uuid :: uuid
  th_name :: string
  th_type :: "string option"
  th_state :: string
  th_created_by :: "uuid option"
  th_tags :: "string list"

record 'v timeseries_row =
  ts_uuid :: uuid
  ts_thing :: "uuid option"
  ts_name :: string
  ts_si_unit :: string
  ts_lower :: "'v option"
  ts_upper :: "'v option"
  ts_created_by :: "uuid option"
  ts_tags :: "string list"

record 'v tsdata_row =
  td_uuid :: uuid
  td_value :: 'v
  td_ts :: int
  td_created_by :: "uuid option"

record 'v rollup_row =
  ru_uuid :: uuid
  ru_bucket :: int
  ru_count :: int
  ru_sum :: 'v
  ru_min :: 'v
  ru_max :: 'v

record dataset_row =
  ds_uuid :: uuid
  ds_name :: string
  ds_format :: string
  ds_content :: string
  ds_checksum :: string
  ds_size :: int
  ds_belongs_to :: "uuid option"
  ds_created :: int
  ds_updated :: int
  ds_created_by :: "uuid option"
  ds_updated_by :: "uuid option"
  ds_tags :: "string list"
  ds_backend :: string
  ds_bucket :: "string option"
  ds_key :: "string option"

record upload_row =
  up_id :: string
  up_dataset :: uuid
  up_created_by :: "uuid option"
  up_created :: int
  up_backend :: string
  up_bucket :: "string option"
  up_key :: "string option"
  up_backend_id :: "string option"

record part_row =
  pt_upload :: string
  pt_number :: int
  pt_size :: int
  pt_md5 :: string
  pt_created :: int
  pt_etag :: "string option"

record program_row =
  pg_uuid :: uuid
  pg_name :: string
  pg_type :: string
  pg_state :: string
  pg_schedule :: string
  pg_deadline :: int
  pg_language :: string
  pg_tags :: "string list"

record revision_row =
  rv_program :: uuid
  rv_revision :: int
  rv_created :: int
  rv_signed :: "int option"
  rv_created_by :: "uuid option"
  rv_signed_by :: "uuid option"
  rv_code :: string
  rv_checksum :: string

record alert_row =
  al_uuid :: uuid
  al_resource :: string
  al_environment :: string
  al_event :: string
  al_severity :: string
  al_status :: string
  al_service :: "string list"
  al_value :: string
  al_description :: string
  al_origin :: string
  al_tags :: "string list"
  al_created :: int
  al_timeout :: int
  al_rawdata :: string
  al_duplicate :: int
  al_previous_severity :: string
  al_last_receive :: "int option"

record 'v db =
  users :: "user_row list"
  user_tokens :: "token_row list"
  groups :: "group_row list"
  user_groups :: "(uuid \<times> uuid) list"
  group_policies :: "policy_row list"
  things :: "thing_row list"
  timeseries :: "'v timeseries_row list"
  tsdata :: "'v tsdata_row list"
  hourly :: "'v rollup_row list"
  daily :: "'v rollup_row list"
  datasets :: "dataset_row list"
  uploads :: "upload_row list"
  upload_parts :: "part_row list"
  programs :: "program_row list"
  revisions :: "revision_row list"
  alerts :: "alert_row list"
  clock :: int
  faults :: "go_error option list"

definition empty_db :: "'v db" where
  "empty_db = \<lparr>users = [], user_tokens = [], groups = [], user_groups = [], group_policies = [],
     things = [], timeseries = [], tsdata = [], hourly = [], daily = [], datasets = [], uploads = [],
     upload_parts = [], programs = [], revisions = [], alerts = [], clock = 0, faults = []\<rparr>"

section \<open>Statements and transactions\<close>

type_synonym ('v, 'a) dbm = "'v db \<Rightarrow> 'a res \<times> 'v db"

definition pg_error :: "string \<Rightarrow> string \<Rightarrow> go_error" where
  "pg_error state msg = Plain (''ERROR: '' @ msg @ '' (SQLSTATE '' @ state @ '')'')"

definition unique_violation :: go_error where
  "unique_violation = pg_error ''23505'' ''duplicate key value violates unique constraint''"

definition fk_violation :: go_error where
  "fk_violation = pg_error ''23503'' ''insert or update violates foreign key constraint''"

definition not_null_violation :: go_error where
  "not_null_violation = pg_error ''23502'' ''null value violates not-null constraint''"

definition check_violation :: go_error where
  "check_violation = pg_error ''23514'' ''new row violates check constraint''"

definition invalid_text :: go_error where
  "invalid_text = pg_error ''22P02'' ''invalid input value for enum''"

definition out_of_range :: go_error where
  "out_of_range = pg_error ''22003'' ''integer out of range''"

definition no_rows :: go_error where
  "no_rows = Plain ''sql: no rows in result set''"

lemmas pg_errors = unique_violation_def fk_violation_def not_null_violation_def
  check_violation_def invalid_text_def no_rows_def pg_error_def

text \<open>One statement: a fault of the connection, or the effect \<open>f\<close> on the tables.\<close>

definition stmt :: "('v db \<Rightarrow> 'a res \<times> 'v db) \<Rightarrow> ('v, 'a) dbm" where
  "stmt f s = (case faults s of
      [] \<Rightarrow> f s
    | None # fs \<Rightarrow> f (s\<lparr>faults := fs\<rparr>)
    | Some e # fs \<Rightarrow> (Inl e, s\<lparr>faults := fs\<rparr>))"

text \<open>\<^verbatim>\<open>x, err := m; if err != nil { return err }; k(x)\<close>\<close>

definition andthen :: "('v, 'a) dbm \<Rightarrow> ('a \<Rightarrow> ('v, 'b) dbm) \<Rightarrow> ('v, 'b) dbm" where
  "andthen m k s = (case m s of (Inl e, s') \<Rightarrow> (Inl e, s') | (Inr a, s') \<Rightarrow> k a s')"

definition ret :: "'a \<Rightarrow> ('v, 'a) dbm" where
  "ret a s = (Inr a, s)"

definition fail :: "go_error \<Rightarrow> ('v, 'a) dbm" where
  "fail e s = (Inl e, s)"

definition sel :: "('v db \<Rightarrow> 'a) \<Rightarrow> ('v, 'a) dbm" where
  "sel f = stmt (\<lambda>s. (Inr (f s), s))"

text \<open>A \<^verbatim>\<open>:one\<close> query: the first row, or \<^verbatim>\<open>sql.ErrNoRows\<close>.\<close>

definition sel_one :: "('v db \<Rightarrow> 'a list) \<Rightarrow> ('v, 'a) dbm" where
  "sel_one f = stmt (\<lambda>s. (case f s of [] \<Rightarrow> Inl no_rows | r # _ \<Rightarrow> Inr r, s))"

definition with_tx :: "('v, 'a) dbm \<Rightarrow> ('v, 'a) dbm" where
  "with_tx body s = (case stmt (ret ()) s of
      (Inl e, s1) \<Rightarrow> (Inl e, s1)
    | (Inr _, s1) \<Rightarrow>
        (case body s1 of
           (Inl e, s2) \<Rightarrow> (Inl e, s1\<lparr>faults := faults s2\<rparr>)
         | (Inr a, s2) \<Rightarrow>
             (case stmt (ret ()) s2 of
                (Inl e, s3) \<Rightarrow> (Inl e, s1\<lparr>faults := faults s3\<rparr>)
              | (Inr _, s3) \<Rightarrow> (Inr a, s3))))"

text \<open>The contents of the database, faults of the connection left aside.\<close>

definition tables :: "'v db \<Rightarrow> 'v db" where
  "tables s = s\<lparr>faults := []\<rparr>"

definition healthy :: "'v db \<Rightarrow> bool" where
  "healthy s \<longleftrightarrow> (\<forall>f\<in>set (faults s). f = None)"

lemma tables_faults [simp]: "tables (s\<lparr>faults := fs\<rparr>) = tables s"
  by (simp add: tables_def)

lemma tables_eqD: "tables s = tables t \<Longrightarrow> s\<lparr>faults := fs\<rparr> = t\<lparr>faults := fs\<rparr>"
  by (cases s; cases t) (simp add: tables_def)

text \<open>
  \<open>atomic m\<close>: an operation that fails leaves the tables as they were.  \<open>reads m\<close>: an
  operation that never changes them.
\<close>

definition atomic :: "('v, 'a) dbm \<Rightarrow> bool" where
  "atomic m \<longleftrightarrow> (\<forall>s e s'. m s = (Inl e, s') \<longrightarrow> tables s' = tables s)"

definition reads :: "('v, 'a) dbm \<Rightarrow> bool" where
  "reads m \<longleftrightarrow> (\<forall>s r s'. m s = (r, s') \<longrightarrow> tables s' = tables s)"

definition preserves :: "('v db \<Rightarrow> bool) \<Rightarrow> ('v, 'a) dbm \<Rightarrow> bool" where
  "preserves I m \<longleftrightarrow> (\<forall>s r s'. m s = (r, s') \<longrightarrow> I s \<longrightarrow> I s')"

definition fault_free :: "('v db \<Rightarrow> bool) \<Rightarrow> bool" where
  "fault_free I \<longleftrightarrow> (\<forall>s fs. I (s\<lparr>faults := fs\<rparr>) = I s)"

lemma fault_freeD: "fault_free I \<Longrightarrow> I (s\<lparr>faults := fs\<rparr>) = I s"
  by (simp add: fault_free_def)

lemma readsD: "reads m \<Longrightarrow> m s = (r, s') \<Longrightarrow> tables s' = tables s"
  by (auto simp: reads_def)

lemma atomicD: "atomic m \<Longrightarrow> m s = (Inl e, s') \<Longrightarrow> tables s' = tables s"
  by (auto simp: atomic_def)

lemma preservesD: "preserves I m \<Longrightarrow> m s = (r, s') \<Longrightarrow> I s \<Longrightarrow> I s'"
  by (auto simp: preserves_def)

lemma reads_atomic: "reads m \<Longrightarrow> atomic m"
  by (auto simp: reads_def atomic_def)

lemma fault_free_tables:
  "fault_free I \<Longrightarrow> tables s = tables t \<Longrightarrow> I s = I t"
  by (metis fault_freeD tables_def)

lemma reads_preserves: "fault_free I \<Longrightarrow> reads m \<Longrightarrow> preserves I m"
  unfolding preserves_def reads_def using fault_free_tables by blast

lemma faults_id [simp]: "faults s = fs \<Longrightarrow> s\<lparr>faults := fs\<rparr> = s"
  by (cases s) simp

lemma stmt_cases:
  obtains "stmt f s = f (s\<lparr>faults := tl (faults s)\<rparr>)"
  | e where "stmt f s = (Inl e, s\<lparr>faults := tl (faults s)\<rparr>)"
proof (cases "faults s")
  case Nil
  then have "stmt f s = f (s\<lparr>faults := tl (faults s)\<rparr>)" by (simp add: stmt_def)
  then show ?thesis by (rule that)
next
  case (Cons f fs)
  with that show ?thesis by (cases f) (auto simp: stmt_def)
qed

lemma stmt_Inr:
  assumes "stmt f s = (Inr a, s')"
  shows "f (s\<lparr>faults := tl (faults s)\<rparr>) = (Inr a, s')"
  by (rule stmt_cases [of f s]) (use assms in auto)

lemma stmt_Inl:
  assumes "stmt f s = (Inl e, s')" "\<And>t e t'. f t = (Inl e, t') \<Longrightarrow> tables t' = tables t"
  shows "tables s' = tables s"
  by (rule stmt_cases [of f s]) (use assms in \<open>auto, metis tables_faults\<close>)

lemma healthy_stmt [dbsimps]:
  "healthy s \<Longrightarrow> stmt f s = f (s\<lparr>faults := tl (faults s)\<rparr>)"
proof (cases "faults s")
  case Nil
  then show ?thesis by (simp add: stmt_def)
next
  case (Cons f fs)
  moreover assume "healthy s"
  ultimately show ?thesis by (auto simp: stmt_def healthy_def)
qed

lemma healthy_tl [simp]: "healthy s \<Longrightarrow> healthy (s\<lparr>faults := tl (faults s)\<rparr>)"
  by (cases "faults s") (auto simp: healthy_def)

lemma reads_stmt:
  assumes "\<And>s. snd (f s) = s"
  shows "reads (stmt f)"
proof -
  have "tables (snd (stmt f s)) = tables s" for s
    by (rule stmt_cases [of f s]) (simp_all add: assms)
  then show ?thesis unfolding reads_def by (metis snd_conv)
qed

lemma reads_sel [simp, intro]: "reads (sel f)"
  by (auto simp: sel_def intro: reads_stmt)

lemma reads_sel_one [simp, intro]: "reads (sel_one f)"
  by (auto simp: sel_one_def intro: reads_stmt)

lemma reads_ret [simp, intro]: "reads (ret a)"
  by (auto simp: reads_def ret_def)

lemma reads_fail [simp, intro]: "reads (fail e)"
  by (auto simp: reads_def fail_def)

lemma andthen_cases:
  assumes "andthen m k s = (r, s')"
  obtains e where "m s = (Inl e, s')" "r = Inl e"
  | a s1 where "m s = (Inr a, s1)" "k a s1 = (r, s')"
proof (cases "m s")
  case (Pair r1 s1)
  with assms that show ?thesis by (cases r1) (auto simp: andthen_def)
qed

lemma reads_andthen [intro]:
  assumes "reads m" "\<And>a. reads (k a)"
  shows "reads (andthen m k)"
  unfolding reads_def
proof (intro allI impI)
  fix s r s'
  assume "andthen m k s = (r, s')"
  then show "tables s' = tables s"
    using assms by (elim andthen_cases) (metis readsD)+
qed

lemma preserves_andthen [intro]:
  assumes "preserves I m" "\<And>a. preserves I (k a)"
  shows "preserves I (andthen m k)"
  unfolding preserves_def
proof (intro allI impI)
  fix s r s'
  assume "andthen m k s = (r, s')" "I s"
  then show "I s'"
    using assms by (elim andthen_cases) (metis preservesD)+
qed

lemma preserves_stmt:
  assumes "fault_free I" "\<And>s r s'. f s = (r, s') \<Longrightarrow> I s \<Longrightarrow> I s'"
  shows "preserves I (stmt f)"
  unfolding preserves_def
proof (intro allI impI)
  fix s r s'
  assume *: "stmt f s = (r, s')" "I s"
  show "I s'"
  proof (cases rule: stmt_cases [of f s])
    case 1
    with * assms show ?thesis by (metis fault_freeD)
  next
    case (2 e)
    with * assms show ?thesis by (metis fault_freeD Pair_inject)
  qed
qed

lemma preserves_ret [intro]: "preserves I (ret a)"
  by (auto simp: preserves_def ret_def)

lemma preserves_fail [intro]: "preserves I (fail e)"
  by (auto simp: preserves_def fail_def)

lemma with_tx_Inl:
  fixes s :: "'v db"
  assumes "with_tx body s = (Inl e, s')"
  shows "tables s' = tables s"
proof -
  have b: "tables (snd (stmt (ret ()) t)) = tables t" for t :: "'v db"
    by (rule stmt_cases [of "ret ()" t]) (auto simp: ret_def)
  show ?thesis
    using assms b [of s] unfolding with_tx_def
    by (auto split: prod.splits sum.splits)
qed

lemma atomic_with_tx [intro, simp]: "atomic (with_tx body)"
  using with_tx_Inl by (fastforce simp: atomic_def)

lemma preserves_with_tx [intro]:
  assumes I: "fault_free I" and body: "preserves I body"
  shows "preserves I (with_tx body)"
proof -
  have b: "I (snd (stmt (ret ()) t)) = I t" for t
    by (rule stmt_cases [of "ret ()" t]) (auto simp: ret_def fault_freeD [OF I])
  show ?thesis
    unfolding preserves_def
  proof (intro allI impI)
    fix s r s'
    assume w: "with_tx body s = (r, s')" and "I s"
    obtain r1 s1 where s1: "stmt (ret ()) s = (r1, s1)" by force
    with b [of s] \<open>I s\<close> have "I s1" by simp
    obtain r2 s2 where s2: "body s1 = (r2, s2)" by force
    with body \<open>I s1\<close> have "I s2" by (blast dest: preservesD)
    obtain r3 s3 where s3: "stmt (ret ()) s2 = (r3, s3)" by force
    with b [of s2] \<open>I s2\<close> have "I s3" by simp
    show "I s'"
      using w s1 s2 s3 \<open>I s1\<close> \<open>I s3\<close>
      by (cases r1; cases r2; cases r3) (auto simp: with_tx_def fault_freeD [OF I])
  qed
qed

section \<open>Clauses of queries\<close>

text \<open>\<^verbatim>\<open>ORDER BY k DESC\<close>, keeping the order of equal rows.  Text sorts bytewise.\<close>

definition sort_desc :: "('a \<Rightarrow> 'k::linorder) \<Rightarrow> 'a list \<Rightarrow> 'a list" where
  "sort_desc k xs = rev (sort_key k (rev xs))"

lemma set_sort_desc [simp]: "set (sort_desc k xs) = set xs"
  by (simp add: sort_desc_def)

text \<open>\<^verbatim>\<open>LIMIT\<close> and \<^verbatim>\<open>OFFSET\<close>; PostgreSQL refuses negative ones.\<close>

definition bad_page :: go_error where
  "bad_page = pg_error ''2201W'' ''LIMIT must not be negative''"

definition page :: "int \<Rightarrow> int \<Rightarrow> 'a list \<Rightarrow> 'a list res" where
  "page limit offset rows = (if limit < 0 \<or> offset < 0 then Inl bad_page
     else Inr (take (nat limit) (drop (nat offset) rows)))"

lemma page_subset: "page l n rows = Inr out \<Longrightarrow> set out \<subseteq> set rows"
  by (auto simp: page_def split: if_splits dest: in_set_takeD in_set_dropD)

definition sel_page :: "int \<Rightarrow> int \<Rightarrow> ('v db \<Rightarrow> 'a list) \<Rightarrow> ('v, 'a list) dbm" where
  "sel_page limit offset f = stmt (\<lambda>s. (page limit offset (f s), s))"

lemma reads_sel_page [simp, intro]: "reads (sel_page l n f)"
  by (auto simp: sel_page_def intro: reads_stmt)

text \<open>Pointer parameters: a nil pointer takes the default.\<close>

definition or_default :: "'a \<Rightarrow> 'a option \<Rightarrow> 'a" where
  "or_default d x = (case x of None \<Rightarrow> d | Some v \<Rightarrow> v)"

text \<open>\<^verbatim>\<open>if p.X != nil { c, err := ...; count += c }\<close>\<close>

definition opt_step :: "'a option \<Rightarrow> ('a \<Rightarrow> ('v, int) dbm) \<Rightarrow> int \<Rightarrow> ('v, int) dbm" where
  "opt_step x f count = (case x of None \<Rightarrow> ret count | Some v \<Rightarrow> andthen (f v) (\<lambda>c. ret (count + c)))"

lemma preserves_opt_step [intro]:
  assumes "\<And>v. x = Some v \<Longrightarrow> preserves I (f v)"
  shows "preserves I (opt_step x f count)"
  using assms by (cases x) (auto simp: opt_step_def)

text \<open>A check that guards what follows: the continuation only runs on what the check accepted.\<close>

lemma preserves_andthen_post:
  assumes "preserves I m" "\<And>s a s'. m s = (Inr a, s') \<Longrightarrow> P a" "\<And>a. P a \<Longrightarrow> preserves I (k a)"
  shows "preserves I (andthen m k)"
  unfolding preserves_def
proof (intro allI impI)
  fix s r s'
  assume "andthen m k s = (r, s')" "I s"
  then show "I s'"
    using assms by (elim andthen_cases) (metis preservesD)+
qed

lemma preserves_guarded_stmt:
  assumes I: "fault_free I" and f: "preserves I (stmt f)"
  shows "preserves I (stmt (\<lambda>s. if c then f s else (Inl e, s)))"
proof (cases c)
  case False
  then show ?thesis using I by (auto intro!: preserves_stmt)
qed (use f in simp)

end
