(* ===== verification/PolicyRules.thy ===== *)
theory PolicyRules
  imports Schema
begin

text \<open>
  The rules a policy must satisfy, \<^verbatim>\<open>internal/services/policy_validation.go\<close>: the shape
  of a resource pattern, when one pattern covers another, and when an existing policy
  shadows a new one.  \<open>like\<close> is SQL's \<^verbatim>\<open>LIKE\<close>, which the access queries use to match a
  resource against a pattern; the cover test is shown sound against it.
\<close>

section \<open>SQL's LIKE\<close>

text \<open>
  \<open>like pat txt\<close>: \<^verbatim>\<open>%\<close> stands for any sequence, \<^verbatim>\<open>_\<close> for one character, and a
  backslash makes the next character literal.  A backslash with nothing after it
  matches nothing.  Characters are bytes, so the model is exact for ASCII resources.
\<close>

fun like :: "string \<Rightarrow> string \<Rightarrow> bool" where
  "like [] t = (t = [])"
| "like (p # ps) [] = (p = percent \<and> like ps [])"
| "like (p # ps) (x # ts) =
     (if p = percent then like ps (x # ts) \<or> like (p # ps) ts
      else if p = CHR ''_'' then like ps ts
      else if p = backslash then (case ps of [] \<Rightarrow> False | q # qs \<Rightarrow> x = q \<and> like qs ts)
      else x = p \<and> like ps ts)"

section \<open>Shape of a rule\<close>

record policyRule =
  pr_ID :: "uuid option"
  pr_GroupUUID :: uuid
  pr_Priority :: int
  pr_Effect :: string
  pr_Action :: string
  pr_Resource :: string

definition bad_segment :: "string \<Rightarrow> go_error option" where
  "bad_segment segment =
     (if segment = [] then Some (NewBadRequestError ''resource must not contain empty path segments'')
      else if Contains segment ''%'' \<and> segment \<noteq> ''%''
        then Some (NewBadRequestError ''resource wildcards must occupy an entire path segment'')
      else None)"

definition validatePolicyResource :: "string \<Rightarrow> go_error option" where
  "validatePolicyResource resource =
     (if resource = [] then Some (NewBadRequestError ''resource must not be empty'')
      else if resource \<noteq> TrimSpace resource
        then Some (NewBadRequestError ''resource must not have leading or trailing whitespace'')
      else if has_space resource
        then Some (NewBadRequestError ''resource must not contain whitespace'')
      else if HasPrefix resource ''/'' \<or> HasSuffix resource ''/''
        then Some (NewBadRequestError (''resource must not start or end with '' @ [CHR 0x27, slash, CHR 0x27]))
      else if Contains resource ''//''
        then Some (NewBadRequestError ''resource must not contain empty path segments'')
      else first_error bad_segment (split_on slash resource))"

definition validatePolicyRuleShape :: "policyRule \<Rightarrow> go_error option" where
  "validatePolicyRuleShape rule =
     (if pr_Priority rule < 0 then Some (NewBadRequestError ''priority must be zero or greater'')
      else validatePolicyResource (pr_Resource rule))"

section \<open>Covering and shadowing\<close>

fun like_loop :: "string \<Rightarrow> string \<Rightarrow> nat \<Rightarrow> nat \<Rightarrow> string list \<Rightarrow> nat option" where
  "like_loop pattern resource i idx [] = Some idx"
| "like_loop pattern resource i idx (part # parts) =
     (if part = [] then like_loop pattern resource (Suc i) idx parts
      else (case str_index (drop idx resource) part of
              None \<Rightarrow> None
            | Some pos \<Rightarrow>
                if i = 0 \<and> \<not> HasPrefix pattern ''%'' \<and> pos \<noteq> 0 then None
                else like_loop pattern resource (Suc i) (idx + pos + length part) parts))"

definition sqlLikeMatch :: "string \<Rightarrow> string \<Rightarrow> bool" where
  "sqlLikeMatch pattern resource =
     (let parts = split_on percent pattern in
      if length parts = 1 then pattern = resource
      else (case like_loop pattern resource 0 0 parts of
              None \<Rightarrow> False
            | Some idx \<Rightarrow> HasSuffix pattern ''%'' \<or> idx = length resource))"

definition policyResourceCovers :: "string \<Rightarrow> string \<Rightarrow> bool" where
  "policyResourceCovers existing candidate =
     (if existing = ''%'' \<or> existing = candidate then True
      else if \<not> Contains existing ''%'' then False
      else if Count existing percent = 1 \<and> HasSuffix existing ''%''
        then HasPrefix candidate (TrimSuffix existing ''%'')
      else if \<not> Contains candidate ''%'' then sqlLikeMatch existing candidate
      else False)"

definition policyShadows :: "policy_row \<Rightarrow> policyRule \<Rightarrow> bool" where
  "policyShadows existing candidate =
     (if \<not> policyResourceCovers (gp_resource existing) (pr_Resource candidate) then False
      else if gp_priority existing < pr_Priority candidate then True
      else if gp_priority existing > pr_Priority candidate then False
      else if gp_effect existing = Deny then True
      else effect_str (gp_effect existing) = pr_Effect candidate)"

text \<open>
  The loop of \<^verbatim>\<open>validatePolicyRule\<close> over the policies of the group; the query that
  reads them is part of \<open>Policies\<close>.
\<close>

definition shadow_error :: "policyRule \<Rightarrow> policy_row \<Rightarrow> go_error option" where
  "shadow_error rule existing =
     (if pr_ID rule = Some (gp_uuid existing) then None
      else if action_str (gp_action existing) \<noteq> pr_Action rule then None
      else if policyShadows existing rule
        then Some (NewBadRequestError (''policy is shadowed by existing policy '' @ gp_uuid existing))
      else None)"

section \<open>LIKE on concatenated patterns\<close>

text \<open>A pattern that does not end inside an escape can be cut from what follows.\<close>

fun esc_ok :: "string \<Rightarrow> bool" where
  "esc_ok [] = True"
| "esc_ok (c # cs) = (if c = backslash then (case cs of [] \<Rightarrow> False | d # ds \<Rightarrow> esc_ok ds) else esc_ok cs)"

lemma esc_ok_induct [consumes 1, case_names Nil esc chr]:
  assumes "esc_ok p"
    and "P []"
    and "\<And>d ds. esc_ok ds \<Longrightarrow> P ds \<Longrightarrow> P (backslash # d # ds)"
    and "\<And>c cs. c \<noteq> backslash \<Longrightarrow> esc_ok cs \<Longrightarrow> P cs \<Longrightarrow> P (c # cs)"
  shows "P p"
  using assms(1)
proof (induction p rule: esc_ok.induct)
  case 1
  show ?case by (rule assms(2))
next
  case (2 c cs)
  show ?case
  proof (cases "c = backslash")
    case True
    with 2 show ?thesis by (cases cs) (auto intro: assms(3))
  next
    case False
    with 2 show ?thesis by (auto intro: assms(4))
  qed
qed

lemma esc_ok_last: "last p \<noteq> backslash \<Longrightarrow> p \<noteq> [] \<Longrightarrow> esc_ok p"
proof (induction p rule: esc_ok.induct)
  case (2 c cs)
  show ?case
  proof (cases "c = backslash")
    case True
    with 2(2,3) obtain d ds where cs: "cs = d # ds" by (cases cs) auto
    show ?thesis
    proof (cases ds)
      case Nil
      with True cs show ?thesis by simp
    next
      case (Cons x xs)
      with True cs 2 show ?thesis by simp
    qed
  next
    case False
    with 2 show ?thesis by (cases cs) auto
  qed
qed simp

lemma like_percent_iff: "like (percent # q) r \<longleftrightarrow> (\<exists>r1 r2. r = r1 @ r2 \<and> like q r2)"
proof (induction r)
  case Nil
  show ?case by simp
next
  case (Cons x r)
  show ?case
  proof
    assume "like (percent # q) (x # r)"
    then consider "like q (x # r)" | "like (percent # q) r" by auto
    then show "\<exists>r1 r2. x # r = r1 @ r2 \<and> like q r2"
    proof cases
      case 1
      then show ?thesis by (metis append_Nil)
    next
      case 2
      with Cons.IH show ?thesis by (metis append_Cons)
    qed
  next
    assume "\<exists>r1 r2. x # r = r1 @ r2 \<and> like q r2"
    then obtain r1 r2 where r: "x # r = r1 @ r2" "like q r2" by blast
    show "like (percent # q) (x # r)"
    proof (cases r1)
      case Nil
      with r have "like q (x # r)" by simp
      then show ?thesis by simp
    next
      case (Cons y ys)
      with r have "\<exists>r1 r2. r = r1 @ r2 \<and> like q r2" by auto
      with Cons.IH show ?thesis by simp
    qed
  qed
qed

lemma like_all [simp]: "like ''%'' r"
  by (simp add: like_percent_iff)

lemma like_percentI: "like q r2 \<Longrightarrow> like (percent # q) (r1 @ r2)"
  by (auto simp: like_percent_iff)

lemma like_esc: "like (backslash # d # ps) r \<longleftrightarrow> (\<exists>ts. r = d # ts \<and> like ps ts)"
  by (cases r) auto

lemma like_one: "like (CHR ''_'' # ps) r \<longleftrightarrow> (\<exists>x ts. r = x # ts \<and> like ps ts)"
  by (cases r) auto

lemma like_lit:
  "c \<noteq> percent \<Longrightarrow> c \<noteq> CHR ''_'' \<Longrightarrow> c \<noteq> backslash \<Longrightarrow>
   like (c # ps) r \<longleftrightarrow> (\<exists>ts. r = c # ts \<and> like ps ts)"
  by (cases r) auto

lemma like_append:
  assumes "esc_ok p"
  shows "like (p @ q) r \<longleftrightarrow> (\<exists>r1 r2. r = r1 @ r2 \<and> like p r1 \<and> like q r2)"
  using assms
proof (induction p arbitrary: r rule: esc_ok_induct)
  case Nil
  then show ?case by auto
next
  case (esc d ds)
  show ?case by (auto simp: like_esc esc.IH Cons_eq_append_conv) blast+
next
  case (chr c cs)
  consider "c = percent" | "c = CHR ''_''" | "c \<noteq> percent" "c \<noteq> CHR ''_''" by blast
  then show ?case
  proof cases
    case 1
    show ?thesis
      unfolding 1 append_Cons like_percent_iff chr.IH
      by (metis append.assoc)
  next
    case 2
    show ?thesis
      unfolding 2 append_Cons like_one chr.IH by (auto simp: Cons_eq_append_conv) blast+
  next
    case 3
    with chr show ?thesis
      by (auto simp: like_lit chr.IH Cons_eq_append_conv) blast+
  qed
qed

text \<open>
  Whatever stands before an ordinary character \<open>c\<close>, even a pattern that ends inside
  an escape, a match leaves a rest of the text that matches from \<open>c\<close> on.
\<close>

lemma esc_ok_or_dangling: "esc_ok g \<or> (\<exists>g'. g = g' @ [backslash] \<and> esc_ok g')"
proof (induction g rule: esc_ok.induct)
  case 1
  show ?case by simp
next
  case (2 c cs)
  show ?case
  proof (cases "c = backslash")
    case False
    with 2 show ?thesis by (auto intro: exI [of _ "c # _"] simp: append_eq_Cons_conv)
  next
    case True
    show ?thesis
    proof (cases cs)
      case Nil
      with True show ?thesis by auto
    next
      case (Cons d ds)
      with 2 True have "esc_ok ds \<or> (\<exists>g'. ds = g' @ [backslash] \<and> esc_ok g')" by auto
      then show ?thesis
      proof
        assume "esc_ok ds"
        with True Cons show ?thesis by simp
      next
        assume "\<exists>g'. ds = g' @ [backslash] \<and> esc_ok g'"
        then obtain g' where "ds = g' @ [backslash]" "esc_ok g'" by blast
        with True Cons have "c # cs = (backslash # d # g') @ [backslash]" "esc_ok (backslash # d # g')"
          by auto
        then show ?thesis by blast
      qed
    qed
  qed
qed

lemma like_gap:
  assumes c: "c \<noteq> percent" "c \<noteq> CHR ''_''" "c \<noteq> backslash" and m: "like (g @ c # q) r"
  shows "\<exists>r1 r2. r = r1 @ r2 \<and> like (c # q) r2"
  using esc_ok_or_dangling [of g]
proof
  assume "esc_ok g"
  from like_append [OF this, of "c # q" r] m show ?thesis by blast
next
  assume "\<exists>g'. g = g' @ [backslash] \<and> esc_ok g'"
  then obtain g' where g: "g = g' @ [backslash]" "esc_ok g'" by blast
  with m have "like (g' @ (backslash # c # q)) r" by simp
  with like_append [OF g(2)] obtain r1 r2 where "r = r1 @ r2" "like (backslash # c # q) r2"
    by blast
  with c have "like (c # q) r2" by (simp add: like_esc like_lit)
  with \<open>r = r1 @ r2\<close> show ?thesis by blast
qed

section \<open>Where the wildcards of a valid pattern stand\<close>

fun pct_ok :: "bool \<Rightarrow> string \<Rightarrow> bool" where
  "pct_ok b [] = True"
| "pct_ok b (c # cs) =
     (if c = percent then b \<and> (cs = [] \<or> hd cs = slash) \<and> pct_ok False cs
      else pct_ok (c = slash) cs)"

fun tail_ok :: "string list \<Rightarrow> bool" where
  "tail_ok [] = True"
| "tail_ok [p] = (p \<noteq> [] \<longrightarrow> hd p = slash)"
| "tail_ok (p # q # ps) = ((p \<noteq> [] \<longrightarrow> hd p = slash \<and> last p = slash) \<and> tail_ok (q # ps))"

lemma pct_ok_segments:
  assumes "split_on slash s = seg # segs"
    and "if b then percent \<in> set seg \<longrightarrow> seg = ''%'' else percent \<notin> set seg"
    and "\<forall>x\<in>set segs. percent \<in> set x \<longrightarrow> x = ''%''"
  shows "pct_ok b s"
  using assms
proof (induction s arbitrary: b seg segs)
  case Nil
  show ?case by simp
next
  case (Cons c cs)
  obtain seg' segs' where cs: "split_on slash cs = seg' # segs'"
    by (cases "split_on slash cs") auto
  show ?case
  proof (cases "c = slash")
    case True
    with Cons.prems cs have "segs = seg' # segs'" by simp
    with Cons.prems cs Cons.IH [of seg' segs' True] True show ?thesis by simp
  next
    case False
    with Cons.prems cs have s: "seg = c # seg'" "segs = segs'" by auto
    show ?thesis
    proof (cases "c = percent")
      case True
      with s Cons.prems(2) have b: "b" "seg' = []" by (auto split: if_splits)
      then have "cs = [] \<or> hd cs = slash"
        using cs by (cases cs) (auto split: if_splits list.splits)
      moreover have "pct_ok False cs"
        using Cons.IH [OF cs, of False] b s Cons.prems(3) by simp
      ultimately show ?thesis using b True by simp
    next
      case c: False
      have "pct_ok False cs"
        using Cons.IH [OF cs, of False] c s Cons.prems by (auto split: if_splits)
      with c False show ?thesis by simp
    qed
  qed
qed

lemma pct_ok_parts:
  assumes "pct_ok b s" "split_on percent s = p # ps"
  shows "(ps \<noteq> [] \<and> p \<noteq> [] \<longrightarrow> last p = slash) \<and> tail_ok ps \<and> (ps \<noteq> [] \<and> p = [] \<longrightarrow> b)"
  using assms
proof (induction s arbitrary: b p ps)
  case Nil
  then show ?case by auto
next
  case (Cons c cs)
  obtain q qs where cs: "split_on percent cs = q # qs"
    by (cases "split_on percent cs") auto
  show ?case
  proof (cases "c = percent")
    case True
    with Cons.prems cs have p: "p = []" "ps = q # qs" "b" "pct_ok False cs" "cs = [] \<or> hd cs = slash"
      by auto
    have "q \<noteq> [] \<longrightarrow> hd q = slash"
      using p(5) cs by (cases cs) (auto split: if_splits list.splits)
    with Cons.IH [OF p(4) cs] p show ?thesis by (cases qs) auto
  next
    case False
    with Cons.prems cs have p: "p = c # q" "ps = qs" "pct_ok (c = slash) cs" by auto
    with Cons.IH [OF p(3) cs] show ?thesis by auto
  qed
qed

lemma valid_pct_ok: "validatePolicyResource s = None \<Longrightarrow> pct_ok True s"
proof -
  assume "validatePolicyResource s = None"
  then have segs: "\<forall>x\<in>set (split_on slash s). percent \<in> set x \<longrightarrow> x = ''%''"
    by (auto simp: validatePolicyResource_def bad_segment_def strs split: if_splits)
  obtain seg segs where "split_on slash s = seg # segs"
    by (cases "split_on slash s") auto
  with segs show ?thesis by (auto intro: pct_ok_segments)
qed

lemma last_split_on: "last (split_on c s) = [] \<longleftrightarrow> s = [] \<or> last s = c"
proof (induction s)
  case (Cons x xs)
  obtain q qs where xs: "split_on c xs = q # qs" by (cases "split_on c xs") auto
  show ?case
  proof (cases "xs = []")
    case True
    then show ?thesis by simp
  next
    case False
    then have "q # qs \<noteq> [[]]" using join_split_on [of c xs] xs by auto
    with Cons xs False show ?thesis by (cases qs) auto
  qed
qed simp

section \<open>The cover test is sound\<close>

lemma like_loop_sound:
  assumes "tail_ok ps" "ps \<noteq> []"
    and "like_loop pattern res (Suc i) idx ps = Some k"
    and "last ps = [] \<or> k = length res"
    and "idx \<le> length res" "like (drop idx res) r"
  shows "like (percent # join_with [percent] ps) r"
  using assms
proof (induction ps arbitrary: i idx r rule: tail_ok.induct)
  case (2 p)
  show ?case
  proof (cases "p = []")
    case True
    then show ?thesis by simp
  next
    case False
    with 2 obtain pos where pos: "str_index (drop idx res) p = Some pos"
      "k = idx + pos + length p" by (auto split: option.splits)
    from str_index_Some [OF pos(1)] obtain t where
      t: "drop idx res = take pos (drop idx res) @ p @ t" by blast
    have "length (drop idx res) = length (take pos (drop idx res)) + length p + length t"
      by (subst t) simp
    moreover have "k = length res" using 2(4) False by simp
    moreover have "length (take pos (drop idx res)) = pos"
      using str_index_Some [OF pos(1)] by auto
    ultimately have "length t = 0"
      using pos(2) 2(5) unfolding length_drop by linarith
    then have "t = []" by simp
    with t 2(6) have "like (take pos (drop idx res) @ p) r" by simp
    moreover obtain p' where "p = slash # p'"
      using False 2(1) by (cases p) auto
    ultimately obtain r1 r2 where "r = r1 @ r2" "like p r2"
      using like_gap [of slash "take pos (drop idx res)" p' r] by auto
    then show ?thesis by (simp add: like_percentI)
  qed
next
  case (3 p q ps)
  show ?case
  proof (cases "p = []")
    case True
    with 3 have "like (percent # join_with [percent] (q # ps)) r" by simp
    with True show ?thesis using like_percentI [of _ r "[]"] by simp
  next
    case False
    with "3.prems" obtain pos where pos: "str_index (drop idx res) p = Some pos"
      "like_loop pattern res (Suc (Suc i)) (idx + pos + length p) (q # ps) = Some k"
      by (auto split: option.splits)
    from str_index_Some [OF pos(1)] obtain t where
      t: "drop idx res = take pos (drop idx res) @ p @ t" "pos \<le> length (drop idx res)" by blast
    have "drop (pos + length p) (drop idx res) = t"
      by (subst t(1)) (use t(2) in simp)
    then have t': "t = drop (idx + pos + length p) res" by (simp add: add.commute add.left_commute)
    obtain p' where p': "p = slash # p'" using False "3.prems"(1) by (cases p) auto
    have "like (take pos (drop idx res) @ slash # (p' @ t)) r"
      using "3.prems"(6) t(1) p' by simp
    from like_gap [OF _ _ _ this] obtain r1 r2 where r: "r = r1 @ r2" "like (p @ t) r2"
      using p' by auto
    have "esc_ok p" using False "3.prems"(1) by (auto intro: esc_ok_last)
    with r(2) obtain ra rb where ab: "r2 = ra @ rb" "like p ra" "like t rb"
      using like_append by blast
    have "length (drop idx res) = pos + length p + length t"
      using t by (metis append_assoc length_append length_take min_absorb2)
    then have "idx + pos + length p \<le> length res" using "3.prems"(5) by simp
    then have "like (percent # join_with [percent] (q # ps)) rb"
      using "3.IH" "3.prems"(1,4) pos(2) ab(3) t' by simp
    with ab \<open>esc_ok p\<close> have "like (p @ percent # join_with [percent] (q # ps)) r2"
      using like_append by blast
    then show ?thesis using r(1) by (simp add: like_percentI)
  qed
qed simp

lemma sqlLikeMatch_sound:
  assumes valid: "pct_ok True pattern" and m: "sqlLikeMatch pattern resource"
    and r: "like resource r"
  shows "like pattern r"
proof (cases "length (split_on percent pattern) = 1")
  case True
  with m r show ?thesis by (simp add: sqlLikeMatch_def)
next
  case False
  obtain p ps where sp: "split_on percent pattern = p # ps"
    by (cases "split_on percent pattern") auto
  with False have ps: "ps \<noteq> []" by auto
  have pat: "pattern = p @ percent # join_with [percent] ps"
    using join_split_on [of percent pattern] sp ps by (cases ps) auto
  from m False obtain k where
    k: "like_loop pattern resource 0 0 (p # ps) = Some k"
       "HasSuffix pattern ''%'' \<or> k = length resource"
    by (auto simp: sqlLikeMatch_def sp Let_def split: option.splits)
  have fin: "last ps = [] \<or> k = length resource"
    using k(2) last_split_on [of percent pattern] sp ps by (auto simp: strs)
  note ok = pct_ok_parts [OF valid sp]
  show ?thesis
  proof (cases "p = []")
    case True
    with k(1) have "like_loop pattern resource (Suc 0) 0 ps = Some k" by simp
    from like_loop_sound [OF _ ps this fin, of r] ok r have "like (percent # join_with [percent] ps) r"
      by simp
    with True pat show ?thesis by simp
  next
    case False
    have "\<not> HasPrefix pattern ''%''"
      using False pat split_on_no_sep [of p percent pattern] sp by (cases p) (auto simp: strs)
    with k(1) False have i0: "str_index resource p = Some 0"
      and loop: "like_loop pattern resource (Suc 0) (length p) ps = Some k"
      by (auto split: option.splits if_splits)
    from str_index_Some [OF i0] obtain t where t: "resource = p @ t" by auto
    have "esc_ok p" using False ok ps by (auto intro: esc_ok_last)
    with r t obtain ra rb where ab: "r = ra @ rb" "like p ra" "like t rb"
      using like_append by blast
    have "like (percent # join_with [percent] ps) rb"
      using like_loop_sound [OF _ ps loop fin, of rb] ok ab t by simp
    with ab \<open>esc_ok p\<close> pat show ?thesis using like_append by blast
  qed
qed

lemma prefix_cover_sound:
  assumes valid: "pct_ok True existing" and ne: "existing \<noteq> ''%''"
    and one: "Count existing percent = 1" and suf: "HasSuffix existing ''%''"
    and pre: "HasPrefix candidate (TrimSuffix existing ''%'')" and r: "like candidate r"
  shows "like existing r"
proof -
  obtain p where p: "existing = p @ ''%''"
    using suf by (auto simp: HasSuffix_def suffix_def)
  with ne have "p \<noteq> []" by auto
  have "percent \<notin> set p" using one p by (simp add: Count_def count_list_0_iff)
  then have "split_on percent existing = [p, []]"
    using p by (simp add: split_on_append_sep)
  from pct_ok_parts [OF valid this] \<open>p \<noteq> []\<close> have "esc_ok p" by (auto intro: esc_ok_last)
  obtain q where "candidate = p @ q"
    using pre p by (auto simp: HasPrefix_def strs elim: prefixE)
  with r \<open>esc_ok p\<close> obtain ra rb where "r = ra @ rb" "like p ra" using like_append by blast
  with p \<open>esc_ok p\<close> show ?thesis using like_append [of p "''%''"] by auto
qed

lemma covers_sound:
  assumes "validatePolicyResource existing = None" "policyResourceCovers existing candidate"
    "like candidate r"
  shows "like existing r"
  using assms valid_pct_ok [OF assms(1)]
  by (auto simp: policyResourceCovers_def split: if_splits
      intro: prefix_cover_sound sqlLikeMatch_sound)

section \<open>Well-formed resources\<close>

lemma set_join_with: "set (join_with [c] ps) \<subseteq> insert c (\<Union> (set ` set ps))"
  by (induction "[c]" ps rule: join_with.induct) auto

lemma last_join_with:
  "ps \<noteq> [] \<Longrightarrow> last ps \<noteq> [] \<Longrightarrow> join_with [c] ps \<noteq> [] \<and> last (join_with [c] ps) = last (last ps)"
  by (induction "[c]" ps rule: join_with.induct) (auto split: if_splits)

lemma hd_join_with:
  "ps \<noteq> [] \<Longrightarrow> hd ps \<noteq> [] \<Longrightarrow> hd (join_with [c] ps) = hd (hd ps)"
  by (induction "[c]" ps rule: join_with.induct) auto

lemma validatePolicyResource_join:
  assumes ne: "ps \<noteq> []"
    and seg: "\<And>p. p \<in> set ps \<Longrightarrow> p \<noteq> [] \<and> slash \<notin> set p \<and> (percent \<in> set p \<longrightarrow> p = ''%'') \<and> (\<forall>c\<in>set p. graphic c)"
  shows "validatePolicyResource (join_with [slash] ps) = None"
proof -
  let ?r = "join_with [slash] ps"
  have "last ps \<noteq> []" "hd ps \<noteq> []" using ne seg by (auto simp: hd_in_set)
  then have r: "?r \<noteq> []" "last ?r \<noteq> slash" "hd ?r \<noteq> slash"
    using ne seg last_join_with [of ps slash] hd_join_with [of ps slash]
    by (metis last_in_set hd_in_set)+
  have split: "split_on slash ?r = ps" using ne seg by (intro split_on_join) auto
  have "\<not> sublist [slash, slash] ?r" using split_on_adjacent [of slash ?r] split seg by auto
  moreover have "graphic slash" by code_simp
  with seg set_join_with [of slash ps] have "\<forall>c\<in>set ?r. graphic c" by blast
  ultimately show ?thesis
    using r seg split
    by (auto simp: validatePolicyResource_def strs graphic_TrimSpace graphic_has_space bad_segment_def)
qed

end
