(* ===== verification/Access.thy ===== *)
theory Access
  imports PolicyRules "HOL-Library.Product_Lexorder" "HOL-Library.List_Lexorder" "HOL-Library.Char_ord"
begin

text \<open>
  Access decisions: the queries of \<^verbatim>\<open>postgres/queries/access.sql\<close> and the service
  \<^verbatim>\<open>internal/services/policy_check.go\<close> with its per-request decision cache.

  Two interfaces: \<open>ranked_rules\<close>, an ordered rule list in which equally ranked rules
  agree (the contract behind \<^verbatim>\<open>ORDER BY priority, deny first LIMIT 1\<close>), and
  \<open>keyed_cache\<close>, a cache addressed through a key function that is injective on the
  requests it serves.
\<close>

section \<open>Ordered rules\<close>

definition top_rule :: "('r \<Rightarrow> 'k::linorder) \<Rightarrow> 'r list \<Rightarrow> 'r option" where
  "top_rule rank rows = (case sort_key rank rows of [] \<Rightarrow> None | r # _ \<Rightarrow> Some r)"

lemma top_rule_None [simp]: "top_rule rank rows = None \<longleftrightarrow> rows = []"
proof -
  have "sort_key rank rows = [] \<longleftrightarrow> rows = []" by (metis length_0_conv length_sort)
  then show ?thesis by (auto simp: top_rule_def split: list.splits)
qed

lemma top_rule_Nil [simp]: "top_rule rank [] = None"
  by simp

lemma top_rule_Some:
  assumes "top_rule rank rows = Some r"
  shows "r \<in> set rows" and "q \<in> set rows \<Longrightarrow> rank r \<le> rank q"
proof -
  from assms obtain rs where rs: "sort_key rank rows = r # rs"
    by (auto simp: top_rule_def split: list.splits)
  then have r: "hd (sort_key rank rows) = r" and ne: "rows \<noteq> []" by auto
  show "r \<in> set rows" using hd_sort_key_in [OF ne, of rank] r by simp
  show "q \<in> set rows \<Longrightarrow> rank r \<le> rank q"
    using hd_sort_key_le [of q rows rank] r by simp
qed

locale ranked_rules =
  fixes rank :: "'r \<Rightarrow> 'k::linorder" and allows :: "'r \<Rightarrow> bool"
  assumes agree: "rank a = rank b \<Longrightarrow> allows a = allows b"
begin

lemma verdict_minimal:
  assumes "r \<in> set rows" "\<forall>q\<in>set rows. rank r \<le> rank q"
  shows "map_option allows (top_rule rank rows) = Some (allows r)"
proof (cases "top_rule rank rows")
  case None
  with assms show ?thesis by simp
next
  case (Some t)
  then have "rank t \<le> rank r" "rank r \<le> rank t"
    using assms top_rule_Some [OF Some] by auto
  then have "allows t = allows r" by (intro agree) simp
  with Some show ?thesis by simp
qed

lemma verdict_set:
  assumes "set rows = set rows'"
  shows "map_option allows (top_rule rank rows) = map_option allows (top_rule rank rows')"
proof (cases "top_rule rank rows'")
  case None
  with assms show ?thesis by simp
next
  case (Some t)
  then have "\<forall>q\<in>set rows. rank t \<le> rank q" "t \<in> set rows"
    using assms top_rule_Some [OF Some] by auto
  with Some show ?thesis using verdict_minimal by simp
qed

lemma verdict_iff:
  "map_option allows (top_rule rank rows) = Some b \<longleftrightarrow>
   (\<exists>r\<in>set rows. allows r = b \<and> (\<forall>q\<in>set rows. rank r \<le> rank q))"
proof
  assume "map_option allows (top_rule rank rows) = Some b"
  then obtain t where t: "top_rule rank rows = Some t" "allows t = b" by auto
  from top_rule_Some [OF t(1)] t(2) show "\<exists>r\<in>set rows. allows r = b \<and> (\<forall>q\<in>set rows. rank r \<le> rank q)"
    by blast
next
  assume "\<exists>r\<in>set rows. allows r = b \<and> (\<forall>q\<in>set rows. rank r \<le> rank q)"
  then show "map_option allows (top_rule rank rows) = Some b"
    using verdict_minimal by blast
qed

text \<open>A rule behind a better ranked one, or beside one with the same verdict, is redundant.\<close>

lemma verdict_redundant:
  assumes e: "e \<in> set rows" and rows': "set rows' = insert c (set rows)"
    and dom: "rank e \<le> rank c \<or> (\<exists>d. rank d = rank c \<and> d \<in> set rows)"
  shows "map_option allows (top_rule rank rows') = map_option allows (top_rule rank rows)"
proof -
  obtain t where t: "top_rule rank rows = Some t" using e by (cases "top_rule rank rows") auto
  note tS = top_rule_Some [OF t]
  have "rank t \<le> rank c" using dom tS(2) e by (metis order.trans)
  with tS rows' have "t \<in> set rows'" "\<forall>q\<in>set rows'. rank t \<le> rank q" by auto
  from verdict_minimal [OF this] t show ?thesis by simp
qed

end

section \<open>Caches behind a key function\<close>

locale keyed_cache =
  fixes key :: "'k \<Rightarrow> string" and good :: "'k \<Rightarrow> bool"
  assumes key_inj: "good a \<Longrightarrow> good b \<Longrightarrow> key a = key b \<Longrightarrow> a = b"
begin

definition consistent :: "('k \<Rightarrow> 'd) \<Rightarrow> (string \<Rightarrow> 'd option) \<Rightarrow> bool" where
  "consistent truth m \<longleftrightarrow> (\<forall>k d. good k \<longrightarrow> m (key k) = Some d \<longrightarrow> d = truth k)"

lemma consistent_empty [simp]: "consistent truth (\<lambda>_. None)"
  by (simp add: consistent_def)

lemma consistent_lookup: "consistent truth m \<Longrightarrow> good k \<Longrightarrow> m (key k) = Some d \<Longrightarrow> d = truth k"
  by (auto simp: consistent_def)

lemma consistent_store:
  "consistent truth m \<Longrightarrow> good k \<Longrightarrow> consistent truth (m(key k := Some (truth k)))"
  by (auto simp: consistent_def dest: key_inj)

lemma consistent_store_many:
  assumes "consistent truth m" "\<forall>k\<in>set ks. good k"
  shows "consistent truth (fold (\<lambda>k m. m(key k := Some (truth k))) ks m)"
  using assms by (induction ks arbitrary: m) (auto intro: consistent_store)

end

section \<open>The queries\<close>

definition policy_rank :: "policy_row \<Rightarrow> int \<times> int" where
  "policy_rank p = (gp_priority p, if gp_effect p = Deny then 0 else 1)"

definition matching_policies :: "'v db \<Rightarrow> uuid \<Rightarrow> action \<Rightarrow> string \<Rightarrow> policy_row list" where
  "matching_policies s uid act res =
     concat (map (\<lambda>(u, g). if u = uid
         then filter (\<lambda>p. gp_group p = g \<and> gp_action p = act \<and> like (gp_resource p) res) (group_policies s)
         else []) (user_groups s))"

definition best_match :: "'v db \<Rightarrow> uuid \<Rightarrow> action \<Rightarrow> string \<Rightarrow> policy_row option" where
  "best_match s uid act res = top_rule policy_rank (matching_policies s uid act res)"

text \<open>The \<^verbatim>\<open>usr\<close> subquery of every token query: the user of the first matching token.\<close>

definition token_user :: "(string \<Rightarrow> string) \<Rightarrow> 'v db \<Rightarrow> string \<Rightarrow> uuid option" where
  "token_user sha s token = map_option tk_user (List.find (\<lambda>t. tk_hash t = sha token) (user_tokens s))"

record explain_row =
  ex_Resource :: string
  ex_Matched :: bool
  ex_PolicyUuid :: uuid
  ex_GroupUuid :: uuid
  ex_Priority :: int
  ex_Effect :: effect
  ex_PolicyResource :: string
  ex_Access :: bool

definition explain_one :: "'v db \<Rightarrow> uuid \<Rightarrow> action \<Rightarrow> string \<Rightarrow> explain_row" where
  "explain_one s uid act res = (case best_match s uid act res of
      None \<Rightarrow> \<lparr>ex_Resource = res, ex_Matched = False, ex_PolicyUuid = NilUUID,
               ex_GroupUuid = NilUUID, ex_Priority = -1, ex_Effect = Deny,
               ex_PolicyResource = '''', ex_Access = False\<rparr>
    | Some p \<Rightarrow> \<lparr>ex_Resource = res, ex_Matched = True, ex_PolicyUuid = gp_uuid p,
               ex_GroupUuid = gp_group p, ex_Priority = gp_priority p, ex_Effect = gp_effect p,
               ex_PolicyResource = gp_resource p, ex_Access = (gp_effect p = Allow)\<rparr>)"

definition ExplainUserTokenAccessMany ::
  "(string \<Rightarrow> string) \<Rightarrow> string \<Rightarrow> string \<Rightarrow> string list \<Rightarrow> ('v, explain_row list) dbm" where
  "ExplainUserTokenAccessMany sha token action resources = stmt (\<lambda>s.
     (case parse_action action of
        None \<Rightarrow> Inl invalid_text
      | Some act \<Rightarrow> Inr (case token_user sha s token of
            None \<Rightarrow> []
          | Some uid \<Rightarrow> map (explain_one s uid act) resources), s))"

section \<open>PolicyCheckService\<close>

record AccessDecision =
  ad_Resource :: string
  ad_Access :: bool
  ad_PolicyUUID :: "uuid option"
  ad_GroupUUID :: "uuid option"
  ad_Priority :: "int option"
  ad_Effect :: "string option"
  ad_Action :: string
  ad_MatchedPattern :: "string option"

record accessDecisionKey =
  dk_token :: string
  dk_action :: string
  dk_resource :: string

text \<open>
  The request context: \<^const>\<open>None\<close> without a cache, else the cache's contents.  The code
  holds a pointer to the cache, so the model threads it through every call.
\<close>

type_synonym policy_ctx = "(string \<Rightarrow> AccessDecision option) option"

definition WithPolicyCheckCache :: "policy_ctx \<Rightarrow> policy_ctx" where
  "WithPolicyCheckCache ctx = (case ctx of Some c \<Rightarrow> Some c | None \<Rightarrow> Some (\<lambda>_. None))"

definition cacheKeyString :: "accessDecisionKey \<Rightarrow> string" where
  "cacheKeyString key = dk_token key @ [CHR 0x00] @ dk_action key @ [CHR 0x00] @ dk_resource key"

definition cacheLookup :: "policy_ctx \<Rightarrow> accessDecisionKey \<Rightarrow> AccessDecision option" where
  "cacheLookup ctx key = (case ctx of None \<Rightarrow> None | Some m \<Rightarrow> m (cacheKeyString key))"

definition cacheStoreMany :: "policy_ctx \<Rightarrow> string \<Rightarrow> string \<Rightarrow> AccessDecision list \<Rightarrow> policy_ctx" where
  "cacheStoreMany ctx token action decisions = (case ctx of None \<Rightarrow> None
     | Some m \<Rightarrow> Some (fold (\<lambda>d m. m(cacheKeyString
           \<lparr>dk_token = token, dk_action = action, dk_resource = ad_Resource d\<rparr> := Some d)) decisions m))"

definition dedupeStrings :: "string list \<Rightarrow> string list" where
  "dedupeStrings values = sort (dedup [] values)"

definition denied :: "string \<Rightarrow> string \<Rightarrow> AccessDecision" where
  "denied action resource = \<lparr>ad_Resource = resource, ad_Access = False, ad_PolicyUUID = None,
     ad_GroupUUID = None, ad_Priority = None, ad_Effect = None, ad_Action = action,
     ad_MatchedPattern = None\<rparr>"

definition row_decision :: "string \<Rightarrow> explain_row \<Rightarrow> AccessDecision" where
  "row_decision action row =
     (let d = (denied action (ex_Resource row))\<lparr>ad_Access := ex_Access row\<rparr>;
          d = (if ex_Matched row then
                 d\<lparr>ad_PolicyUUID := Some (ex_PolicyUuid row), ad_GroupUUID := Some (ex_GroupUuid row),
                   ad_Priority := Some (ex_Priority row), ad_Effect := Some (effect_str (ex_Effect row)),
                   ad_MatchedPattern := Some (ex_PolicyResource row)\<rparr> else d)
      in if ex_Matched row \<and> ex_GroupUuid row \<noteq> NilUUID
         then d\<lparr>ad_GroupUUID := Some (ex_GroupUuid row)\<rparr> else d)"

definition cached_part :: "policy_ctx \<Rightarrow> string \<Rightarrow> string \<Rightarrow> string list \<Rightarrow> string \<Rightarrow> AccessDecision option" where
  "cached_part ctx token action unique resource =
     (if resource \<in> set unique
      then cacheLookup ctx \<lparr>dk_token = token, dk_action = action, dk_resource = resource\<rparr> else None)"

definition ExplainUserAccessManyViaToken ::
  "(string \<Rightarrow> string) \<Rightarrow> policy_ctx \<Rightarrow> string \<Rightarrow> string \<Rightarrow> string list \<Rightarrow> 'v db
    \<Rightarrow> AccessDecision list res \<times> policy_ctx \<times> 'v db" where
  "ExplainUserAccessManyViaToken sha ctx token action resources s =
     (if resources = [] then (Inr [], ctx, s)
      else
        let uniqueResources = dedupeStrings resources;
            known = cached_part ctx token action uniqueResources;
            uncached = filter (\<lambda>r. known r = None) uniqueResources;
            ordered = (\<lambda>byResource. map (\<lambda>r. case byResource r of None \<Rightarrow> denied action r | Some d \<Rightarrow> d) resources)
        in if uncached = [] then (Inr (ordered known), ctx, s)
           else (case ExplainUserTokenAccessMany sha token action uncached s of
                   (Inl e, s') \<Rightarrow> (Inl e, ctx, s')
                 | (Inr rows, s') \<Rightarrow>
                     let fresh = map (row_decision action) rows;
                         byResource = fold (\<lambda>d m. m(ad_Resource d := Some d)) fresh known
                     in (Inr (ordered byResource), cacheStoreMany ctx token action fresh, s')))"

definition ExplainUserAccessViaToken ::
  "(string \<Rightarrow> string) \<Rightarrow> policy_ctx \<Rightarrow> string \<Rightarrow> string \<Rightarrow> string \<Rightarrow> 'v db
    \<Rightarrow> AccessDecision res \<times> policy_ctx \<times> 'v db" where
  "ExplainUserAccessViaToken sha ctx token action resource s =
     (case ExplainUserAccessManyViaToken sha ctx token action [resource] s of
        (Inl e, c) \<Rightarrow> (Inl e, c)
      | (Inr decisions, c) \<Rightarrow> (Inr (case decisions of [] \<Rightarrow> denied action resource | d # _ \<Rightarrow> d), c))"

definition UserHasAccessViaToken ::
  "(string \<Rightarrow> string) \<Rightarrow> policy_ctx \<Rightarrow> string \<Rightarrow> string \<Rightarrow> string \<Rightarrow> 'v db \<Rightarrow> bool res \<times> policy_ctx \<times> 'v db" where
  "UserHasAccessViaToken sha ctx token action resource s =
     (case ExplainUserAccessViaToken sha ctx token action resource s of
        (Inl e, c) \<Rightarrow> (Inl e, c) | (Inr d, c) \<Rightarrow> (Inr (ad_Access d), c))"

definition UserHasManyAccessViaToken ::
  "(string \<Rightarrow> string) \<Rightarrow> policy_ctx \<Rightarrow> string \<Rightarrow> string \<Rightarrow> string list \<Rightarrow> 'v db \<Rightarrow> bool res \<times> policy_ctx \<times> 'v db" where
  "UserHasManyAccessViaToken sha ctx token action resources s =
     (if resources = [] then (Inr False, ctx, s)
      else (case ExplainUserAccessManyViaToken sha ctx token action resources s of
              (Inl e, c) \<Rightarrow> (Inl e, c) | (Inr ds, c) \<Rightarrow> (Inr (list_all ad_Access ds), c)))"

section \<open>The documented contract\<close>

text \<open>
  \<^verbatim>\<open>docs/access_control.md\<close>: rules form one ordered list per user; the rule with the lowest
  priority number decides, a deny wins over an allow of the same priority, and
  without a rule the answer is no.
\<close>

definition applies :: "'v db \<Rightarrow> uuid \<Rightarrow> action \<Rightarrow> string \<Rightarrow> policy_row \<Rightarrow> bool" where
  "applies s uid act res p \<longleftrightarrow> (uid, gp_group p) \<in> set (user_groups s)
     \<and> gp_action p = act \<and> like (gp_resource p) res"

definition permitted :: "'v db \<Rightarrow> uuid \<Rightarrow> action \<Rightarrow> string \<Rightarrow> bool" where
  "permitted s uid act res \<longleftrightarrow>
     (\<exists>p\<in>set (group_policies s). applies s uid act res p \<and> gp_effect p = Allow
        \<and> (\<forall>q\<in>set (group_policies s). applies s uid act res q \<longrightarrow>
             gp_priority p < gp_priority q \<or> gp_priority p = gp_priority q \<and> gp_effect q = Allow))"

text \<open>What the service answers for one request, whatever its cache holds.\<close>

definition decide :: "(string \<Rightarrow> string) \<Rightarrow> 'v db \<Rightarrow> string \<Rightarrow> string \<Rightarrow> string \<Rightarrow> AccessDecision" where
  "decide sha s token action resource =
     (case (parse_action action, token_user sha s token) of
        (Some act, Some uid) \<Rightarrow> row_decision action (explain_one s uid act resource)
      | _ \<Rightarrow> denied action resource)"

definition cacheable :: "accessDecisionKey \<Rightarrow> bool" where
  "cacheable key \<longleftrightarrow> CHR 0x00 \<notin> set (dk_token key) \<and> CHR 0x00 \<notin> set (dk_action key)"

lemma set_matching_policies:
  "p \<in> set (matching_policies s uid act res) \<longleftrightarrow> p \<in> set (group_policies s) \<and> applies s uid act res p"
  by (force simp: matching_policies_def applies_def split: if_splits)

interpretation policy_order: ranked_rules policy_rank "\<lambda>p. gp_effect p = Allow"
  by unfold_locales (auto simp: policy_rank_def split: if_splits intro: effect.exhaust)

lemma policy_rank_le:
  "gp_effect p = Allow \<Longrightarrow> policy_rank p \<le> policy_rank q \<longleftrightarrow>
     gp_priority p < gp_priority q \<or> gp_priority p = gp_priority q \<and> gp_effect q = Allow"
  by (cases "gp_effect q") (auto simp: policy_rank_def)

lemma best_match_allows:
  "(\<exists>p. best_match s uid act res = Some p \<and> gp_effect p = Allow) \<longleftrightarrow> permitted s uid act res"
proof -
  have "(\<exists>p. best_match s uid act res = Some p \<and> gp_effect p = Allow) \<longleftrightarrow>
        map_option (\<lambda>p. gp_effect p = Allow) (best_match s uid act res) = Some True"
    by (cases "best_match s uid act res") auto
  also have "\<dots> \<longleftrightarrow> permitted s uid act res"
    unfolding best_match_def policy_order.verdict_iff permitted_def
    by (simp add: set_matching_policies Ball_def Bex_def) (use policy_rank_le in blast)
  finally show ?thesis .
qed

lemma explain_one_access [simp]: "ex_Access (explain_one s uid act res) \<longleftrightarrow> permitted s uid act res"
  by (auto simp: explain_one_def best_match_allows [symmetric] split: option.splits)

lemma ex_Resource_explain [simp]: "ex_Resource (explain_one s uid act res) = res"
  by (simp add: explain_one_def split: option.splits)

lemma row_decision_simps [simp]:
  "ad_Resource (row_decision action row) = ex_Resource row"
  "ad_Access (row_decision action row) = ex_Access row"
  by (simp_all add: row_decision_def denied_def Let_def)

lemma decide_Resource [simp]: "ad_Resource (decide sha s token action r) = r"
  by (simp add: decide_def denied_def split: option.splits)

lemma decide_access:
  "ad_Access (decide sha s token action res) \<longleftrightarrow>
     (\<exists>act uid. parse_action action = Some act \<and> token_user sha s token = Some uid
        \<and> permitted s uid act res)"
  by (auto simp: decide_def denied_def split: option.splits)

section \<open>The cache is transparent\<close>

lemma split_at_marker:
  "x \<notin> set a \<Longrightarrow> x \<notin> set b \<Longrightarrow> a @ x # c = b @ x # d \<Longrightarrow> a = b \<and> c = d"
proof (induction a arbitrary: b)
  case Nil
  then show ?case by (cases b) auto
next
  case (Cons y a)
  then show ?case by (cases b) auto
qed

interpretation decision_cache: keyed_cache cacheKeyString cacheable
proof
  fix a b
  assume "cacheable a" "cacheable b" and eq: "cacheKeyString a = cacheKeyString b"
  then have tok: "dk_token a = dk_token b \<and>
      dk_action a @ CHR 0x00 # dk_resource a = dk_action b @ CHR 0x00 # dk_resource b"
    by (intro split_at_marker) (auto simp: cacheable_def cacheKeyString_def)
  then have "dk_action a = dk_action b \<and> dk_resource a = dk_resource b"
    using \<open>cacheable a\<close> \<open>cacheable b\<close> by (intro split_at_marker) (auto simp: cacheable_def)
  with tok show "a = b" by simp
qed

definition ctx_ok :: "(string \<Rightarrow> string) \<Rightarrow> 'v db \<Rightarrow> policy_ctx \<Rightarrow> bool" where
  "ctx_ok sha s ctx \<longleftrightarrow> (case ctx of None \<Rightarrow> True | Some m \<Rightarrow>
     decision_cache.consistent (\<lambda>k. decide sha s (dk_token k) (dk_action k) (dk_resource k)) m)"

lemma ctx_ok_None [simp]: "ctx_ok sha s None"
  by (simp add: ctx_ok_def)

lemma ctx_ok_fresh [simp]: "ctx_ok sha s ctx \<Longrightarrow> ctx_ok sha s (WithPolicyCheckCache ctx)"
  by (simp add: WithPolicyCheckCache_def ctx_ok_def split: option.splits)

lemma token_user_faults [simp]: "token_user sha (s\<lparr>faults := fs\<rparr>) token = token_user sha s token"
  by (simp add: token_user_def)

lemma explain_one_faults [simp]: "explain_one (s\<lparr>faults := fs\<rparr>) uid act = explain_one s uid act"
  by (intro ext) (simp add: explain_one_def best_match_def matching_policies_def cong: if_cong)

lemma decide_faults [simp]: "decide sha (s\<lparr>faults := fs\<rparr>) = decide sha s"
  by (intro ext) (simp add: decide_def split: option.splits)

lemma ctx_ok_faults [simp]: "ctx_ok sha (s\<lparr>faults := fs\<rparr>) = ctx_ok sha s"
  by (intro ext) (simp add: ctx_ok_def split: option.splits)

lemma cacheLookup_ok:
  assumes "ctx_ok sha s ctx" "cacheable k" "cacheLookup ctx k = Some d"
  shows "d = decide sha s (dk_token k) (dk_action k) (dk_resource k)"
  using assms decision_cache.consistent_lookup [of _ _ k d]
  by (auto simp: ctx_ok_def cacheLookup_def split: option.splits)

lemma cacheStoreMany_ok:
  assumes "ctx_ok sha s ctx" "CHR 0x00 \<notin> set token" "CHR 0x00 \<notin> set action"
  shows "ctx_ok sha s (cacheStoreMany ctx token action (map (decide sha s token action) rs))"
proof (cases ctx)
  case None
  then show ?thesis by (simp add: cacheStoreMany_def)
next
  case (Some m)
  let ?k = "\<lambda>r. \<lparr>dk_token = token, dk_action = action, dk_resource = r\<rparr>"
  have "fold (\<lambda>d m. m(cacheKeyString (?k (ad_Resource d)) := Some d)) (map (decide sha s token action) rs) m
      = fold (\<lambda>k m. m(cacheKeyString k := Some (decide sha s (dk_token k) (dk_action k) (dk_resource k))))
             (map ?k rs) m"
    by (induction rs arbitrary: m) simp_all
  with Some assms show ?thesis
    by (auto simp: ctx_ok_def cacheStoreMany_def cacheable_def
        intro!: decision_cache.consistent_store_many)
qed

lemma fold_update_by_resource:
  assumes "\<And>r. ad_Resource (f r) = r"
  shows "fold (\<lambda>d m. m(ad_Resource d := Some d)) (map f rs) m r = (if r \<in> set rs then Some (f r) else m r)"
  using assms by (induction rs arbitrary: m) auto

lemma set_dedupeStrings [simp]: "set (dedupeStrings xs) = set xs"
  by (simp add: dedupeStrings_def)

lemma dedupeStrings_distinct: "distinct (dedupeStrings xs)"
  by (simp add: dedupeStrings_def)

lemma ordered_decisions:
  assumes "\<And>r. r \<in> set rs \<Longrightarrow> m r = None \<Longrightarrow> denied action r = f r"
    and "\<And>r d. r \<in> set rs \<Longrightarrow> m r = Some d \<Longrightarrow> d = f r"
  shows "map (\<lambda>r. case m r of None \<Rightarrow> denied action r | Some d \<Rightarrow> d) rs = map f rs"
  using assms by (auto split: option.splits)

text \<open>The decisions for the resources the cache does not hold, from one query.\<close>

lemma fresh_decisions:
  assumes "healthy s" "parse_action action = Some act"
  obtains rows where
    "ExplainUserTokenAccessMany sha token action rs s = (Inr rows, s\<lparr>faults := tl (faults s)\<rparr>)"
    "map (row_decision action) rows =
       (if token_user sha s token = None then [] else map (decide sha s token action) rs)"
proof (cases "token_user sha s token")
  case None
  with assms show ?thesis
    by (intro that [of "[]"]) (auto simp: ExplainUserTokenAccessMany_def dbsimps)
next
  case (Some uid)
  with assms show ?thesis
    by (intro that [of "map (explain_one s uid act) rs"])
      (auto simp: ExplainUserTokenAccessMany_def decide_def dbsimps)
qed

lemma cached_part_ok:
  assumes "ctx_ok sha s ctx" "CHR 0x00 \<notin> set token" "CHR 0x00 \<notin> set action"
    "cached_part ctx token action unique r = Some d"
  shows "d = decide sha s token action r"
  using assms cacheLookup_ok [of sha s ctx "\<lparr>dk_token = token, dk_action = action, dk_resource = r\<rparr>" d]
  by (auto simp: cached_part_def cacheable_def split: if_splits)

lemma action_no_NUL: "parse_action action = Some act \<Longrightarrow> CHR 0x00 \<notin> set action"
  by (cases act) (auto simp: parse_action_Some)

lemma ExplainMany_spec:
  assumes ctx: "ctx_ok sha s ctx" and tok: "CHR 0x00 \<notin> set token"
    and act: "parse_action action = Some act" and s: "healthy s"
  obtains ctx' fs where
    "ExplainUserAccessManyViaToken sha ctx token action resources s
       = (Inr (map (decide sha s token action) resources), ctx', s\<lparr>faults := fs\<rparr>)"
    "ctx_ok sha s ctx'"
proof (cases "resources = []")
  case True
  with that [of ctx "faults s"] ctx show ?thesis by (simp add: ExplainUserAccessManyViaToken_def)
next
  case False
  note nul = action_no_NUL [OF act]
  define unique where "unique = dedupeStrings resources"
  define known where "known = cached_part ctx token action unique"
  define uncached where "uncached = filter (\<lambda>r. known r = None) unique"
  let ?D = "decide sha s token action"
  have known: "d = ?D r" if "known r = Some d" for r d
    using cached_part_ok [OF ctx tok nul] that by (simp add: known_def)
  have un: "set unique = set resources" by (simp add: unique_def)
  show ?thesis
  proof (cases "uncached = []")
    case True
    then have "known r \<noteq> None" if "r \<in> set resources" for r
      using that un by (auto simp: uncached_def filter_empty_conv)
    then have "map (\<lambda>r. case known r of None \<Rightarrow> denied action r | Some d \<Rightarrow> d) resources = map ?D resources"
      using known by (intro ordered_decisions) fastforce+
    with True False ctx that [of ctx "faults s"] show ?thesis
      by (simp add: ExplainUserAccessManyViaToken_def Let_def unique_def known_def uncached_def)
  next
    case uncached: False
    obtain rows where rows:
      "ExplainUserTokenAccessMany sha token action uncached s = (Inr rows, s\<lparr>faults := tl (faults s)\<rparr>)"
      "map (row_decision action) rows = (if token_user sha s token = None then [] else map ?D uncached)"
      using fresh_decisions [OF s act] by blast
    let ?fresh = "map (row_decision action) rows"
    define by_res where "by_res = fold (\<lambda>d m. m(ad_Resource d := Some d)) ?fresh known"
    have by_res: "by_res r = (if token_user sha s token \<noteq> None \<and> r \<in> set uncached
        then Some (?D r) else known r)" for r
      unfolding by_res_def rows(2) using fold_update_by_resource [of ?D uncached known r] by simp
    have "map (\<lambda>r. case by_res r of None \<Rightarrow> denied action r | Some d \<Rightarrow> d) resources = map ?D resources"
    proof (rule ordered_decisions)
      fix r assume "r \<in> set resources" "by_res r = None"
      then have "token_user sha s token = None"
        using un by (auto simp: by_res uncached_def split: if_splits)
      then show "denied action r = ?D r" by (simp add: decide_def split: option.splits)
    next
      fix r d assume "by_res r = Some d"
      then show "d = ?D r" using known by (auto simp: by_res split: if_splits)
    qed
    then have eq: "ExplainUserAccessManyViaToken sha ctx token action resources s =
        (Inr (map ?D resources), cacheStoreMany ctx token action ?fresh, s\<lparr>faults := tl (faults s)\<rparr>)"
      using False uncached rows(1)
      unfolding ExplainUserAccessManyViaToken_def Let_def unique_def [symmetric]
        known_def [symmetric] uncached_def [symmetric]
      by (simp only: if_False prod.case sum.case by_res_def [symmetric])
    have "ctx_ok sha s (cacheStoreMany ctx token action ?fresh)"
      unfolding rows(2) using cacheStoreMany_ok [OF ctx tok nul] cacheStoreMany_ok [OF ctx tok nul, of "[]"]
      by simp
    with eq show ?thesis by (rule that)
  qed
qed

section \<open>Properties\<close>

text \<open>
  C2: The service's answer is the documented one: with a usable database and a context whose
  cache was filled by this service, \<^verbatim>\<open>UserHasManyAccessViaToken\<close> answers yes exactly
  when the request names at least one resource, the token belongs to a user, and for
  every resource the best-priority applicable rule of the user's groups is an allow that
  no deny of the same priority contradicts.  The cache never changes the answer, stays
  correct, and the database is only read.
\<close>

theorem UserHasMany_correct:
  assumes "ctx_ok sha s ctx" and "CHR 0x00 \<notin> set token" and "healthy s"
  shows "\<exists>ctx' s'. UserHasManyAccessViaToken sha ctx token (action_str act) resources s =
      (Inr (resources \<noteq> [] \<and> (\<exists>uid. token_user sha s token = Some uid
              \<and> (\<forall>r\<in>set resources. permitted s uid act r))), ctx', s')
    \<and> ctx_ok sha s ctx' \<and> tables s' = tables s"
proof (cases "resources = []")
  case True
  with assms show ?thesis by (auto simp: UserHasManyAccessViaToken_def)
next
  case False
  obtain ctx' fs where *: "ExplainUserAccessManyViaToken sha ctx token (action_str act) resources s
       = (Inr (map (decide sha s token (action_str act)) resources), ctx', s\<lparr>faults := fs\<rparr>)"
    "ctx_ok sha s ctx'"
    using ExplainMany_spec [OF assms(1,2) parse_action_str assms(3)] by blast
  have "list_all ad_Access (map (decide sha s token (action_str act)) resources) \<longleftrightarrow>
      (\<exists>uid. token_user sha s token = Some uid \<and> (\<forall>r\<in>set resources. permitted s uid act r))"
    using False by (cases resources; cases "token_user sha s token") (auto simp: list_all_iff decide_access)
  with False * show ?thesis by (simp add: UserHasManyAccessViaToken_def)
qed

text \<open>
  The witness's database: one user with a token, in two groups; an allow rule for all time
  series at priority 5, and a deny for one of them at priority 3.
\<close>

definition access_db :: "unit db" where
  "access_db = empty_db\<lparr>
     users := [\<lparr>u_uuid = ''u1'', u_name = ''alice'', u_state = ''active''\<rparr>],
     user_tokens := [\<lparr>tk_uuid = ''t1'', tk_user = ''u1'', tk_name = ''default'', tk_hash = ''secret'', tk_created = 0\<rparr>],
     user_groups := [(''u1'', ''g1''), (''u1'', ''g2'')],
     group_policies :=
       [\<lparr>gp_uuid = ''p1'', gp_group = ''g1'', gp_priority = 5, gp_effect = Allow, gp_action = Read, gp_resource = ''ts/%''\<rparr>,
        \<lparr>gp_uuid = ''p2'', gp_group = ''g2'', gp_priority = 3, gp_effect = Deny, gp_action = Read, gp_resource = ''ts/9''\<rparr>]\<rparr>"

theorem UserHasMany_correct_witness:
  "fst (UserHasManyAccessViaToken id (Some (\<lambda>_. None)) ''secret'' ''read'' [''ts/1'', ''ts/2''] access_db) = Inr True
   \<and> fst (UserHasManyAccessViaToken id (Some (\<lambda>_. None)) ''secret'' ''read'' [''ts/1'', ''ts/9''] access_db) = Inr False"
proof -
  have ctx: "ctx_ok id access_db (Some (\<lambda>_. None))" by (simp add: ctx_ok_def)
  have nul: "CHR 0x00 \<notin> set ''secret''" and h: "healthy access_db"
    by (simp_all add: access_db_def empty_db_def healthy_def)
  have tok: "token_user id access_db ''secret'' = Some ''u1''" by code_simp
  have "permitted access_db ''u1'' Read ''ts/1''" "permitted access_db ''u1'' Read ''ts/2''"
    "\<not> permitted access_db ''u1'' Read ''ts/9''" by code_simp+
  then show ?thesis
    using UserHasMany_correct [OF ctx nul h, of Read "[''ts/1'', ''ts/2'']"]
      UserHasMany_correct [OF ctx nul h, of Read "[''ts/1'', ''ts/9'']"] tok by auto
qed

text \<open>
  Answers come back one per requested resource and in the order of the request, each
  carrying the rule that decided it, whether they were cached, fetched, or repeated in
  the request.
\<close>

theorem ExplainMany_in_order:
  assumes "ctx_ok sha s ctx" and "CHR 0x00 \<notin> set token" and "healthy s"
  shows "\<exists>ctx' s'. ExplainUserAccessManyViaToken sha ctx token (action_str act) resources s =
      (Inr (map (decide sha s token (action_str act)) resources), ctx', s')
    \<and> ctx_ok sha s ctx' \<and> tables s' = tables s"
  using ExplainMany_spec [OF assms(1,2) parse_action_str assms(3)] by (metis tables_faults)

theorem ExplainMany_in_order_witness:
  "\<exists>c s'. ExplainUserAccessManyViaToken id None ''secret'' ''read'' [''ts/9'', ''ts/1'', ''ts/9''] access_db
     = (Inr (map (decide id access_db ''secret'' ''read'') [''ts/9'', ''ts/1'', ''ts/9'']), c, s')"
proof -
  have "ctx_ok id access_db None" "CHR 0x00 \<notin> set ''secret''" "healthy access_db"
    by (simp_all add: access_db_def empty_db_def healthy_def)
  from ExplainMany_in_order [OF this, of Read "[''ts/9'', ''ts/1'', ''ts/9'']"] show ?thesis
    by auto
qed

end
