(* ===== verification/Policies.thy ===== *)
theory Policies
  imports Access
begin

text \<open>
  \<^verbatim>\<open>internal/services/policy.go\<close> with the queries of \<^verbatim>\<open>policies.sql\<close> and
  \<^verbatim>\<open>group_policies.sql\<close>, and the constraints the migrations put on
  \<^verbatim>\<open>group_policies\<close>.  A \<^verbatim>\<open>rest.Policy\<close> carries the fields of the row, so operations
  return the row.  The primary key PostgreSQL draws for a new row is an argument.
\<close>

section \<open>Constraints of the table\<close>

definition policy_key :: "policy_row \<Rightarrow> uuid \<times> int \<times> effect \<times> action \<times> string" where
  "policy_key p = (gp_group p, gp_priority p, gp_effect p, gp_action p, gp_resource p)"

definition ascii_space :: "char \<Rightarrow> bool" where
  "ascii_space c \<longleftrightarrow> c = CHR '' '' \<or> c \<in> {CHR 0x09, CHR 0x0A, CHR 0x0B, CHR 0x0C, CHR 0x0D}"

definition policy_chk :: "policy_row \<Rightarrow> bool" where
  "policy_chk p \<longleftrightarrow> gp_priority p \<ge> 0 \<and> gp_resource p \<noteq> []
     \<and> \<not> HasPrefix (gp_resource p) ''/'' \<and> \<not> HasSuffix (gp_resource p) ''/''
     \<and> \<not> Contains (gp_resource p) ''//'' \<and> \<not> list_ex ascii_space (gp_resource p)"

section \<open>Queries\<close>

definition ExistsPolicy :: "uuid \<Rightarrow> ('v, int) dbm" where
  "ExistsPolicy pid = sel (\<lambda>s. int (length (filter (\<lambda>p. gp_uuid p = pid) (group_policies s))))"

definition ExistsGroup :: "uuid \<Rightarrow> ('v, int) dbm" where
  "ExistsGroup pid = sel (\<lambda>s. int (length (filter (\<lambda>g. g_uuid g = pid) (groups s))))"

definition ExistsUser :: "uuid \<Rightarrow> ('v, int) dbm" where
  "ExistsUser pid = sel (\<lambda>s. int (length (filter (\<lambda>u. u_uuid u = pid) (users s))))"

definition insert_policy :: "policy_row \<Rightarrow> 'v db \<Rightarrow> policy_row res \<times> 'v db" where
  "insert_policy p s =
     (if \<not> policy_chk p then (Inl check_violation, s)
      else if gp_uuid p \<in> set (map gp_uuid (group_policies s))
           \<or> policy_key p \<in> set (map policy_key (group_policies s)) then (Inl unique_violation, s)
      else if gp_group p \<notin> set (map g_uuid (groups s)) then (Inl fk_violation, s)
      else (Inr p, s\<lparr>group_policies := group_policies s @ [p]\<rparr>))"

definition CreatePolicy ::
  "uuid \<Rightarrow> uuid \<Rightarrow> int \<Rightarrow> string \<Rightarrow> string \<Rightarrow> string \<Rightarrow> ('v, policy_row) dbm" where
  "CreatePolicy newid grp prio eff act res =
     stmt (\<lambda>s. case (parse_effect eff, parse_action act) of
         (Some e, Some a) \<Rightarrow> insert_policy \<lparr>gp_uuid = newid, gp_group = grp, gp_priority = prio,
             gp_effect = e, gp_action = a, gp_resource = res\<rparr> s
       | _ \<Rightarrow> (Inl invalid_text, s))"

definition FindPoliciesByGroup :: "uuid \<Rightarrow> ('v, policy_row list) dbm" where
  "FindPoliciesByGroup grp = sel (\<lambda>s. sort_key gp_priority (filter (\<lambda>p. gp_group p = grp) (group_policies s)))"

definition FindPoliciesByUser :: "uuid \<Rightarrow> ('v, policy_row list) dbm" where
  "FindPoliciesByUser uid = sel (\<lambda>s. sort_key gp_priority
     (concat (map (\<lambda>p. map (\<lambda>_. p) (filter (\<lambda>m. m = (uid, gp_group p)) (user_groups s))) (group_policies s))))"

definition FindPolicyByUUID :: "uuid \<Rightarrow> ('v, policy_row) dbm" where
  "FindPolicyByUUID pid = sel_one (\<lambda>s. filter (\<lambda>p. gp_uuid p = pid) (group_policies s))"

fun effect_rank :: "effect \<Rightarrow> int" where
  "effect_rank Allow = 0"
| "effect_rank Deny = 1"

fun action_rank :: "action \<Rightarrow> int" where
  "action_rank Create = 0"
| "action_rank Read = 1"
| "action_rank Update = 2"
| "action_rank Delete = 3"

definition may_read :: "'v db \<Rightarrow> uuid \<Rightarrow> string \<Rightarrow> bool" where
  "may_read s uid res = (case best_match s uid Read res of None \<Rightarrow> False | Some p \<Rightarrow> gp_effect p = Allow)"

definition FindPolicies ::
  "(string \<Rightarrow> string) \<Rightarrow> string \<Rightarrow> int \<Rightarrow> int \<Rightarrow> uuid list option \<Rightarrow> ('v, policy_row list) dbm" where
  "FindPolicies sha token limit offset grps = sel_page limit offset (\<lambda>s.
     case token_user sha s token of None \<Rightarrow> []
     | Some uid \<Rightarrow>
         sort_desc gp_resource
           (sort_key (\<lambda>p. (effect_rank (gp_effect p), - action_rank (gp_action p), gp_priority p))
             (filter (\<lambda>p. may_read s uid (''policies/'' @ gp_uuid p))
               (filter (\<lambda>p. case grps of None \<Rightarrow> True | Some gs \<Rightarrow> gp_group p \<in> set gs) (group_policies s)))))"

text \<open>\<^verbatim>\<open>UPDATE group_policies SET ... WHERE uuid = $1\<close>, all constraints included.\<close>

definition update_policy :: "uuid \<Rightarrow> (policy_row \<Rightarrow> policy_row) \<Rightarrow> 'v db \<Rightarrow> int res \<times> 'v db" where
  "update_policy pid f s =
     (let hit = filter (\<lambda>p. gp_uuid p = pid) (group_policies s);
          rest = filter (\<lambda>p. gp_uuid p \<noteq> pid) (group_policies s)
      in if \<not> list_all (\<lambda>p. policy_chk (f p)) hit then (Inl check_violation, s)
         else if list_ex (\<lambda>p. policy_key (f p) \<in> set (map policy_key rest)) hit then (Inl unique_violation, s)
         else if \<not> list_all (\<lambda>p. gp_group (f p) \<in> set (map g_uuid (groups s))) hit then (Inl fk_violation, s)
         else (Inr (int (length hit)),
               s\<lparr>group_policies := map (\<lambda>p. if gp_uuid p = pid then f p else p) (group_policies s)\<rparr>))"

definition SetPolicyGroup :: "uuid \<Rightarrow> uuid \<Rightarrow> ('v, int) dbm" where
  "SetPolicyGroup pid grp = stmt (update_policy pid (\<lambda>p. p\<lparr>gp_group := grp\<rparr>))"

definition SetPolicyPriority :: "uuid \<Rightarrow> int \<Rightarrow> ('v, int) dbm" where
  "SetPolicyPriority pid prio = stmt (update_policy pid (\<lambda>p. p\<lparr>gp_priority := prio\<rparr>))"

definition SetPolicyEffect :: "uuid \<Rightarrow> string \<Rightarrow> ('v, int) dbm" where
  "SetPolicyEffect pid eff = stmt (\<lambda>s. case parse_effect eff of None \<Rightarrow> (Inl invalid_text, s)
     | Some e \<Rightarrow> update_policy pid (\<lambda>p. p\<lparr>gp_effect := e\<rparr>) s)"

definition SetPolicyAction :: "uuid \<Rightarrow> string \<Rightarrow> ('v, int) dbm" where
  "SetPolicyAction pid act = stmt (\<lambda>s. case parse_action act of None \<Rightarrow> (Inl invalid_text, s)
     | Some a \<Rightarrow> update_policy pid (\<lambda>p. p\<lparr>gp_action := a\<rparr>) s)"

definition SetPolicyResource :: "uuid \<Rightarrow> string \<Rightarrow> ('v, int) dbm" where
  "SetPolicyResource pid res = stmt (update_policy pid (\<lambda>p. p\<lparr>gp_resource := res\<rparr>))"

definition DeletePolicyByUUID :: "uuid \<Rightarrow> ('v, int) dbm" where
  "DeletePolicyByUUID pid = stmt (\<lambda>s.
     (Inr (int (length (filter (\<lambda>p. gp_uuid p = pid) (group_policies s)))),
      s\<lparr>group_policies := filter (\<lambda>p. gp_uuid p \<noteq> pid) (group_policies s)\<rparr>))"

section \<open>PolicyService\<close>

definition validatePolicyRule :: "policyRule \<Rightarrow> ('v, unit) dbm" where
  "validatePolicyRule rule =
     (case validatePolicyRuleShape rule of
        Some e \<Rightarrow> fail e
      | None \<Rightarrow> andthen (FindPoliciesByGroup (pr_GroupUUID rule)) (\<lambda>policies.
          (case first_error (shadow_error rule) policies of Some e \<Rightarrow> fail e | None \<Rightarrow> ret ())))"

definition Policy_Exists :: "uuid \<Rightarrow> ('v, bool) dbm" where
  "Policy_Exists pid = andthen (ExistsPolicy pid) (\<lambda>found. ret (found > 0))"

record NewPolicyParams =
  np_GroupUuid :: uuid
  np_Priority :: int
  np_Effect :: string
  np_Action :: string
  np_Resource :: string

definition new_rule :: "NewPolicyParams \<Rightarrow> policyRule" where
  "new_rule p = \<lparr>pr_ID = None, pr_GroupUUID = np_GroupUuid p, pr_Priority = np_Priority p,
     pr_Effect = np_Effect p, pr_Action = np_Action p, pr_Resource = np_Resource p\<rparr>"

definition Policy_Add :: "uuid \<Rightarrow> NewPolicyParams \<Rightarrow> ('v, policy_row) dbm" where
  "Policy_Add newid p =
     andthen (validatePolicyRule (new_rule p)) (\<lambda>_.
       CreatePolicy newid (np_GroupUuid p) (np_Priority p) (np_Effect p) (np_Action p) (np_Resource p))"

definition Policy_FindByGroup :: "uuid \<Rightarrow> ('v, policy_row list) dbm" where
  "Policy_FindByGroup grp = andthen (FindPoliciesByGroup grp) (\<lambda>policyList.
     if policyList = [] then andthen (ExistsGroup grp) (\<lambda>count.
         if count = 0 then fail ErrorNotFound else ret policyList)
     else ret policyList)"

definition Policy_FindByUser :: "uuid \<Rightarrow> ('v, policy_row list) dbm" where
  "Policy_FindByUser uid = andthen (FindPoliciesByUser uid) (\<lambda>policyList.
     if policyList = [] then andthen (ExistsUser uid) (\<lambda>count.
         if count = 0 then fail ErrorNotFound else ret policyList)
     else ret policyList)"

definition Policy_FindByUuid :: "uuid \<Rightarrow> ('v, policy_row) dbm" where
  "Policy_FindByUuid pid = FindPolicyByUUID pid"

definition Policy_FindAll ::
  "(string \<Rightarrow> string) \<Rightarrow> string \<Rightarrow> int option \<Rightarrow> int option \<Rightarrow> uuid list option \<Rightarrow> ('v, policy_row list) dbm" where
  "Policy_FindAll sha token limit offset grps =
     FindPolicies sha token (or_default 20 limit) (or_default 0 offset) grps"

record UpdatePolicyParams =
  upp_GroupUuid :: "uuid option"
  upp_Priority :: "int option"
  upp_Effect :: "string option"
  upp_Action :: "string option"
  upp_Resource :: "string option"

definition next_rule :: "uuid \<Rightarrow> UpdatePolicyParams \<Rightarrow> policy_row \<Rightarrow> policyRule" where
  "next_rule pid p current = \<lparr>pr_ID = Some pid,
     pr_GroupUUID = or_default (gp_group current) (upp_GroupUuid p),
     pr_Priority = or_default (gp_priority current) (map_option to_i32 (upp_Priority p)),
     pr_Effect = or_default (effect_str (gp_effect current)) (upp_Effect p),
     pr_Action = or_default (action_str (gp_action current)) (upp_Action p),
     pr_Resource = or_default (gp_resource current) (upp_Resource p)\<rparr>"

definition Policy_Update_body :: "uuid \<Rightarrow> UpdatePolicyParams \<Rightarrow> ('v, int) dbm" where
  "Policy_Update_body pid p =
     andthen (FindPolicyByUUID pid) (\<lambda>current.
     andthen (validatePolicyRule (next_rule pid p current)) (\<lambda>_.
     andthen (opt_step (upp_GroupUuid p) (SetPolicyGroup pid) 0) (\<lambda>count.
     andthen (opt_step (upp_Priority p) (\<lambda>n. SetPolicyPriority pid (to_i32 n)) count) (\<lambda>count.
     andthen (opt_step (upp_Effect p) (SetPolicyEffect pid) count) (\<lambda>count.
     andthen (opt_step (upp_Action p) (SetPolicyAction pid) count) (\<lambda>count.
     andthen (opt_step (upp_Resource p) (SetPolicyResource pid) count) (\<lambda>count.
     if count = 0 then andthen (FindPolicyByUUID pid) (\<lambda>_. ret count) else ret count)))))))"

definition Policy_Update :: "uuid \<Rightarrow> UpdatePolicyParams \<Rightarrow> ('v, int) dbm" where
  "Policy_Update pid p = with_tx (Policy_Update_body pid p)"

definition Policy_Delete :: "uuid \<Rightarrow> ('v, int) dbm" where
  "Policy_Delete pid = andthen (DeletePolicyByUUID pid) (\<lambda>count.
     if count = 0 then fail ErrorNotFound else ret count)"

section \<open>The invariant\<close>

definition policy_ok :: "policy_row \<Rightarrow> bool" where
  "policy_ok p \<longleftrightarrow> gp_priority p \<ge> 0 \<and> in_i32 (gp_priority p) \<and> validatePolicyResource (gp_resource p) = None"

definition policies_ok :: "'v db \<Rightarrow> bool" where
  "policies_ok s \<longleftrightarrow> distinct (map gp_uuid (group_policies s))
     \<and> distinct (map policy_key (group_policies s))
     \<and> list_all policy_ok (group_policies s)
     \<and> (\<forall>p\<in>set (group_policies s). gp_group p \<in> set (map g_uuid (groups s)))"

lemma policies_ok_fault_free [simp, intro]: "fault_free policies_ok"
  by (simp add: fault_free_def policies_ok_def)

lemma insert_policy_keeps:
  assumes "insert_policy p s = (r, s')" "policy_ok p" "policies_ok s"
  shows "policies_ok s'"
  using assms by (auto simp: insert_policy_def policies_ok_def split: if_splits)

lemma map_update_distinct:
  assumes "distinct (map k xs)" "distinct (map u xs)" "\<forall>x\<in>set xs. u x = i \<longrightarrow> k (f x) \<notin> k ` {y\<in>set xs. u y \<noteq> i}"
  shows "distinct (map k (map (\<lambda>x. if u x = i then f x else x) xs))"
  using assms
proof (induction xs)
  case Nil
  then show ?case by simp
next
  case (Cons a xs)
  have "distinct (map k (map (\<lambda>x. if u x = i then f x else x) xs))"
    using Cons.prems by (intro Cons.IH) auto
  moreover have "k (if u a = i then f a else a) \<notin> set (map k (map (\<lambda>x. if u x = i then f x else x) xs))"
  proof
    assume "k (if u a = i then f a else a) \<in> set (map k (map (\<lambda>x. if u x = i then f x else x) xs))"
    then obtain x where "x \<in> set xs" "k (if u a = i then f a else a) = k (if u x = i then f x else x)"
      unfolding set_map image_image by blast
    with Cons.prems show False by (auto simp: image_iff split: if_splits) metis
  qed
  ultimately show ?case by (simp only: list.map distinct.simps simp_thms)
qed

lemma update_policy_keeps:
  assumes "update_policy pid f s = (r, s')" and f: "\<And>p. gp_uuid (f p) = gp_uuid p"
    and ok: "\<And>p. policy_ok p \<Longrightarrow> policy_ok (f p)" and I: "policies_ok s"
  shows "policies_ok s'"
proof (cases "\<exists>n. r = Inr n")
  case False
  with assms show ?thesis by (auto simp: update_policy_def Let_def split: if_splits)
next
  case True
  let ?ps = "group_policies s"
  let ?new = "map (\<lambda>p. if gp_uuid p = pid then f p else p) ?ps"
  from True assms(1) have s': "s' = s\<lparr>group_policies := ?new\<rparr>"
    and key: "\<forall>p\<in>set ?ps. gp_uuid p = pid \<longrightarrow> policy_key (f p) \<notin> policy_key ` {q\<in>set ?ps. gp_uuid q \<noteq> pid}"
    and grp: "\<forall>p\<in>set ?ps. gp_uuid p = pid \<longrightarrow> gp_group (f p) \<in> g_uuid ` set (groups s)"
    by (auto simp: update_policy_def Let_def list_ex_iff list_all_iff split: if_splits)
  have "map gp_uuid ?new = map gp_uuid ?ps" by (simp add: f)
  then have "distinct (map gp_uuid ?new)" using I by (simp only: policies_ok_def)
  moreover have "distinct (map policy_key ?new)"
    using I key by (intro map_update_distinct) (auto simp: policies_ok_def)
  moreover have "list_all policy_ok ?new" using I ok by (auto simp: policies_ok_def list_all_iff)
  ultimately show ?thesis using s' I grp by (auto simp: policies_ok_def)
qed

lemma policy_ok_update:
  "policy_ok p \<Longrightarrow> policy_ok (p\<lparr>gp_group := g\<rparr>)"
  "policy_ok p \<Longrightarrow> policy_ok (p\<lparr>gp_effect := e\<rparr>)"
  "policy_ok p \<Longrightarrow> policy_ok (p\<lparr>gp_action := a\<rparr>)"
  "policy_ok p \<Longrightarrow> n \<ge> 0 \<Longrightarrow> in_i32 n \<Longrightarrow> policy_ok (p\<lparr>gp_priority := n\<rparr>)"
  "policy_ok p \<Longrightarrow> validatePolicyResource res = None \<Longrightarrow> policy_ok (p\<lparr>gp_resource := res\<rparr>)"
  by (simp_all add: policy_ok_def)

lemma CreatePolicy_keeps [keeps]:
  assumes "prio \<ge> 0" "in_i32 prio" "validatePolicyResource res = None"
  shows "preserves policies_ok (CreatePolicy newid grp prio eff act res)"
  unfolding CreatePolicy_def using assms
  by (auto intro!: preserves_stmt elim!: insert_policy_keeps simp: policy_ok_def split: option.splits)

lemma SetPolicy_keeps [keeps]:
  "preserves policies_ok (SetPolicyGroup pid g)"
  "preserves policies_ok (SetPolicyEffect pid eff)"
  "preserves policies_ok (SetPolicyAction pid act)"
  "n \<ge> 0 \<Longrightarrow> in_i32 n \<Longrightarrow> preserves policies_ok (SetPolicyPriority pid n)"
  "validatePolicyResource res = None \<Longrightarrow> preserves policies_ok (SetPolicyResource pid res)"
  unfolding SetPolicyGroup_def SetPolicyEffect_def SetPolicyAction_def SetPolicyPriority_def SetPolicyResource_def
  by (auto intro!: preserves_stmt elim!: update_policy_keeps intro: policy_ok_update split: option.splits)

lemma DeletePolicy_keeps [keeps]: "preserves policies_ok (DeletePolicyByUUID pid)"
  unfolding DeletePolicyByUUID_def
  by (auto intro!: preserves_stmt simp: policies_ok_def list_all_iff distinct_map_filter_key)

lemma reads_FindPolicies [simp, intro]:
  "reads (FindPoliciesByGroup g)" "reads (FindPolicyByUUID pid)" "reads (ExistsGroup g)" "reads (ExistsUser u)"
  "reads (FindPoliciesByUser u)" "reads (ExistsPolicy pid)" "reads (FindPolicies sha token l n grps)"
  by (simp_all add: FindPoliciesByGroup_def FindPolicyByUUID_def ExistsGroup_def ExistsUser_def
      FindPoliciesByUser_def ExistsPolicy_def FindPolicies_def)

lemma reads_validatePolicyRule [simp, intro]: "reads (validatePolicyRule rule)"
  by (auto simp: validatePolicyRule_def intro!: reads_andthen split: option.splits)

lemma validatePolicyRule_Inr:
  "validatePolicyRule rule s = (Inr a, s') \<Longrightarrow> validatePolicyRuleShape rule = None"
  by (auto simp: validatePolicyRule_def fail_def split: option.splits)

lemma shape_None:
  "validatePolicyRuleShape rule = None \<longleftrightarrow> pr_Priority rule \<ge> 0 \<and> validatePolicyResource (pr_Resource rule) = None"
  by (auto simp: validatePolicyRuleShape_def)

lemma preserves_reads [keeps]: "reads m \<Longrightarrow> preserves policies_ok m"
  by (rule reads_preserves) simp_all

lemma Policy_Add_keeps:
  assumes "in_i32 (np_Priority p)"
  shows "preserves policies_ok (Policy_Add newid p)"
  unfolding Policy_Add_def
proof (rule preserves_andthen_post)
  show "preserves policies_ok (validatePolicyRule (new_rule p))" by (simp add: keeps)
  show "validatePolicyRule (new_rule p) s = (Inr a, s') \<Longrightarrow> validatePolicyRuleShape (new_rule p) = None" for s a s'
    by (rule validatePolicyRule_Inr)
  show "preserves policies_ok (CreatePolicy newid (np_GroupUuid p) (np_Priority p) (np_Effect p) (np_Action p) (np_Resource p))"
    if "validatePolicyRuleShape (new_rule p) = None"
    using that assms by (intro keeps) (auto simp: shape_None new_rule_def)
qed

lemma Policy_Update_keeps: "preserves policies_ok (Policy_Update pid p)"
proof -
  have steps: "preserves policies_ok
     (andthen (opt_step (upp_GroupUuid p) (SetPolicyGroup pid) 0) (\<lambda>count.
      andthen (opt_step (upp_Priority p) (\<lambda>n. SetPolicyPriority pid (to_i32 n)) count) (\<lambda>count.
      andthen (opt_step (upp_Effect p) (SetPolicyEffect pid) count) (\<lambda>count.
      andthen (opt_step (upp_Action p) (SetPolicyAction pid) count) (\<lambda>count.
      andthen (opt_step (upp_Resource p) (SetPolicyResource pid) count) (\<lambda>count.
      if count = 0 then andthen (FindPolicyByUUID pid) (\<lambda>_. ret count) else ret count))))))"
    if ok: "validatePolicyRuleShape (next_rule pid p current) = None" for current
    using ok by (intro preserves_andthen preserves_opt_step keeps)
      (auto simp: shape_None next_rule_def or_default_def split: option.splits if_splits
            intro!: preserves_andthen keeps)
  show ?thesis
    unfolding Policy_Update_def Policy_Update_body_def
    by (intro preserves_with_tx preserves_andthen preserves_reads policies_ok_fault_free
        reads_FindPolicies preserves_andthen_post [OF preserves_reads [OF reads_validatePolicyRule] validatePolicyRule_Inr] steps)
qed

lemma Policy_Delete_keeps: "preserves policies_ok (Policy_Delete pid)"
  unfolding Policy_Delete_def by (intro preserves_andthen keeps) auto

section \<open>Shadowed rules are redundant\<close>

definition rule_row :: "uuid \<Rightarrow> policyRule \<Rightarrow> effect \<Rightarrow> action \<Rightarrow> policy_row" where
  "rule_row newid rule e a = \<lparr>gp_uuid = newid, gp_group = pr_GroupUUID rule,
     gp_priority = pr_Priority rule, gp_effect = e, gp_action = a, gp_resource = pr_Resource rule\<rparr>"

lemma shadow_error_Some:
  assumes "shadow_error rule e = Some err"
  shows "action_str (gp_action e) = pr_Action rule" "policyShadows e rule"
    "err = NewBadRequestError (''policy is shadowed by existing policy '' @ gp_uuid e)"
  using assms by (auto simp: shadow_error_def split: if_splits)

lemma policyShadows_rank:
  assumes "policyShadows e rule" "pr_Effect rule = effect_str eff"
  shows "policy_rank e \<le> policy_rank (rule_row newid rule eff a)"
  using assms by (cases eff; cases "gp_effect e")
    (auto simp: policyShadows_def policy_rank_def rule_row_def split: if_splits)

lemma validatePolicyRule_shadowed:
  assumes "healthy s" "validatePolicyRuleShape rule = None" "fst (validatePolicyRule rule s) = Inl err"
  obtains e where "e \<in> set (group_policies s)" "gp_group e = pr_GroupUUID rule" "shadow_error rule e = Some err"
proof -
  from assms have "first_error (shadow_error rule)
      (sort_key gp_priority (filter (\<lambda>p. gp_group p = pr_GroupUUID rule) (group_policies s))) = Some err"
    by (auto simp: validatePolicyRule_def FindPoliciesByGroup_def sel_def andthen_def dbsimps ret_def fail_def
        split: option.splits)
  from first_error_Some [OF this] that show ?thesis by auto
qed

lemma permitted_verdict:
  "permitted s uid act res \<longleftrightarrow>
     map_option (\<lambda>p. gp_effect p = Allow) (top_rule policy_rank (matching_policies s uid act res)) = Some True"
  unfolding best_match_allows [symmetric] best_match_def by auto

lemma permitted_add_redundant:
  assumes e: "e \<in> set (group_policies s)" and le: "policy_rank e \<le> policy_rank c"
    and dom: "\<And>res. like (gp_resource c) res \<Longrightarrow> like (gp_resource e) res"
    and same: "gp_group e = gp_group c" "gp_action e = gp_action c"
  shows "permitted (s\<lparr>group_policies := group_policies s @ [c]\<rparr>) uid act res = permitted s uid act res"
proof -
  let ?t = "s\<lparr>group_policies := group_policies s @ [c]\<rparr>"
  have ap: "applies ?t uid act res p = applies s uid act res p" for p by (simp add: applies_def)
  have m: "p \<in> set (matching_policies ?t uid act res) \<longleftrightarrow>
      p \<in> set (matching_policies s uid act res) \<or> p = c \<and> applies s uid act res c" for p
    by (auto simp: set_matching_policies ap)
  show ?thesis
  proof (cases "applies s uid act res c")
    case False
    with m have "set (matching_policies ?t uid act res) = set (matching_policies s uid act res)" by auto
    from policy_order.verdict_set [OF this] show ?thesis by (simp add: permitted_verdict)
  next
    case True
    then have "e \<in> set (matching_policies s uid act res)"
      using e dom same by (auto simp: set_matching_policies applies_def)
    moreover from m True have "set (matching_policies ?t uid act res) = insert c (set (matching_policies s uid act res))"
      by auto
    ultimately show ?thesis
      using policy_order.verdict_redundant le by (metis permitted_verdict)
  qed
qed

section \<open>What an update does\<close>

definition revise :: "UpdatePolicyParams \<Rightarrow> policy_row \<Rightarrow> policy_row" where
  "revise p q = q\<lparr>gp_group := or_default (gp_group q) (upp_GroupUuid p),
     gp_priority := or_default (gp_priority q) (map_option to_i32 (upp_Priority p)),
     gp_effect := or_default (gp_effect q) (Option.bind (upp_Effect p) parse_effect),
     gp_action := or_default (gp_action q) (Option.bind (upp_Action p) parse_action),
     gp_resource := or_default (gp_resource q) (upp_Resource p)\<rparr>"

definition given :: "'a option \<Rightarrow> int" where
  "given x = (if x = None then 0 else 1)"

definition upd_all :: "uuid \<Rightarrow> (policy_row \<Rightarrow> policy_row) \<Rightarrow> 'v db \<Rightarrow> 'v db" where
  "upd_all pid f s = s\<lparr>group_policies := map (\<lambda>q. if gp_uuid q = pid then f q else q) (group_policies s)\<rparr>"

definition hits :: "uuid \<Rightarrow> 'v db \<Rightarrow> int" where
  "hits pid s = int (length (filter (\<lambda>p. gp_uuid p = pid) (group_policies s)))"

text \<open>\<open>did pid f k m\<close>: when \<open>m\<close> succeeds it has applied \<open>f\<close> to the policy and counted \<open>k\<close> updates.\<close>

definition did :: "uuid \<Rightarrow> (policy_row \<Rightarrow> policy_row) \<Rightarrow> int \<Rightarrow> ('v, int) dbm \<Rightarrow> bool" where
  "did pid f k m \<longleftrightarrow> (\<forall>s c s'. m s = (Inr c, s') \<longrightarrow> tables s' = tables (upd_all pid f s) \<and> c = k * hits pid s)"

lemma tables_upd_all: "tables s = tables t \<Longrightarrow> tables (upd_all pid f s) = tables (upd_all pid f t)"
  by (cases s; cases t) (auto simp: tables_def upd_all_def)

lemma tables_hits: "tables s = tables t \<Longrightarrow> hits pid s = hits pid t"
  by (cases s; cases t) (auto simp: tables_def hits_def)

lemma upd_all_upd_all:
  "(\<And>q. gp_uuid (g q) = gp_uuid q) \<Longrightarrow> upd_all pid f (upd_all pid g s) = upd_all pid (f \<circ> g) s"
  by (simp add: upd_all_def)

lemma hits_upd_all: "(\<And>q. gp_uuid (g q) = gp_uuid q) \<Longrightarrow> hits pid (upd_all pid g s) = hits pid s"
  by (simp add: hits_def upd_all_def filter_map o_def if_distrib cong: if_cong)

lemma did_update: "did pid f 1 (stmt (update_policy pid f))"
  unfolding did_def
proof (intro allI impI)
  fix s :: "'v db" and c s'
  assume "stmt (update_policy pid f) s = (Inr c, s')"
  from stmt_Inr [OF this] show "tables s' = tables (upd_all pid f s) \<and> c = 1 * hits pid s"
    by (auto simp: update_policy_def upd_all_def hits_def Let_def tables_def split: if_splits)
qed

lemma did_stmt_case:
  "did pid (\<lambda>q. case x of None \<Rightarrow> q | Some e \<Rightarrow> f e q) 1
     (stmt (\<lambda>s. case x of None \<Rightarrow> (Inl err, s) | Some e \<Rightarrow> update_policy pid (f e) s))"
proof (cases x)
  case None
  then show ?thesis by (auto simp: did_def dest: stmt_Inr)
next
  case (Some e)
  then show ?thesis using did_update [of pid "f e"] by simp
qed

lemma did_opt_step:
  assumes "\<And>v. x = Some v \<Longrightarrow> did pid (f v) 1 (g v)"
  shows "opt_step x g c s = (Inr c', s') \<Longrightarrow>
    tables s' = tables (upd_all pid (\<lambda>q. case x of None \<Rightarrow> q | Some v \<Rightarrow> f v q) s) \<and> c' = c + given x * hits pid s"
proof (cases x)
  case None
  moreover assume "opt_step x g c s = (Inr c', s')"
  ultimately show ?thesis by (simp add: opt_step_def ret_def given_def upd_all_def)
next
  case (Some v)
  moreover assume "opt_step x g c s = (Inr c', s')"
  ultimately have "andthen (g v) (\<lambda>d. ret (c + d)) s = (Inr c', s')" by (simp add: opt_step_def)
  then obtain d s1 where "g v s = (Inr d, s1)" "ret (c + d) s1 = (Inr c', s')"
    by (auto elim!: andthen_cases)
  with assms [OF Some] Some show ?thesis by (auto simp: did_def ret_def given_def)
qed

definition progress :: "uuid \<Rightarrow> 'v db \<Rightarrow> (policy_row \<Rightarrow> policy_row) \<Rightarrow> int \<Rightarrow> int \<Rightarrow> 'v db \<Rightarrow> bool" where
  "progress pid s f k c s' \<longleftrightarrow> (\<forall>q. gp_uuid (f q) = gp_uuid q)
     \<and> tables s' = tables (upd_all pid f s) \<and> c = k * hits pid s"

lemma progress_step:
  assumes "progress pid s f k c s1" "opt_step x g c s1 = (Inr c', s2)"
    "\<And>v. x = Some v \<Longrightarrow> did pid (h v) 1 (g v)" "\<And>v q. gp_uuid (h v q) = gp_uuid q"
  shows "progress pid s (\<lambda>q. case x of None \<Rightarrow> f q | Some v \<Rightarrow> h v (f q)) (k + given x) c' s2"
proof -
  let ?h = "\<lambda>q. case x of None \<Rightarrow> q | Some v \<Rightarrow> h v q"
  from assms(1) have f: "gp_uuid (f q) = gp_uuid q" for q by (simp add: progress_def)
  have 2: "tables s2 = tables (upd_all pid ?h s1) \<and> c' = c + given x * hits pid s1"
    using did_opt_step [of x pid h g] assms(2,3) by blast
  have "tables (upd_all pid ?h s1) = tables (upd_all pid ?h (upd_all pid f s))"
    using assms(1) by (intro tables_upd_all) (simp add: progress_def)
  also have "\<dots> = tables (upd_all pid (\<lambda>q. case x of None \<Rightarrow> f q | Some v \<Rightarrow> h v (f q)) s)"
    using f by (simp add: upd_all_upd_all o_def)
  finally have "tables s2 = \<dots>" using 2 by simp
  moreover have "hits pid s1 = hits pid s"
    using assms(1) f tables_hits [of s1 "upd_all pid f s"] by (simp add: progress_def hits_upd_all)
  ultimately show ?thesis
    using 2 assms(1,4) f by (auto simp: progress_def algebra_simps split: option.splits)
qed

lemma progress_eqI: "progress pid s f k c s' \<Longrightarrow> f = g \<Longrightarrow> k = j \<Longrightarrow> progress pid s g j c s'"
  by simp

lemma did_Set:
  "did pid (\<lambda>p. p\<lparr>gp_group := g\<rparr>) 1 (SetPolicyGroup pid g)"
  "did pid (\<lambda>p. p\<lparr>gp_priority := n\<rparr>) 1 (SetPolicyPriority pid n)"
  "did pid (\<lambda>p. p\<lparr>gp_resource := res\<rparr>) 1 (SetPolicyResource pid res)"
  "did pid (\<lambda>p. case parse_effect eff of None \<Rightarrow> p | Some e \<Rightarrow> p\<lparr>gp_effect := e\<rparr>) 1 (SetPolicyEffect pid eff)"
  "did pid (\<lambda>p. case parse_action act of None \<Rightarrow> p | Some a \<Rightarrow> p\<lparr>gp_action := a\<rparr>) 1 (SetPolicyAction pid act)"
  unfolding SetPolicyGroup_def SetPolicyPriority_def SetPolicyResource_def SetPolicyEffect_def SetPolicyAction_def
  by (rule did_update did_stmt_case)+

lemma with_tx_Inr:
  fixes s :: "'v db"
  assumes "with_tx body s = (Inr a, s')"
  obtains s1 s2 where "tables s1 = tables s" "body s1 = (Inr a, s2)" "tables s' = tables s2"
proof -
  have b: "tables (snd (stmt (ret ()) t)) = tables t" for t :: "'v db"
    by (rule stmt_cases [of "ret ()" t]) (auto simp: ret_def)
  obtain r1 s1 where s1: "stmt (ret ()) s = (r1, s1)" by force
  obtain r2 s2 where s2: "body s1 = (r2, s2)" by force
  obtain r3 s3 where s3: "stmt (ret ()) s2 = (r3, s3)" by force
  have "r2 = Inr a" "s' = s3"
    using assms s1 s2 s3 by (auto simp: with_tx_def split: sum.splits)
  with that [of s1 s2] s1 s2 s3 b [of s] b [of s2] show ?thesis by simp
qed

lemma Policy_Update_body_Inr:
  assumes "Policy_Update_body pid p s = (Inr n, s')"
  shows "tables s' = tables (upd_all pid (revise p) s)"
    and "n = (given (upp_GroupUuid p) + given (upp_Priority p) + given (upp_Effect p)
              + given (upp_Action p) + given (upp_Resource p)) * hits pid s"
    and "pid \<in> set (map gp_uuid (group_policies s))"
proof -
  obtain cur sa sb c1 s1 c2 s2 c3 s3 c4 s4 s5 c5 where
    find: "FindPolicyByUUID pid s = (Inr cur, sa)" and
    val: "validatePolicyRule (next_rule pid p cur) sa = (Inr (), sb)" and
    u: "opt_step (upp_GroupUuid p) (SetPolicyGroup pid) 0 sb = (Inr c1, s1)"
       "opt_step (upp_Priority p) (\<lambda>n. SetPolicyPriority pid (to_i32 n)) c1 s1 = (Inr c2, s2)"
       "opt_step (upp_Effect p) (SetPolicyEffect pid) c2 s2 = (Inr c3, s3)"
       "opt_step (upp_Action p) (SetPolicyAction pid) c3 s3 = (Inr c4, s4)"
       "opt_step (upp_Resource p) (SetPolicyResource pid) c4 s4 = (Inr c5, s5)" and
    last: "(if c5 = 0 then andthen (FindPolicyByUUID pid) (\<lambda>_. ret c5) else ret c5) s5 = (Inr n, s')"
    using assms unfolding Policy_Update_body_def by (auto elim!: andthen_cases)
  have "tables sb = tables s"
    using readsD [OF reads_FindPolicies(2) find] readsD [OF reads_validatePolicyRule val] by simp
  then have 0: "progress pid s (\<lambda>q. q) 0 0 sb" by (simp add: progress_def upd_all_def)
  note 1 = progress_step [OF 0 u(1), of "\<lambda>g p. p\<lparr>gp_group := g\<rparr>", OF did_Set(1), simplified]
  note 2 = progress_step [OF 1 u(2), of "\<lambda>n p. p\<lparr>gp_priority := to_i32 n\<rparr>", OF did_Set(2), simplified]
  note 3 = progress_step [OF 2 u(3), of "\<lambda>eff p. case parse_effect eff of None \<Rightarrow> p | Some e \<Rightarrow> p\<lparr>gp_effect := e\<rparr>",
      OF did_Set(4)]
  note 4 = progress_step [OF 3 u(4), of "\<lambda>act p. case parse_action act of None \<Rightarrow> p | Some a \<Rightarrow> p\<lparr>gp_action := a\<rparr>",
      OF _ did_Set(5)]
  note 5 = progress_step [OF 4 u(5), of "\<lambda>r p. p\<lparr>gp_resource := r\<rparr>", OF _ _ did_Set(3)]
  have "reads (if c5 = 0 then andthen (FindPolicyByUUID pid) (\<lambda>_. ret c5) else ret c5)"
    by (auto intro!: reads_andthen)
  from readsD [OF this last] have 6: "tables s' = tables s5" .
  moreover have "n = c5" using last by (auto simp: ret_def split: if_splits elim!: andthen_cases)
  moreover have "progress pid s (revise p)
      (given (upp_GroupUuid p) + given (upp_Priority p) + given (upp_Effect p)
              + given (upp_Action p) + given (upp_Resource p)) c5 s5"
    by (rule progress_eqI [OF 5]) (auto simp: revise_def or_default_def fun_eq_iff split: option.splits)
  moreover have "pid \<in> set (map gp_uuid (group_policies s))"
    using stmt_Inr [OF find [unfolded FindPolicyByUUID_def sel_one_def]]
    by (auto split: list.splits dest: filter_eq_ConsD)
  ultimately show "pid \<in> set (map gp_uuid (group_policies s))" "tables s' = tables (upd_all pid (revise p) s)"
    "n = (given (upp_GroupUuid p) + given (upp_Priority p) + given (upp_Effect p)
              + given (upp_Action p) + given (upp_Resource p)) * hits pid s"
    by (simp_all add: progress_def)
qed

section \<open>Properties\<close>

text \<open>
  C3: A rule refused because an existing policy shadows it is redundant: storing it would not
  change the answer to any access question, for any user, action and resource.  The
  refusal therefore never takes a permission, or a prohibition, away from anybody.
\<close>

theorem shadowed_rule_redundant:
  assumes "policies_ok s" and "healthy s" and "validatePolicyRuleShape rule = None"
    and "fst (validatePolicyRule rule s) = Inl err"
    and "pr_Effect rule = effect_str eff" and "pr_Action rule = action_str act"
  shows "permitted (s\<lparr>group_policies := group_policies s @ [rule_row newid rule eff act]\<rparr>) uid a res
       = permitted s uid a res"
proof -
  obtain e where e: "e \<in> set (group_policies s)" "gp_group e = pr_GroupUUID rule" "shadow_error rule e = Some err"
    using validatePolicyRule_shadowed [OF assms(2-4)] .
  from shadow_error_Some [OF e(3)] have sh: "policyShadows e rule" "gp_action e = act"
    using assms(6) by simp_all
  from assms(1) e(1) have "validatePolicyResource (gp_resource e) = None"
    by (auto simp: policies_ok_def list_all_iff policy_ok_def)
  moreover from sh(1) have "policyResourceCovers (gp_resource e) (pr_Resource rule)"
    by (simp add: policyShadows_def split: if_splits)
  ultimately have "like (pr_Resource rule) r \<Longrightarrow> like (gp_resource e) r" for r
    by (rule covers_sound)
  then show ?thesis
    using e policyShadows_rank [OF sh(1) assms(5)] sh(2)
    by (intro permitted_add_redundant [of e]) (auto simp: rule_row_def)
qed

definition policy_db :: "unit db" where
  "policy_db = access_db\<lparr>groups := [\<lparr>g_uuid = ''g1'', g_name = ''a''\<rparr>, \<lparr>g_uuid = ''g2'', g_name = ''b''\<rparr>]\<rparr>"

definition shadowed_sample :: policyRule where
  "shadowed_sample = \<lparr>pr_ID = None, pr_GroupUUID = ''g1'', pr_Priority = 7, pr_Effect = ''deny'',
     pr_Action = ''read'', pr_Resource = ''ts/9''\<rparr>"

lemma policy_db_ok: "policies_ok policy_db" "healthy policy_db"
  by code_simp+

theorem shadowed_rule_redundant_witness:
  "fst (validatePolicyRule shadowed_sample policy_db)
     = Inl (NewBadRequestError ''policy is shadowed by existing policy p1'')
   \<and> permitted (policy_db\<lparr>group_policies := group_policies policy_db @ [rule_row ''p3'' shadowed_sample Deny Read]\<rparr>)
       ''u1'' Read ''ts/1'' = permitted policy_db ''u1'' Read ''ts/1''"
proof -
  have sh: "validatePolicyRuleShape shadowed_sample = None" by code_simp
  have "fst (validatePolicyRule shadowed_sample policy_db)
     = Inl (NewBadRequestError ''policy is shadowed by existing policy p1'')" by code_simp
  moreover have "pr_Effect shadowed_sample = effect_str Deny" "pr_Action shadowed_sample = action_str Read"
    by (simp_all add: shadowed_sample_def)
  ultimately show ?thesis
    using shadowed_rule_redundant [OF policy_db_ok sh] by blast
qed

lemma hits_unique:
  assumes "distinct (map gp_uuid (group_policies s))" "pid \<in> set (map gp_uuid (group_policies s))"
  shows "hits pid s = 1"
proof -
  obtain p where "p \<in> set (group_policies s)" "gp_uuid p = pid" using assms(2) by auto
  from filter_key_unique [OF assms(1) this] show ?thesis by (simp add: hits_def)
qed

text \<open>
  C4: Changing a policy is all or nothing.  When \<^verbatim>\<open>PolicyService.Update\<close> fails, at whatever
  statement and for whatever reason, no table has changed; when it succeeds the policy
  exists, exactly the given fields of exactly that row have their new values (a priority
  reduced to 32 bits), nothing else has changed, and the count returned is the number
  of given fields.
\<close>

theorem policy_update_atomic:
  assumes "policies_ok s" and "Policy_Update pid p s = (r, s')"
  shows "case r of
      Inl e \<Rightarrow> tables s' = tables s
    | Inr n \<Rightarrow> tables s' = tables (upd_all pid (revise p) s)
        \<and> pid \<in> set (map gp_uuid (group_policies s))
        \<and> n = given (upp_GroupUuid p) + given (upp_Priority p) + given (upp_Effect p)
              + given (upp_Action p) + given (upp_Resource p)"
proof (cases r)
  case (Inl e)
  with assms show ?thesis by (auto simp: Policy_Update_def dest: with_tx_Inl)
next
  case (Inr n)
  with assms obtain s1 s2 where t: "tables s1 = tables s" "Policy_Update_body pid p s1 = (Inr n, s2)"
      "tables s' = tables s2"
    by (auto simp: Policy_Update_def elim: with_tx_Inr)
  from t(1) have eq: "group_policies s1 = group_policies s"
    by (cases s; cases s1) (simp add: tables_def)
  note body = Policy_Update_body_Inr [OF t(2)]
  from body(3) assms(1) have "hits pid s1 = 1"
    by (intro hits_unique) (auto simp: eq policies_ok_def)
  with body t eq tables_upd_all [OF t(1)] Inr show ?thesis by simp
qed

definition update_sample :: UpdatePolicyParams where
  "update_sample = \<lparr>upp_GroupUuid = None, upp_Priority = Some 4294967297, upp_Effect = Some ''deny'',
     upp_Action = None, upp_Resource = None\<rparr>"

theorem policy_update_atomic_witness:
  "fst (Policy_Update ''p1'' update_sample policy_db) = Inr 2
   \<and> tables (snd (Policy_Update ''p1'' update_sample policy_db)) = tables (upd_all ''p1'' (revise update_sample) policy_db)"
proof -
  have r: "fst (Policy_Update ''p1'' update_sample policy_db) = Inr 2" by code_simp
  then show ?thesis
    using policy_update_atomic [OF policy_db_ok(1), of "''p1''" update_sample "Inr 2"
        "snd (Policy_Update ''p1'' update_sample policy_db)"]
    by (cases "Policy_Update ''p1'' update_sample policy_db") auto
qed

lemma find_added:
  assumes "gp_uuid p \<notin> set (map gp_uuid ps)"
  shows "filter (\<lambda>q. gp_uuid q = gp_uuid p) (ps @ [p]) = [p]"
  using filter_key_notin [OF assms] by simp

text \<open>
  Adding a policy either fails and changes no table, or stores one row with the
  parameters it was given, under the key drawn for it; the row is returned and a
  following \<^verbatim>\<open>FindByUuid\<close> finds it.
\<close>

theorem policy_add_find:
  assumes "Policy_Add newid p s = (r, s')"
  shows "case r of
      Inl e \<Rightarrow> tables s' = tables s
    | Inr q \<Rightarrow> tables s' = tables (s\<lparr>group_policies := group_policies s @ [q]\<rparr>)
        \<and> gp_uuid q = newid \<and> gp_group q = np_GroupUuid p \<and> gp_priority q = np_Priority p
        \<and> effect_str (gp_effect q) = np_Effect p \<and> action_str (gp_action q) = np_Action p
        \<and> gp_resource q = np_Resource p
        \<and> (healthy s' \<longrightarrow> fst (Policy_FindByUuid newid s') = Inr q)"
  using assms unfolding Policy_Add_def
proof (elim andthen_cases)
  fix e assume "validatePolicyRule (new_rule p) s = (Inl e, s')" "r = Inl e"
  then show ?thesis using readsD [OF reads_validatePolicyRule] by auto
next
  fix u s1
  assume v: "validatePolicyRule (new_rule p) s = (Inr u, s1)"
    and c: "CreatePolicy newid (np_GroupUuid p) (np_Priority p) (np_Effect p) (np_Action p) (np_Resource p) s1 = (r, s')"
  from readsD [OF reads_validatePolicyRule v] have t: "tables s1 = tables s" .
  show ?thesis
  proof (cases r)
    case (Inl e)
    from c have "tables s' = tables s1" unfolding CreatePolicy_def Inl
      by (rule stmt_Inl) (auto simp: insert_policy_def split: option.splits if_splits)
    with Inl t show ?thesis by simp
  next
    case (Inr q)
    from t have eq: "tables (s1\<lparr>faults := fs, group_policies := ps\<rparr>) = tables (s\<lparr>group_policies := ps\<rparr>)"
      "group_policies s1 = group_policies s" for ps fs
      by (cases s; cases s1; simp add: tables_def)+
    from stmt_Inr [OF c [unfolded CreatePolicy_def Inr]]
    have "gp_uuid q \<notin> set (map gp_uuid (group_policies s))" "group_policies s' = group_policies s @ [q]"
      "tables s' = tables (s\<lparr>group_policies := group_policies s @ [q]\<rparr>)"
      "gp_uuid q = newid" "gp_group q = np_GroupUuid p" "gp_priority q = np_Priority p"
      "effect_str (gp_effect q) = np_Effect p" "action_str (gp_action q) = np_Action p"
      "gp_resource q = np_Resource p"
      using eq by (auto simp: insert_policy_def parse_effect_Some parse_action_Some split: option.splits if_splits)
    moreover from this(1,2,4) have "healthy s' \<longrightarrow> fst (Policy_FindByUuid newid s') = Inr q"
      using find_added [of q "group_policies s"]
      by (simp add: Policy_FindByUuid_def FindPolicyByUUID_def sel_one_def dbsimps)
    ultimately show ?thesis using Inr by simp
  qed
qed

definition add_sample :: NewPolicyParams where
  "add_sample = \<lparr>np_GroupUuid = ''g2'', np_Priority = 2, np_Effect = ''allow'', np_Action = ''read'',
     np_Resource = ''ts/9''\<rparr>"

theorem policy_add_find_witness:
  "fst (Policy_FindByUuid ''p3'' (snd (Policy_Add ''p3'' add_sample policy_db)))
    = fst (Policy_Add ''p3'' add_sample policy_db)"
proof -
  obtain r s' where eq: "Policy_Add ''p3'' add_sample policy_db = (r, s')" by force
  have "is_ok (fst (Policy_Add ''p3'' add_sample policy_db))" "healthy (snd (Policy_Add ''p3'' add_sample policy_db))"
    by code_simp+
  then obtain q where "r = Inr q" "healthy s'" using eq by (auto simp: is_ok_iff)
  then show ?thesis using policy_add_find [OF eq] eq by simp
qed

end
