(* ===== verification/GoTime.thy ===== *)
theory GoTime
  imports GoStrings
begin

text \<open>
  Go's \<^verbatim>\<open>time\<close> package, as far as the time series service uses it.  An instant is the
  number of nanoseconds since 1970-01-01 UTC; a location is its zone lookup, a function
  from seconds to the offset in force and the interval in which it is, as in
  \<^verbatim>\<open>Location.lookup\<close>.  All durations the code truncates to divide the distance between
  Go's zero time and 1970, so truncation can count from 1970.
\<close>

section \<open>Instants and durations\<close>

abbreviation microsecond :: int where "microsecond \<equiv> 1000"
abbreviation millisecond :: int where "millisecond \<equiv> 1000000"
abbreviation second :: int where "second \<equiv> 1000000000"
abbreviation minute :: int where "minute \<equiv> 60000000000"
abbreviation hour :: int where "hour \<equiv> 3600000000000"
abbreviation day :: int where "day \<equiv> 86400000000000"

definition Truncate :: "int \<Rightarrow> int \<Rightarrow> int" where
  "Truncate d t = t - t mod d"

lemma Truncate_div: "Truncate d t = d * (t div d)"
  by (simp add: Truncate_def minus_mod_eq_mult_div)

lemma Truncate_le: "0 < d \<Longrightarrow> Truncate d t \<le> t"
  by (simp add: Truncate_def)

lemma Truncate_gt: "0 < d \<Longrightarrow> t < Truncate d t + d"
  by (simp add: Truncate_def)

lemma Truncate_idem [simp]: "Truncate d (Truncate d t) = Truncate d t"
  by (cases "d = 0") (simp_all add: Truncate_div)

lemma Truncate_mod [simp]: "Truncate d t mod d = 0"
  by (simp add: Truncate_div)

lemma Truncate_unique:
  assumes "b mod d = 0" "b \<le> t" "t < b + d"
  shows "Truncate d t = b"
proof -
  from assms(1) obtain q where q: "b = d * q" by blast
  then have "t mod d = (t - b + d * q) mod d" by simp
  also have "\<dots> = (t - b) mod d" by (rule mod_mult_self2)
  also have "\<dots> = t - b" using assms(2,3) by simp
  finally show ?thesis by (simp add: Truncate_def)
qed

text \<open>A cell lies at or after a grid point exactly when its instants do.\<close>

lemma Truncate_ge:
  assumes "0 < d" "g mod d = 0"
  shows "g \<le> Truncate d t \<longleftrightarrow> g \<le> t"
proof
  assume "g \<le> t"
  show "g \<le> Truncate d t"
  proof (rule ccontr)
    assume "\<not> g \<le> Truncate d t"
    moreover obtain q where q: "g = d * q" using assms(2) by blast
    ultimately have "t div d < q" using assms(1) by (simp add: Truncate_div)
    then have "d * (t div d + 1) \<le> d * q" using assms(1) by (intro mult_left_mono) auto
    then have "Truncate d t + d \<le> g" using q by (simp add: Truncate_div distrib_left)
    with \<open>g \<le> t\<close> Truncate_gt [OF assms(1), of t] show False by simp
  qed
next
  assume "g \<le> Truncate d t"
  then show "g \<le> t" using Truncate_le [OF assms(1), of t] by simp
qed

text \<open>A coarser grid that refines to a finer one sees the same cell.\<close>

lemma Truncate_Truncate:
  assumes "0 < c" "0 < k"
  shows "Truncate (k * c) (Truncate c t) = Truncate (k * c) t"
proof (rule Truncate_unique)
  show "Truncate (k * c) t mod (k * c) = 0" by simp
  have "Truncate (k * c) t = c * (k * (t div (k * c)))" by (simp add: Truncate_div)
  moreover have "k * (t div (k * c)) \<le> t div c"
    using assms by (simp add: zdiv_zmult2_eq [of _ t c] mult.commute [of k c] minus_mod_eq_mult_div [symmetric])
  ultimately show "Truncate (k * c) t \<le> Truncate c t" using assms by (simp add: Truncate_div)
  show "Truncate c t < Truncate (k * c) t + k * c"
    using Truncate_le [of c t] Truncate_gt [of "k * c" t] assms by simp
qed

section \<open>The calendar\<close>

text \<open>Days since 1970 to year, month and day, and back (proleptic Gregorian calendar).\<close>

definition civil :: "int \<Rightarrow> int \<times> int \<times> int" where
  "civil z = (let z = z + 719468; era = z div 146097; doe = z mod 146097;
      yoe = (doe - doe div 1460 + doe div 36524 - doe div 146096) div 365;
      doy = doe - (365 * yoe + yoe div 4 - yoe div 100);
      mp = (5 * doy + 2) div 153;
      d = doy - (153 * mp + 2) div 5 + 1;
      m = (if mp < 10 then mp + 3 else mp - 9);
      y = yoe + era * 400 + (if m \<le> 2 then 1 else 0)
    in (y, m, d))"

definition civil_days :: "int \<Rightarrow> int \<Rightarrow> int \<Rightarrow> int" where
  "civil_days y m d = (let y' = (if m \<le> 2 then y - 1 else y); era = y' div 400; yoe = y' mod 400;
      mp = (if m > 2 then m - 3 else m + 9);
      doy = (153 * mp + 2) div 5 + d - 1;
      doe = yoe * 365 + yoe div 4 - yoe div 100 + doy
    in era * 146097 + doe - 719468)"

lemma civil_examples:
  "civil 0 = (1970, 1, 1)" "civil 19723 = (2024, 1, 1)" "civil 19782 = (2024, 2, 29)" "civil (- 1) = (1969, 12, 31)"
  "civil 11016 = (2000, 2, 29)" "civil_days 2024 2 29 = 19782" "civil_days 2001 1 1 = 11323"
  by code_simp+

lemma year_of_era:
  assumes doe: "0 \<le> doe" "doe \<le> (146096::int)"
    and yoe: "yoe = (doe - doe div 1460 + doe div 36524 - doe div 146096) div 365"
    and doy: "doy = doe - (365 * yoe + yoe div 4 - yoe div 100)"
  shows "0 \<le> yoe \<and> yoe < 400 \<and> 0 \<le> doy \<and> doy \<le> 366"
proof (cases "doe = 146096")
  case True
  with yoe have "yoe = 399" by simp
  with True doy show ?thesis by simp
next
  case False
  define b where "b = doe div 36524"
  define r where "r = doe mod 36524"
  define q where "q = (24 * b + r) div 1460"
  define w where "w = (r - q) div 365"
  have d: "doe = 36524 * b + r" by (simp add: b_def r_def)
  have r: "0 \<le> r" "r < 36524" by (simp_all add: r_def)
  have b: "0 \<le> b" "b \<le> 3" using d r doe False by linarith+
  have c: "doe div 146096 = 0" using doe False by simp
  have "doe = 24 * b + r + 1460 * (25 * b)" using d by simp
  then have a: "doe div 1460 = 25 * b + q" unfolding q_def by (simp only: div_mult_self2 [of 1460])
  have "doe - doe div 1460 + doe div 36524 - doe div 146096 = r - q + 365 * (100 * b)"
    using a c d unfolding b_def [symmetric] by simp
  then have y: "yoe = 100 * b + w" unfolding yoe w_def by simp
  have q: "1460 * q \<le> 24 * b + r" "24 * b + r < 1460 * q + 1460"
    unfolding q_def using pos_mod_bound [of 1460 "24 * b + r"] by (simp_all add: mult_div_mod_eq [symmetric])
  have w: "365 * w \<le> r - q" "r - q < 365 * w + 365"
    unfolding w_def using pos_mod_bound [of 365 "r - q"] by (simp_all add: mult_div_mod_eq [symmetric])
  have w_bounds: "0 \<le> w" "w \<le> 99" using w q r b by linarith+
  define k where "k = w div 4"
  have k: "4 * k \<le> w" "w < 4 * k + 4" unfolding k_def by simp_all
  have "yoe div 4 = 25 * b + k" using y by (simp add: k_def)
  moreover have "yoe div 100 = b" using y w_bounds by simp
  ultimately have "doy = r - 365 * w - k" using doy d y by simp
  moreover have "k \<le> q" "q \<le> k + 1" using k w q b r by linarith+
  ultimately show ?thesis using y b w_bounds w by linarith
qed

lemma civil_days_civil:
  assumes "civil z = (y, m, d)"
  shows "civil_days y m (d + n) = z + n"
proof -
  define doe where "doe = (z + 719468) mod 146097"
  define era where "era = (z + 719468) div 146097"
  define yoe where "yoe = (doe - doe div 1460 + doe div 36524 - doe div 146096) div 365"
  define doy where "doy = doe - (365 * yoe + yoe div 4 - yoe div 100)"
  define mp where "mp = (5 * doy + 2) div 153"
  have doe: "0 \<le> doe" "doe \<le> 146096" unfolding doe_def using pos_mod_bound [of 146097 "z + 719468"] by simp_all
  note yb = year_of_era [OF doe yoe_def doy_def]
  then have "0 \<le> mp" unfolding mp_def by (simp add: pos_imp_zdiv_nonneg_iff)
  moreover have "5 * doy + 2 < 153 * 12" using yb by linarith
  then have "mp \<le> 11" unfolding mp_def by simp
  ultimately have mp: "0 \<le> mp" "mp \<le> 11" by simp_all
  have m: "m = (if mp < 10 then mp + 3 else mp - 9)" and d: "d = doy - (153 * mp + 2) div 5 + 1"
    and y: "y = yoe + era * 400 + (if m \<le> 2 then 1 else 0)"
    using assms unfolding civil_def Let_def doe_def [symmetric] era_def [symmetric] yoe_def [symmetric]
      doy_def [symmetric] mp_def [symmetric] by auto
  have m2: "(m \<le> 2) = (\<not> mp < 10)" using m mp by auto
  have y': "(if m \<le> 2 then y - 1 else y) = yoe + era * 400" using y by simp
  have mp': "(if m > 2 then m - 3 else m + 9) = mp" using m m2 by auto
  have e: "(yoe + era * 400) div 400 = era" "(yoe + era * 400) mod 400 = yoe" using yb by auto
  have "z + 719468 = era * 146097 + doe" by (simp add: era_def doe_def)
  then show ?thesis unfolding civil_days_def Let_def y' mp' e using d doy_def by simp
qed

section \<open>Locations\<close>

record zone_lookup =
  zl_offset :: int
  zl_start :: int
  zl_end :: int

type_synonym zone = "int \<Rightarrow> zone_lookup"

definition UTC :: zone where
  "UTC = (\<lambda>_. \<lparr>zl_offset = 0, zl_start = 0, zl_end = 0\<rparr>)"

definition local_secs :: "zone \<Rightarrow> int \<Rightarrow> int" where
  "local_secs z t = t div second + zl_offset (z (t div second))"

definition local_days :: "zone \<Rightarrow> int \<Rightarrow> int" where
  "local_days z t = local_secs z t div 86400"

definition Year :: "zone \<Rightarrow> int \<Rightarrow> int" where
  "Year z t = fst (civil (local_days z t))"

definition Month :: "zone \<Rightarrow> int \<Rightarrow> int" where
  "Month z t = fst (snd (civil (local_days z t)))"

definition Day :: "zone \<Rightarrow> int \<Rightarrow> int" where
  "Day z t = snd (snd (civil (local_days z t)))"

definition Hour :: "zone \<Rightarrow> int \<Rightarrow> int" where
  "Hour z t = local_secs z t mod 86400 div 3600"

definition Minute :: "zone \<Rightarrow> int \<Rightarrow> int" where
  "Minute z t = local_secs z t mod 3600 div 60"

definition Second :: "zone \<Rightarrow> int \<Rightarrow> int" where
  "Second z t = local_secs z t mod 60"

text \<open>0 is Sunday; 1970-01-01 was a Thursday.\<close>

definition Weekday :: "zone \<Rightarrow> int \<Rightarrow> int" where
  "Weekday z t = (local_days z t + 4) mod 7"

text \<open>
  \<^verbatim>\<open>time.Date\<close>: the wall clock reading in the location, with the offset looked up first as
  if the reading were UTC and again when that offset was not in force.
\<close>

definition Date :: "int \<Rightarrow> int \<Rightarrow> int \<Rightarrow> int \<Rightarrow> int \<Rightarrow> int \<Rightarrow> int \<Rightarrow> zone \<Rightarrow> int" where
  "Date y m d h mi s ns z =
     (let unix = civil_days y m d * 86400 + h * 3600 + mi * 60 + s;
          l = z unix;
          off = (if zl_offset l = 0 then 0
                 else let utc = unix - zl_offset l
                      in if utc < zl_start l \<or> utc \<ge> zl_end l then zl_offset (z utc) else zl_offset l)
      in (unix - off) * second + ns)"

definition AddDate_days :: "int \<Rightarrow> zone \<Rightarrow> int \<Rightarrow> int" where
  "AddDate_days n z t = Date (Year z t) (Month z t) (Day z t + n) (Hour z t) (Minute z t) (Second z t) (t mod second) z"

text \<open>Go's integer division rounds towards zero.\<close>

definition go_div :: "int \<Rightarrow> int \<Rightarrow> int" where
  "go_div a b = (if a \<ge> 0 then a div b else - ((- a) div b))"

section \<open>Days in UTC\<close>

lemma local_days_UTC: "local_days UTC t = t div day"
  by (simp add: local_days_def local_secs_def UTC_def zdiv_zmult2_eq [symmetric])

lemma Date_UTC: "Date y m d h mi s ns UTC = (civil_days y m d * 86400 + h * 3600 + mi * 60 + s) * second + ns"
  by (simp add: Date_def UTC_def Let_def)

text \<open>Midnight of a UTC date, some days later: the grid of whole days.\<close>

lemma Date_midnight:
  "Date (Year UTC t) (Month UTC t) (Day UTC t + n) 0 0 0 0 UTC = Truncate day t + n * day"
proof -
  obtain y m d where c: "civil (t div day) = (y, m, d)" by (metis prod_cases3)
  have "civil_days y m (d + n) = t div day + n" by (rule civil_days_civil [OF c])
  then show ?thesis
    by (simp add: Date_UTC Year_def Month_def Day_def local_days_UTC c Truncate_div algebra_simps)
qed

lemma local_secs_UTC: "local_secs UTC t = t div second"
  by (simp add: local_secs_def UTC_def)

lemma AddDate_days_UTC: "AddDate_days n UTC t = t + n * day"
proof -
  obtain y m d where c: "civil (t div day) = (y, m, d)" by (metis prod_cases3)
  have cd: "civil_days y m (d + n) = t div day + n" by (rule civil_days_civil [OF c])
  let ?s = "t div second"
  have "t div day = ?s div 86400" by (simp add: zdiv_zmult2_eq [symmetric])
  moreover have "?s mod 86400 mod 3600 = ?s mod 3600" "?s mod 3600 mod 60 = ?s mod 60"
    by (simp_all add: mod_mod_cancel)
  then have "?s mod 86400 div 3600 * 3600 + ?s mod 3600 div 60 * 60 + ?s mod 60 = ?s mod 86400"
    using div_mult_mod_eq [of "?s mod 86400" 3600] div_mult_mod_eq [of "?s mod 3600" 60] by linarith
  ultimately have "t div day * 86400 + (?s mod 86400 div 3600 * 3600 + ?s mod 3600 div 60 * 60 + ?s mod 60) = ?s" by simp
  then have "(t div day * 86400 + ?s mod 86400 div 3600 * 3600 + ?s mod 3600 div 60 * 60 + ?s mod 60) * second + t mod second = t"
    by (simp add: add.assoc)
  then show ?thesis
    unfolding AddDate_days_def Year_def Month_def Day_def Hour_def Minute_def Second_def local_days_UTC c
      local_secs_UTC Date_UTC fst_conv snd_conv cd by (simp add: algebra_simps)
qed

end
