(* ===== verification/TsRanges.thy ===== *)
theory TsRanges
  imports GoTime Errors
begin

text \<open>
  The parts of \<^verbatim>\<open>internal/services/timeseries.go\<close> that cut a time range into whole rollup
  buckets and the raw ends left over, and that truncate an instant to its bucket.

  Timestamps in the database have microsecond resolution; the driver cuts the
  nanoseconds of a parameter off.
\<close>

section \<open>Cutting a range\<close>

type_synonym timeRange = "int \<times> int"

definition rollupSourceForPrecision :: "bool \<Rightarrow> string \<Rightarrow> string \<Rightarrow> string" where
  "rollupSourceForPrecision enabled timezone precision =
     (if \<not> enabled \<or> timezone \<noteq> ''UTC'' then ''''
      else if precision \<in> set [''day'', ''week'', ''month'', ''year'', ''decade'', ''century'', ''millennia''] then ''daily''
      else if precision = ''hour'' then ''hourly''
      else '''')"

definition splitDailyRollupRanges :: "int \<Rightarrow> int \<Rightarrow> timeRange option \<times> timeRange list" where
  "splitDailyRollupRanges start stop =
     (if stop < start then (None, [])
      else
        let first = Date (Year UTC start) (Month UTC start) (Day UTC start) 0 0 0 0 UTC;
            first = (if first < start then AddDate_days 1 UTC first else first);
            last = Date (Year UTC stop) (Month UTC stop) (Day UTC stop) 0 0 0 0 UTC;
            last = (if AddDate_days 1 UTC last > stop + microsecond then AddDate_days (- 1) UTC last else last)
        in if last < first then (None, [(start, stop)])
           else let left = (if start < first then [(start, first - microsecond)] else []);
                    rightStart = AddDate_days 1 UTC last;
                    right = (if rightStart < stop \<or> rightStart = stop then [(rightStart, stop)] else [])
                in (Some (first, last), left @ right))"

definition splitHourlyRollupRanges :: "int \<Rightarrow> int \<Rightarrow> timeRange option \<times> timeRange list" where
  "splitHourlyRollupRanges start stop =
     (if stop < start then (None, [])
      else
        let first = Truncate hour start;
            first = (if first < start then first + hour else first);
            last = Truncate hour stop;
            last = (if last + hour > stop + microsecond then last - hour else last)
        in if last < first then (None, [(start, stop)])
           else let left = (if start < first then [(start, first - microsecond)] else []);
                    rightStart = last + hour;
                    right = (if rightStart < stop \<or> rightStart = stop then [(rightStart, stop)] else [])
                in (Some (first, last), left @ right))"

definition splitRollupRanges :: "int \<Rightarrow> int \<Rightarrow> string \<Rightarrow> timeRange option \<times> timeRange list" where
  "splitRollupRanges start stop source =
     (if source = ''daily'' then splitDailyRollupRanges start stop
      else if source = ''hourly'' then splitHourlyRollupRanges start stop
      else (None, [(start, stop)]))"

definition canUseHourlyRollups :: "bool \<Rightarrow> string \<Rightarrow> string \<Rightarrow> bool" where
  "canUseHourlyRollups enabled timezone precision \<longleftrightarrow> rollupSourceForPrecision enabled timezone precision \<noteq> ''''"

section \<open>Truncating an instant\<close>

definition truncateByMinuteStep :: "int \<Rightarrow> zone \<Rightarrow> int \<Rightarrow> int" where
  "truncateByMinuteStep ts z step =
     Date (Year z ts) (Month z ts) (Day z ts) (Hour z ts) (Minute z ts div step * step) 0 0 z"

definition truncateWeek :: "int \<Rightarrow> zone \<Rightarrow> int" where
  "truncateWeek ts z =
     (let weekday = (if Weekday z ts = 0 then 7 else Weekday z ts);
          start = AddDate_days (- (weekday - 1)) z ts
      in Date (Year z start) (Month z start) (Day z start) 0 0 0 0 z)"

definition quoted :: "string \<Rightarrow> string" where
  "quoted s = CHR 0x22 # s @ [CHR 0x22]"

definition truncateTime :: "int \<Rightarrow> string \<Rightarrow> zone \<Rightarrow> int res" where
  "truncateTime ts precision loc =
     (if precision = ''microseconds'' then Inr (Truncate microsecond ts)
      else if precision = ''milliseconds'' then Inr (Truncate millisecond ts)
      else if precision = ''second'' then Inr (Truncate second ts)
      else if precision = ''minute'' then Inr (Truncate minute ts)
      else if precision = ''minute5'' then Inr (truncateByMinuteStep ts loc 5)
      else if precision = ''minute10'' then Inr (truncateByMinuteStep ts loc 10)
      else if precision = ''minute15'' then Inr (truncateByMinuteStep ts loc 15)
      else if precision = ''minute20'' then Inr (truncateByMinuteStep ts loc 20)
      else if precision = ''minute30'' then Inr (truncateByMinuteStep ts loc 30)
      else if precision = ''hour'' then Inr (Truncate hour ts)
      else if precision = ''day'' then Inr (Date (Year loc ts) (Month loc ts) (Day loc ts) 0 0 0 0 loc)
      else if precision = ''week'' then Inr (truncateWeek ts loc)
      else if precision = ''month'' then Inr (Date (Year loc ts) (Month loc ts) 1 0 0 0 0 loc)
      else if precision = ''year'' then Inr (Date (Year loc ts) 1 1 0 0 0 0 loc)
      else if precision = ''decade'' then Inr (Date (go_div (Year loc ts) 10 * 10) 1 1 0 0 0 0 loc)
      else if precision = ''century'' then Inr (Date (go_div (Year loc ts - 1) 100 * 100 + 1) 1 1 0 0 0 0 loc)
      else if precision = ''millennia'' then Inr (Date (go_div (Year loc ts - 1) 1000 * 1000 + 1) 1 1 0 0 0 0 loc)
      else Inl (NewInvalidRequestError (''unsupported precision '' @ quoted precision)))"

section \<open>One grid for hours and days\<close>

definition to_us :: "int \<Rightarrow> int" where
  "to_us t = Truncate microsecond t"

definition in_db_range :: "timeRange \<Rightarrow> int \<Rightarrow> bool" where
  "in_db_range r t \<longleftrightarrow> to_us (fst r) \<le> t \<and> t \<le> to_us (snd r)"

definition split_grid :: "int \<Rightarrow> int \<Rightarrow> int \<Rightarrow> timeRange option \<times> timeRange list" where
  "split_grid unit start stop =
     (if stop < start then (None, [])
      else
        let first = (if Truncate unit start < start then Truncate unit start + unit else Truncate unit start);
            last = (if Truncate unit stop + unit > stop + microsecond then Truncate unit stop - unit else Truncate unit stop)
        in if last < first then (None, [(start, stop)])
           else (Some (first, last),
                 (if start < first then [(start, first - microsecond)] else [])
                 @ (if last + unit \<le> stop then [(last + unit, stop)] else [])))"

lemma splitHourly_grid: "splitHourlyRollupRanges = split_grid hour"
  by (intro ext) (simp add: splitHourlyRollupRanges_def split_grid_def Let_def le_less)

lemma splitDaily_grid: "splitDailyRollupRanges = split_grid day"
proof (intro ext)
  fix start stop
  show "splitDailyRollupRanges start stop = split_grid day start stop"
    using Date_midnight [of start 0] Date_midnight [of stop 0]
    by (simp add: splitDailyRollupRanges_def split_grid_def Let_def le_less AddDate_days_UTC)
qed

definition rollup_hits :: "int \<Rightarrow> timeRange option \<Rightarrow> int \<Rightarrow> nat" where
  "rollup_hits unit roll t = (case roll of None \<Rightarrow> 0
     | Some (a, b) \<Rightarrow> if a \<le> Truncate unit t \<and> Truncate unit t \<le> b then 1 else 0)"

definition raw_hits :: "timeRange list \<Rightarrow> int \<Rightarrow> nat" where
  "raw_hits raws t = length (filter (\<lambda>r. in_db_range r t) raws)"

locale aligned_grid =
  fixes unit :: int
  assumes unit_pos: "0 < unit" and unit_us: "unit mod microsecond = 0"
begin

lemma below_us: "t mod microsecond = 0 \<Longrightarrow> t \<le> to_us b \<longleftrightarrow> t \<le> b"
  by (simp add: to_us_def Truncate_ge)

lemma grid_us: "g mod unit = 0 \<Longrightarrow> g mod microsecond = 0"
  using unit_us by (metis mod_0_imp_dvd dvd_trans mod_eq_0_iff_dvd)

lemma to_us_grid [simp]: "g mod unit = 0 \<Longrightarrow> to_us g = g" "g mod unit = 0 \<Longrightarrow> to_us (g - microsecond) = g - microsecond"
proof -
  assume "g mod unit = 0"
  then have g: "g mod microsecond = 0" by (rule grid_us)
  then show "to_us g = g" by (simp add: to_us_def Truncate_def)
  from g have "(g - microsecond) mod microsecond = 0" by (simp only: minus_mod_self2)
  then show "to_us (g - microsecond) = g - microsecond" by (simp add: to_us_def Truncate_def)
qed

lemma step_us:
  assumes "t mod microsecond = 0" "g mod microsecond = 0"
  shows "t \<le> g - microsecond \<longleftrightarrow> t < g"
proof -
  obtain a b where "t = microsecond * a" "g = microsecond * b" using assms by blast
  then show ?thesis by auto
qed

lemma cell_le:
  assumes "b mod unit = 0"
  shows "Truncate unit t \<le> b \<longleftrightarrow> t < b + unit"
proof
  assume "Truncate unit t \<le> b"
  then show "t < b + unit" using Truncate_gt [OF unit_pos, of t] by simp
next
  assume "t < b + unit"
  obtain q where q: "b = unit * q" using assms by blast
  from \<open>t < b + unit\<close> have "unit * (t div unit) < unit * (q + 1)"
    using Truncate_le [OF unit_pos, of t] q by (simp add: Truncate_div distrib_left)
  then have "t div unit \<le> q" using unit_pos by simp
  then show "Truncate unit t \<le> b" using unit_pos q by (simp add: Truncate_div)
qed

text \<open>Every stored instant of the range is in one whole bucket or one raw rest, never in two.\<close>

lemma split_grid_partition:
  assumes t: "t mod microsecond = 0" and le: "start \<le> stop"
    and s: "split_grid unit start stop = (roll, raws)"
  shows "rollup_hits unit roll t + raw_hits raws t = (if in_db_range (start, stop) t then 1 else 0)"
proof -
  define first where "first = (if Truncate unit start < start then Truncate unit start + unit else Truncate unit start)"
  define last where "last = (if Truncate unit stop + unit > stop + microsecond then Truncate unit stop - unit else Truncate unit stop)"
  have gf: "first mod unit = 0" and gl: "last mod unit = 0" "(last + unit) mod unit = 0"
    by (auto simp: first_def last_def mod_diff_right_eq)
  have sf: "start \<le> first" using Truncate_gt [OF unit_pos, of start] by (auto simp: first_def)
  have ls: "last + unit \<le> stop + microsecond" using Truncate_le [OF unit_pos, of stop] by (auto simp: last_def)
  show ?thesis
  proof (cases "last < first")
    case True
    then have "roll = None" "raws = [(start, stop)]"
      using s le by (auto simp: split_grid_def first_def [symmetric] last_def [symmetric] Let_def)
    then show ?thesis by (simp add: rollup_hits_def raw_hits_def)
  next
    case False
    then have r: "roll = Some (first, last)"
      "raws = (if start < first then [(start, first - microsecond)] else [])
                 @ (if last + unit \<le> stop then [(last + unit, stop)] else [])"
      using s le by (auto simp: split_grid_def first_def [symmetric] last_def [symmetric] Let_def)
    have hit: "rollup_hits unit roll t = (if first \<le> t \<and> t < last + unit then 1 else 0)"
      using r gf gl by (simp add: rollup_hits_def Truncate_ge unit_pos cell_le)
    have left: "in_db_range (start, first - microsecond) t \<longleftrightarrow> to_us start \<le> t \<and> t < first"
      using gf t step_us [OF t grid_us [OF gf]] by (simp add: in_db_range_def)
    have right: "in_db_range (last + unit, stop) t \<longleftrightarrow> last + unit \<le> t \<and> t \<le> stop"
      using gl t by (simp add: in_db_range_def below_us)
    have whole: "in_db_range (start, stop) t \<longleftrightarrow> to_us start \<le> t \<and> t \<le> stop"
      using t by (simp add: in_db_range_def below_us)
    have us: "to_us start \<le> start" by (simp add: to_us_def Truncate_le)
    have start_first: "to_us start = first" if "\<not> start < first" using that sf gf by simp
    have "t < last + unit \<Longrightarrow> t \<le> stop"
      using ls step_us [OF t grid_us [OF gl(2)]] by linarith
    then show ?thesis
      using False us sf start_first unit_pos unfolding hit r(2) raw_hits_def whole
      by (auto simp: left right)
  qed
qed

end

interpretation hours: aligned_grid hour
  by unfold_locales simp_all

interpretation days: aligned_grid day
  by unfold_locales simp_all

section \<open>A rollup bucket and its instants share their coarser bucket\<close>

lemma UTC_days_cong:
  assumes "local_days UTC a = local_days UTC b"
  shows "Year UTC a = Year UTC b" "Month UTC a = Month UTC b" "Day UTC a = Day UTC b" "Weekday UTC a = Weekday UTC b"
  using assms by (simp_all add: Year_def Month_def Day_def Weekday_def)

lemma local_days_floor: "local_days UTC (Truncate day t) = local_days UTC t"
  by (simp add: local_days_UTC Truncate_div)

lemma truncateWeek_floor: "truncateWeek (Truncate day t) UTC = truncateWeek t UTC"
proof -
  have "local_days UTC (Truncate day t + n * day) = local_days UTC (t + n * day)" for n
    by (simp add: local_days_UTC Truncate_div)
  from UTC_days_cong [OF this] UTC_days_cong [OF local_days_floor [of t]]
  show ?thesis by (simp only: truncateWeek_def AddDate_days_UTC Let_def)
qed

lemma daily_bucket:
  assumes "rollupSourceForPrecision True ''UTC'' p = ''daily''"
  shows "truncateTime (Truncate day t) p UTC = truncateTime t p UTC"
proof -
  have p: "p \<in> set [''day'', ''week'', ''month'', ''year'', ''decade'', ''century'', ''millennia'']"
    using assms by (simp add: rollupSourceForPrecision_def split: if_splits)
  note c = UTC_days_cong [OF local_days_floor [of t]]
  from p have "p = ''day'' \<or> p = ''week'' \<or> p = ''month'' \<or> p = ''year'' \<or> p = ''decade'' \<or> p = ''century'' \<or> p = ''millennia''"
    by simp
  then show ?thesis by (elim disjE) (simp_all add: truncateTime_def c truncateWeek_floor)
qed

lemma hourly_bucket:
  assumes "rollupSourceForPrecision True ''UTC'' p = ''hourly''"
  shows "truncateTime (Truncate hour t) p UTC = truncateTime t p UTC"
proof -
  have "p = ''hour''" using assms by (simp add: rollupSourceForPrecision_def split: if_splits)
  then show ?thesis by (simp add: truncateTime_def)
qed

section \<open>Properties\<close>

text \<open>
  C10: The split of a query range into whole rollup buckets and raw rests loses and repeats
  nothing: every stored instant (they have microsecond resolution) of the range the
  plain query would read falls into exactly one selected bucket or one raw rest, and an
  instant outside of the range into none.
\<close>

theorem rollup_split_exact:
  assumes "start \<le> stop" and "t mod microsecond = 0"
    and "splitRollupRanges start stop source = (roll, raws)"
  shows "rollup_hits (if source = ''daily'' then day else hour) roll t + raw_hits raws t
       = (if in_db_range (start, stop) t then 1 else 0)"
proof (cases "source = ''daily''")
  case True
  then show ?thesis
    using assms days.split_grid_partition [of t start stop roll raws] by (simp add: splitRollupRanges_def splitDaily_grid)
next
  case False
  show ?thesis
  proof (cases "source = ''hourly''")
    case True
    then show ?thesis
      using assms hours.split_grid_partition [of t start stop roll raws] by (simp add: splitRollupRanges_def splitHourly_grid)
  next
    case False
    with \<open>source \<noteq> ''daily''\<close> assms show ?thesis
      by (auto simp: splitRollupRanges_def rollup_hits_def raw_hits_def)
  qed
qed

theorem rollup_split_exact_witness:
  "\<exists>roll raws. splitRollupRanges (30 * minute) (3 * hour) ''hourly'' = (roll, raws)
     \<and> rollup_hits hour roll (2 * hour) + raw_hits raws (2 * hour) = 1
     \<and> rollup_hits hour roll (31 * minute) + raw_hits raws (31 * minute) = 1"
proof -
  obtain roll raws where s: "splitRollupRanges (30 * minute) (3 * hour) ''hourly'' = (roll, raws)" by force
  have "in_db_range (30 * minute, 3 * hour) (2 * hour)" "in_db_range (30 * minute, 3 * hour) (31 * minute)" by code_simp+
  with s rollup_split_exact [OF _ _ s, of "2 * hour"] rollup_split_exact [OF _ _ s, of "31 * minute"] show ?thesis
    by simp
qed

end
