(* ===== verification/TsBuckets.thy ===== *)
theory TsBuckets
  imports TsRanges
begin

text \<open>
  Aggregation in \<^verbatim>\<open>internal/services/timeseries.go\<close>: the value filter, the buckets kept in a
  map with a list of its keys, and the rows built from them.

  Go's floating point operations are a record \<open>'v fops\<close> of functions the definitions take:
  \<^verbatim>\<open><\<close>, \<^verbatim>\<open><=\<close>, \<^verbatim>\<open>+\<close>, \<^verbatim>\<open>/\<close>, the conversion from \<^verbatim>\<open>int64\<close>, and the rounding to \<^verbatim>\<open>float32\<close>.  Unit
  conversion (the \<^verbatim>\<open>units\<close> package) is a function argument.  A bucket's \<^verbatim>\<open>int64\<close> count
  stays below the number of rows read, so it does not wrap.
\<close>

record 'v fops =
  f_lt :: "'v \<Rightarrow> 'v \<Rightarrow> bool"
  f_le :: "'v \<Rightarrow> 'v \<Rightarrow> bool"
  f_zero :: 'v
  f_add :: "'v \<Rightarrow> 'v \<Rightarrow> 'v"
  f_div :: "'v \<Rightarrow> 'v \<Rightarrow> 'v"
  f_of_int :: "int \<Rightarrow> 'v"
  f_single :: "'v \<Rightarrow> 'v"

section \<open>The value filter\<close>

definition inValidRange :: "'v fops \<Rightarrow> 'v \<Rightarrow> 'v option \<Rightarrow> 'v option \<Rightarrow> bool" where
  "inValidRange F v leLimit geLimit =
     (case (leLimit, geLimit) of
        (Some le, Some ge) \<Rightarrow>
          if f_le F ge le then (if f_le F ge v \<and> f_le F v le then True else False)
          else (if f_le F ge v \<or> f_le F v le then True else False)
      | (Some le, None) \<Rightarrow> f_le F v le
      | (None, Some ge) \<Rightarrow> f_le F ge v
      | (None, None) \<Rightarrow> True)"

section \<open>Buckets\<close>

record 'v aggregateBucket =
  ab_ts :: int
  ab_count :: int
  ab_sum :: 'v
  ab_min :: 'v
  ab_max :: 'v

type_synonym 'v buckets = "(int \<Rightarrow> 'v aggregateBucket option) \<times> int list"

definition no_buckets :: "'v buckets" where
  "no_buckets = (\<lambda>_. None, [])"

text \<open>The pointer to a bucket that the map has, or a new one put into the map and the keys.\<close>

definition open_bucket :: "'v fops \<Rightarrow> 'v buckets \<Rightarrow> int \<Rightarrow> 'v \<Rightarrow> 'v \<Rightarrow> 'v buckets \<times> 'v aggregateBucket" where
  "open_bucket F st bucketTs mn mx = (case fst st bucketTs of
       Some b \<Rightarrow> (st, b)
     | None \<Rightarrow> let b = \<lparr>ab_ts = bucketTs, ab_count = 0, ab_sum = f_zero F, ab_min = mn, ab_max = mx\<rparr>
               in (((fst st)(bucketTs \<mapsto> b), snd st @ [bucketTs]), b))"

definition accumulateAggregateBucket ::
  "'v fops \<Rightarrow> int \<Rightarrow> int \<Rightarrow> 'v \<Rightarrow> 'v \<Rightarrow> 'v \<Rightarrow> 'v buckets \<Rightarrow> 'v buckets" where
  "accumulateAggregateBucket F bucketTs count tot mn mx st =
     (let (st', b) = open_bucket F st bucketTs mn mx;
          b = b\<lparr>ab_count := ab_count b + count, ab_sum := f_add F (ab_sum b) tot\<rparr>;
          b = (if f_lt F mn (ab_min b) then b\<lparr>ab_min := mn\<rparr> else b);
          b = (if f_lt F (ab_max b) mx then b\<lparr>ab_max := mx\<rparr> else b)
      in ((fst st')(bucketTs \<mapsto> b), snd st'))"

text \<open>The loop body of \<^verbatim>\<open>aggregateSingleSourceRows\<close> for one raw value.\<close>

definition bucket_row :: "'v fops \<Rightarrow> int \<Rightarrow> 'v \<Rightarrow> 'v buckets \<Rightarrow> 'v buckets" where
  "bucket_row F bucketTs v st =
     (let (st', b) = open_bucket F st bucketTs v v;
          b = b\<lparr>ab_count := ab_count b + 1, ab_sum := f_add F (ab_sum b) v\<rparr>;
          b = (if f_lt F v (ab_min b) then b\<lparr>ab_min := v\<rparr> else b);
          b = (if f_lt F (ab_max b) v then b\<lparr>ab_max := v\<rparr> else b)
      in ((fst st')(bucketTs \<mapsto> b), snd st'))"

definition aggregateBucketValue :: "'v fops \<Rightarrow> 'v aggregateBucket \<Rightarrow> string \<Rightarrow> 'v res" where
  "aggregateBucketValue F b aggregate =
     (if aggregate = ''avg'' then (if ab_count b = 0 then Inr (f_zero F) else Inr (f_div F (ab_sum b) (f_of_int F (ab_count b))))
      else if aggregate = ''min'' then Inr (ab_min b)
      else if aggregate = ''max'' then Inr (ab_max b)
      else if aggregate = ''count'' then Inr (f_of_int F (ab_count b))
      else if aggregate = ''sum'' then Inr (ab_sum b)
      else Inl (NewInvalidRequestError (''unsupported aggregate '' @ quoted aggregate)))"

section \<open>Rows of a result\<close>

record 'v TsRow =
  tr_V :: 'v
  tr_Ts :: int

record 'v agg_params =
  ap_Aggregate :: string
  ap_Precision :: string
  ap_LessOrEq :: "'v option"
  ap_GreaterOrEq :: "'v option"

text \<open>
  One key of the sorted keys: the aggregate, the unit conversion (\<^const>\<open>None\<close> when no unit is
  asked for; it may fail), the rounding and the filter.
\<close>

definition emit_bucket :: "'v fops \<Rightarrow> ('v \<Rightarrow> 'v option) option \<Rightarrow> 'v agg_params \<Rightarrow> 'v aggregateBucket \<Rightarrow> 'v TsRow list res" where
  "emit_bucket F conv p b = (case aggregateBucketValue F b (ap_Aggregate p) of
       Inl e \<Rightarrow> Inl e
     | Inr value \<Rightarrow>
         (case (case conv of None \<Rightarrow> Some value | Some c \<Rightarrow> c value) of
            None \<Rightarrow> Inl ErrorInvalidUnitConversion
          | Some w \<Rightarrow> let f = f_single F w in
              Inr (if inValidRange F f (ap_LessOrEq p) (ap_GreaterOrEq p)
                   then [\<lparr>tr_V = f, tr_Ts = ab_ts b\<rparr>] else [])))"

fun collect :: "('a \<Rightarrow> 'b list res) \<Rightarrow> 'a list \<Rightarrow> 'b list res" where
  "collect f [] = Inr []"
| "collect f (x # xs) = (case f x of Inl e \<Rightarrow> Inl e
     | Inr ys \<Rightarrow> (case collect f xs of Inl e \<Rightarrow> Inl e | Inr zs \<Rightarrow> Inr (ys @ zs)))"

definition buildSingleSourceAggregateResult ::
  "'v fops \<Rightarrow> ('v \<Rightarrow> 'v option) option \<Rightarrow> 'v agg_params \<Rightarrow> 'v buckets \<Rightarrow> 'v TsRow list res" where
  "buildSingleSourceAggregateResult F conv p st =
     collect (\<lambda>key. case fst st key of Some b \<Rightarrow> emit_bucket F conv p b | None \<Rightarrow> Inr []) (sort (snd st))"

text \<open>Loops over rows that stop at the first instant that cannot be truncated.\<close>

fun bucket_loop :: "('r \<Rightarrow> int res) \<Rightarrow> (int \<Rightarrow> 'r \<Rightarrow> 's \<Rightarrow> 's) \<Rightarrow> 'r list \<Rightarrow> 's \<Rightarrow> 's res" where
  "bucket_loop trunc step [] st = Inr st"
| "bucket_loop trunc step (r # rs) st =
     (case trunc r of Inl e \<Rightarrow> Inl e | Inr key \<Rightarrow> bucket_loop trunc step rs (step key r st))"

record 'v data_row =
  dr_uuid :: string
  dr_value :: 'v
  dr_ts :: int

record 'v aggregateRollupRow =
  ar_uuid :: string
  ar_bucket :: int
  ar_count :: int
  ar_sum :: 'v
  ar_min :: 'v
  ar_max :: 'v

definition aggregateSingleSourceRows ::
  "'v fops \<Rightarrow> ('v \<Rightarrow> 'v option) option \<Rightarrow> 'v data_row list \<Rightarrow> 'v agg_params \<Rightarrow> zone \<Rightarrow> 'v TsRow list res" where
  "aggregateSingleSourceRows F conv rows p z =
     (case bucket_loop (\<lambda>r. truncateTime (dr_ts r) (ap_Precision p) z)
             (\<lambda>key r. bucket_row F key (dr_value r)) rows no_buckets of
        Inl e \<Rightarrow> Inl e
      | Inr st \<Rightarrow> collect (\<lambda>key. case fst st key of Some b \<Rightarrow> emit_bucket F conv p b | None \<Rightarrow> Inr []) (sort (snd st)))"

definition aggregateSingleSourceFromSources ::
  "'v fops \<Rightarrow> ('v \<Rightarrow> 'v option) option \<Rightarrow> 'v data_row list \<Rightarrow> 'v aggregateRollupRow list \<Rightarrow> 'v agg_params \<Rightarrow> zone
    \<Rightarrow> 'v TsRow list res" where
  "aggregateSingleSourceFromSources F conv rawRows rollupRows p z =
     (case bucket_loop (\<lambda>r. truncateTime (dr_ts r) (ap_Precision p) z)
             (\<lambda>key r. accumulateAggregateBucket F key 1 (dr_value r) (dr_value r) (dr_value r)) rawRows no_buckets of
        Inl e \<Rightarrow> Inl e
      | Inr st \<Rightarrow>
          (case bucket_loop (\<lambda>r. truncateTime (ar_bucket r) (ap_Precision p) z)
                  (\<lambda>key r. accumulateAggregateBucket F key (ar_count r) (ar_sum r) (ar_min r) (ar_max r)) rollupRows st of
             Inl e \<Rightarrow> Inl e
           | Inr st' \<Rightarrow> buildSingleSourceAggregateResult F conv p st'))"

section \<open>What the buckets hold\<close>

type_synonym 'v contrib = "int \<times> 'v \<times> 'v \<times> 'v"

definition fresh_bucket :: "'v fops \<Rightarrow> int \<Rightarrow> 'v contrib \<Rightarrow> 'v aggregateBucket" where
  "fresh_bucket F k c = (case c of (n, s, mn, mx) \<Rightarrow>
     \<lparr>ab_ts = k, ab_count = 0, ab_sum = f_zero F, ab_min = mn, ab_max = mx\<rparr>)"

definition add_contrib :: "'v fops \<Rightarrow> 'v contrib \<Rightarrow> 'v aggregateBucket \<Rightarrow> 'v aggregateBucket" where
  "add_contrib F c b = (case c of (n, s, mn, mx) \<Rightarrow>
     \<lparr>ab_ts = ab_ts b, ab_count = ab_count b + n, ab_sum = f_add F (ab_sum b) s,
      ab_min = (if f_lt F mn (ab_min b) then mn else ab_min b),
      ab_max = (if f_lt F (ab_max b) mx then mx else ab_max b)\<rparr>)"

definition acc :: "'v fops \<Rightarrow> int \<times> 'v contrib \<Rightarrow> 'v buckets \<Rightarrow> 'v buckets" where
  "acc F kc st = (case kc of (k, n, s, mn, mx) \<Rightarrow> accumulateAggregateBucket F k n s mn mx st)"

definition fold_bucket :: "'v fops \<Rightarrow> int \<Rightarrow> 'v contrib list \<Rightarrow> 'v aggregateBucket option" where
  "fold_bucket F k cs = (case cs of [] \<Rightarrow> None | c # _ \<Rightarrow> Some (fold (add_contrib F) cs (fresh_bucket F k c)))"

lemma accumulate_eq:
  "accumulateAggregateBucket F k n s mn mx st =
     (case fst st k of
        Some b \<Rightarrow> ((fst st)(k \<mapsto> add_contrib F (n, s, mn, mx) b), snd st)
      | None \<Rightarrow> ((fst st)(k \<mapsto> add_contrib F (n, s, mn, mx) (fresh_bucket F k (n, s, mn, mx))), snd st @ [k]))"
proof (cases "fst st k")
  case None
  then show ?thesis by (simp add: accumulateAggregateBucket_def open_bucket_def add_contrib_def fresh_bucket_def Let_def)
next
  case (Some b)
  then show ?thesis
    by (cases b) (simp add: accumulateAggregateBucket_def open_bucket_def add_contrib_def Let_def)
qed

lemma bucket_row_accumulate: "bucket_row F k v = accumulateAggregateBucket F k 1 v v v"
  by (intro ext) (simp add: bucket_row_def accumulateAggregateBucket_def)

lemma dedup_snoc: "dedup seen (xs @ [x]) = dedup seen xs @ (if x \<in> set xs \<or> x \<in> set seen then [] else [x])"
  by (induction xs arbitrary: seen) auto

lemma fold_bucket_snoc:
  "fold_bucket F k (cs @ [c]) = Some (add_contrib F c (case fold_bucket F k cs of None \<Rightarrow> fresh_bucket F k c | Some b \<Rightarrow> b))"
  by (cases cs) (auto simp: fold_bucket_def)

lemma acc_fold:
  "fold (acc F) kcs no_buckets =
     (\<lambda>k. fold_bucket F k (map snd (filter (\<lambda>kc. fst kc = k) kcs)), dedup [] (map fst kcs))"
proof (induction kcs rule: rev_induct)
  case Nil
  show ?case by (simp add: no_buckets_def fold_bucket_def)
next
  case (snoc kc kcs)
  obtain k n s mn mx where kc: "kc = (k, n, s, mn, mx)" by (metis prod_cases5)
  let ?cs = "map snd (filter (\<lambda>kc. fst kc = k) kcs)"
  have step: "fold (acc F) (kcs @ [kc]) no_buckets = accumulateAggregateBucket F k n s mn mx
     (\<lambda>k. fold_bucket F k (map snd (filter (\<lambda>kc. fst kc = k) kcs)), dedup [] (map fst kcs))"
    unfolding fold_append comp_apply snoc kc by (simp add: acc_def)
  show ?case
  proof (cases "k \<in> set (map fst kcs)")
    case True
    then have "?cs \<noteq> []" by (auto simp: filter_empty_conv)
    then obtain b where b: "fold_bucket F k ?cs = Some b" by (cases ?cs) (auto simp: fold_bucket_def)
    with True show ?thesis
      unfolding step by (auto simp: kc accumulate_eq dedup_snoc fold_bucket_snoc fun_eq_iff)
  next
    case False
    then have "?cs = []" by (auto simp: filter_empty_conv)
    then have "fold_bucket F k ?cs = None" by (simp add: fold_bucket_def)
    with False show ?thesis
      unfolding step by (auto simp: kc accumulate_eq dedup_snoc fold_bucket_snoc fun_eq_iff)
  qed
qed

lemma bucket_loop_fold:
  "(\<And>r. r \<in> set rs \<Longrightarrow> trunc r = Inr (k r)) \<Longrightarrow> bucket_loop trunc step rs st = Inr (fold (\<lambda>r. step (k r) r) rs st)"
  by (induction rs arbitrary: st) auto

lemma bucket_loop_Inl:
  "bucket_loop trunc step rs st = Inl e \<Longrightarrow> \<exists>r\<in>set rs. trunc r = Inl e"
  by (induction rs arbitrary: st) (auto split: sum.splits)

definition bucket_of :: "'v fops \<Rightarrow> int \<Rightarrow> 'v list \<Rightarrow> 'v aggregateBucket" where
  "bucket_of F k vs = \<lparr>ab_ts = k, ab_count = int (length vs), ab_sum = foldl (f_add F) (f_zero F) vs,
     ab_min = foldl (\<lambda>m v. if f_lt F v m then v else m) (hd vs) vs,
     ab_max = foldl (\<lambda>m v. if f_lt F m v then v else m) (hd vs) vs\<rparr>"

lemma fold_single_contribs:
  "fold (add_contrib F) (map (\<lambda>v. (1, v, v, v)) vs) b =
     \<lparr>ab_ts = ab_ts b, ab_count = ab_count b + int (length vs), ab_sum = foldl (f_add F) (ab_sum b) vs,
      ab_min = foldl (\<lambda>m v. if f_lt F v m then v else m) (ab_min b) vs,
      ab_max = foldl (\<lambda>m v. if f_lt F m v then v else m) (ab_max b) vs\<rparr>"
  by (induction vs arbitrary: b) (simp_all add: add_contrib_def)

lemma fold_bucket_single: "vs \<noteq> [] \<Longrightarrow> fold_bucket F k (map (\<lambda>v. (1, v, v, v)) vs) = Some (bucket_of F k vs)"
  using fold_single_contribs [of F vs "fresh_bucket F k (1, hd vs, hd vs, hd vs)"]
  by (cases vs) (auto simp: fold_bucket_def bucket_of_def fresh_bucket_def)

lemma sort_dedup: "sort (dedup [] (xs :: int list)) = sorted_list_of_set (set xs)"
  by (intro sorted_distinct_set_unique) auto

lemma collect_cong: "(\<And>x. x \<in> set xs \<Longrightarrow> f x = g x) \<Longrightarrow> collect f xs = collect g xs"
  by (induction xs) (auto split: sum.splits)

lemma aggregate_by_key:
  assumes "\<And>r. r \<in> set rows \<Longrightarrow> truncateTime (dr_ts r) (ap_Precision p) z = Inr (key r)"
  shows "aggregateSingleSourceRows F conv rows p z =
     collect (\<lambda>k. emit_bucket F conv p (bucket_of F k (map dr_value (filter (\<lambda>r. key r = k) rows))))
       (sorted_list_of_set (key ` set rows))"
proof -
  let ?kcs = "map (\<lambda>r. (key r, 1 :: int, dr_value r, dr_value r, dr_value r)) rows"
  have "fold (\<lambda>r. bucket_row F (key r) (dr_value r)) rows st = fold (acc F) ?kcs st" for st
    by (induction rows arbitrary: st) (simp_all add: bucket_row_accumulate acc_def)
  moreover have "bucket_loop (\<lambda>r. truncateTime (dr_ts r) (ap_Precision p) z) (\<lambda>k r. bucket_row F k (dr_value r)) rows no_buckets
     = Inr (fold (\<lambda>r. bucket_row F (key r) (dr_value r)) rows no_buckets)"
    by (rule bucket_loop_fold) (rule assms)
  ultimately have loop: "bucket_loop (\<lambda>r. truncateTime (dr_ts r) (ap_Precision p) z) (\<lambda>k r. bucket_row F k (dr_value r)) rows no_buckets
     = Inr (fold (acc F) ?kcs no_buckets)" by (simp only:)
  have keys: "sort (dedup [] (map fst ?kcs)) = sorted_list_of_set (key ` set rows)"
    by (simp add: sort_dedup comp_def)
  have bucket: "fold_bucket F k (map snd (filter (\<lambda>kc. fst kc = k) ?kcs)) =
      Some (bucket_of F k (map dr_value (filter (\<lambda>r. key r = k) rows)))" if "k \<in> key ` set rows" for k
  proof -
    have eq: "map snd (filter (\<lambda>kc. fst kc = k) ?kcs) = map (\<lambda>v. (1, v, v, v)) (map dr_value (filter (\<lambda>r. key r = k) rows))"
      by (simp add: filter_map comp_def)
    have ne: "map dr_value (filter (\<lambda>r. key r = k) rows) \<noteq> []" using that by (auto simp: filter_empty_conv)
    show ?thesis unfolding eq by (rule fold_bucket_single [OF ne])
  qed
  show ?thesis
    unfolding aggregateSingleSourceRows_def loop acc_fold sum.case fst_conv snd_conv keys
    by (rule collect_cong) (simp add: bucket)
qed

section \<open>Properties\<close>

text \<open>
  C11: Aggregating a series groups by bucket: the single pass that keeps buckets in a hash map
  and a list of keys returns, in the order of time, one row for every bucket that some
  data point falls into, computed from exactly the values of that bucket in the order
  read: their count, their sum, their least and their greatest.
\<close>

theorem aggregate_groups:
  assumes "\<And>r. r \<in> set rows \<Longrightarrow> truncateTime (dr_ts r) (ap_Precision p) z = Inr (key r)"
  shows "aggregateSingleSourceRows F conv rows p z =
     collect (\<lambda>k. emit_bucket F conv p (bucket_of F k (map dr_value (filter (\<lambda>r. key r = k) rows))))
       (sorted_list_of_set (key ` set rows))"
  by (rule aggregate_by_key) (fact assms)

definition int_ops :: "int fops" where
  "int_ops = \<lparr>f_lt = (<), f_le = (\<le>), f_zero = 0, f_add = (+), f_div = (\<lambda>a b. a div b), f_of_int = (\<lambda>n. n), f_single = (\<lambda>v. v)\<rparr>"

definition hourly_max :: "int agg_params" where
  "hourly_max = \<lparr>ap_Aggregate = ''max'', ap_Precision = ''hour'', ap_LessOrEq = None, ap_GreaterOrEq = None\<rparr>"

definition sample_rows :: "int data_row list" where
  "sample_rows = [\<lparr>dr_uuid = ''a'', dr_value = 7, dr_ts = hour + 5 * minute\<rparr>,
     \<lparr>dr_uuid = ''a'', dr_value = 3, dr_ts = 5 * minute\<rparr>, \<lparr>dr_uuid = ''a'', dr_value = 9, dr_ts = hour + 6 * minute\<rparr>]"

theorem aggregate_groups_witness:
  "aggregateSingleSourceRows int_ops None sample_rows hourly_max UTC =
     collect (\<lambda>k. emit_bucket int_ops None hourly_max
        (bucket_of int_ops k (map dr_value (filter (\<lambda>r. Truncate hour (dr_ts r) = k) sample_rows)))) [0, hour]"
proof -
  have "truncateTime (dr_ts r) (ap_Precision hourly_max) UTC = Inr (Truncate hour (dr_ts r))" for r :: "int data_row"
    by (simp add: truncateTime_def hourly_max_def)
  from aggregate_groups [where p = hourly_max and z = UTC and key = "\<lambda>r. Truncate hour (dr_ts r)", OF this]
  have "aggregateSingleSourceRows int_ops None sample_rows hourly_max UTC =
     collect (\<lambda>k. emit_bucket int_ops None hourly_max
        (bucket_of int_ops k (map dr_value (filter (\<lambda>r. Truncate hour (dr_ts r) = k) sample_rows))))
       (sorted_list_of_set ((\<lambda>r. Truncate hour (dr_ts r)) ` set sample_rows))" by blast
  moreover have "sorted_list_of_set ((\<lambda>r. Truncate hour (dr_ts r)) ` set sample_rows) = [0, hour]"
    by code_simp
  ultimately show ?thesis by simp
qed

end
