(* ===== verification/TsRollups.thy ===== *)
theory TsRollups
  imports TsBuckets "HOL-Library.Multiset"
begin

text \<open>
  Why an aggregate may be computed from rollups: buckets accumulated from summaries of
  disjoint groups of values equal the buckets of the values themselves.  Counts, least
  and greatest values need only that \<^verbatim>\<open><\<close> orders the values (no \<^verbatim>\<open>NaN\<close>, and \<open>-0\<close> and \<open>0\<close>
  taken as one); sums and averages also need exact addition.
\<close>

section \<open>Laws of the operations\<close>

definition strict_linear :: "('v \<Rightarrow> 'v \<Rightarrow> bool) \<Rightarrow> bool" where
  "strict_linear lt \<longleftrightarrow> (\<forall>a. \<not> lt a a) \<and> (\<forall>a b c. lt a b \<longrightarrow> lt b c \<longrightarrow> lt a c) \<and> (\<forall>a b. lt a b \<or> a = b \<or> lt b a)"

definition exact_add :: "'v fops \<Rightarrow> bool" where
  "exact_add F \<longleftrightarrow> (\<forall>a b c. f_add F (f_add F a b) c = f_add F a (f_add F b c))
     \<and> (\<forall>a b. f_add F a b = f_add F b a) \<and> (\<forall>a. f_add F (f_zero F) a = a)"

lemma exact_addD:
  assumes "exact_add F"
  shows "f_add F (f_zero F) a = a" "f_add F a (f_zero F) = a" "f_add F (f_add F a b) c = f_add F a (f_add F b c)"
  using assms unfolding exact_add_def by metis+

section \<open>The first value of an order\<close>

definition pick :: "('v \<Rightarrow> 'v \<Rightarrow> bool) \<Rightarrow> 'v list \<Rightarrow> 'v" where
  "pick lt vs = foldl (\<lambda>m v. if lt v m then v else m) (hd vs) vs"

definition first_of :: "('v \<Rightarrow> 'v \<Rightarrow> bool) \<Rightarrow> 'v set \<Rightarrow> 'v \<Rightarrow> bool" where
  "first_of lt V m \<longleftrightarrow> m \<in> V \<and> (\<forall>v\<in>V. \<not> lt v m)"

lemma first_of_unique: "strict_linear lt \<Longrightarrow> first_of lt V a \<Longrightarrow> first_of lt V b \<Longrightarrow> a = b"
  unfolding strict_linear_def first_of_def by blast

lemma first_of_insert:
  "strict_linear lt \<Longrightarrow> first_of lt V m \<Longrightarrow> first_of lt (insert v V) (if lt v m then v else m)"
  unfolding strict_linear_def first_of_def by (auto; blast)

lemma foldl_first_of:
  "strict_linear lt \<Longrightarrow> first_of lt V m \<Longrightarrow> first_of lt (V \<union> set vs) (foldl (\<lambda>m v. if lt v m then v else m) m vs)"
proof (induction vs arbitrary: V m)
  case (Cons v vs)
  from Cons.IH [OF Cons.prems(1) first_of_insert [OF Cons.prems]] show ?case by simp
qed simp

lemma pick_first_of:
  assumes "strict_linear lt" "vs \<noteq> []"
  shows "first_of lt (set vs) (pick lt vs)"
proof -
  have "first_of lt {hd vs} (hd vs)" using assms by (simp add: first_of_def strict_linear_def)
  from foldl_first_of [OF assms(1) this, of vs] show ?thesis
    using assms(2) by (simp add: pick_def insert_absorb)
qed

lemma pick_eq: "strict_linear lt \<Longrightarrow> vs \<noteq> [] \<Longrightarrow> first_of lt (set vs) m \<Longrightarrow> pick lt vs = m"
  using pick_first_of first_of_unique by metis

lemma pick_append:
  assumes "strict_linear lt" "xs \<noteq> []" "ys \<noteq> []"
  shows "pick lt (xs @ ys) = (if lt (pick lt ys) (pick lt xs) then pick lt ys else pick lt xs)"
proof (rule pick_eq [OF assms(1)])
  show "xs @ ys \<noteq> []" using assms by simp
  show "first_of lt (set (xs @ ys)) (if lt (pick lt ys) (pick lt xs) then pick lt ys else pick lt xs)"
    using pick_first_of [OF assms(1,2)] pick_first_of [OF assms(1,3)] assms(1)
    unfolding first_of_def strict_linear_def by (auto; blast)
qed

lemma pick_mset: "strict_linear lt \<Longrightarrow> vs \<noteq> [] \<Longrightarrow> mset vs = mset ws \<Longrightarrow> pick lt vs = pick lt ws"
  by (metis mset_eq_setD pick_eq pick_first_of set_empty)

definition total_of :: "'v fops \<Rightarrow> 'v list \<Rightarrow> 'v" where
  "total_of F vs = foldl (f_add F) (f_zero F) vs"

lemma foldl_add_start: "exact_add F \<Longrightarrow> foldl (f_add F) a vs = f_add F a (total_of F vs)"
proof (induction vs arbitrary: a)
  case Nil
  then show ?case by (simp add: total_of_def exact_addD)
next
  case (Cons v vs)
  from Cons.IH [OF Cons.prems, of "f_add F a v"] Cons.IH [OF Cons.prems, of "f_add F (f_zero F) v"] Cons.prems
  show ?case by (simp add: total_of_def exact_addD)
qed

lemma total_of_append: "exact_add F \<Longrightarrow> total_of F (xs @ ys) = f_add F (total_of F xs) (total_of F ys)"
  using foldl_add_start [of F "total_of F xs" ys] by (simp add: total_of_def)

lemma total_of_mset:
  assumes "exact_add F" "mset vs = mset ws"
  shows "total_of F vs = total_of F ws"
proof -
  have swap: "f_add F (f_add F z x) y = f_add F (f_add F z y) x" for x y z
    using assms(1) unfolding exact_add_def by metis
  have "fold (\<lambda>v a. f_add F a v) vs = fold (\<lambda>v a. f_add F a v) ws"
    using assms(2) by (intro fold_multiset_equiv) (auto simp: fun_eq_iff swap)
  then show ?thesis by (simp add: total_of_def foldl_conv_fold)
qed

section \<open>Summaries\<close>

definition greater :: "'v fops \<Rightarrow> 'v \<Rightarrow> 'v \<Rightarrow> bool" where
  "greater F a b = f_lt F b a"

lemma strict_linear_greater [simp]: "strict_linear (greater F) = strict_linear (f_lt F)"
  unfolding strict_linear_def greater_def by blast

lemma bucket_of_pick:
  "bucket_of F k vs = \<lparr>ab_ts = k, ab_count = int (length vs), ab_sum = total_of F vs,
     ab_min = pick (f_lt F) vs, ab_max = pick (greater F) vs\<rparr>"
  by (simp add: bucket_of_def total_of_def pick_def greater_def)

definition summarises :: "'v fops \<Rightarrow> 'v contrib \<Rightarrow> 'v list \<Rightarrow> bool" where
  "summarises F c vs \<longleftrightarrow> (case c of (n, s, mn, mx) \<Rightarrow> vs \<noteq> [] \<and> n = int (length vs)
     \<and> mn = pick (f_lt F) vs \<and> mx = pick (greater F) vs \<and> (exact_add F \<longrightarrow> s = total_of F vs))"

lemma summarises_single: "strict_linear (f_lt F) \<Longrightarrow> summarises F (1, v, v, v) [v]"
  by (auto simp: summarises_def pick_def total_of_def exact_add_def)

text \<open>Two buckets that agree on all an aggregate looks at.\<close>

definition agrees :: "'v fops \<Rightarrow> 'v aggregateBucket \<Rightarrow> 'v aggregateBucket \<Rightarrow> bool" where
  "agrees F a b \<longleftrightarrow> ab_ts a = ab_ts b \<and> ab_count a = ab_count b \<and> ab_min a = ab_min b \<and> ab_max a = ab_max b
     \<and> (exact_add F \<longrightarrow> ab_sum a = ab_sum b)"

lemma fold_bucket_summaries:
  assumes lin: "strict_linear (f_lt F)" and "list_all2 (summarises F) cs vss" "cs \<noteq> []"
  shows "\<exists>b. fold_bucket F k cs = Some b \<and> agrees F b (bucket_of F k (concat vss))"
  using assms(2,3)
proof (induction cs arbitrary: vss rule: rev_induct)
  case (snoc c cs)
  from snoc.prems(1) obtain wss ws where v: "vss = wss @ [ws]" and all: "list_all2 (summarises F) cs wss" and c: "summarises F c ws"
    by (auto simp: list_all2_append1 list_all2_Cons1)
  obtain n s mn mx where c4: "c = (n, s, mn, mx)" by (metis prod_cases4)
  with c have ws: "ws \<noteq> []" "n = int (length ws)" "mn = pick (f_lt F) ws" "mx = pick (greater F) ws"
    "exact_add F \<Longrightarrow> s = total_of F ws" by (auto simp: summarises_def)
  show ?case
  proof (cases "cs = []")
    case True
    with all have "wss = []" by simp
    with True v c4 ws lin show ?thesis
      by (auto simp: fold_bucket_def fresh_bucket_def add_contrib_def agrees_def bucket_of_pick
          exact_addD strict_linear_def greater_def)
  next
    case False
    from snoc.IH [OF all False] obtain b where b: "fold_bucket F k cs = Some b" "agrees F b (bucket_of F k (concat wss))"
      by blast
    have ne: "concat wss \<noteq> []" using all False by (cases cs; cases wss) (auto simp: summarises_def split: prod.splits)
    note app = pick_append [OF lin ne ws(1)] pick_append [of "greater F", OF _ ne ws(1)]
    have sums: "exact_add F \<Longrightarrow> f_add F (ab_sum b) s = total_of F (concat wss @ ws)"
      using b(2) ws(5) by (simp add: agrees_def bucket_of_pick total_of_append)
    show ?thesis
      using b(2) ws(2-4) app lin sums
      by (simp add: fold_bucket_snoc b(1) v c4 add_contrib_def agrees_def bucket_of_pick greater_def)
  qed
qed simp

lemma bucket_of_mset:
  assumes "strict_linear (f_lt F)" "vs \<noteq> []" "mset vs = mset ws"
  shows "agrees F (bucket_of F k vs) (bucket_of F k ws)"
  using assms pick_mset [of "f_lt F" vs ws] pick_mset [of "greater F" vs ws] mset_eq_length [of vs ws] total_of_mset [of F vs ws]
  by (simp add: agrees_def bucket_of_pick)

lemma agrees_trans: "agrees F a b \<Longrightarrow> agrees F b c \<Longrightarrow> agrees F a c"
  by (auto simp: agrees_def)

lemma emit_agrees:
  assumes "agrees F a b" "ap_Aggregate p \<in> {''count'', ''min'', ''max''} \<or> exact_add F"
  shows "emit_bucket F conv p a = emit_bucket F conv p b"
proof -
  have "aggregateBucketValue F a (ap_Aggregate p) = aggregateBucketValue F b (ap_Aggregate p)"
    using assms by (auto simp: agrees_def aggregateBucketValue_def)
  moreover have "ab_ts a = ab_ts b" using assms(1) by (simp add: agrees_def)
  ultimately show ?thesis unfolding emit_bucket_def by (simp only:)
qed

section \<open>Raw rows and rollups together\<close>

lemma filter_concat_cells:
  "(\<And>r. r \<in> set rs \<Longrightarrow> filter P (g r) = (if Q r then g r else [])) \<Longrightarrow>
   filter P (concat (map g rs)) = concat (map g (filter Q rs))"
  by (induction rs) auto

definition rollup_contrib :: "'v aggregateRollupRow \<Rightarrow> 'v contrib" where
  "rollup_contrib r = (ar_count r, ar_sum r, ar_min r, ar_max r)"

lemma from_sources_fold:
  assumes "\<And>r. r \<in> set raws \<Longrightarrow> truncateTime (dr_ts r) (ap_Precision p) z = Inr (key r)"
    and "\<And>r. r \<in> set rolls \<Longrightarrow> truncateTime (ar_bucket r) (ap_Precision p) z = Inr (rkey r)"
  shows "aggregateSingleSourceFromSources F conv raws rolls p z =
    buildSingleSourceAggregateResult F conv p
      (fold (acc F) (map (\<lambda>r. (key r, 1 :: int, dr_value r, dr_value r, dr_value r)) raws
                     @ map (\<lambda>r. (rkey r, rollup_contrib r)) rolls) no_buckets)"
proof -
  have 1: "fold (\<lambda>r. accumulateAggregateBucket F (key r) 1 (dr_value r) (dr_value r) (dr_value r)) raws st
     = fold (acc F) (map (\<lambda>r. (key r, 1 :: int, dr_value r, dr_value r, dr_value r)) raws) st" for st
    by (induction raws arbitrary: st) (simp_all add: acc_def)
  have 2: "fold (\<lambda>r. accumulateAggregateBucket F (rkey r) (ar_count r) (ar_sum r) (ar_min r) (ar_max r)) rolls st
     = fold (acc F) (map (\<lambda>r. (rkey r, rollup_contrib r)) rolls) st" for st
    by (induction rolls arbitrary: st) (simp_all add: acc_def rollup_contrib_def)
  have l1: "bucket_loop (\<lambda>r. truncateTime (dr_ts r) (ap_Precision p) z)
      (\<lambda>k r. accumulateAggregateBucket F k 1 (dr_value r) (dr_value r) (dr_value r)) raws st =
      Inr (fold (\<lambda>r. accumulateAggregateBucket F (key r) 1 (dr_value r) (dr_value r) (dr_value r)) raws st)" for st
    by (rule bucket_loop_fold) (rule assms(1))
  have l2: "bucket_loop (\<lambda>r. truncateTime (ar_bucket r) (ap_Precision p) z)
      (\<lambda>k r. accumulateAggregateBucket F k (ar_count r) (ar_sum r) (ar_min r) (ar_max r)) rolls st =
      Inr (fold (\<lambda>r. accumulateAggregateBucket F (rkey r) (ar_count r) (ar_sum r) (ar_min r) (ar_max r)) rolls st)" for st
    by (rule bucket_loop_fold) (rule assms(2))
  show ?thesis
    unfolding aggregateSingleSourceFromSources_def l1 l2 sum.case 1 2 by simp
qed

lemma from_sources_buckets:
  assumes "\<And>r. r \<in> set raws \<Longrightarrow> truncateTime (dr_ts r) (ap_Precision p) z = Inr (key r)"
    and "\<And>r. r \<in> set rolls \<Longrightarrow> truncateTime (ar_bucket r) (ap_Precision p) z = Inr (rkey r)"
  shows "aggregateSingleSourceFromSources F conv raws rolls p z =
    collect (\<lambda>k. case fold_bucket F k (map (\<lambda>r. (1, dr_value r, dr_value r, dr_value r)) (filter (\<lambda>r. key r = k) raws)
                     @ map rollup_contrib (filter (\<lambda>r. rkey r = k) rolls)) of
        Some b \<Rightarrow> emit_bucket F conv p b | None \<Rightarrow> Inr [])
      (sorted_list_of_set (key ` set raws \<union> rkey ` set rolls))"
proof -
  let ?kcs = "map (\<lambda>r. (key r, 1 :: int, dr_value r, dr_value r, dr_value r)) raws @ map (\<lambda>r. (rkey r, rollup_contrib r)) rolls"
  have keys: "sort (dedup [] (map fst ?kcs)) = sorted_list_of_set (key ` set raws \<union> rkey ` set rolls)"
    by (simp add: sort_dedup comp_def)
  have "map snd (filter (\<lambda>kc. fst kc = k) ?kcs) =
      map (\<lambda>r. (1, dr_value r, dr_value r, dr_value r)) (filter (\<lambda>r. key r = k) raws)
      @ map rollup_contrib (filter (\<lambda>r. rkey r = k) rolls)" for k
    by (simp add: filter_map comp_def)
  note cs = this
  have "aggregateSingleSourceFromSources F conv raws rolls p z =
      buildSingleSourceAggregateResult F conv p (fold (acc F) ?kcs no_buckets)"
    by (rule from_sources_fold; rule assms)
  then show ?thesis
    unfolding acc_fold buildSingleSourceAggregateResult_def fst_conv snd_conv keys cs .
qed

text \<open>
  \<open>cell r\<close> are the data points the rollup row \<open>r\<close> stands for.  Raw rows and cells together
  are the rows of the plain query; then both ways give the same rows.
\<close>

lemma rollups_equal_raw:
  assumes lin: "strict_linear (f_lt F)"
    and agg: "ap_Aggregate p \<in> {''count'', ''min'', ''max''} \<or> exact_add F"
    and all_key: "\<And>r. r \<in> set rows \<Longrightarrow> truncateTime (dr_ts r) (ap_Precision p) z = Inr (key r)"
    and roll_key: "\<And>r. r \<in> set rolls \<Longrightarrow> truncateTime (ar_bucket r) (ap_Precision p) z = Inr (rkey r)"
    and cell_key: "\<And>r d. r \<in> set rolls \<Longrightarrow> d \<in> set (cell r) \<Longrightarrow> key d = rkey r"
    and summ: "\<And>r. r \<in> set rolls \<Longrightarrow> summarises F (rollup_contrib r) (map dr_value (cell r))"
    and parts: "mset rows = mset raws + mset (concat (map cell rolls))"
  shows "aggregateSingleSourceFromSources F conv raws rolls p z = aggregateSingleSourceRows F conv rows p z"
proof -
  have sets: "set rows = set raws \<union> (\<Union>r\<in>set rolls. set (cell r))"
    using mset_eq_setD [of rows "raws @ concat (map cell rolls)"] parts by auto
  have ne: "cell r \<noteq> []" if "r \<in> set rolls" for r using summ [OF that] by (auto simp: summarises_def split: prod.splits)
  have keys: "key ` set raws \<union> rkey ` set rolls = key ` set rows"
  proof -
    have "rkey r \<in> key ` set (cell r)" if "r \<in> set rolls" for r
      using ne [OF that] cell_key [OF that, of "hd (cell r)"] by (intro image_eqI [of _ _ "hd (cell r)"]) auto
    then have "rkey ` set rolls \<subseteq> (\<Union>r\<in>set rolls. key ` set (cell r))" by blast
    moreover have "(\<Union>r\<in>set rolls. key ` set (cell r)) \<subseteq> rkey ` set rolls" using cell_key by auto
    ultimately show ?thesis unfolding sets image_Un image_UN by blast
  qed
  have raw_key: "r \<in> set raws \<Longrightarrow> truncateTime (dr_ts r) (ap_Precision p) z = Inr (key r)" for r
    using all_key sets by blast
  have bucket: "\<exists>b. fold_bucket F k (map (\<lambda>r. (1, dr_value r, dr_value r, dr_value r)) (filter (\<lambda>r. key r = k) raws)
                     @ map rollup_contrib (filter (\<lambda>r. rkey r = k) rolls)) = Some b
      \<and> agrees F b (bucket_of F k (map dr_value (filter (\<lambda>r. key r = k) rows)))" if k: "k \<in> key ` set rows" for k
  proof -
    let ?raws = "filter (\<lambda>r. key r = k) raws" and ?rolls = "filter (\<lambda>r. rkey r = k) rolls"
    let ?cs = "map (\<lambda>r. (1, dr_value r, dr_value r, dr_value r)) ?raws @ map rollup_contrib ?rolls"
    let ?vss = "map (\<lambda>r. [dr_value r]) ?raws @ map (\<lambda>r. map dr_value (cell r)) ?rolls"
    have "list_all2 (summarises F) ?cs ?vss"
      using summ summarises_single [OF lin] by (intro list_all2_appendI) (auto simp: list_all2_map1 list_all2_map2 list_all2_same)
    moreover have "?cs \<noteq> []"
    proof -
      from k keys have "k \<in> key ` set raws \<or> k \<in> rkey ` set rolls" by blast
      then show ?thesis by (auto simp: filter_empty_conv)
    qed
    ultimately obtain b where b: "fold_bucket F k ?cs = Some b" "agrees F b (bucket_of F k (concat ?vss))"
      using fold_bucket_summaries [OF lin] by blast
    have cells: "filter (\<lambda>r. key r = k) (concat (map cell rolls)) = concat (map cell ?rolls)"
      using cell_key by (intro filter_concat_cells) (auto simp: filter_empty_conv filter_id_conv)
    have "concat ?vss = map dr_value (?raws @ concat (map cell ?rolls))"
      by (simp add: map_concat comp_def concat_map_singleton)
    then have "mset (concat ?vss) = image_mset dr_value (filter_mset (\<lambda>r. key r = k) (mset raws) + mset (concat (map cell ?rolls)))"
      by (simp only: mset_map mset_append mset_filter)
    also have "\<dots> = mset (map dr_value (filter (\<lambda>r. key r = k) rows))"
      unfolding cells [symmetric] by (simp add: parts mset_filter)
    finally have m: "mset (concat ?vss) = mset (map dr_value (filter (\<lambda>r. key r = k) rows))" .
    have "map dr_value (filter (\<lambda>r. key r = k) rows) \<noteq> []" using k by (auto simp: filter_empty_conv)
    then have "concat ?vss \<noteq> []" using mset_eq_length [OF m] by (metis length_0_conv)
    then have "agrees F (bucket_of F k (concat ?vss)) (bucket_of F k (map dr_value (filter (\<lambda>r. key r = k) rows)))"
      using m by (rule bucket_of_mset [OF lin])
    with b agrees_trans show ?thesis by blast
  qed
  have lhs: "aggregateSingleSourceFromSources F conv raws rolls p z =
    collect (\<lambda>k. case fold_bucket F k (map (\<lambda>r. (1, dr_value r, dr_value r, dr_value r)) (filter (\<lambda>r. key r = k) raws)
                     @ map rollup_contrib (filter (\<lambda>r. rkey r = k) rolls)) of
        Some b \<Rightarrow> emit_bucket F conv p b | None \<Rightarrow> Inr [])
      (sorted_list_of_set (key ` set raws \<union> rkey ` set rolls))"
    by (rule from_sources_buckets) (fact raw_key roll_key)+
  have rhs: "aggregateSingleSourceRows F conv rows p z =
     collect (\<lambda>k. emit_bucket F conv p (bucket_of F k (map dr_value (filter (\<lambda>r. key r = k) rows))))
       (sorted_list_of_set (key ` set rows))"
    by (rule aggregate_by_key) (fact all_key)
  show ?thesis
    unfolding lhs rhs keys
  proof (rule collect_cong)
    fix k assume "k \<in> set (sorted_list_of_set (key ` set rows))"
    then have "k \<in> key ` set rows" by simp
    from bucket [OF this] show "(case fold_bucket F k (map (\<lambda>r. (1, dr_value r, dr_value r, dr_value r)) (filter (\<lambda>r. key r = k) raws)
            @ map rollup_contrib (filter (\<lambda>r. rkey r = k) rolls)) of
          None \<Rightarrow> Inr [] | Some b \<Rightarrow> emit_bucket F conv p b) =
        emit_bucket F conv p (bucket_of F k (map dr_value (filter (\<lambda>r. key r = k) rows)))"
      using emit_agrees [OF _ agg] by auto
  qed
qed

end
