(* ===== verification/TsData.thy ===== *)
theory TsData
  imports TsRollups Schema "HOL-Library.Product_Lexorder" "HOL-Library.List_Lexorder" "HOL-Library.Char_ord"
begin

text \<open>
  The data points of time series: the statements on \<^verbatim>\<open>tsdata\<close>, and the rollup tables that
  the triggers of migrations 16 and 18 keep from them.  The session's time zone is UTC,
  so that \<^verbatim>\<open>date_trunc\<close> cuts at the hours and days of UTC.  An
  \<^verbatim>\<open>INSERT ... ON CONFLICT DO UPDATE\<close> fires its statement triggers in PostgreSQL's order:
  first those for \<^verbatim>\<open>UPDATE\<close>, with the rows updated, then those for \<^verbatim>\<open>INSERT\<close>, with the rows
  inserted.
\<close>

section \<open>Rollup rows\<close>

definition sql_sum :: "'v fops \<Rightarrow> 'v list \<Rightarrow> 'v" where
  "sql_sum F vs = foldl (f_add F) (hd vs) (tl vs)"

definition hour_key :: "'v tsdata_row \<Rightarrow> uuid \<times> int" where
  "hour_key d = (td_uuid d, Truncate hour (td_ts d))"

definition rollup_key :: "'v rollup_row \<Rightarrow> uuid \<times> int" where
  "rollup_key r = (ru_uuid r, ru_bucket r)"

definition day_key :: "'v rollup_row \<Rightarrow> uuid \<times> int" where
  "day_key r = (ru_uuid r, Truncate day (ru_bucket r))"

text \<open>\<^verbatim>\<open>SELECT ..., COUNT, SUM, MIN, MAX ... GROUP BY ts_uuid, date_trunc('hour', ts)\<close>\<close>

definition hour_rollup :: "'v fops \<Rightarrow> uuid \<times> int \<Rightarrow> 'v tsdata_row list \<Rightarrow> 'v rollup_row" where
  "hour_rollup F k rows = (let vs = map td_value (filter (\<lambda>d. hour_key d = k) rows) in
     \<lparr>ru_uuid = fst k, ru_bucket = snd k, ru_count = int (length vs), ru_sum = sql_sum F vs,
      ru_min = pick (f_lt F) vs, ru_max = pick (greater F) vs\<rparr>)"

definition hour_groups :: "'v fops \<Rightarrow> 'v tsdata_row list \<Rightarrow> 'v rollup_row list" where
  "hour_groups F rows = map (\<lambda>k. hour_rollup F k rows) (dedup [] (map hour_key rows))"

definition day_rollup :: "'v fops \<Rightarrow> uuid \<times> int \<Rightarrow> 'v rollup_row list \<Rightarrow> 'v rollup_row" where
  "day_rollup F k hrs = (let hs = filter (\<lambda>r. day_key r = k) hrs in
     \<lparr>ru_uuid = fst k, ru_bucket = snd k, ru_count = sum_list (map ru_count hs), ru_sum = sql_sum F (map ru_sum hs),
      ru_min = pick (f_lt F) (map ru_min hs), ru_max = pick (greater F) (map ru_max hs)\<rparr>)"

definition day_groups :: "'v fops \<Rightarrow> 'v rollup_row list \<Rightarrow> 'v rollup_row list" where
  "day_groups F hrs = map (\<lambda>k. day_rollup F k hrs) (dedup [] (map day_key hrs))"

text \<open>\<^verbatim>\<open>ON CONFLICT DO UPDATE SET sample_count = old + new, ..., LEAST, GREATEST\<close>\<close>

definition merge_rollup :: "'v fops \<Rightarrow> 'v rollup_row \<Rightarrow> 'v rollup_row \<Rightarrow> 'v rollup_row" where
  "merge_rollup F old new = old\<lparr>ru_count := ru_count old + ru_count new, ru_sum := f_add F (ru_sum old) (ru_sum new),
     ru_min := (if f_lt F (ru_min new) (ru_min old) then ru_min new else ru_min old),
     ru_max := (if f_lt F (ru_max old) (ru_max new) then ru_max new else ru_max old)\<rparr>"

definition upsert :: "'v fops \<Rightarrow> 'v rollup_row list \<Rightarrow> 'v rollup_row list \<Rightarrow> 'v rollup_row list" where
  "upsert F fresh tbl =
     map (\<lambda>r. case List.find (\<lambda>n. rollup_key n = rollup_key r) fresh of None \<Rightarrow> r | Some n \<Rightarrow> merge_rollup F r n) tbl
     @ filter (\<lambda>n. rollup_key n \<notin> set (map rollup_key tbl)) fresh"

section \<open>Triggers\<close>

text \<open>Recompute the days of the given hour buckets from the hourly table.\<close>

definition refresh_days :: "'v fops \<Rightarrow> (uuid \<times> int) list \<Rightarrow> 'v db \<Rightarrow> 'v db" where
  "refresh_days F affected s =
     s\<lparr>daily := filter (\<lambda>r. rollup_key r \<notin> set affected) (daily s)
        @ day_groups F (filter (\<lambda>r. day_key r \<in> set affected) (hourly s))\<rparr>"

definition hourly_after_insert :: "'v fops \<Rightarrow> 'v rollup_row list \<Rightarrow> 'v db \<Rightarrow> 'v db" where
  "hourly_after_insert F new_rows s = s\<lparr>daily := upsert F (day_groups F new_rows) (daily s)\<rparr>"

definition tsdata_after_insert :: "'v fops \<Rightarrow> 'v tsdata_row list \<Rightarrow> 'v db \<Rightarrow> 'v db" where
  "tsdata_after_insert F new_rows s =
     (let fresh = hour_groups F new_rows;
          inserted = filter (\<lambda>n. rollup_key n \<notin> set (map rollup_key (hourly s))) fresh;
          updated = filter (\<lambda>n. rollup_key n \<in> set (map rollup_key (hourly s))) fresh;
          s1 = s\<lparr>hourly := upsert F fresh (hourly s)\<rparr>;
          s2 = refresh_days F (map day_key updated) s1
      in hourly_after_insert F inserted s2)"

text \<open>Recompute the given hours from the data points: the rows go, and come back from what is left.\<close>

definition refresh_hours :: "'v fops \<Rightarrow> (uuid \<times> int) list \<Rightarrow> 'v db \<Rightarrow> 'v db" where
  "refresh_hours F affected s =
     (let gone = filter (\<lambda>r. rollup_key r \<in> set affected) (hourly s);
          s1 = s\<lparr>hourly := filter (\<lambda>r. rollup_key r \<notin> set affected) (hourly s)\<rparr>;
          s2 = refresh_days F (map day_key gone) s1;
          again = hour_groups F (filter (\<lambda>d. hour_key d \<in> set affected) (tsdata s));
          s3 = s2\<lparr>hourly := hourly s2 @ again\<rparr>
      in hourly_after_insert F again s3)"

definition tsdata_after_delete :: "'v fops \<Rightarrow> 'v tsdata_row list \<Rightarrow> 'v db \<Rightarrow> 'v db" where
  "tsdata_after_delete F old_rows s = refresh_hours F (map hour_key old_rows) s"

definition tsdata_after_update :: "'v fops \<Rightarrow> 'v tsdata_row list \<Rightarrow> 'v tsdata_row list \<Rightarrow> 'v db \<Rightarrow> 'v db" where
  "tsdata_after_update F old_rows new_rows s = refresh_hours F (map hour_key (old_rows @ new_rows)) s"

section \<open>Statements\<close>

definition insert_tsdata :: "'v fops \<Rightarrow> 'v tsdata_row list \<Rightarrow> ('v, int) dbm" where
  "insert_tsdata F rows = stmt (\<lambda>s.
     if \<not> distinct (map (\<lambda>d. (td_uuid d, td_ts d)) rows)
        \<or> list_ex (\<lambda>d. (td_uuid d, td_ts d) \<in> set (map (\<lambda>d. (td_uuid d, td_ts d)) (tsdata s))) rows
     then (Inl unique_violation, s)
     else if \<not> list_all (\<lambda>d. td_uuid d \<in> set (map ts_uuid (timeseries s))
                \<and> (case td_created_by d of None \<Rightarrow> True | Some u \<Rightarrow> u \<in> set (map u_uuid (users s)))) rows
     then (Inl fk_violation, s)
     else (Inr (int (length rows)), tsdata_after_insert F rows (s\<lparr>tsdata := tsdata s @ rows\<rparr>)))"

definition in_query :: "uuid list \<Rightarrow> int \<Rightarrow> int \<Rightarrow> 'v tsdata_row \<Rightarrow> bool" where
  "in_query uuids start stop d \<longleftrightarrow> td_uuid d \<in> set uuids \<and> in_db_range (start, stop) (td_ts d)"

definition to_data_row :: "'v tsdata_row \<Rightarrow> 'v data_row" where
  "to_data_row d = \<lparr>dr_uuid = td_uuid d, dr_value = td_value d, dr_ts = td_ts d\<rparr>"

definition GetTsDataRange :: "uuid list \<Rightarrow> int \<Rightarrow> int \<Rightarrow> ('v, 'v data_row list) dbm" where
  "GetTsDataRange uuids start stop = sel (\<lambda>s. map to_data_row (filter (in_query uuids start stop) (tsdata s)))"

definition to_rollup :: "'v rollup_row \<Rightarrow> 'v aggregateRollupRow" where
  "to_rollup r = \<lparr>ar_uuid = ru_uuid r, ar_bucket = ru_bucket r, ar_count = ru_count r, ar_sum = ru_sum r,
     ar_min = ru_min r, ar_max = ru_max r\<rparr>"

definition rollup_range :: "uuid list \<Rightarrow> int \<Rightarrow> int \<Rightarrow> 'v rollup_row list \<Rightarrow> 'v aggregateRollupRow list" where
  "rollup_range uuids start stop tbl = map to_rollup (sort_key rollup_key
     (filter (\<lambda>r. ru_uuid r \<in> set uuids \<and> in_db_range (start, stop) (ru_bucket r)) tbl))"

definition GetTsHourlyRollupRange :: "uuid list \<Rightarrow> int \<Rightarrow> int \<Rightarrow> ('v, 'v aggregateRollupRow list) dbm" where
  "GetTsHourlyRollupRange uuids start stop = sel (\<lambda>s. rollup_range uuids start stop (hourly s))"

definition GetTsDailyRollupRange :: "uuid list \<Rightarrow> int \<Rightarrow> int \<Rightarrow> ('v, 'v aggregateRollupRow list) dbm" where
  "GetTsDailyRollupRange uuids start stop = sel (\<lambda>s. rollup_range uuids start stop (daily s))"

definition deletes :: "'v fops \<Rightarrow> uuid list \<Rightarrow> int \<Rightarrow> int \<Rightarrow> 'v option \<Rightarrow> 'v option \<Rightarrow> 'v tsdata_row \<Rightarrow> bool" where
  "deletes F uuids start stop ge le d \<longleftrightarrow> in_query uuids start stop d
     \<and> (case ge of None \<Rightarrow> True | Some g \<Rightarrow> f_le F g (td_value d))
     \<and> (case le of None \<Rightarrow> True | Some l \<Rightarrow> f_le F (td_value d) l)"

definition DeleteTsDataRange :: "'v fops \<Rightarrow> uuid list \<Rightarrow> int \<Rightarrow> int \<Rightarrow> 'v option \<Rightarrow> 'v option \<Rightarrow> ('v, int) dbm" where
  "DeleteTsDataRange F uuids start stop ge le = stmt (\<lambda>s.
     let old = filter (deletes F uuids start stop ge le) (tsdata s) in
     (Inr (int (length old)),
      tsdata_after_delete F old (s\<lparr>tsdata := filter (\<lambda>d. \<not> deletes F uuids start stop ge le d) (tsdata s)\<rparr>)))"

section \<open>The hourly table is right\<close>

definition cell_values :: "'v tsdata_row list \<Rightarrow> uuid \<times> int \<Rightarrow> 'v list" where
  "cell_values rows k = map td_value (filter (\<lambda>d. hour_key d = k) rows)"

definition row_contrib :: "'v rollup_row \<Rightarrow> 'v contrib" where
  "row_contrib r = (ru_count r, ru_sum r, ru_min r, ru_max r)"

definition hourly_for :: "'v fops \<Rightarrow> 'v tsdata_row list \<Rightarrow> 'v rollup_row list \<Rightarrow> bool" where
  "hourly_for F rows tbl \<longleftrightarrow> distinct (map rollup_key tbl)
     \<and> (\<forall>r\<in>set tbl. summarises F (row_contrib r) (cell_values rows (rollup_key r)))
     \<and> (\<forall>d\<in>set rows. hour_key d \<in> set (map rollup_key tbl))"

lemma sql_sum_total: "exact_add F \<Longrightarrow> vs \<noteq> [] \<Longrightarrow> sql_sum F vs = total_of F vs"
  by (cases vs) (simp_all add: sql_sum_def total_of_def exact_addD)

lemma hour_rollup_key [simp]: "rollup_key (hour_rollup F k rows) = k"
  by (simp add: rollup_key_def hour_rollup_def Let_def)

lemma cell_values_Nil: "cell_values rows k = [] \<longleftrightarrow> k \<notin> set (map hour_key rows)"
  by (auto simp: cell_values_def filter_empty_conv)

lemma hour_rollup_summarises:
  "k \<in> set (map hour_key rows) \<Longrightarrow> summarises F (row_contrib (hour_rollup F k rows)) (cell_values rows k)"
  using cell_values_Nil [of rows k]
  by (auto simp: summarises_def row_contrib_def hour_rollup_def Let_def cell_values_def sql_sum_total)

lemma set_hour_groups: "set (hour_groups F rows) = (\<lambda>k. hour_rollup F k rows) ` hour_key ` set rows"
  by (simp add: hour_groups_def)

lemma hour_groups_keys: "map rollup_key (hour_groups F rows) = dedup [] (map hour_key rows)"
  by (simp add: hour_groups_def comp_def)

lemma find_hour_groups:
  "List.find (\<lambda>n. rollup_key n = k) (hour_groups F rows) =
     (if k \<in> set (map hour_key rows) then Some (hour_rollup F k rows) else None)"
proof (cases "k \<in> set (map hour_key rows)")
  case True
  then have "hour_rollup F k rows \<in> set (hour_groups F rows)" by (simp add: set_hour_groups)
  moreover have "distinct (map rollup_key (hour_groups F rows))" by (simp add: hour_groups_keys)
  ultimately have "List.find (\<lambda>n. rollup_key n = k) (hour_groups F rows) = Some (hour_rollup F k rows)"
    by (intro find_distinct_key) simp_all
  with True show ?thesis by simp
next
  case False
  then show ?thesis by (auto simp: find_None_set set_hour_groups)
qed

lemma cell_values_append: "cell_values (xs @ ys) k = cell_values xs k @ cell_values ys k"
  by (simp add: cell_values_def)

lemma summarises_merge:
  assumes "strict_linear (f_lt F)" "summarises F (row_contrib a) vs" "summarises F (row_contrib b) ws"
  shows "summarises F (row_contrib (merge_rollup F a b)) (vs @ ws)"
  using assms pick_append [of "f_lt F" vs ws] pick_append [of "greater F" vs ws]
  by (auto simp: summarises_def row_contrib_def merge_rollup_def total_of_append greater_def)

lemma merge_rollup_key [simp]: "rollup_key (merge_rollup F a b) = rollup_key a"
  by (simp add: rollup_key_def merge_rollup_def)

lemma upsert_keys:
  "map rollup_key (upsert F fresh tbl) = map rollup_key tbl @ filter (\<lambda>k. k \<notin> set (map rollup_key tbl)) (map rollup_key fresh)"
  by (auto simp: upsert_def filter_map comp_def split: option.splits)

lemma upsert_hourly:
  assumes lin: "strict_linear (f_lt F)" and h: "hourly_for F rows tbl"
  shows "hourly_for F (rows @ new) (upsert F (hour_groups F new) tbl)"
proof -
  have "distinct (map rollup_key (upsert F (hour_groups F new) tbl))"
    using h by (auto simp: upsert_keys hour_groups_keys hourly_for_def set_dedup)
  moreover have "summarises F (row_contrib r) (cell_values (rows @ new) (rollup_key r))"
    if "r \<in> set (upsert F (hour_groups F new) tbl)" for r
    using that unfolding upsert_def set_append
  proof
    assume "r \<in> set (map (\<lambda>r. case List.find (\<lambda>n. rollup_key n = rollup_key r) (hour_groups F new) of None \<Rightarrow> r | Some n \<Rightarrow> merge_rollup F r n) tbl)"
    then obtain q where q: "q \<in> set tbl" "r = (if rollup_key q \<in> set (map hour_key new)
        then merge_rollup F q (hour_rollup F (rollup_key q) new) else q)"
      by (auto simp: find_hour_groups split: if_splits)
    from q(1) h have s: "summarises F (row_contrib q) (cell_values rows (rollup_key q))" by (simp add: hourly_for_def)
    show ?thesis
    proof (cases "rollup_key q \<in> set (map hour_key new)")
      case True
      with q summarises_merge [OF lin s hour_rollup_summarises [OF True]] show ?thesis
        by (simp add: cell_values_append)
    next
      case False
      with q s cell_values_Nil [of new "rollup_key q"] show ?thesis by (simp add: cell_values_append)
    qed
  next
    assume "r \<in> set (filter (\<lambda>n. rollup_key n \<notin> set (map rollup_key tbl)) (hour_groups F new))"
    then have "r \<in> (\<lambda>k. hour_rollup F k new) ` set (map hour_key new)" "rollup_key r \<notin> set (map rollup_key tbl)"
      by (simp_all add: set_hour_groups)
    then obtain k where k: "r = hour_rollup F k new" "k \<in> set (map hour_key new)" "k \<notin> set (map rollup_key tbl)"
      by (elim imageE) simp
    with h have "cell_values rows k = []" unfolding cell_values_Nil by (auto simp: hourly_for_def)
    with k hour_rollup_summarises [OF k(2), of F] show ?thesis by (simp add: cell_values_append)
  qed
  moreover have "\<forall>d\<in>set (rows @ new). hour_key d \<in> set (map rollup_key (upsert F (hour_groups F new) tbl))"
    using h by (auto simp: upsert_keys hour_groups_keys hourly_for_def simp del: map_map)
  ultimately show ?thesis by (auto simp: hourly_for_def)
qed


lemma refresh_hourly:
  assumes h: "hourly_for F rows tbl" and affected: "\<And>d. d \<in> set rows \<Longrightarrow> P d \<Longrightarrow> hour_key d \<in> A"
  shows "hourly_for F (filter (\<lambda>d. \<not> P d) rows)
    (filter (\<lambda>r. rollup_key r \<notin> A) tbl @ hour_groups F (filter (\<lambda>d. hour_key d \<in> A) (filter (\<lambda>d. \<not> P d) rows)))"
proof -
  let ?rest = "filter (\<lambda>d. \<not> P d) rows"
  let ?again = "hour_groups F (filter (\<lambda>d. hour_key d \<in> A) ?rest)"
  have keys: "set (map rollup_key ?again) = hour_key ` set ?rest \<inter> A"
    unfolding hour_groups_keys by (auto simp: set_dedup)
  have "set (map rollup_key (filter (\<lambda>r. rollup_key r \<notin> A) tbl)) \<inter> A = {}" by auto
  then have "distinct (map rollup_key (filter (\<lambda>r. rollup_key r \<notin> A) tbl @ ?again))"
    using h keys unfolding map_append distinct_append
    by (auto simp: hourly_for_def distinct_map_filter_key hour_groups_keys [of F "filter (\<lambda>d. hour_key d \<in> A) ?rest"]
        simp del: set_map list.set_map filter_filter)
  moreover have "summarises F (row_contrib r) (cell_values ?rest (rollup_key r))" if "r \<in> set (filter (\<lambda>r. rollup_key r \<notin> A) tbl)" for r
  proof -
    have "cell_values ?rest (rollup_key r) = cell_values rows (rollup_key r)"
      using that affected unfolding cell_values_def filter_filter
      by (intro arg_cong [of _ _ "map td_value"] filter_cong) (simp_all, metis)
    with that h show ?thesis by (simp add: hourly_for_def)
  qed
  moreover have "summarises F (row_contrib r) (cell_values ?rest (rollup_key r))" if "r \<in> set ?again" for r
  proof -
    from that obtain k where k: "r = hour_rollup F k (filter (\<lambda>d. hour_key d \<in> A) ?rest)" "k \<in> A" "k \<in> hour_key ` set ?rest"
      by (fastforce simp: set_hour_groups)
    have "cell_values (filter (\<lambda>d. hour_key d \<in> A) ?rest) k = cell_values ?rest k"
      using k(2) unfolding cell_values_def filter_filter
      by (intro arg_cong [of _ _ "map td_value"] filter_cong) auto
    with hour_rollup_summarises [of k "filter (\<lambda>d. hour_key d \<in> A) ?rest" F] k show ?thesis by auto
  qed
  moreover have "\<forall>d\<in>set ?rest. hour_key d \<in> set (map rollup_key (filter (\<lambda>r. rollup_key r \<notin> A) tbl @ ?again))"
  proof
    fix d assume d: "d \<in> set ?rest"
    show "hour_key d \<in> set (map rollup_key (filter (\<lambda>r. rollup_key r \<notin> A) tbl @ ?again))"
    proof (cases "hour_key d \<in> A")
      case True
      with d keys show ?thesis by auto
    next
      case False
      from d h have "hour_key d \<in> set (map rollup_key tbl)" by (auto simp: hourly_for_def)
      with False show ?thesis by auto
    qed
  qed
  ultimately show ?thesis unfolding hourly_for_def by auto
qed

definition hourly_ok :: "'v fops \<Rightarrow> 'v db \<Rightarrow> bool" where
  "hourly_ok F s \<longleftrightarrow> hourly_for F (tsdata s) (hourly s)"

lemma hourly_ok_fault_free [simp, intro]: "fault_free (hourly_ok F)"
  by (simp add: fault_free_def hourly_ok_def)

lemma hourly_daily_frame [simp]:
  "hourly (hourly_after_insert F new s) = hourly s" "tsdata (hourly_after_insert F new s) = tsdata s"
  "hourly (refresh_days F ks s) = hourly s" "tsdata (refresh_days F ks s) = tsdata s"
  by (simp_all add: hourly_after_insert_def refresh_days_def)

lemma refresh_hours_fields [simp]:
  "users (refresh_hours F ks s) = users s"
  "user_tokens (refresh_hours F ks s) = user_tokens s"
  "groups (refresh_hours F ks s) = groups s"
  "user_groups (refresh_hours F ks s) = user_groups s"
  "group_policies (refresh_hours F ks s) = group_policies s"
  "things (refresh_hours F ks s) = things s"
  "timeseries (refresh_hours F ks s) = timeseries s"
  "tsdata (refresh_hours F ks s) = tsdata s"
  "datasets (refresh_hours F ks s) = datasets s"
  "uploads (refresh_hours F ks s) = uploads s"
  "upload_parts (refresh_hours F ks s) = upload_parts s"
  "programs (refresh_hours F ks s) = programs s"
  "revisions (refresh_hours F ks s) = revisions s"
  "alerts (refresh_hours F ks s) = alerts s"
  "clock (refresh_hours F ks s) = clock s"
  "faults (refresh_hours F ks s) = faults s"
  by (simp_all add: refresh_hours_def refresh_days_def hourly_after_insert_def Let_def)

text \<open>An update that moves no point and changes no value leaves the summaries right.\<close>

lemma refresh_hours_keeps:
  assumes ok: "hourly_ok F s" and same: "map hour_key rows = map hour_key (tsdata s)" "map td_value rows = map td_value (tsdata s)"
  shows "hourly_ok F (refresh_hours F ks (s\<lparr>tsdata := rows\<rparr>))"
proof -
  have cells: "map (\<lambda>d. (hour_key d, td_value d)) rows = map (\<lambda>d. (hour_key d, td_value d)) (tsdata s)"
    using same by (simp add: list_eq_iff_nth_eq)
  have cell: "cell_values rows k = cell_values (tsdata s) k" for k
    using arg_cong [OF cells, of "\<lambda>l. map snd (filter (\<lambda>x. fst x = k) l)"]
    by (simp add: cell_values_def filter_map comp_def)
  have "set (map hour_key rows) = set (map hour_key (tsdata s))" using same by simp
  then have keys: "d \<in> set rows \<Longrightarrow> hour_key d \<in> hour_key ` set (tsdata s)" for d by auto
  have "hourly_for F rows (hourly s)"
    using ok keys unfolding hourly_ok_def hourly_for_def cell by fastforce
  then have "hourly_for F (filter (\<lambda>d. \<not> False) rows) (filter (\<lambda>r. rollup_key r \<notin> set ks) (hourly s)
      @ hour_groups F (filter (\<lambda>d. hour_key d \<in> set ks) (filter (\<lambda>d. \<not> False) rows)))"
    by (rule refresh_hourly) simp
  then show ?thesis by (simp add: hourly_ok_def refresh_hours_def Let_def)
qed

lemma insert_tsdata_keeps:
  "strict_linear (f_lt F) \<Longrightarrow> preserves (hourly_ok F) (insert_tsdata F rows)"
  unfolding insert_tsdata_def
  by (rule preserves_stmt) (auto simp: hourly_ok_def tsdata_after_insert_def Let_def upsert_hourly split: if_splits)

lemma DeleteTsDataRange_keeps: "preserves (hourly_ok F) (DeleteTsDataRange F uuids start stop ge le)"
  unfolding DeleteTsDataRange_def
proof (rule preserves_stmt)
  fix s :: "'a db" and r s'
  let ?P = "deletes F uuids start stop ge le"
  let ?A = "set (map hour_key (filter ?P (tsdata s)))"
  assume "(let old = filter ?P (tsdata s) in (Inr (int (length old)),
      tsdata_after_delete F old (s\<lparr>tsdata := filter (\<lambda>d. \<not> ?P d) (tsdata s)\<rparr>))) = (r, s')" and "hourly_ok F s"
  moreover have "hourly_for F (tsdata s) (hourly s) \<Longrightarrow> hourly_for F (filter (\<lambda>d. \<not> ?P d) (tsdata s))
    (filter (\<lambda>r. rollup_key r \<notin> ?A) (hourly s) @ hour_groups F (filter (\<lambda>d. hour_key d \<in> ?A) (filter (\<lambda>d. \<not> ?P d) (tsdata s))))"
    by (rule refresh_hourly) auto
  ultimately show "hourly_ok F s'"
    by (auto simp: hourly_ok_def tsdata_after_delete_def refresh_hours_def Let_def)
qed simp

section \<open>The daily table is not\<close>

definition sample_series :: "int db" where
  "sample_series = empty_db\<lparr>timeseries := [\<lparr>ts_uuid = ''a'', ts_thing = None, ts_name = ''t'', ts_si_unit = ''C'',
     ts_lower = None, ts_upper = None, ts_created_by = None, ts_tags = []\<rparr>]\<rparr>"

definition point :: "int \<Rightarrow> int \<Rightarrow> int tsdata_row" where
  "point t v = \<lparr>td_uuid = ''a'', td_value = v, td_ts = t, td_created_by = None\<rparr>"

text \<open>
  One statement that adds a point to an hour that has data and another to a new hour of
  the same day counts the new hour twice: the \<^verbatim>\<open>UPDATE\<close> trigger recomputes the day, the new
  hour included, and the \<^verbatim>\<open>INSERT\<close> trigger then adds the new hour again.
\<close>

theorem daily_counts_twice:
  "let s1 = snd (insert_tsdata int_ops [point (10 * hour) 1] sample_series);
       s2 = snd (insert_tsdata int_ops [point (10 * hour + minute) 1, point (11 * hour) 1] s1)
   in length (tsdata s2) = 3 \<and> map ru_count (hourly s2) = [2, 1] \<and> map ru_count (daily s2) = [4]"
  by code_simp

end
