(* ===== verification/Accounts.thy ===== *)
theory Accounts
  imports Policies TsData
begin

text \<open>
  Users, their tokens, groups and memberships: \<^verbatim>\<open>internal/services/user.go\<close>,
  \<^verbatim>\<open>internal/services/group.go\<close> and the queries of \<^verbatim>\<open>users.sql\<close> and \<^verbatim>\<open>groups.sql\<close>, with
  the cascades the migrations declare.  Keys PostgreSQL draws and the random part of
  a secret are arguments; \<open>sha\<close> stands for its \<^verbatim>\<open>sha256\<close>.  The list of groups that
  \<^verbatim>\<open>json_agg\<close> packs and \<^verbatim>\<open>json.Unmarshal\<close> unpacks is kept as a list.
\<close>

section \<open>Queries on groups\<close>

definition CreateGroup :: "uuid \<Rightarrow> string \<Rightarrow> ('v, group_row) dbm" where
  "CreateGroup newid name = stmt (\<lambda>s.
     if newid \<in> set (map g_uuid (groups s)) \<or> name \<in> set (map g_name (groups s)) then (Inl unique_violation, s)
     else let g = \<lparr>g_uuid = newid, g_name = name\<rparr> in (Inr g, s\<lparr>groups := groups s @ [g]\<rparr>))"

definition FindGroupByUuid :: "uuid \<Rightarrow> ('v, group_row) dbm" where
  "FindGroupByUuid gid = sel_one (\<lambda>s. filter (\<lambda>g. g_uuid g = gid) (groups s))"

definition groups_of :: "'v db \<Rightarrow> uuid \<Rightarrow> group_row list" where
  "groups_of s uid = filter (\<lambda>g. (uid, g_uuid g) \<in> set (user_groups s)) (groups s)"

definition FindGroupsByUser :: "uuid \<Rightarrow> ('v, group_row list) dbm" where
  "FindGroupsByUser uid = sel (\<lambda>s. groups_of s uid)"

definition SetGroupNameByUUID :: "uuid \<Rightarrow> string \<Rightarrow> ('v, int) dbm" where
  "SetGroupNameByUUID gid name = stmt (\<lambda>s.
     let hit = filter (\<lambda>g. g_uuid g = gid) (groups s) in
     if hit \<noteq> [] \<and> name \<in> set (map g_name (filter (\<lambda>g. g_uuid g \<noteq> gid) (groups s))) then (Inl unique_violation, s)
     else (Inr (int (length hit)),
           s\<lparr>groups := map (\<lambda>g. if g_uuid g = gid then g\<lparr>g_name := name\<rparr> else g) (groups s)\<rparr>))"

text \<open>Deleting groups takes their policies and memberships with them.\<close>

definition drop_groups :: "(group_row \<Rightarrow> bool) \<Rightarrow> 'v db \<Rightarrow> 'v db" where
  "drop_groups P s =
     (let gone = map g_uuid (filter P (groups s)) in
      s\<lparr>groups := filter (\<lambda>g. \<not> P g) (groups s),
        user_groups := filter (\<lambda>m. snd m \<notin> set gone) (user_groups s),
        group_policies := filter (\<lambda>p. gp_group p \<notin> set gone) (group_policies s)\<rparr>)"

definition DeleteGroup_query :: "uuid \<Rightarrow> ('v, int) dbm" where
  "DeleteGroup_query gid = stmt (\<lambda>s.
     (Inr (int (length (filter (\<lambda>g. g_uuid g = gid) (groups s)))), drop_groups (\<lambda>g. g_uuid g = gid) s))"

text \<open>
  The filter of the listing queries: some allow rule for reading matches and no deny
  rule does.  Unlike an access decision it does not look at priorities.
\<close>

definition listable :: "'v db \<Rightarrow> uuid \<Rightarrow> string \<Rightarrow> bool" where
  "listable s uid res \<longleftrightarrow>
     list_ex (\<lambda>p. gp_effect p = Allow) (matching_policies s uid Read res)
     \<and> \<not> list_ex (\<lambda>p. gp_effect p = Deny) (matching_policies s uid Read res)"

definition listed :: "(string \<Rightarrow> string) \<Rightarrow> string \<Rightarrow> ('r \<Rightarrow> string) \<Rightarrow> 'v db \<Rightarrow> 'r list \<Rightarrow> 'r list" where
  "listed sha token res s rows = (case token_user sha s token of None \<Rightarrow> []
     | Some uid \<Rightarrow> filter (\<lambda>r. listable s uid (res r)) rows)"

definition FindGroups :: "(string \<Rightarrow> string) \<Rightarrow> string \<Rightarrow> int \<Rightarrow> int \<Rightarrow> ('v, group_row list) dbm" where
  "FindGroups sha token limit offset = sel_page limit offset (\<lambda>s.
     sort_key g_name (listed sha token (\<lambda>g. ''groups/'' @ g_uuid g) s (groups s)))"

section \<open>Queries on users and tokens\<close>

definition user_rules :: "uuid \<Rightarrow> (effect \<times> action \<times> string) list" where
  "user_rules uid =
     [(Allow, Read, ''users/me''),
      (Allow, Create, ''users/'' @ uid), (Allow, Read, ''users/'' @ uid),
      (Allow, Update, ''users/'' @ uid), (Allow, Delete, ''users/'' @ uid),
      (Allow, Create, ''users/'' @ uid @ ''/%''), (Allow, Read, ''users/'' @ uid @ ''/%''),
      (Allow, Update, ''users/'' @ uid @ ''/%''), (Allow, Delete, ''users/'' @ uid @ ''/%''),
      (Deny, Update, ''users/'' @ uid @ ''/rate'')]"

definition user_policies :: "uuid \<Rightarrow> uuid \<Rightarrow> uuid list \<Rightarrow> policy_row list" where
  "user_policies gid uid pids = map2 (\<lambda>pid (e, a, r). \<lparr>gp_uuid = pid, gp_group = gid, gp_priority = 0,
     gp_effect = e, gp_action = a, gp_resource = r\<rparr>) pids (user_rules uid)"

fun insert_policies :: "policy_row list \<Rightarrow> 'v db \<Rightarrow> unit res \<times> 'v db" where
  "insert_policies [] s = (Inr (), s)"
| "insert_policies (p # ps) s = (case insert_policy p s of
       (Inl e, s') \<Rightarrow> (Inl e, s') | (Inr _, s') \<Rightarrow> insert_policies ps s')"

text \<open>One statement: the group, the user, its ten policies and its membership, or nothing.\<close>

definition CreateUser :: "uuid \<Rightarrow> uuid \<Rightarrow> uuid list \<Rightarrow> string \<Rightarrow> ('v, user_row) dbm" where
  "CreateUser gid uid pids name = stmt (\<lambda>s.
     if gid \<in> set (map g_uuid (groups s)) \<or> name \<in> set (map g_name (groups s))
        \<or> uid \<in> set (map u_uuid (users s)) \<or> name \<in> set (map u_name (users s))
        \<or> (uid, gid) \<in> set (user_groups s)
     then (Inl unique_violation, s)
     else let u = \<lparr>u_uuid = uid, u_name = name, u_state = ''active''\<rparr>;
              s1 = s\<lparr>groups := groups s @ [\<lparr>g_uuid = gid, g_name = name\<rparr>], users := users s @ [u]\<rparr>
          in (case insert_policies (user_policies gid uid pids) s1 of
                (Inl e, _) \<Rightarrow> (Inl e, s)
              | (Inr _, s2) \<Rightarrow> (Inr u, s2\<lparr>user_groups := user_groups s2 @ [(uid, gid)]\<rparr>)))"

definition AddTokenToUser_query ::
  "(string \<Rightarrow> string) \<Rightarrow> uuid \<Rightarrow> uuid \<Rightarrow> string \<Rightarrow> string \<Rightarrow> ('v, token_row) dbm" where
  "AddTokenToUser_query sha newid uid name secret = stmt (\<lambda>s.
     if uid \<notin> set (map u_uuid (users s)) then (Inl no_rows, s)
     else if newid \<in> set (map tk_uuid (user_tokens s)) then (Inl unique_violation, s)
     else let t = \<lparr>tk_uuid = newid, tk_user = uid, tk_name = name, tk_hash = sha secret, tk_created = clock s\<rparr>
          in (Inr t, s\<lparr>user_tokens := user_tokens s @ [t]\<rparr>))"

record rest_User =
  ru_user_uuid :: uuid
  ru_name :: string
  ru_groups :: "group_row list"

definition with_groups :: "'v db \<Rightarrow> user_row \<Rightarrow> rest_User" where
  "with_groups s u = \<lparr>ru_user_uuid = u_uuid u, ru_name = u_name u, ru_groups = groups_of s (u_uuid u)\<rparr>"

definition FindUsers :: "(string \<Rightarrow> string) \<Rightarrow> string \<Rightarrow> int \<Rightarrow> int \<Rightarrow> ('v, rest_User list) dbm" where
  "FindUsers sha token limit offset = sel_page limit offset (\<lambda>s.
     map (with_groups s) (sort_key u_name (listed sha token (\<lambda>u. ''users/'' @ u_uuid u) s (users s))))"

definition FindUserByUUID :: "uuid \<Rightarrow> ('v, user_row) dbm" where
  "FindUserByUUID uid = sel_one (\<lambda>s. filter (\<lambda>u. u_uuid u = uid) (users s))"

definition FindUserWithGroupsByUUID :: "uuid \<Rightarrow> ('v, rest_User) dbm" where
  "FindUserWithGroupsByUUID uid = sel_one (\<lambda>s. map (with_groups s) (filter (\<lambda>u. u_uuid u = uid) (users s)))"

definition FindUserWithGroupsByToken :: "(string \<Rightarrow> string) \<Rightarrow> string \<Rightarrow> ('v, rest_User) dbm" where
  "FindUserWithGroupsByToken sha token = sel_one (\<lambda>s.
     concat (map (\<lambda>u. map (\<lambda>_. with_groups s u)
       (filter (\<lambda>t. tk_user t = u_uuid u \<and> tk_hash t = sha token) (user_tokens s))) (users s)))"

definition FindTokensByUser :: "uuid \<Rightarrow> ('v, token_row list) dbm" where
  "FindTokensByUser uid = sel (\<lambda>s. filter (\<lambda>t. tk_user t = uid) (user_tokens s))"

definition GetUserUuidFromToken :: "(string \<Rightarrow> string) \<Rightarrow> string \<Rightarrow> ('v, uuid) dbm" where
  "GetUserUuidFromToken sha token = sel_one (\<lambda>s. map tk_user (filter (\<lambda>t. tk_hash t = sha token) (user_tokens s)))"

definition AddUserToGroups_query :: "uuid \<Rightarrow> uuid list \<Rightarrow> ('v, int) dbm" where
  "AddUserToGroups_query uid gids = stmt (\<lambda>s.
     let rows = (if uid \<in> set (map u_uuid (users s)) then map (\<lambda>g. (uid, g)) gids else []) in
     if \<not> distinct rows \<or> list_ex (\<lambda>m. m \<in> set (user_groups s)) rows then (Inl unique_violation, s)
     else if \<not> list_all (\<lambda>m. snd m \<in> set (map g_uuid (groups s))) rows then (Inl fk_violation, s)
     else (Inr (int (length rows)), s\<lparr>user_groups := user_groups s @ rows\<rparr>))"

definition SetUserName_query :: "uuid \<Rightarrow> string \<Rightarrow> ('v, int) dbm" where
  "SetUserName_query uid name = stmt (\<lambda>s.
     let hit = filter (\<lambda>u. u_uuid u = uid) (users s) in
     if hit \<noteq> [] \<and> name \<in> set (map u_name (filter (\<lambda>u. u_uuid u \<noteq> uid) (users s))) then (Inl unique_violation, s)
     else (Inr (int (length hit)),
           s\<lparr>users := map (\<lambda>u. if u_uuid u = uid then u\<lparr>u_name := name\<rparr> else u) (users s)\<rparr>))"

definition delete_members :: "(uuid \<times> uuid \<Rightarrow> bool) \<Rightarrow> ('v, int) dbm" where
  "delete_members P = stmt (\<lambda>s. (Inr (int (length (filter P (user_groups s)))),
     s\<lparr>user_groups := filter (\<lambda>m. \<not> P m) (user_groups s)\<rparr>))"

definition RemoveUserFromGroups_query :: "uuid \<Rightarrow> uuid list \<Rightarrow> ('v, int) dbm" where
  "RemoveUserFromGroups_query uid gids = delete_members (\<lambda>m. fst m = uid \<and> snd m \<in> set gids)"

definition RemoveUserFromAllGroups :: "uuid \<Rightarrow> ('v, int) dbm" where
  "RemoveUserFromAllGroups uid = delete_members (\<lambda>m. fst m = uid)"

text \<open>
  \<^verbatim>\<open>ON DELETE CASCADE\<close> and \<^verbatim>\<open>ON DELETE SET NULL\<close> for a deleted user.  The update that
  takes the user's key out of data points fires the rollup trigger for updates.
\<close>

definition forget :: "uuid \<Rightarrow> uuid option \<Rightarrow> uuid option" where
  "forget uid x = (if x = Some uid then None else x)"

definition drop_user :: "'v fops \<Rightarrow> uuid \<Rightarrow> 'v db \<Rightarrow> 'v db" where
  "drop_user F uid s =
     (let theirs = filter (\<lambda>d. td_created_by d = Some uid) (tsdata s);
          anonymous = (\<lambda>d. d\<lparr>td_created_by := forget uid (td_created_by d)\<rparr>)
      in tsdata_after_update F theirs (map anonymous theirs) (s\<lparr>
     users := filter (\<lambda>u. u_uuid u \<noteq> uid) (users s),
     user_tokens := filter (\<lambda>t. tk_user t \<noteq> uid) (user_tokens s),
     user_groups := filter (\<lambda>m. fst m \<noteq> uid) (user_groups s),
     things := map (\<lambda>t. t\<lparr>th_created_by := forget uid (th_created_by t)\<rparr>) (things s),
     timeseries := map (\<lambda>t. t\<lparr>ts_created_by := forget uid (ts_created_by t)\<rparr>) (timeseries s),
     tsdata := map anonymous (tsdata s),
     datasets := map (\<lambda>d. d\<lparr>ds_created_by := forget uid (ds_created_by d),
                            ds_updated_by := forget uid (ds_updated_by d)\<rparr>) (datasets s),
     uploads := map (\<lambda>u. u\<lparr>up_created_by := forget uid (up_created_by u)\<rparr>) (uploads s),
     revisions := map (\<lambda>r. r\<lparr>rv_created_by := forget uid (rv_created_by r),
                             rv_signed_by := forget uid (rv_signed_by r)\<rparr>) (revisions s)\<rparr>))"

definition DeleteUser_query :: "'v fops \<Rightarrow> uuid \<Rightarrow> ('v, int) dbm" where
  "DeleteUser_query F uid = stmt (\<lambda>s.
     let names = map u_name (filter (\<lambda>u. u_uuid u = uid) (users s)) in
     (Inr (int (length names)), drop_user F uid (drop_groups (\<lambda>g. g_name g \<in> set names) s)))"

definition DeleteTokenFromUser_query :: "uuid \<Rightarrow> uuid \<Rightarrow> ('v, int) dbm" where
  "DeleteTokenFromUser_query uid tid = stmt (\<lambda>s.
     (Inr (int (length (filter (\<lambda>t. tk_uuid t = tid \<and> tk_user t = uid) (user_tokens s)))),
      s\<lparr>user_tokens := filter (\<lambda>t. \<not> (tk_uuid t = tid \<and> tk_user t = uid)) (user_tokens s)\<rparr>))"

section \<open>GroupService\<close>

definition Group_Exists :: "uuid \<Rightarrow> ('v, bool) dbm" where
  "Group_Exists gid = andthen (ExistsGroup gid) (\<lambda>found. ret (found > 0))"

definition AddGroup :: "uuid \<Rightarrow> string \<Rightarrow> ('v, group_row) dbm" where
  "AddGroup newid name = with_tx (CreateGroup newid name)"

definition Group_FindGroupByUuid :: "uuid \<Rightarrow> ('v, group_row) dbm" where
  "Group_FindGroupByUuid gid = FindGroupByUuid gid"

definition Group_FindAll :: "(string \<Rightarrow> string) \<Rightarrow> string \<Rightarrow> int option \<Rightarrow> int option \<Rightarrow> ('v, group_row list) dbm" where
  "Group_FindAll sha token limit offset = FindGroups sha token (or_default 20 limit) (or_default 0 offset)"

definition UpdateGroupNameByUuid :: "uuid \<Rightarrow> string \<Rightarrow> ('v, int) dbm" where
  "UpdateGroupNameByUuid gid name = SetGroupNameByUUID gid name"

definition DeleteGroup :: "uuid \<Rightarrow> ('v, int) dbm" where
  "DeleteGroup gid = DeleteGroup_query gid"

section \<open>UserService\<close>

definition or_not_found :: "('v, int) dbm \<Rightarrow> ('v, int) dbm" where
  "or_not_found m = andthen m (\<lambda>count. if count = 0 then fail ErrorNotFound else ret count)"

definition User_Exists :: "uuid \<Rightarrow> ('v, bool) dbm" where
  "User_Exists uid = andthen (ExistsUser uid) (\<lambda>found. ret (found > 0))"

definition AddUser :: "uuid \<Rightarrow> uuid \<Rightarrow> uuid list \<Rightarrow> string \<Rightarrow> ('v, rest_User) dbm" where
  "AddUser gid uid pids name =
     andthen (with_tx (CreateUser gid uid pids name)) (\<lambda>user.
     andthen (FindGroupsByUser (u_uuid user)) (\<lambda>ugs.
       ret \<lparr>ru_user_uuid = u_uuid user, ru_name = u_name user, ru_groups = ugs\<rparr>))"

record TokenWithSecret =
  ws_Uuid :: uuid
  ws_Name :: string
  ws_Secret :: string

definition AddTokenToUser ::
  "(string \<Rightarrow> string) \<Rightarrow> uuid \<Rightarrow> string \<Rightarrow> uuid \<Rightarrow> string \<Rightarrow> ('v, TokenWithSecret) dbm" where
  "AddTokenToUser sha newid random uid label =
     (let secret = ''secret-token.'' @ random in
      andthen (AddTokenToUser_query sha newid uid label secret) (\<lambda>token.
        ret \<lparr>ws_Uuid = tk_uuid token, ws_Name = tk_name token, ws_Secret = secret\<rparr>))"

definition if_any :: "'a list \<Rightarrow> ('a list \<Rightarrow> ('v, int) dbm) \<Rightarrow> ('v, int) dbm" where
  "if_any xs f = (if xs = [] then ret 0 else f xs)"

definition known_if_idle :: "uuid \<Rightarrow> int \<Rightarrow> ('v, int) dbm" where
  "known_if_idle uid n = (if n = 0 then andthen (FindUserByUUID uid) (\<lambda>_. ret n) else ret n)"

definition AddRemoveUserToGroups :: "uuid \<Rightarrow> uuid list \<Rightarrow> uuid list \<Rightarrow> ('v, int) dbm" where
  "AddRemoveUserToGroups uid adds removes = with_tx (
     andthen (RemoveUserFromGroups_query uid removes) (\<lambda>count.
     andthen (if_any adds (AddUserToGroups_query uid)) (\<lambda>added.
       if count = 0 \<and> added = 0 then andthen (FindUserByUUID uid) (\<lambda>_. ret (count + added))
       else ret (count + added))))"

definition AddUserToGroups :: "uuid \<Rightarrow> uuid list \<Rightarrow> ('v, unit) dbm" where
  "AddUserToGroups uid gids = with_tx (
     if gids \<noteq> [] then andthen (AddUserToGroups_query uid gids) (\<lambda>_. ret ())
     else andthen (FindUserByUUID uid) (\<lambda>_. ret ()))"

definition FindUserByUuid :: "uuid \<Rightarrow> ('v, rest_User) dbm" where
  "FindUserByUuid uid = FindUserWithGroupsByUUID uid"

definition FindUserByToken :: "(string \<Rightarrow> string) \<Rightarrow> string \<Rightarrow> ('v, rest_User) dbm" where
  "FindUserByToken sha token = FindUserWithGroupsByToken sha token"

definition User_FindAll :: "(string \<Rightarrow> string) \<Rightarrow> string \<Rightarrow> int option \<Rightarrow> int option \<Rightarrow> ('v, rest_User list) dbm" where
  "User_FindAll sha token limit offset = FindUsers sha token (or_default 20 limit) (or_default 0 offset)"

definition FindTokensForUser :: "uuid \<Rightarrow> ('v, token_row list) dbm" where
  "FindTokensForUser uid = andthen (FindTokensByUser uid) (\<lambda>tokenList.
     if tokenList = [] then andthen (FindUserByUUID uid) (\<lambda>_. ret tokenList) else ret tokenList)"

definition RemoveUserFromGroups :: "uuid \<Rightarrow> uuid list \<Rightarrow> ('v, int) dbm" where
  "RemoveUserFromGroups uid gids = RemoveUserFromGroups_query uid gids"

definition SetUserGroups :: "uuid \<Rightarrow> uuid list \<Rightarrow> ('v, int) dbm" where
  "SetUserGroups uid gids = with_tx (
     andthen (RemoveUserFromAllGroups uid) (\<lambda>count.
     andthen (if_any gids (AddUserToGroups_query uid)) (\<lambda>added.
       if count = 0 \<and> added = 0 then andthen (FindUserByUUID uid) (\<lambda>_. ret (count + added))
       else ret (count + added))))"

record UpdateUserParams =
  uup_Name :: "string option"
  uup_Groups :: "uuid list option"
  uup_GroupsAdd :: "uuid list"
  uup_GroupsRemove :: "uuid list"

definition long_name :: "string option \<Rightarrow> string option" where
  "long_name n = (case n of None \<Rightarrow> None | Some x \<Rightarrow> if length x > 3 then Some x else None)"

definition UpdateUser :: "uuid \<Rightarrow> UpdateUserParams \<Rightarrow> ('v, int) dbm" where
  "UpdateUser uid p = with_tx (
     andthen (opt_step (long_name (uup_Name p)) (SetUserName_query uid) 0) (\<lambda>count.
     andthen (case uup_Groups p of
         Some gs \<Rightarrow> andthen (RemoveUserFromAllGroups uid) (\<lambda>c.
                    andthen (if_any gs (AddUserToGroups_query uid)) (\<lambda>c'. ret (count + c + c')))
       | None \<Rightarrow> andthen (if_any (uup_GroupsRemove p) (RemoveUserFromGroups_query uid)) (\<lambda>c.
                 andthen (if_any (uup_GroupsAdd p) (AddUserToGroups_query uid)) (\<lambda>c'. ret (count + c + c'))))
       (\<lambda>count. known_if_idle uid count)))"

definition SetUserName :: "uuid \<Rightarrow> string \<Rightarrow> ('v, int) dbm" where
  "SetUserName uid name = or_not_found (SetUserName_query uid name)"

definition DeleteUser :: "'v fops \<Rightarrow> uuid \<Rightarrow> ('v, int) dbm" where
  "DeleteUser F uid = or_not_found (DeleteUser_query F uid)"

definition DeleteTokenFromUser :: "uuid \<Rightarrow> uuid \<Rightarrow> ('v, int) dbm" where
  "DeleteTokenFromUser uid tid = or_not_found (DeleteTokenFromUser_query uid tid)"

end
