(* ===== verification/AccountFacts.thy ===== *)
theory AccountFacts
  imports Accounts
begin

text \<open>
  What the account operations keep: keys are unique, every token, membership and
  policy points to an existing user or group, and every \<^verbatim>\<open>created_by\<close> names an
  existing user.  Then what creating and deleting a user means for access.
\<close>

section \<open>The invariant\<close>

definition some_list :: "'a option \<Rightarrow> 'a list" where
  "some_list x = (case x of None \<Rightarrow> [] | Some a \<Rightarrow> [a])"

lemma set_some_list [simp]: "set (some_list x) = set_option x"
  by (cases x) (auto simp: some_list_def)

text \<open>All users some row names as its author.\<close>

definition creators :: "'v db \<Rightarrow> uuid list" where
  "creators s = concat (map (some_list \<circ> th_created_by) (things s))
     @ concat (map (some_list \<circ> ts_created_by) (timeseries s))
     @ concat (map (some_list \<circ> td_created_by) (tsdata s))
     @ concat (map (some_list \<circ> ds_created_by) (datasets s))
     @ concat (map (some_list \<circ> ds_updated_by) (datasets s))
     @ concat (map (some_list \<circ> up_created_by) (uploads s))
     @ concat (map (some_list \<circ> rv_created_by) (revisions s))
     @ concat (map (some_list \<circ> rv_signed_by) (revisions s))"

definition refs_ok :: "'v db \<Rightarrow> bool" where
  "refs_ok s \<longleftrightarrow> (\<forall>u\<in>set (creators s). u \<in> set (map u_uuid (users s)))"

definition accounts_ok :: "'v db \<Rightarrow> bool" where
  "accounts_ok s \<longleftrightarrow>
     distinct (map u_uuid (users s)) \<and> distinct (map u_name (users s))
     \<and> distinct (map g_uuid (groups s)) \<and> distinct (map g_name (groups s))
     \<and> distinct (map tk_uuid (user_tokens s)) \<and> distinct (user_groups s)
     \<and> (\<forall>t\<in>set (user_tokens s). tk_user t \<in> set (map u_uuid (users s)))
     \<and> (\<forall>m\<in>set (user_groups s). fst m \<in> set (map u_uuid (users s)) \<and> snd m \<in> set (map g_uuid (groups s)))"

definition db_ok :: "'v db \<Rightarrow> bool" where
  "db_ok s \<longleftrightarrow> accounts_ok s \<and> policies_ok s \<and> refs_ok s"

lemma creators_frame [simp]:
  "creators (s\<lparr>users := a\<rparr>) = creators s" "creators (s\<lparr>user_tokens := b\<rparr>) = creators s"
  "creators (s\<lparr>groups := c\<rparr>) = creators s" "creators (s\<lparr>user_groups := d\<rparr>) = creators s"
  "creators (s\<lparr>group_policies := e\<rparr>) = creators s" "creators (s\<lparr>faults := f\<rparr>) = creators s"
  by (simp_all add: creators_def)

lemmas db_ok_defs = db_ok_def accounts_ok_def policies_ok_def refs_ok_def

text \<open>A change outside of the account tables that names no new author keeps the invariant.\<close>

lemma db_ok_same:
  assumes "db_ok s" "users s' = users s" "user_tokens s' = user_tokens s" "groups s' = groups s"
    "user_groups s' = user_groups s" "group_policies s' = group_policies s" "set (creators s') \<subseteq> set (creators s)"
  shows "db_ok s'"
  using assms(1,7) unfolding db_ok_defs assms(2-6) by blast

lemma db_ok_fault_free [simp, intro]: "fault_free db_ok"
  by (simp add: fault_free_def db_ok_defs)

lemma preserves_db_reads: "reads m \<Longrightarrow> preserves db_ok m"
  by (rule reads_preserves) simp_all

lemma reads_accounts [simp, intro]:
  "reads (FindGroupByUuid gid)" "reads (FindGroupsByUser uid)" "reads (FindUserByUUID uid)"
  "reads (FindTokensByUser uid)"
  by (simp_all add: FindGroupByUuid_def FindGroupsByUser_def FindUserByUUID_def FindTokensByUser_def)

text \<open>A statement on one of the account tables keeps the invariant of the others.\<close>

lemma CreateGroup_keeps: "preserves db_ok (CreateGroup newid name)"
  unfolding CreateGroup_def
  by (rule preserves_stmt)
    (auto simp: db_ok_defs Let_def split: if_splits)

lemma distinct_rename:
  assumes "distinct (map n xs)" "distinct (map k xs)" "v \<notin> set (map n (filter (\<lambda>x. k x \<noteq> i) xs)) \<or> i \<notin> set (map k xs)"
    "\<And>x. n (f x) = v"
  shows "distinct (map n (map (\<lambda>x. if k x = i then f x else x) xs))"
  using assms by (intro map_update_distinct) auto

lemma map_update_key: "(\<And>x. k (f x) = k x) \<Longrightarrow> map k (map (\<lambda>x. if k x = i then f x else x) xs) = map k xs"
  by simp

lemma SetGroupName_keeps: "preserves db_ok (SetGroupNameByUUID gid name)"
  unfolding SetGroupNameByUUID_def
proof (rule preserves_stmt)
  fix s :: "'v db" and r s'
  let ?f = "\<lambda>g. if g_uuid g = gid then g\<lparr>g_name := name\<rparr> else g"
  assume *: "(let hit = filter (\<lambda>g. g_uuid g = gid) (groups s) in
     if hit \<noteq> [] \<and> name \<in> set (map g_name (filter (\<lambda>g. g_uuid g \<noteq> gid) (groups s))) then (Inl unique_violation, s)
     else (Inr (int (length hit)), s\<lparr>groups := map ?f (groups s)\<rparr>)) = (r, s')" and I: "db_ok s"
  have u: "map g_uuid (map ?f (groups s)) = map g_uuid (groups s)" by simp
  show "db_ok s'"
  proof (cases "s' = s")
    case True
    with I show ?thesis by simp
  next
    case False
    with * have s': "s' = s\<lparr>groups := map ?f (groups s)\<rparr>"
      and fresh: "name \<notin> set (map g_name (filter (\<lambda>g. g_uuid g \<noteq> gid) (groups s))) \<or> gid \<notin> set (map g_uuid (groups s))"
      by (auto simp: Let_def filter_empty_conv split: if_splits)
    have "distinct (map g_name (map ?f (groups s)))"
      using I fresh by (intro distinct_rename [of g_name _ g_uuid name]) (auto simp: db_ok_def accounts_ok_def)
    with I s' u show ?thesis
      unfolding db_ok_defs by (simp del: map_map set_map list.set_map)
  qed
qed simp


lemma SetUserName_keeps: "preserves db_ok (SetUserName_query uid name)"
  unfolding SetUserName_query_def
proof (rule preserves_stmt)
  fix s :: "'v db" and r s'
  let ?f = "\<lambda>u. if u_uuid u = uid then u\<lparr>u_name := name\<rparr> else u"
  assume *: "(let hit = filter (\<lambda>u. u_uuid u = uid) (users s) in
     if hit \<noteq> [] \<and> name \<in> set (map u_name (filter (\<lambda>u. u_uuid u \<noteq> uid) (users s))) then (Inl unique_violation, s)
     else (Inr (int (length hit)), s\<lparr>users := map ?f (users s)\<rparr>)) = (r, s')" and I: "db_ok s"
  have u: "map u_uuid (map ?f (users s)) = map u_uuid (users s)" by simp
  show "db_ok s'"
  proof (cases "s' = s")
    case True
    with I show ?thesis by simp
  next
    case False
    with * have s': "s' = s\<lparr>users := map ?f (users s)\<rparr>"
      and fresh: "name \<notin> set (map u_name (filter (\<lambda>u. u_uuid u \<noteq> uid) (users s))) \<or> uid \<notin> set (map u_uuid (users s))"
      by (auto simp: Let_def filter_empty_conv split: if_splits)
    have "distinct (map u_name (map ?f (users s)))"
      using I fresh by (intro distinct_rename [of u_name _ u_uuid name]) (auto simp: db_ok_def accounts_ok_def)
    with I s' u show ?thesis
      unfolding db_ok_defs
      by (simp del: map_map set_map list.set_map)
  qed
qed simp

lemma drop_groups_ok:
  assumes "db_ok s"
  shows "db_ok (drop_groups P s)"
proof -
  let ?gone = "g_uuid ` {g \<in> set (groups s). P g}"
  have keep: "u \<in> g_uuid ` {g \<in> set (groups s). \<not> P g}" if "u \<in> g_uuid ` set (groups s)" "u \<notin> ?gone" for u
    using that by auto
  have "accounts_ok (drop_groups P s)"
    using assms keep unfolding db_ok_def accounts_ok_def drop_groups_def Let_def
    by (simp add: distinct_map_filter_key)
  moreover have "policies_ok (drop_groups P s)"
    using assms keep unfolding db_ok_def policies_ok_def drop_groups_def Let_def
    by (simp add: distinct_map_filter_key list_all_iff)
  moreover have "refs_ok (drop_groups P s)"
    using assms by (simp add: db_ok_def refs_ok_def drop_groups_def Let_def)
  ultimately show ?thesis by (simp add: db_ok_def)
qed

lemma set_option_forget [simp]: "set_option (forget uid x) = set_option x - {uid}"
  by (auto simp: forget_def elem_set)

lemmas drop_user_defs = drop_user_def tsdata_after_update_def Let_def

lemma creators_drop_user: "set (creators (drop_user F uid s)) = set (creators s) - {uid}"
proof -
  have *: "(\<Union>x\<in>A. f x - {uid}) = (\<Union>x\<in>A. f x) - {uid}" for A and f :: "'b \<Rightarrow> uuid set" by blast
  show ?thesis unfolding creators_def drop_user_defs by (simp add: comp_def * Un_Diff)
qed

lemma drop_user_ok:
  assumes "db_ok s"
  shows "db_ok (drop_user F uid s)"
proof -
  have "refs_ok (drop_user F uid s)"
    using assms unfolding db_ok_def refs_ok_def creators_drop_user by (auto simp: drop_user_defs)
  moreover have "accounts_ok (drop_user F uid s)" "policies_ok (drop_user F uid s)"
    using assms by (auto simp: db_ok_def accounts_ok_def policies_ok_def drop_user_defs distinct_map_filter_key)
  ultimately show ?thesis by (simp add: db_ok_def)
qed

lemma DeleteGroup_keeps: "preserves db_ok (DeleteGroup_query gid)"
  unfolding DeleteGroup_query_def by (rule preserves_stmt) (auto intro: drop_groups_ok)

lemma DeleteUser_query_keeps: "preserves db_ok (DeleteUser_query F uid)"
  unfolding DeleteUser_query_def by (rule preserves_stmt) (auto simp: Let_def intro: drop_groups_ok drop_user_ok)

lemma AddToken_keeps: "preserves db_ok (AddTokenToUser_query sha newid uid name secret)"
  unfolding AddTokenToUser_query_def
  by (rule preserves_stmt)
    (auto simp: db_ok_defs Let_def split: if_splits)

lemma DeleteToken_keeps: "preserves db_ok (DeleteTokenFromUser_query uid tid)"
  unfolding DeleteTokenFromUser_query_def
  by (rule preserves_stmt)
    (auto simp: db_ok_defs distinct_map_filter_key)

lemma delete_members_keeps: "preserves db_ok (delete_members P)"
  unfolding delete_members_def
  by (rule preserves_stmt)
    (auto simp: db_ok_defs)

lemma AddUserToGroups_query_keeps: "preserves db_ok (AddUserToGroups_query uid gids)"
  unfolding AddUserToGroups_query_def
  by (rule preserves_stmt)
    (auto simp: db_ok_defs Let_def list_ex_iff list_all_iff image_iff simp del: split_paired_All split_paired_Ex
      split: if_splits)

section \<open>Creating a user\<close>

text \<open>The text of a UUID: lower-case hexadecimal digits and dashes.\<close>

definition plain_id :: "uuid \<Rightarrow> bool" where
  "plain_id u \<longleftrightarrow> u \<noteq> [] \<and> list_all (\<lambda>c. c \<in> set ''0123456789abcdef-'') u"

lemma plain_id_chars:
  assumes "plain_id u" "c \<in> set u"
  shows "graphic c" "c \<noteq> slash" "c \<noteq> percent" "c \<noteq> CHR ''_''" "c \<noteq> backslash"
proof -
  have "list_all (\<lambda>c. graphic c \<and> c \<noteq> slash \<and> c \<noteq> percent \<and> c \<noteq> CHR ''_'' \<and> c \<noteq> backslash) ''0123456789abcdef-''"
    by code_simp
  moreover have "c \<in> set ''0123456789abcdef-''" using assms by (simp only: plain_id_def list_all_iff)
  ultimately show "graphic c" "c \<noteq> slash" "c \<noteq> percent" "c \<noteq> CHR ''_''" "c \<noteq> backslash"
    unfolding list_all_iff by blast+
qed

definition word_ok :: "string \<Rightarrow> bool" where
  "word_ok p \<longleftrightarrow> p \<noteq> [] \<and> list_all (\<lambda>c. graphic c \<and> c \<noteq> slash \<and> c \<noteq> percent) p"

lemma word_ok_id: "plain_id u \<Longrightarrow> word_ok u"
  using plain_id_chars [of u] by (auto simp: word_ok_def plain_id_def list_all_iff)

lemma resource_ok:
  assumes "ps \<noteq> []" "\<forall>p\<in>set ps. p = ''%'' \<or> word_ok p"
  shows "validatePolicyResource (join_with [slash] ps) = None"
proof (rule validatePolicyResource_join [OF assms(1)])
  fix p assume p: "p \<in> set ps"
  have g: "graphic percent" by code_simp
  show "p \<noteq> [] \<and> slash \<notin> set p \<and> (percent \<in> set p \<longrightarrow> p = ''%'') \<and> (\<forall>c\<in>set p. graphic c)"
  proof (cases "p = ''%''")
    case True
    with g show ?thesis by simp
  next
    case False
    with assms(2) p have "word_ok p" by blast
    then show ?thesis unfolding word_ok_def list_all_iff by blast
  qed
qed

lemma user_rules_valid:
  assumes "plain_id uid" "(e, a, r) \<in> set (user_rules uid)"
  shows "validatePolicyResource r = None"
proof -
  have w: "word_ok ''users''" "word_ok ''me''" "word_ok ''rate''" by code_simp+
  have "r \<in> join_with [slash] ` {[''users'', ''me''], [''users'', uid], [''users'', uid, ''%''], [''users'', uid, ''rate'']}"
    using assms(2) by (auto simp: user_rules_def)
  with w word_ok_id [OF assms(1)] show ?thesis by (auto intro!: resource_ok simp del: join_with.simps)
qed

lemma insert_policies_Inr:
  "insert_policies ps s = (Inr u, s') \<Longrightarrow> s' = s\<lparr>group_policies := group_policies s @ ps\<rparr>"
proof (induction ps arbitrary: s)
  case (Cons p ps)
  then obtain q s1 where q: "insert_policy p s = (Inr q, s1)" "insert_policies ps s1 = (Inr u, s')"
    by (auto split: prod.splits sum.splits)
  then have "s1 = s\<lparr>group_policies := group_policies s @ [p]\<rparr>"
    by (auto simp: insert_policy_def split: if_splits)
  with Cons.IH [OF q(2)] show ?case by simp
qed simp

lemma insert_policies_keeps:
  "insert_policies ps s = (r, s') \<Longrightarrow> list_all policy_ok ps \<Longrightarrow> policies_ok s \<Longrightarrow> policies_ok s'"
proof (induction ps arbitrary: s)
  case (Cons p ps)
  obtain r1 s1 where "insert_policy p s = (r1, s1)" by force
  with Cons insert_policy_keeps [OF this] show ?case by (auto split: sum.splits)
qed simp

lemma set_user_policies:
  "p \<in> set (user_policies gid uid pids) \<Longrightarrow>
   gp_group p = gid \<and> gp_priority p = 0 \<and> (gp_effect p, gp_action p, gp_resource p) \<in> set (user_rules uid)"
  by (auto simp: user_policies_def dest: set_zip_rightD)

lemma user_policies_ok: "plain_id uid \<Longrightarrow> list_all policy_ok (user_policies gid uid pids)"
  using user_rules_valid set_user_policies
  by (fastforce simp: list_all_iff policy_ok_def in_i32_def)

lemma CreateUser_Inr:
  assumes "CreateUser gid uid pids name s = (Inr u, s')"
  obtains fs where "u = \<lparr>u_uuid = uid, u_name = name, u_state = ''active''\<rparr>"
    "s' = s\<lparr>faults := fs, groups := groups s @ [\<lparr>g_uuid = gid, g_name = name\<rparr>], users := users s @ [u],
            group_policies := group_policies s @ user_policies gid uid pids, user_groups := user_groups s @ [(uid, gid)]\<rparr>"
    "gid \<notin> set (map g_uuid (groups s))" "name \<notin> set (map g_name (groups s))"
    "uid \<notin> set (map u_uuid (users s))" "name \<notin> set (map u_name (users s))"
    "is_ok (fst (insert_policies (user_policies gid uid pids)
       (s\<lparr>faults := fs, groups := groups s @ [\<lparr>g_uuid = gid, g_name = name\<rparr>], users := users s @ [u]\<rparr>)))"
proof (rule that [of "tl (faults s)"])
  let ?t = "s\<lparr>faults := tl (faults s), groups := groups s @ [\<lparr>g_uuid = gid, g_name = name\<rparr>],
       users := users s @ [\<lparr>u_uuid = uid, u_name = name, u_state = ''active''\<rparr>]\<rparr>"
  note * = stmt_Inr [OF assms [unfolded CreateUser_def], unfolded Let_def]
  then show u: "u = \<lparr>u_uuid = uid, u_name = name, u_state = ''active''\<rparr>"
    by (auto split: if_splits prod.splits sum.splits)
  from * obtain v where ins: "insert_policies (user_policies gid uid pids) ?t = (Inr v, snd (insert_policies (user_policies gid uid pids) ?t))"
    by (auto split: if_splits prod.splits sum.splits)
  with * insert_policies_Inr [OF ins] show "s' = s\<lparr>faults := tl (faults s), groups := groups s @ [\<lparr>g_uuid = gid, g_name = name\<rparr>],
      users := users s @ [u], group_policies := group_policies s @ user_policies gid uid pids,
      user_groups := user_groups s @ [(uid, gid)]\<rparr>"
    using u by (auto split: if_splits prod.splits sum.splits)
  show "is_ok (fst (insert_policies (user_policies gid uid pids) (s\<lparr>faults := tl (faults s),
      groups := groups s @ [\<lparr>g_uuid = gid, g_name = name\<rparr>], users := users s @ [u]\<rparr>)))"
    using ins u by (metis fst_conv is_ok.simps(2))
  show "gid \<notin> set (map g_uuid (groups s))" "name \<notin> set (map g_name (groups s))"
    "uid \<notin> set (map u_uuid (users s))" "name \<notin> set (map u_name (users s))"
    using * by (auto split: if_splits)
qed

lemma CreateUser_Inl:
  "CreateUser gid uid pids name s = (Inl e, s') \<Longrightarrow> tables s' = tables s"
  unfolding CreateUser_def by (erule stmt_Inl) (auto simp: Let_def split: if_splits prod.splits sum.splits)

lemma CreateUser_keeps:
  assumes "plain_id uid"
  shows "preserves db_ok (CreateUser gid uid pids name)"
  unfolding preserves_def
proof (intro allI impI)
  fix s :: "'v db" and r s'
  assume c: "CreateUser gid uid pids name s = (r, s')" and I: "db_ok s"
  show "db_ok s'"
  proof (cases r)
    case (Inl e)
    with c CreateUser_Inl have "tables s' = tables s" by blast
    with I show ?thesis using fault_free_tables [OF db_ok_fault_free] by blast
  next
    case (Inr u)
    from c [unfolded Inr] obtain fs where u: "u = \<lparr>u_uuid = uid, u_name = name, u_state = ''active''\<rparr>" and
      s': "s' = s\<lparr>faults := fs, groups := groups s @ [\<lparr>g_uuid = gid, g_name = name\<rparr>], users := users s @ [u],
            group_policies := group_policies s @ user_policies gid uid pids, user_groups := user_groups s @ [(uid, gid)]\<rparr>" and
      fresh: "gid \<notin> set (map g_uuid (groups s))" "name \<notin> set (map g_name (groups s))"
        "uid \<notin> set (map u_uuid (users s))" "name \<notin> set (map u_name (users s))" and
      ok: "is_ok (fst (insert_policies (user_policies gid uid pids)
         (s\<lparr>faults := fs, groups := groups s @ [\<lparr>g_uuid = gid, g_name = name\<rparr>], users := users s @ [u]\<rparr>)))"
      by (rule CreateUser_Inr)
    let ?t = "s\<lparr>faults := fs, groups := groups s @ [\<lparr>g_uuid = gid, g_name = name\<rparr>], users := users s @ [u]\<rparr>"
    obtain r1 t' where e: "insert_policies (user_policies gid uid pids) ?t = (r1, t')" by (rule prod.exhaust)
    with ok have "is_ok r1" by (simp only: fst_conv)
    then obtain v where ins: "insert_policies (user_policies gid uid pids) ?t = (Inr v, t')"
      using e by (metis is_ok_iff)
    have "policies_ok ?t" using I by (auto simp: db_ok_def policies_ok_def)
    from insert_policies_keeps [OF ins user_policies_ok [OF assms] this] insert_policies_Inr [OF ins]
    have "policies_ok s'" by (simp add: s' policies_ok_def)
    moreover have "accounts_ok s'" using I fresh u by (auto simp: s' db_ok_def accounts_ok_def)
    moreover have "refs_ok s'" using I by (auto simp: s' db_ok_def refs_ok_def)
    ultimately show ?thesis by (simp add: db_ok_def)
  qed
qed

section \<open>Every account operation keeps the invariant\<close>

lemmas query_keeps = CreateGroup_keeps SetGroupName_keeps SetUserName_keeps DeleteGroup_keeps DeleteUser_query_keeps
  AddToken_keeps DeleteToken_keeps delete_members_keeps AddUserToGroups_query_keeps
  reads_accounts [THEN preserves_db_reads]

lemma if_any_keeps: "(\<And>xs. preserves I (f xs)) \<Longrightarrow> preserves I (if_any xs f)"
  by (auto simp: if_any_def)

lemma known_if_idle_keeps: "preserves db_ok (known_if_idle uid n)"
  unfolding known_if_idle_def by (auto intro!: preserves_andthen query_keeps)

lemma or_not_found_keeps: "preserves I m \<Longrightarrow> preserves I (or_not_found m)"
  unfolding or_not_found_def by (intro preserves_andthen) auto

lemma group_ops_keep:
  "preserves db_ok (AddGroup newid name)"
  "preserves db_ok (UpdateGroupNameByUuid gid name)"
  "preserves db_ok (DeleteGroup gid)"
  unfolding AddGroup_def UpdateGroupNameByUuid_def DeleteGroup_def
  by (intro preserves_with_tx query_keeps db_ok_fault_free)+

lemma member_ops_keep:
  "preserves db_ok (AddRemoveUserToGroups uid adds removes)"
  "preserves db_ok (AddUserToGroups uid gids)"
  "preserves db_ok (RemoveUserFromGroups uid gids)"
  "preserves db_ok (SetUserGroups uid gids)"
  unfolding AddRemoveUserToGroups_def AddUserToGroups_def RemoveUserFromGroups_def SetUserGroups_def
    RemoveUserFromGroups_query_def RemoveUserFromAllGroups_def
  by (auto intro!: preserves_with_tx preserves_andthen if_any_keeps query_keeps)

lemma user_ops_keep:
  "plain_id uid \<Longrightarrow> preserves db_ok (AddUser gid uid pids name)"
  "preserves db_ok (AddTokenToUser sha newid rnd uid label)"
  "preserves db_ok (SetUserName uid name)"
  "preserves db_ok (DeleteUser F uid)"
  "preserves db_ok (DeleteTokenFromUser uid tid)"
  unfolding AddUser_def AddTokenToUser_def SetUserName_def DeleteUser_def DeleteTokenFromUser_def Let_def
  by (auto intro!: preserves_with_tx preserves_andthen or_not_found_keeps CreateUser_keeps query_keeps)

lemma UpdateUser_keeps: "preserves db_ok (UpdateUser uid p)"
  unfolding UpdateUser_def RemoveUserFromGroups_query_def RemoveUserFromAllGroups_def
  by (auto intro!: preserves_with_tx preserves_andthen preserves_opt_step if_any_keeps query_keeps
      known_if_idle_keeps split: option.splits)

text \<open>The policy operations touch no account table.\<close>

definition others_ok :: "'v db \<Rightarrow> bool" where
  "others_ok s \<longleftrightarrow> accounts_ok s \<and> refs_ok s"

lemma others_ok_frame [simp]: "others_ok (s\<lparr>group_policies := ps\<rparr>) = others_ok s"
  by (simp add: others_ok_def accounts_ok_def refs_ok_def)

lemma others_ok_fault_free [simp, intro]: "fault_free others_ok"
  by (simp add: fault_free_def others_ok_def accounts_ok_def refs_ok_def)

lemma policy_stmts_others:
  "preserves others_ok (CreatePolicy newid grp prio eff act res)"
  "preserves others_ok (SetPolicyGroup pid g)" "preserves others_ok (SetPolicyEffect pid eff)"
  "preserves others_ok (SetPolicyAction pid act)" "preserves others_ok (SetPolicyPriority pid n)"
  "preserves others_ok (SetPolicyResource pid res)" "preserves others_ok (DeletePolicyByUUID pid)"
  unfolding CreatePolicy_def SetPolicyGroup_def SetPolicyEffect_def SetPolicyAction_def SetPolicyPriority_def
    SetPolicyResource_def DeletePolicyByUUID_def
  by (rule preserves_stmt; auto simp: insert_policy_def update_policy_def Let_def split: option.splits if_splits)+

lemmas policy_others = policy_stmts_others
  reads_FindPolicies [THEN reads_preserves [OF others_ok_fault_free]]
  reads_validatePolicyRule [THEN reads_preserves [OF others_ok_fault_free]]

lemma policy_ops_others:
  "preserves others_ok (Policy_Add newid np)"
  "preserves others_ok (Policy_Update pid up)"
  "preserves others_ok (Policy_Delete pid)"
  unfolding Policy_Add_def Policy_Update_def Policy_Update_body_def Policy_Delete_def
  by (auto intro!: preserves_with_tx preserves_andthen preserves_opt_step policy_others)

lemma db_ok_split: "db_ok s \<longleftrightarrow> policies_ok s \<and> others_ok s"
  by (auto simp: db_ok_def others_ok_def)

lemma preserves_db_split: "preserves policies_ok m \<Longrightarrow> preserves others_ok m \<Longrightarrow> preserves db_ok m"
  unfolding preserves_def db_ok_split by blast

lemma policy_ops_keep:
  "in_i32 (np_Priority np) \<Longrightarrow> preserves db_ok (Policy_Add newid np)"
  "preserves db_ok (Policy_Update pid up)"
  "preserves db_ok (Policy_Delete pid)"
  by (intro preserves_db_split policy_ops_others Policy_Add_keeps Policy_Update_keeps Policy_Delete_keeps; assumption)+

section \<open>Rights of a new user\<close>

lemma like_literal:
  assumes "\<forall>c\<in>set p. c \<noteq> percent \<and> c \<noteq> CHR ''_'' \<and> c \<noteq> backslash"
  shows "like (p @ q) r \<longleftrightarrow> (\<exists>t. r = p @ t \<and> like q t)"
  using assms
proof (induction p arbitrary: r)
  case (Cons c p)
  then show ?case by (simp add: like_lit) blast
qed simp

lemma like_plain:
  "\<forall>c\<in>set p. c \<noteq> percent \<and> c \<noteq> CHR ''_'' \<and> c \<noteq> backslash \<Longrightarrow> like p r \<longleftrightarrow> r = p"
  using like_literal [of p "[]" r] by auto

lemma like_subtree:
  "\<forall>c\<in>set p. c \<noteq> percent \<and> c \<noteq> CHR ''_'' \<and> c \<noteq> backslash \<Longrightarrow> like (p @ ''%'') r \<longleftrightarrow> HasPrefix r p"
  using like_literal [of p "''%''" r] by (auto simp: HasPrefix_def prefix_def)

definition own_rights :: "uuid \<Rightarrow> action \<Rightarrow> string \<Rightarrow> bool" where
  "own_rights uid act res \<longleftrightarrow> act = Read \<and> res = ''users/me''
     \<or> (res = ''users/'' @ uid \<or> HasPrefix res (''users/'' @ uid @ ''/''))
       \<and> \<not> (act = Update \<and> res = ''users/'' @ uid @ ''/rate'')"

lemma user_rules_rights:
  assumes "plain_id uid"
  shows "(\<exists>r. (Allow, act, r) \<in> set (user_rules uid) \<and> like r res)
       \<and> \<not> (\<exists>r. (Deny, act, r) \<in> set (user_rules uid) \<and> like r res) \<longleftrightarrow> own_rights uid act res"
proof -
  let ?lit = "\<lambda>p. \<forall>c\<in>set p. c \<noteq> percent \<and> c \<noteq> CHR ''_'' \<and> c \<noteq> backslash"
  have u: "?lit uid" using plain_id_chars [OF assms] by blast
  have lits: "?lit ''users/me''" "?lit (''users/'' @ uid)" "?lit (''users/'' @ uid @ ''/'')" "?lit (''users/'' @ uid @ ''/rate'')"
    using u by auto
  have like: "like ''users/me'' res \<longleftrightarrow> res = ''users/me''" "like (''users/'' @ uid) res \<longleftrightarrow> res = ''users/'' @ uid"
    "like (''users/'' @ uid @ ''/rate'') res \<longleftrightarrow> res = ''users/'' @ uid @ ''/rate''"
    "like (''users/'' @ uid @ ''/%'') res \<longleftrightarrow> HasPrefix res (''users/'' @ uid @ ''/'')"
    using like_plain [OF lits(1)] like_plain [OF lits(2)] like_plain [OF lits(4)] like_subtree [OF lits(3)] by simp_all
  have allow: "(\<exists>r. (Allow, act, r) \<in> set (user_rules uid) \<and> like r res) \<longleftrightarrow>
      act = Read \<and> like ''users/me'' res \<or> like (''users/'' @ uid) res \<or> like (''users/'' @ uid @ ''/%'') res"
    by (cases act; simp add: user_rules_def del: like.simps append.simps; blast)
  have deny: "(\<exists>r. (Deny, act, r) \<in> set (user_rules uid) \<and> like r res) \<longleftrightarrow>
      act = Update \<and> like (''users/'' @ uid @ ''/rate'') res"
    by (cases act; simp add: user_rules_def del: like.simps append.simps; blast)
  show ?thesis unfolding allow deny like own_rights_def by auto
qed

lemma user_policies_rules:
  assumes "length pids = 10"
  shows "(e, a, r) \<in> set (user_rules uid) \<longleftrightarrow>
    (\<exists>p\<in>set (user_policies gid uid pids). gp_effect p = e \<and> gp_action p = a \<and> gp_resource p = r)"
proof
  assume "(e, a, r) \<in> set (user_rules uid)"
  then obtain i where i: "i < length (user_rules uid)" "user_rules uid ! i = (e, a, r)" by (auto simp: in_set_conv_nth)
  have l: "length (user_rules uid) = 10" by (simp add: user_rules_def)
  let ?p = "\<lparr>gp_uuid = pids ! i, gp_group = gid, gp_priority = 0, gp_effect = e, gp_action = a, gp_resource = r\<rparr>"
  have "user_policies gid uid pids ! i = ?p" "i < length (user_policies gid uid pids)"
    using i l assms by (simp_all add: user_policies_def)
  then have "?p \<in> set (user_policies gid uid pids)" by (metis nth_mem)
  then show "\<exists>p\<in>set (user_policies gid uid pids). gp_effect p = e \<and> gp_action p = a \<and> gp_resource p = r"
    by (rule bexI [rotated]) simp
next
  assume "\<exists>p\<in>set (user_policies gid uid pids). gp_effect p = e \<and> gp_action p = a \<and> gp_resource p = r"
  then show "(e, a, r) \<in> set (user_rules uid)" using set_user_policies by blast
qed

lemma created_user_applies:
  assumes "db_ok s" "gid \<notin> set (map g_uuid (groups s))" "uid \<notin> set (map u_uuid (users s))"
    "group_policies s' = group_policies s @ user_policies gid uid pids" "user_groups s' = user_groups s @ [(uid, gid)]"
  shows "q \<in> set (group_policies s') \<and> applies s' uid act res q \<longleftrightarrow>
     q \<in> set (user_policies gid uid pids) \<and> gp_action q = act \<and> like (gp_resource q) res"
proof -
  have "(uid, g) \<in> set (user_groups s') \<longleftrightarrow> g = gid" for g
    using assms by (auto simp: db_ok_def accounts_ok_def)
  moreover have "gp_group q \<noteq> gid" if "q \<in> set (group_policies s)" for q
    using assms that by (auto simp: db_ok_def policies_ok_def)
  ultimately show ?thesis using assms(4) set_user_policies by (auto simp: applies_def)
qed

lemma created_user_rights:
  assumes "db_ok s" "plain_id uid" "length pids = 10"
    and fresh: "gid \<notin> set (map g_uuid (groups s))" "uid \<notin> set (map u_uuid (users s))"
    and s': "group_policies s' = group_policies s @ user_policies gid uid pids" "user_groups s' = user_groups s @ [(uid, gid)]"
  shows "permitted s' uid act res \<longleftrightarrow> own_rights uid act res"
proof -
  note ap = created_user_applies [OF assms(1) fresh s']
  let ?ps = "set (user_policies gid uid pids)"
  have "permitted s' uid act res \<longleftrightarrow> (\<exists>p\<in>?ps. gp_action p = act \<and> like (gp_resource p) res \<and> gp_effect p = Allow
      \<and> (\<forall>q\<in>?ps. gp_action q = act \<and> like (gp_resource q) res \<longrightarrow> gp_effect q = Allow))"
  proof -
    have "permitted s' uid act res \<longleftrightarrow> (\<exists>p. (p \<in> set (group_policies s') \<and> applies s' uid act res p) \<and> gp_effect p = Allow
       \<and> (\<forall>q. q \<in> set (group_policies s') \<and> applies s' uid act res q \<longrightarrow>
              gp_priority p < gp_priority q \<or> gp_priority p = gp_priority q \<and> gp_effect q = Allow))"
      unfolding permitted_def by blast
    moreover have "gp_priority p = 0" if "p \<in> ?ps" for p using set_user_policies [OF that] by simp
    ultimately show ?thesis unfolding ap by (metis less_irrefl)
  qed
  also have "\<dots> \<longleftrightarrow> (\<exists>r. (Allow, act, r) \<in> set (user_rules uid) \<and> like r res)
       \<and> \<not> (\<exists>r. (Deny, act, r) \<in> set (user_rules uid) \<and> like r res)"
  proof -
    have ex: "(\<exists>r. (e, act, r) \<in> set (user_rules uid) \<and> like r res) \<longleftrightarrow>
        (\<exists>p\<in>?ps. gp_action p = act \<and> like (gp_resource p) res \<and> gp_effect p = e)" for e
      unfolding user_policies_rules [OF assms(3), of _ _ _ uid gid] by blast
    have "gp_effect q = Allow \<longleftrightarrow> gp_effect q \<noteq> Deny" for q by (cases "gp_effect q") auto
    then show ?thesis unfolding ex by blast
  qed
  also have "\<dots> \<longleftrightarrow> own_rights uid act res" by (rule user_rules_rights [OF assms(2)])
  finally show ?thesis .
qed

lemma tables_fields:
  assumes "tables s = tables t"
  shows "users s = users t" "user_groups s = user_groups t" "groups s = groups t"
    "group_policies s = group_policies t" "user_tokens s = user_tokens t"
  using assms by (cases s; cases t; simp add: tables_def)+

lemma AddUser_tables:
  assumes "AddUser gid uid pids name s = (Inr u, s')"
  obtains s2 v fs where "tables s2 = tables s" "gid \<notin> set (map g_uuid (groups s2))" "uid \<notin> set (map u_uuid (users s2))"
    "u_uuid v = uid" "users s' = users s2 @ [v]"
    "group_policies s' = group_policies s2 @ user_policies gid uid pids" "user_groups s' = user_groups s2 @ [(uid, gid)]"
proof -
  from assms obtain v s1 where w: "with_tx (CreateUser gid uid pids name) s = (Inr v, s1)" and t: "tables s' = tables s1"
    unfolding AddUser_def by (auto elim!: andthen_cases dest: readsD [OF reads_accounts(2)] simp: ret_def)
  obtain s2 s3 where w': "tables s2 = tables s" "CreateUser gid uid pids name s2 = (Inr v, s3)" "tables s1 = tables s3"
    using with_tx_Inr [OF w] by blast
  from w'(2) obtain fs where v: "v = \<lparr>u_uuid = uid, u_name = name, u_state = ''active''\<rparr>" and
    s3: "s3 = s2\<lparr>faults := fs, groups := groups s2 @ [\<lparr>g_uuid = gid, g_name = name\<rparr>],
      users := users s2 @ [v], group_policies := group_policies s2 @ user_policies gid uid pids,
      user_groups := user_groups s2 @ [(uid, gid)]\<rparr>"
    and fresh: "gid \<notin> set (map g_uuid (groups s2))" "uid \<notin> set (map u_uuid (users s2))"
    by (rule CreateUser_Inr)
  have t': "tables s' = tables s3" using t w'(3) by simp
  show ?thesis using that [OF w'(1) fresh, of v] v s3 tables_fields [OF t'] by simp
qed

section \<open>Properties\<close>

text \<open>
  C6: A user that \<^verbatim>\<open>AddUser\<close> created has exactly the rights over its own account: it may
  read \<^verbatim>\<open>users/me\<close> and do everything on \<^verbatim>\<open>users/<id>\<close> and below, except changing its own
  rate limit, and nothing else at all.
\<close>

theorem new_user_rights:
  assumes "db_ok s" and "plain_id uid" and "length pids = 10"
    and "AddUser gid uid pids name s = (Inr u, s')"
  shows "permitted s' uid act res \<longleftrightarrow> own_rights uid act res"
proof -
  from assms(4) obtain s2 v where *: "tables s2 = tables s" "gid \<notin> set (map g_uuid (groups s2))" "uid \<notin> set (map u_uuid (users s2))"
    "group_policies s' = group_policies s2 @ user_policies gid uid pids" "user_groups s' = user_groups s2 @ [(uid, gid)]"
    by (rule AddUser_tables)
  have "db_ok s2" using *(1) assms(1) fault_free_tables [OF db_ok_fault_free] by blast
  from created_user_rights [OF this assms(2,3) *(2-5)] show ?thesis .
qed

definition seed_user :: "int db" where
  "seed_user = empty_db\<lparr>users := [\<lparr>u_uuid = ''0'', u_name = ''root'', u_state = ''active''\<rparr>],
     groups := [\<lparr>g_uuid = ''0'', g_name = ''root''\<rparr>, \<lparr>g_uuid = ''1'', g_name = ''admin''\<rparr>],
     user_groups := [(''0'', ''0'')],
     user_tokens := [\<lparr>tk_uuid = ''a0'', tk_user = ''0'', tk_name = ''main'', tk_hash = ''root'', tk_created = 0\<rparr>],
     things := [\<lparr>th_uuid = ''c0'', th_name = ''pump'', th_type = None, th_state = ''active'',
                 th_created_by = Some ''0'', th_tags = []\<rparr>]\<rparr>"

definition ten_ids :: "uuid list" where
  "ten_ids = [''b0'', ''b1'', ''b2'', ''b3'', ''b4'', ''b5'', ''b6'', ''b7'', ''b8'', ''b9'']"

lemma seed_user_ok: "db_ok seed_user"
  by code_simp

theorem new_user_rights_witness:
  "\<exists>u s'. AddUser ''d1'' ''e1'' ten_ids ''alice'' seed_user = (Inr u, s')
     \<and> permitted s' ''e1'' Update ''users/e1/name'' \<and> \<not> permitted s' ''e1'' Update ''users/e1/rate''"
proof -
  have "is_ok (fst (AddUser ''d1'' ''e1'' ten_ids ''alice'' seed_user))" by code_simp
  then obtain u s' where c: "AddUser ''d1'' ''e1'' ten_ids ''alice'' seed_user = (Inr u, s')"
    by (metis is_ok_iff prod.collapse)
  have "plain_id ''e1''" "length ten_ids = 10" by code_simp+
  note r = new_user_rights [OF seed_user_ok this c]
  have "own_rights ''e1'' Update ''users/e1/name''" "\<not> own_rights ''e1'' Update ''users/e1/rate''" by code_simp+
  with r c show ?thesis by blast
qed

lemma or_not_found_Inr:
  "or_not_found m s = (Inr n, s') \<Longrightarrow> m s = (Inr n, s') \<and> n \<noteq> 0"
  by (auto simp: or_not_found_def ret_def fail_def split: if_splits elim!: andthen_cases)

lemma token_user_Some: "token_user sha s tok = Some uid \<Longrightarrow> \<exists>t\<in>set (user_tokens s). tk_user t = uid"
  by (auto simp: token_user_def dest: find_Some_set)

lemma DeleteUser_fst:
  "healthy s \<Longrightarrow> fst (DeleteUser F uid s) = (let n = length (filter (\<lambda>u. u_uuid u = uid) (users s)) in
     if n = 0 then Inl ErrorNotFound else Inr (int n))"
  by (simp add: DeleteUser_def or_not_found_def andthen_def DeleteUser_query_def dbsimps Let_def ret_def fail_def)

lemma DeleteUser_groups:
  "healthy s \<Longrightarrow> groups (snd (DeleteUser F uid s)) =
     filter (\<lambda>g. g_name g \<notin> set (map u_name (filter (\<lambda>u. u_uuid u = uid) (users s)))) (groups s)"
  by (simp add: DeleteUser_def or_not_found_def andthen_def DeleteUser_query_def dbsimps Let_def drop_user_defs drop_groups_def
      ret_def fail_def)

text \<open>
  C7: Deleting a user leaves no trace that could act or dangle.  When \<^verbatim>\<open>DeleteUser\<close>
  succeeds the user was there; afterwards neither the user nor a token, a membership or
  an authorship of it is left, no token authenticates as it and it may do nothing, while
  every thing, time series, data point, dataset, upload and program revision is still
  there.  The database stays consistent.
\<close>

theorem delete_user_complete:
  assumes "db_ok s" and "DeleteUser F uid s = (Inr n, s')"
  shows "uid \<in> set (map u_uuid (users s)) \<and> n = 1
    \<and> uid \<notin> set (map u_uuid (users s')) \<and> uid \<notin> set (creators s')
    \<and> token_user sha s' tok \<noteq> Some uid \<and> \<not> permitted s' uid act res
    \<and> map th_uuid (things s') = map th_uuid (things s) \<and> map ts_uuid (timeseries s') = map ts_uuid (timeseries s)
    \<and> map td_value (tsdata s') = map td_value (tsdata s) \<and> map ds_content (datasets s') = map ds_content (datasets s)
    \<and> map up_id (uploads s') = map up_id (uploads s) \<and> map rv_code (revisions s') = map rv_code (revisions s)
    \<and> db_ok s'"
proof -
  from assms(2) have q: "DeleteUser_query F uid s = (Inr n, s')" "n \<noteq> 0"
    unfolding DeleteUser_def by (auto dest: or_not_found_Inr)
  let ?t = "s\<lparr>faults := tl (faults s)\<rparr>"
  let ?names = "map u_name (filter (\<lambda>u. u_uuid u = uid) (users s))"
  from stmt_Inr [OF q(1) [unfolded DeleteUser_query_def]]
  have n: "n = int (length ?names)" and s': "s' = drop_user F uid (drop_groups (\<lambda>g. g_name g \<in> set ?names) ?t)"
    by (auto simp: Let_def)
  have in_s: "uid \<in> set (map u_uuid (users s))"
    using n q(2) by (cases "filter (\<lambda>u. u_uuid u = uid) (users s)") (auto dest!: filter_eq_ConsD)
  then obtain u where "u \<in> set (users s)" "u_uuid u = uid" by auto
  with assms(1) have "filter (\<lambda>u. u_uuid u = uid) (users s) = [u]"
    by (intro filter_key_unique) (auto simp: db_ok_def accounts_ok_def)
  then have "n = 1" using n by simp
  moreover have "uid \<notin> set (creators s')" unfolding s' creators_drop_user by simp
  moreover have tok: "\<forall>t\<in>set (user_tokens s'). tk_user t \<noteq> uid" and mem: "\<forall>m\<in>set (user_groups s'). fst m \<noteq> uid"
    and us: "uid \<notin> set (map u_uuid (users s'))"
    by (auto simp: s' drop_user_defs)
  moreover from tok have "token_user sha s' tok \<noteq> Some uid" using token_user_Some by blast
  moreover from mem have "\<not> permitted s' uid act res" by (auto simp: permitted_def applies_def)
  moreover have "db_ok s'" using preservesD [OF user_ops_keep(4)] assms by blast
  moreover have "map th_uuid (things s') = map th_uuid (things s)" "map ts_uuid (timeseries s') = map ts_uuid (timeseries s)"
    "map td_value (tsdata s') = map td_value (tsdata s)" "map ds_content (datasets s') = map ds_content (datasets s)"
    "map up_id (uploads s') = map up_id (uploads s)" "map rv_code (revisions s') = map rv_code (revisions s)"
    unfolding s' by (simp_all add: drop_user_defs drop_groups_def comp_def)
  ultimately show ?thesis using in_s by blast
qed

theorem delete_user_complete_witness:
  "\<exists>s'. DeleteUser int_ops ''0'' seed_user = (Inr 1, s') \<and> ''0'' \<notin> set (creators s')
     \<and> map th_uuid (things s') = [''c0''] \<and> token_user (\<lambda>x. x) s' ''root'' \<noteq> Some ''0''"
proof -
  have "healthy seed_user" "length (filter (\<lambda>u. u_uuid u = ''0'') (users seed_user)) = 1" by code_simp+
  then have "fst (DeleteUser int_ops ''0'' seed_user) = Inr 1" by (simp add: DeleteUser_fst)
  then obtain s' where c: "DeleteUser int_ops ''0'' seed_user = (Inr 1, s')" by (metis prod.collapse)
  have "map th_uuid (things seed_user) = [''c0'']" by code_simp
  with delete_user_complete [OF seed_user_ok c, of "\<lambda>x. x" "''root''"] c show ?thesis by auto
qed



lemma delete_members_Inr:
  "delete_members P s = (Inr n, s') \<Longrightarrow> tables s' = tables (s\<lparr>user_groups := filter (\<lambda>m. \<not> P m) (user_groups s)\<rparr>)
     \<and> n = int (length (filter P (user_groups s)))"
  unfolding delete_members_def by (drule stmt_Inr) (auto simp: tables_def)

lemma AddUserToGroups_query_Inr:
  assumes "AddUserToGroups_query uid gids s = (Inr n, s')"
  shows "tables s' = tables (s\<lparr>user_groups := user_groups s @
      (if uid \<in> set (map u_uuid (users s)) then map (Pair uid) gids else [])\<rparr>)"
    and "uid \<notin> set (map u_uuid (users s)) \<Longrightarrow> n = 0"
  using stmt_Inr [OF assms [unfolded AddUserToGroups_query_def]]
  by (auto simp: Let_def tables_def split: if_splits)

lemma FindUserByUUID_Inr:
  "FindUserByUUID uid s = (Inr u, s') \<Longrightarrow> uid \<in> set (map u_uuid (users s))"
  unfolding FindUserByUUID_def sel_one_def
  by (drule stmt_Inr) (auto split: list.splits dest: filter_eq_ConsD)

text \<open>
  C9: Setting a user's groups replaces them: when \<^verbatim>\<open>SetUserGroups\<close> succeeds the user exists
  and is a member of exactly the given groups, nobody else's memberships have changed,
  and when it fails (an unknown group, a group given twice, a lost connection) nothing
  has changed.
\<close>

theorem set_user_groups_exact:
  assumes "db_ok s" and "SetUserGroups uid gids s = (r, s')"
  shows "case r of
      Inl e \<Rightarrow> tables s' = tables s
    | Inr n \<Rightarrow> uid \<in> set (map u_uuid (users s))
        \<and> filter (\<lambda>m. fst m = uid) (user_groups s') = map (Pair uid) gids
        \<and> filter (\<lambda>m. fst m \<noteq> uid) (user_groups s') = filter (\<lambda>m. fst m \<noteq> uid) (user_groups s)"
proof (cases r)
  case (Inl e)
  with assms show ?thesis by (auto simp: SetUserGroups_def dest: with_tx_Inl)
next
  case (Inr n)
  let ?body = "andthen (RemoveUserFromAllGroups uid) (\<lambda>count.
     andthen (if_any gids (AddUserToGroups_query uid)) (\<lambda>added.
       if count = 0 \<and> added = 0 then andthen (FindUserByUUID uid) (\<lambda>_. ret (count + added)) else ret (count + added)))"
  from assms Inr obtain s1 s2 where b: "tables s1 = tables s" "?body s1 = (Inr n, s2)" "tables s' = tables s2"
    unfolding SetUserGroups_def by (auto elim: with_tx_Inr)
  then obtain count s3 added s4 where
    rm: "RemoveUserFromAllGroups uid s1 = (Inr count, s3)" and
    add: "if_any gids (AddUserToGroups_query uid) s3 = (Inr added, s4)" and
    last: "(if count = 0 \<and> added = 0 then andthen (FindUserByUUID uid) (\<lambda>_. ret (count + added)) else ret (count + added)) s4 = (Inr n, s2)"
    by (auto elim!: andthen_cases)
  note rm' = delete_members_Inr [OF rm [unfolded RemoveUserFromAllGroups_def]]
  note s3 = tables_fields [OF conjunct1 [OF rm'], simplified] and s1 = tables_fields [OF b(1)]
  have s4: "users s4 = users s3 \<and> user_groups s4 = user_groups s3 @ (if uid \<in> set (map u_uuid (users s3)) then map (Pair uid) gids else [])"
    and none: "uid \<notin> set (map u_uuid (users s3)) \<Longrightarrow> added = 0"
    using add AddUserToGroups_query_Inr [of uid gids s3 added s4]
    by (auto simp: if_any_def ret_def split: if_splits dest: tables_fields)
  have "reads (if count = 0 \<and> added = 0 then andthen (FindUserByUUID uid) (\<lambda>_. ret (count + added)) else ret (count + added))"
    by (auto intro!: reads_andthen)
  from tables_fields [OF readsD [OF this last]] tables_fields [OF b(3)] have ug: "user_groups s' = user_groups s4" by simp
  have ex: "uid \<in> set (map u_uuid (users s))"
  proof (rule ccontr)
    assume no: "uid \<notin> set (map u_uuid (users s))"
    then have "filter (\<lambda>m. fst m = uid) (user_groups s) = []"
      using assms(1) by (auto simp: db_ok_def accounts_ok_def filter_empty_conv)
    then have "count = 0" "added = 0" using rm' s1 no none s3 by simp_all
    with last obtain u s5 where "FindUserByUUID uid s4 = (Inr u, s5)" by (auto elim!: andthen_cases)
    from FindUserByUUID_Inr [OF this] no s4 s3 s1 show False by simp
  qed
  with s4 s3 s1 ug have "user_groups s' = filter (\<lambda>m. fst m \<noteq> uid) (user_groups s) @ map (Pair uid) gids" by simp
  with ex Inr show ?thesis by (simp add: filter_map comp_def)
qed

theorem set_user_groups_exact_witness:
  "\<exists>s'. SetUserGroups ''0'' [''1''] seed_user = (Inr 2, s') \<and> user_groups s' = [(''0'', ''1'')]"
proof -
  have r: "fst (SetUserGroups ''0'' [''1''] seed_user) = Inr 2"
    and f: "filter (\<lambda>m. fst m \<noteq> ''0'') (user_groups seed_user) = []" by code_simp+
  then obtain s' where c: "SetUserGroups ''0'' [''1''] seed_user = (Inr 2, s')" by (metis prod.collapse)
  from set_user_groups_exact [OF seed_user_ok c] f
  have "filter (\<lambda>m. fst m = ''0'') (user_groups s') = [(''0'', ''1'')]" "\<forall>m\<in>set (user_groups s'). fst m = ''0''"
    by (simp_all add: filter_empty_conv)
  with c show ?thesis by (simp add: filter_id_conv)
qed

text \<open>
  \<^verbatim>\<open>DeleteUser\<close> drops the group that carries the user's present name.  A user renamed
  after a shared group takes that group along: here \<^verbatim>\<open>admin\<close>.
\<close>

theorem delete_renamed_user_drops_group:
  "let s1 = snd (AddUser ''d1'' ''e1'' ten_ids ''alice'' seed_user);
       s2 = snd (SetUserName ''e1'' ''admin'' s1);
       s3 = snd (DeleteUser F ''e1'' s2)
   in ''admin'' \<in> set (map g_name (groups seed_user)) \<and> ''admin'' \<notin> set (map g_name (groups s3))
      \<and> ''alice'' \<in> set (map g_name (groups s3))"
proof -
  let ?s = "snd (SetUserName ''e1'' ''admin'' (snd (AddUser ''d1'' ''e1'' ten_ids ''alice'' seed_user)))"
  have "healthy ?s" by code_simp
  moreover have "map g_name (filter (\<lambda>g. g_name g \<notin> set (map u_name (filter (\<lambda>u. u_uuid u = ''e1'') (users ?s)))) (groups ?s))
     = [''root'', ''alice'']" "''admin'' \<in> set (map g_name (groups seed_user))" by code_simp+
  ultimately show ?thesis unfolding Let_def DeleteUser_groups [OF \<open>healthy ?s\<close>] by simp
qed

text \<open>
  A listing may hide what the access service permits: a rule with a better priority
  allows the reading and wins the access decision, but the listing query lets any deny
  rule win.
\<close>

theorem listing_ignores_priority:
  "let s = access_db\<lparr>group_policies :=
       [\<lparr>gp_uuid = ''p1'', gp_group = ''g1'', gp_priority = 1, gp_effect = Allow, gp_action = Read, gp_resource = ''ts/%''\<rparr>,
        \<lparr>gp_uuid = ''p2'', gp_group = ''g2'', gp_priority = 3, gp_effect = Deny, gp_action = Read, gp_resource = ''ts/9''\<rparr>]\<rparr>
   in permitted s ''u1'' Read ''ts/9'' \<and> listed id ''secret'' id s [''ts/9''] = []"
  by code_simp

end
