(* ===== verification/Things.thy ===== *)
theory Things
  imports AccountFacts
begin

text \<open>
  Things: \<^verbatim>\<open>internal/services/thing.go\<close> and \<^verbatim>\<open>things.sql\<close>, and what the statements that create a
  thing, a time series, a dataset or a program have in common: the creator's own group
  receives four policies on the new object.
\<close>

section \<open>The creator's own group\<close>

text \<open>
  \<^verbatim>\<open>grp\<close>: a group the creator is in whose key is the key of the user that has the group's
  name, or no row.
\<close>

definition own_group :: "'v db \<Rightarrow> uuid option \<Rightarrow> uuid option" where
  "own_group s creator = (case creator of None \<Rightarrow> None | Some uid \<Rightarrow>
     map_option g_uuid (List.find (\<lambda>g. (uid, g_uuid g) \<in> set (user_groups s)
       \<and> (case List.find (\<lambda>u. u_name u = g_name g) (users s) of None \<Rightarrow> False | Some u \<Rightarrow> u_uuid u = g_uuid g))
       (groups s)))"

definition owner_policies :: "string \<Rightarrow> uuid \<Rightarrow> uuid \<Rightarrow> uuid list \<Rightarrow> policy_row list" where
  "owner_policies kind oid gid pids = map2 (\<lambda>pid act. \<lparr>gp_uuid = pid, gp_group = gid, gp_priority = 0,
     gp_effect = Allow, gp_action = act, gp_resource = kind @ ''/'' @ oid @ ''/%''\<rparr>) pids [Create, Read, Update, Delete]"

text \<open>
  The policies of a new object, inserted in the statement that creates it: without an own
  group the key would be \<^verbatim>\<open>NULL\<close>, which the table refuses.
\<close>

definition grant_owner :: "string \<Rightarrow> uuid \<Rightarrow> uuid option \<Rightarrow> uuid list \<Rightarrow> 'v db \<Rightarrow> unit res \<times> 'v db" where
  "grant_owner kind oid creator pids s = (case own_group s creator of
       None \<Rightarrow> (Inl not_null_violation, s)
     | Some gid \<Rightarrow> insert_policies (owner_policies kind oid gid pids) s)"

definition creator_ok :: "'v db \<Rightarrow> uuid option \<Rightarrow> bool" where
  "creator_ok s creator \<longleftrightarrow> (case creator of None \<Rightarrow> True | Some u \<Rightarrow> u \<in> set (map u_uuid (users s)))"

lemma own_group_Some:
  assumes "own_group s creator = Some gid"
  shows "\<exists>u. creator = Some u \<and> (u, gid) \<in> set (user_groups s) \<and> gid \<in> set (map u_uuid (users s)) \<and> gid \<in> set (map g_uuid (groups s))"
proof (cases creator)
  case None
  with assms show ?thesis by (simp add: own_group_def)
next
  case (Some uid)
  let ?P = "\<lambda>g. (uid, g_uuid g) \<in> set (user_groups s)
       \<and> (case List.find (\<lambda>u. u_name u = g_name g) (users s) of None \<Rightarrow> False | Some u \<Rightarrow> u_uuid u = g_uuid g)"
  from assms Some obtain g0 where "List.find ?P (groups s) = Some g0" "gid = g_uuid g0"
    unfolding own_group_def by (cases "List.find ?P (groups s)") simp_all
  with find_Some_set [of ?P "groups s" g0] obtain g where g: "g \<in> set (groups s)" "gid = g_uuid g" "(uid, g_uuid g) \<in> set (user_groups s)"
      "(case List.find (\<lambda>u. u_name u = g_name g) (users s) of None \<Rightarrow> False | Some u \<Rightarrow> u_uuid u = g_uuid g)"
    by blast
  then obtain u where "List.find (\<lambda>u. u_name u = g_name g) (users s) = Some u" "u_uuid u = g_uuid g"
    by (auto split: option.splits)
  with g Some show ?thesis by (auto dest!: find_Some_set intro: rev_image_eqI)
qed

lemma grant_owner_Inr:
  assumes "grant_owner kind oid creator pids s = (Inr u, s')"
  obtains gid where "own_group s creator = Some gid"
    "s' = s\<lparr>group_policies := group_policies s @ owner_policies kind oid gid pids\<rparr>"
  using assms insert_policies_Inr [of _ s u s'] by (auto simp: grant_owner_def split: option.splits)

lemma owner_policies_ok:
  assumes "plain_id oid" "word_ok kind"
  shows "list_all policy_ok (owner_policies kind oid gid pids)"
proof -
  have "validatePolicyResource (join_with [slash] [kind, oid, ''%'']) = None"
    using assms word_ok_id by (intro resource_ok) auto
  then show ?thesis
    by (auto simp: owner_policies_def list_all_iff policy_ok_def in_i32_def dest: set_zip_rightD)
qed

lemma grant_owner_keeps:
  assumes "grant_owner kind oid creator pids s = (r, s')" "plain_id oid" "word_ok kind" "policies_ok s"
  shows "policies_ok s'"
  using assms insert_policies_keeps [OF _ owner_policies_ok [OF assms(2,3)]]
  by (auto simp: grant_owner_def split: option.splits)

section \<open>Queries\<close>

definition ExistsThing :: "uuid \<Rightarrow> ('v, int) dbm" where
  "ExistsThing tid = sel (\<lambda>s. int (length (filter (\<lambda>t. th_uuid t = tid) (things s))))"

definition thing_states :: "string list" where
  "thing_states = [''active'', ''inactive'', ''passive'', ''archived'']"

definition CreateThing :: "uuid \<Rightarrow> uuid list \<Rightarrow> string \<Rightarrow> string option \<Rightarrow> uuid option \<Rightarrow> string list \<Rightarrow> ('v, thing_row) dbm" where
  "CreateThing newid pids name typ creator tags = stmt (\<lambda>s.
     if newid \<in> set (map th_uuid (things s)) then (Inl unique_violation, s)
     else let t = \<lparr>th_uuid = newid, th_name = name, th_type = typ, th_state = ''inactive'', th_created_by = creator, th_tags = tags\<rparr>
          in (case grant_owner ''things'' newid creator pids (s\<lparr>things := things s @ [t]\<rparr>) of
                (Inl e, _) \<Rightarrow> (Inl e, s)
              | (Inr _, s') \<Rightarrow> if creator_ok s creator then (Inr t, s') else (Inl fk_violation, s)))"

definition FindThingByUUID :: "uuid \<Rightarrow> ('v, thing_row) dbm" where
  "FindThingByUUID tid = sel_one (\<lambda>s. filter (\<lambda>t. th_uuid t = tid) (things s))"

definition FindThings :: "(string \<Rightarrow> string) \<Rightarrow> string \<Rightarrow> int \<Rightarrow> int \<Rightarrow> ('v, thing_row list) dbm" where
  "FindThings sha token limit offset = sel_page limit offset (\<lambda>s.
     sort_key th_name (listed sha token (\<lambda>t. ''things/'' @ th_uuid t) s (things s)))"

definition overlap :: "string list \<Rightarrow> string list \<Rightarrow> bool" where
  "overlap xs ys = list_ex (\<lambda>x. x \<in> set ys) xs"

definition FindThingsByTags :: "(string \<Rightarrow> string) \<Rightarrow> string \<Rightarrow> string list \<Rightarrow> int \<Rightarrow> int \<Rightarrow> ('v, thing_row list) dbm" where
  "FindThingsByTags sha token tags limit offset = sel_page limit offset (\<lambda>s.
     sort_key th_name (listed sha token (\<lambda>t. ''things/'' @ th_uuid t) s (filter (\<lambda>t. overlap tags (th_tags t)) (things s))))"

definition update_thing :: "uuid \<Rightarrow> (thing_row \<Rightarrow> thing_row) \<Rightarrow> 'v db \<Rightarrow> int res \<times> 'v db" where
  "update_thing tid f s = (Inr (int (length (filter (\<lambda>t. th_uuid t = tid) (things s)))),
     s\<lparr>things := map (\<lambda>t. if th_uuid t = tid then f t else t) (things s)\<rparr>)"

definition SetThingNameByUUID :: "uuid \<Rightarrow> string \<Rightarrow> ('v, int) dbm" where
  "SetThingNameByUUID tid name = stmt (update_thing tid (\<lambda>t. t\<lparr>th_name := name\<rparr>))"

definition SetThingTypeByUUID :: "uuid \<Rightarrow> string option \<Rightarrow> ('v, int) dbm" where
  "SetThingTypeByUUID tid typ = stmt (update_thing tid (\<lambda>t. t\<lparr>th_type := typ\<rparr>))"

definition SetThingStateByUUID :: "uuid \<Rightarrow> string \<Rightarrow> ('v, int) dbm" where
  "SetThingStateByUUID tid st = stmt (\<lambda>s. if st \<in> set thing_states then update_thing tid (\<lambda>t. t\<lparr>th_state := st\<rparr>) s
     else (Inl invalid_text, s))"

definition SetThingTags :: "uuid \<Rightarrow> string list \<Rightarrow> ('v, int) dbm" where
  "SetThingTags tid tags = stmt (update_thing tid (\<lambda>t. t\<lparr>th_tags := tags\<rparr>))"

text \<open>Time series and datasets of a deleted thing stay, on their own.\<close>

definition DeleteThing_query :: "uuid \<Rightarrow> ('v, int) dbm" where
  "DeleteThing_query tid = stmt (\<lambda>s.
     (Inr (int (length (filter (\<lambda>t. th_uuid t = tid) (things s)))),
      s\<lparr>things := filter (\<lambda>t. th_uuid t \<noteq> tid) (things s),
        timeseries := map (\<lambda>t. t\<lparr>ts_thing := forget tid (ts_thing t)\<rparr>) (timeseries s),
        datasets := map (\<lambda>d. d\<lparr>ds_belongs_to := forget tid (ds_belongs_to d)\<rparr>) (datasets s)\<rparr>))"

section \<open>ThingService\<close>

text \<open>\<^verbatim>\<open>PaginationLimit.Scan\<close> and \<^verbatim>\<open>PaginationOffset.Scan\<close>: a missing value is 0.\<close>

definition Pagination_Scan :: "int option \<Rightarrow> int" where
  "Pagination_Scan x = (case x of None \<Rightarrow> 0 | Some v \<Rightarrow> v)"

definition Thing_Exists :: "uuid \<Rightarrow> ('v, bool) dbm" where
  "Thing_Exists tid = andthen (ExistsThing tid) (\<lambda>found. ret (found > 0))"

definition nullableUUIDString :: "uuid option \<Rightarrow> string" where
  "nullableUUIDString x = (case x of None \<Rightarrow> [] | Some u \<Rightarrow> u)"

record rest_Thing =
  rt_Uuid :: string
  rt_Name :: string
  rt_State :: string
  rt_CreatedBy :: string
  rt_Tags :: "string list"
  rt_Type :: "string option"

definition rest_thing :: "thing_row \<Rightarrow> rest_Thing" where
  "rest_thing t = \<lparr>rt_Uuid = th_uuid t, rt_Name = th_name t, rt_State = th_state t,
     rt_CreatedBy = nullableUUIDString (th_created_by t), rt_Tags = th_tags t, rt_Type = th_type t\<rparr>"

definition AddThing :: "uuid \<Rightarrow> uuid list \<Rightarrow> string \<Rightarrow> string option \<Rightarrow> uuid option \<Rightarrow> string list \<Rightarrow> ('v, rest_Thing) dbm" where
  "AddThing newid pids name typ creator tags =
     andthen (with_tx (CreateThing newid pids name typ creator tags)) (\<lambda>thing. ret (rest_thing thing))"

definition FindThingByUuid :: "uuid \<Rightarrow> ('v, rest_Thing) dbm" where
  "FindThingByUuid tid = andthen (FindThingByUUID tid) (\<lambda>t. ret (rest_thing t))"

definition Thing_FindAll :: "(string \<Rightarrow> string) \<Rightarrow> string \<Rightarrow> int option \<Rightarrow> int option \<Rightarrow> ('v, rest_Thing list) dbm" where
  "Thing_FindAll sha token limit offset =
     andthen (FindThings sha token (Pagination_Scan limit) (Pagination_Scan offset)) (\<lambda>thingList.
       ret (map rest_thing thingList))"

definition Thing_FindByTags :: "(string \<Rightarrow> string) \<Rightarrow> string \<Rightarrow> string list \<Rightarrow> int option \<Rightarrow> int option \<Rightarrow> ('v, rest_Thing list) dbm" where
  "Thing_FindByTags sha token tags limit offset =
     andthen (FindThingsByTags sha token tags (Pagination_Scan limit) (Pagination_Scan offset)) (\<lambda>thingList.
       ret (map rest_thing thingList))"

record UpdateThingParams =
  utp_Uuid :: uuid
  utp_Name :: "string option"
  utp_Type :: "string option"
  utp_State :: "string option"
  utp_Tags :: "string list option"

definition UpdateByUuid :: "UpdateThingParams \<Rightarrow> ('v, int) dbm" where
  "UpdateByUuid p = with_tx (
     andthen (opt_step (utp_Name p) (SetThingNameByUUID (utp_Uuid p)) 0) (\<lambda>count.
     andthen (opt_step (utp_Type p) (\<lambda>t. SetThingTypeByUUID (utp_Uuid p) (Some t)) count) (\<lambda>count.
     andthen (opt_step (utp_State p) (SetThingStateByUUID (utp_Uuid p)) count) (\<lambda>count.
     opt_step (utp_Tags p) (SetThingTags (utp_Uuid p)) count))))"

definition DeleteThing :: "uuid \<Rightarrow> ('v, int) dbm" where
  "DeleteThing tid = DeleteThing_query tid"

section \<open>Properties\<close>

text \<open>
  \<open>own_group\<close> needs a group with the key of a user.  No group that \<^verbatim>\<open>AddUser\<close> makes has
  one unless the keys drawn for the user and its group collide, so of the users of a
  fresh installation only \<^verbatim>\<open>root\<close>, whose group the migrations give the same key, has an
  own group.
\<close>

lemma CreateThing_no_own_group:
  assumes "own_group s creator = None" "healthy s" "newid \<notin> set (map th_uuid (things s))"
  shows "CreateThing newid pids name typ creator tags s = (Inl not_null_violation, s\<lparr>faults := tl (faults s)\<rparr>)"
proof -
  have "own_group (s\<lparr>faults := fs, things := ts\<rparr>) creator = None" for fs ts
    using assms(1) by (simp add: own_group_def split: option.splits)
  then show ?thesis using assms(2,3) by (simp add: CreateThing_def dbsimps grant_owner_def Let_def)
qed

lemma no_own_group_after_AddUser:
  assumes "db_ok s" "gid \<noteq> uid" "gid \<notin> set (map u_uuid (users s))"
    and "AddUser gid uid pids name s = (Inr u, s')"
  shows "own_group s' (Some uid) = None"
proof (rule ccontr)
  assume "own_group s' (Some uid) \<noteq> None"
  then obtain g where g: "(uid, g) \<in> set (user_groups s')" "g \<in> set (map u_uuid (users s'))"
    using own_group_Some by blast
  obtain fs s2 v where *: "tables s2 = tables s" "uid \<notin> set (map u_uuid (users s2))"
    "users s' = users s2 @ [v]" "u_uuid v = uid" "user_groups s' = user_groups s2 @ [(uid, gid)]"
    using assms(4) by (rule AddUser_tables)
  have "users s2 = users s" "user_groups s2 = user_groups s" using *(1) by (rule tables_fields)+
  moreover have "(uid, g) \<notin> set (user_groups s)"
    using assms(1) *(2) calculation by (auto simp: db_ok_def accounts_ok_def)
  ultimately have "g = gid" using g(1) *(5) by auto
  with g(2) * assms(2,3) \<open>users s2 = users s\<close> show False by auto
qed

text \<open>
  C12: Only a user whose own group shares its key can create a thing.  For every user that
  \<^verbatim>\<open>AddUser\<close> made with keys of its own, \<^verbatim>\<open>AddThing\<close> fails on the null group of the four
  policies, changes nothing, and the caller is told of an undefined database error,
  status 500.
\<close>

theorem new_user_cannot_create_thing:
  assumes "db_ok s" and "gid \<noteq> uid" and "gid \<notin> set (map u_uuid (users s))"
    and "AddUser gid uid pids name s = (Inr u, s')" and "healthy s'"
    and "newid \<notin> set (map th_uuid (things s'))"
  shows "\<exists>s''. AddThing newid pids' thing typ (Some uid) tags s' = (Inl not_null_violation, s'')
     \<and> tables s'' = tables s' \<and> ParseDBError not_null_violation = ErrorDBUndefined \<and> err_code ErrorDBUndefined = 500"
proof -
  let ?t = "s'\<lparr>faults := tl (faults s')\<rparr>"
  have o: "own_group s' (Some uid) = None" by (rule no_own_group_after_AddUser [OF assms(1-4)])
  then have "own_group ?t (Some uid) = None" by (simp add: own_group_def)
  then have "CreateThing newid pids' thing typ (Some uid) tags ?t = (Inl not_null_violation, ?t\<lparr>faults := tl (faults ?t)\<rparr>)"
    using assms(5,6) by (intro CreateThing_no_own_group) auto
  moreover have "stmt (ret ()) s' = (Inr (), ?t)" using assms(5) by (simp add: dbsimps ret_def)
  ultimately have "\<exists>s''. AddThing newid pids' thing typ (Some uid) tags s' = (Inl not_null_violation, s'')"
    by (simp add: AddThing_def andthen_def with_tx_def)
  moreover have "ParseDBError not_null_violation = ErrorDBUndefined" "err_code ErrorDBUndefined = 500" by code_simp+
  moreover have "AddThing newid pids' thing typ (Some uid) tags s' = (Inl not_null_violation, s'') \<Longrightarrow> tables s'' = tables s'" for s''
    unfolding AddThing_def by (elim andthen_cases) (auto simp: ret_def dest: with_tx_Inl)
  ultimately show ?thesis by blast
qed

theorem new_user_cannot_create_thing_witness:
  "\<exists>u s'. AddUser ''d1'' ''e1'' ten_ids ''alice'' seed_user = (Inr u, s')
     \<and> fst (AddThing ''f1'' [''1'', ''2'', ''3'', ''4''] ''pump'' None (Some ''e1'') [] s') = Inl not_null_violation"
proof -
  have "is_ok (fst (AddUser ''d1'' ''e1'' ten_ids ''alice'' seed_user))"
    and h: "healthy (snd (AddUser ''d1'' ''e1'' ten_ids ''alice'' seed_user))"
    "''f1'' \<notin> set (map th_uuid (things (snd (AddUser ''d1'' ''e1'' ten_ids ''alice'' seed_user))))"
    "''d1'' \<notin> set (map u_uuid (users seed_user))" by code_simp+
  then obtain u s' where c: "AddUser ''d1'' ''e1'' ten_ids ''alice'' seed_user = (Inr u, s')"
    by (metis is_ok_iff prod.collapse)
  with h have "healthy s'" "''f1'' \<notin> set (map th_uuid (things s'))" by simp_all
  moreover have "''d1'' \<noteq> ''e1''" by simp
  ultimately obtain s'' where "AddThing ''f1'' [''1'', ''2'', ''3'', ''4''] ''pump'' None (Some ''e1'') [] s' = (Inl not_null_violation, s'')"
    using new_user_cannot_create_thing [OF seed_user_ok _ h(3) c] by blast
  with c show ?thesis by auto
qed

section \<open>What the operations keep\<close>

lemma CreateThing_keeps:
  assumes "plain_id newid"
  shows "preserves db_ok (CreateThing newid pids name typ creator tags)"
  unfolding CreateThing_def
proof (rule preserves_stmt)
  fix s :: "'v db" and r s'
  let ?t = "\<lparr>th_uuid = newid, th_name = name, th_type = typ, th_state = ''inactive'', th_created_by = creator, th_tags = tags\<rparr>"
  assume *: "(if newid \<in> set (map th_uuid (things s)) then (Inl unique_violation, s)
     else let t = ?t in (case grant_owner ''things'' newid creator pids (s\<lparr>things := things s @ [t]\<rparr>) of
                (Inl e, _) \<Rightarrow> (Inl e, s)
              | (Inr _, s') \<Rightarrow> if creator_ok s creator then (Inr t, s') else (Inl fk_violation, s))) = (r, s')"
    and I: "db_ok s"
  show "db_ok s'"
  proof (cases "s' = s")
    case False
    obtain q t' where q: "grant_owner ''things'' newid creator pids (s\<lparr>things := things s @ [?t]\<rparr>) = (q, t')" by (rule prod.exhaust)
    from False * obtain v where "q = Inr v" "t' = s'" and c: "creator_ok s creator"
      unfolding Let_def q by (auto split: if_splits sum.splits)
    with q have g: "grant_owner ''things'' newid creator pids (s\<lparr>things := things s @ [?t]\<rparr>) = (Inr v, s')" by simp
    have "policies_ok (s\<lparr>things := things s @ [?t]\<rparr>)" using I by (simp add: db_ok_def policies_ok_def)
    moreover have "word_ok ''things''" by code_simp
    ultimately have "policies_ok s'" using grant_owner_keeps [OF g assms] by blast
    moreover obtain gid where s': "s' = s\<lparr>things := things s @ [?t],
        group_policies := group_policies (s\<lparr>things := things s @ [?t]\<rparr>) @ owner_policies ''things'' newid gid pids\<rparr>"
      using g by (rule grant_owner_Inr)
    have "accounts_ok s'" using I unfolding s' by (simp add: db_ok_def accounts_ok_def)
    moreover have "set (creators s') = set (creators s) \<union> set_option creator" unfolding s' by (auto simp: creators_def)
    then have "refs_ok s'" using I c unfolding refs_ok_def s' by (auto simp: db_ok_def refs_ok_def creator_ok_def)
    ultimately show ?thesis by (simp add: db_ok_def)
  qed (use I in simp)
qed simp

lemma update_thing_keeps:
  assumes "\<And>t. th_created_by (f t) = th_created_by t"
  shows "preserves db_ok (stmt (update_thing tid f))"
proof (rule preserves_stmt)
  fix s :: "'v db" and r s'
  assume "update_thing tid f s = (r, s')" and I: "db_ok s"
  then have s': "s' = s\<lparr>things := map (\<lambda>t. if th_uuid t = tid then f t else t) (things s)\<rparr>"
    by (simp add: update_thing_def)
  have "some_list \<circ> th_created_by \<circ> (\<lambda>t. if th_uuid t = tid then f t else t) = some_list \<circ> th_created_by"
    using assms by (auto simp: fun_eq_iff)
  then have "creators s' = creators s" unfolding s' creators_def by simp
  with I show "db_ok s'" unfolding s' by (simp add: db_ok_defs)
qed simp

lemma DeleteThing_keeps: "preserves db_ok (DeleteThing tid)"
  unfolding DeleteThing_def DeleteThing_query_def
proof (rule preserves_stmt)
  fix s :: "'v db" and r s'
  assume *: "(Inr (int (length (filter (\<lambda>t. th_uuid t = tid) (things s)))),
      s\<lparr>things := filter (\<lambda>t. th_uuid t \<noteq> tid) (things s),
        timeseries := map (\<lambda>t. t\<lparr>ts_thing := forget tid (ts_thing t)\<rparr>) (timeseries s),
        datasets := map (\<lambda>d. d\<lparr>ds_belongs_to := forget tid (ds_belongs_to d)\<rparr>) (datasets s)\<rparr>) = (r, s')" and I: "db_ok s"
  then have "set (creators s') \<subseteq> set (creators s)" by (auto simp: creators_def comp_def)
  with * show "db_ok s'" by (intro db_ok_same [OF I]) auto
qed simp

lemma thing_ops_keep:
  "plain_id newid \<Longrightarrow> preserves db_ok (AddThing newid pids name typ creator tags)"
  "preserves db_ok (UpdateByUuid p)"
  unfolding AddThing_def UpdateByUuid_def SetThingNameByUUID_def SetThingTypeByUUID_def SetThingStateByUUID_def SetThingTags_def
  by (auto intro!: preserves_with_tx preserves_andthen preserves_opt_step CreateThing_keeps update_thing_keeps
      preserves_guarded_stmt)

end
