(* ===== verification/Rest.thy ===== *)
theory Rest
  imports Access
begin

text \<open>
  What the handlers of \<^verbatim>\<open>api/aapije\<close> share: the request context that the middleware filled
  in, the answers they write, and the steps all of them are made of.  A body is what
  \<^verbatim>\<open>decodeJSONBody\<close> made of it, \<^const>\<open>None\<close> when it failed; payloads are kept as values, not
  as JSON text (for a raw dataset, the payload is its headers and its bytes).
\<close>

record DomainToken =
  dt_Domain :: string
  dt_Token :: string

record request_context =
  cx_db :: bool
  cx_user :: "uuid option"
  cx_domaintoken :: "DomainToken option"
  cx_cache :: policy_ctx

datatype 'p answer =
    JSON int 'p
  | Text int string
  | Empty int
  | is_Problem: Problem go_error

text \<open>A handler works on a database; the handlers of datasets work on more, so the state of the common steps is left open.\<close>

type_synonym ('s, 'p) server = "'s \<Rightarrow> 'p answer \<times> 's"
type_synonym ('v, 'p) handler = "('v db, 'p) server"

text \<open>The status that goes out: \<^verbatim>\<open>SendHTTPError\<close> on a reply not yet started.\<close>

fun answer_status :: "'p answer \<Rightarrow> int" where
  "answer_status (JSON c _) = c"
| "answer_status (Text c _) = c"
| "answer_status (Empty c) = c"
| "answer_status (Problem e) = (case rsp_status (SendHTTPError no_reply e) of Some c \<Rightarrow> c | None \<Rightarrow> 200)"

definition answer :: "'p answer \<Rightarrow> ('s, 'p) server" where
  "answer a s = (a, s)"

definition GetDB :: "request_context \<Rightarrow> ('s, 'p) server \<Rightarrow> ('s, 'p) server" where
  "GetDB cx k s = (if cx_db cx then k s else (Problem ErrorUndefined, s))"

definition GetUserUUID :: "request_context \<Rightarrow> (uuid \<Rightarrow> ('s, 'p) server) \<Rightarrow> ('s, 'p) server" where
  "GetUserUUID cx k s = (case cx_user cx of None \<Rightarrow> (Problem ErrorUndefined, s) | Some u \<Rightarrow> k u s)"

definition GetDomainToken :: "request_context \<Rightarrow> (DomainToken \<Rightarrow> ('s, 'p) server) \<Rightarrow> ('s, 'p) server" where
  "GetDomainToken cx k s = (case cx_domaintoken cx of None \<Rightarrow> (Problem ErrorUndefined, s) | Some t \<Rightarrow> k t s)"

definition decodeJSONBody :: "'b option \<Rightarrow> ('b \<Rightarrow> ('s, 'p) server) \<Rightarrow> ('s, 'p) server" where
  "decodeJSONBody body k s = (case body of None \<Rightarrow> (Problem ErrorMalformedRequest, s) | Some b \<Rightarrow> k b s)"

text \<open>\<^verbatim>\<open>x, err := svc.Op(...); if err != nil { ie.SendHTTPError(w, ie.ParseDBError(err)); return }\<close>\<close>

definition call :: "('v, 'a) dbm \<Rightarrow> ('a \<Rightarrow> ('v, 'p) handler) \<Rightarrow> ('v, 'p) handler" where
  "call m k s = (case m s of (Inl e, s') \<Rightarrow> (Problem (ParseDBError e), s') | (Inr a, s') \<Rightarrow> k a s')"

definition none_is_404 :: "int \<Rightarrow> ('s, 'p) server" where
  "none_is_404 count = answer (if count = 0 then Problem ErrorNotFound else Empty 204)"

section \<open>Handlers that change nothing when they fail\<close>

text \<open>\<open>clean h\<close>: a handler that answers with a problem leaves the tables as they were.\<close>

definition clean :: "('v, 'p) handler \<Rightarrow> bool" where
  "clean h \<longleftrightarrow> (\<forall>s e s'. h s = (Problem e, s') \<longrightarrow> tables s' = tables s)"

lemma clean_answer [intro]: "clean (answer a)"
  by (simp add: clean_def answer_def)

lemma clean_GetDB [intro]: "clean k \<Longrightarrow> clean (GetDB cx k)"
  by (auto simp: clean_def GetDB_def)

lemma clean_GetUserUUID [intro]: "(\<And>u. clean (k u)) \<Longrightarrow> clean (GetUserUUID cx k)"
  by (auto simp: clean_def GetUserUUID_def split: option.splits)

lemma clean_GetDomainToken [intro]: "(\<And>u. clean (k u)) \<Longrightarrow> clean (GetDomainToken cx k)"
  by (auto simp: clean_def GetDomainToken_def split: option.splits)

lemma clean_decodeJSONBody [intro]: "(\<And>u. clean (k u)) \<Longrightarrow> clean (decodeJSONBody b k)"
  by (auto simp: clean_def decodeJSONBody_def split: option.splits)

text \<open>Reads first, then one atomic operation; a count of zero means that nothing was hit.\<close>

definition idle_when :: "('a \<Rightarrow> bool) \<Rightarrow> ('v, 'a) dbm \<Rightarrow> bool" where
  "idle_when P m \<longleftrightarrow> (\<forall>s a s'. m s = (Inr a, s') \<longrightarrow> P a \<longrightarrow> tables s' = tables s)"

lemma clean_call_read:
  assumes "reads m" "\<And>a. clean (k a)"
  shows "clean (call m k)"
  unfolding clean_def
proof (intro allI impI)
  fix s e s'
  assume c: "call m k s = (Problem e, s')"
  obtain r s1 where m: "m s = (r, s1)" by force
  with assms(1) have "tables s1 = tables s" by (blast dest: readsD)
  with c m assms(2) show "tables s' = tables s" by (cases r) (auto simp: call_def clean_def)
qed

lemma clean_call_last:
  assumes "atomic m" "\<And>a s. \<exists>x. k a s = (x, s) \<and> (\<forall>e. x = Problem e \<longrightarrow> P a)" "idle_when P m"
  shows "clean (call m k)"
  unfolding clean_def
proof (intro allI impI)
  fix s e s'
  assume c: "call m k s = (Problem e, s')"
  obtain r s1 where m: "m s = (r, s1)" by force
  show "tables s' = tables s"
  proof (cases r)
    case (Inl x)
    with c m have "m s = (Inl x, s')" by (simp add: call_def)
    with assms(1) show ?thesis by (rule atomicD)
  next
    case (Inr a)
    from assms(2) [of a s1] obtain x where x: "k a s1 = (x, s1)" "\<forall>e. x = Problem e \<longrightarrow> P a" by blast
    with c m Inr have "s' = s1" "P a" by (auto simp: call_def)
    with m Inr assms(3) show ?thesis unfolding idle_when_def by blast
  qed
qed

lemma clean_call_answer:
  assumes "atomic m" "\<And>a. is_Problem (f a) = False"
  shows "clean (call m (\<lambda>a. answer (f a)))"
proof (rule clean_call_last [where P = "\<lambda>_. False"])
  show "\<exists>x. answer (f a) s = (x, s) \<and> (\<forall>e. x = Problem e \<longrightarrow> False)" for a and s :: "'a db"
    using assms(2) [of a] by (auto simp: answer_def)
qed (use assms(1) in \<open>auto simp: idle_when_def\<close>)

lemma clean_call_count: "atomic m \<Longrightarrow> idle_when (\<lambda>c. c = 0) m \<Longrightarrow> clean (call m none_is_404)"
  by (rule clean_call_last [where P = "\<lambda>c. c = 0"]) (auto simp: none_is_404_def answer_def)

end
