(* ===== verification/Storage.thy ===== *)
theory Storage
  imports Things Rest
begin

text \<open>
  Object storage (\<^verbatim>\<open>internal/services/dataset_storage.go\<close>) and the parts of the standard
  library the dataset services use: hexadecimal and base-64 encodings, paths, and a
  directory tree with the calls of package \<^verbatim>\<open>os\<close>.  The digests of \<^verbatim>\<open>crypto/sha256\<close> and
  \<^verbatim>\<open>crypto/md5\<close> and the client of the S3 service are arguments.
\<close>

section \<open>Encodings\<close>

definition hex_digit :: "nat \<Rightarrow> char" where
  "hex_digit n = (if n < 10 then char_of (48 + n) else char_of (87 + n))"

definition hex_EncodeToString :: "string \<Rightarrow> string" where
  "hex_EncodeToString s = concat (map (\<lambda>c. [hex_digit (of_char c div 16), hex_digit (of_char c mod 16)]) s)"

definition hex_value :: "char \<Rightarrow> nat option" where
  "hex_value c = (let n = of_char c :: nat in
     if 48 \<le> n \<and> n \<le> 57 then Some (n - 48)
     else if 97 \<le> n \<and> n \<le> 102 then Some (n - 87)
     else if 65 \<le> n \<and> n \<le> 70 then Some (n - 55) else None)"

fun hex_DecodeString :: "string \<Rightarrow> string res" where
  "hex_DecodeString [] = Inr []"
| "hex_DecodeString [c] = (if hex_value c = None then Inl (Plain ''encoding/hex: invalid byte'')
     else Inl (Plain ''encoding/hex: odd length hex string''))"
| "hex_DecodeString (c # d # s) = (case (hex_value c, hex_value d) of
       (Some h, Some l) \<Rightarrow> (case hex_DecodeString s of Inl e \<Rightarrow> Inl e | Inr t \<Rightarrow> Inr (char_of (16 * h + l) # t))
     | _ \<Rightarrow> Inl (Plain ''encoding/hex: invalid byte''))"

definition base64_digit :: "nat \<Rightarrow> char" where
  "base64_digit n = (if n < 26 then char_of (65 + n) else if n < 52 then char_of (71 + n)
     else if n < 62 then char_of (n - 4) else if n = 62 then CHR ''+'' else CHR ''/'')"

fun base64_EncodeToString :: "string \<Rightarrow> string" where
  "base64_EncodeToString [] = []"
| "base64_EncodeToString [a] = (let n = of_char a * 16 in
     [base64_digit (n div 64), base64_digit (n mod 64), CHR ''='', CHR ''=''])"
| "base64_EncodeToString [a, b] = (let n = (of_char a * 256 + of_char b) * 4 in
     [base64_digit (n div 4096), base64_digit (n div 64 mod 64), base64_digit (n mod 64), CHR ''=''])"
| "base64_EncodeToString (a # b # c # s) = (let n = (of_char a * 256 + of_char b) * 256 + of_char c in
     [base64_digit (n div 262144), base64_digit (n div 4096 mod 64), base64_digit (n div 64 mod 64), base64_digit (n mod 64)]
     @ base64_EncodeToString s)"

text \<open>
  Equality without case.  One side is a hexadecimal digest, whose digits have no other fold
  than the two ASCII cases.
\<close>

definition EqualFold :: "string \<Rightarrow> string \<Rightarrow> bool" where
  "EqualFold s t \<longleftrightarrow> ToLower s = ToLower t"

lemma hex_value_digit: "n < 16 \<Longrightarrow> hex_value (hex_digit n) = Some n"
  by (auto simp: hex_digit_def hex_value_def Let_def)

lemma hex_roundtrip [simp]: "hex_DecodeString (hex_EncodeToString s) = Inr s"
proof (induction s)
  case (Cons c s)
  have "(of_char c :: nat) < 256" by simp
  then have "(of_char c :: nat) div 16 < 16" by (simp add: div_less_iff_less_mult)
  with Cons show ?case by (simp add: hex_EncodeToString_def hex_value_digit)
qed (simp add: hex_EncodeToString_def)

section \<open>Paths\<close>

text \<open>\<^verbatim>\<open>path.Clean\<close>: the components that are left, last first.\<close>

fun clean_parts :: "bool \<Rightarrow> string list \<Rightarrow> string list \<Rightarrow> string list" where
  "clean_parts rooted out [] = out"
| "clean_parts rooted out (p # ps) =
     (if p = [] \<or> p = ''.'' then clean_parts rooted out ps
      else if p = ''..'' then
        (case out of
           [] \<Rightarrow> clean_parts rooted (if rooted then [] else [''..'']) ps
         | q # qs \<Rightarrow> clean_parts rooted (if q = ''..'' then ''..'' # out else qs) ps)
      else clean_parts rooted (p # out) ps)"

definition path_Clean :: "string \<Rightarrow> string" where
  "path_Clean p =
     (let rooted = HasPrefix p ''/''; body = join_with ''/'' (rev (clean_parts rooted [] (split_on (CHR ''/'') p)))
      in if rooted then ''/'' @ body else if body = [] then ''.'' else body)"

definition path_Join :: "string list \<Rightarrow> string" where
  "path_Join ps = (let es = filter (\<lambda>p. p \<noteq> []) ps in if es = [] then [] else path_Clean (join_with ''/'' es))"

definition Trim_char :: "char \<Rightarrow> string \<Rightarrow> string" where
  "Trim_char c s = rev (dropWhile (\<lambda>x. x = c) (rev (dropWhile (\<lambda>x. x = c) s)))"

definition replace_char :: "char \<Rightarrow> char \<Rightarrow> string \<Rightarrow> string" where
  "replace_char a b s = map (\<lambda>c. if c = a then b else c) s"

text \<open>\<^verbatim>\<open>url.PathEscape\<close>: everything but letters, digits and \<^verbatim>\<open>-_.~$&+=:@\<close> becomes a percent escape.\<close>

definition path_plain :: "char \<Rightarrow> bool" where
  "path_plain c \<longleftrightarrow> (let n = of_char c :: nat in 48 \<le> n \<and> n \<le> 57 \<or> 65 \<le> n \<and> n \<le> 90 \<or> 97 \<le> n \<and> n \<le> 122)
     \<or> c \<in> set ''-_.~$&+=:@''"

definition upper_hex :: "nat \<Rightarrow> char" where
  "upper_hex n = (if n < 10 then char_of (48 + n) else char_of (55 + n))"

definition url_PathEscape :: "string \<Rightarrow> string" where
  "url_PathEscape s = concat (map (\<lambda>c. if path_plain c then [c]
     else [CHR ''%'', upper_hex (of_char c div 16), upper_hex (of_char c mod 16)]) s)"

section \<open>Names of objects\<close>

definition DatasetStorageBackendInline :: string where
  "DatasetStorageBackendInline = ''inline''"

definition DatasetStorageBackendS3 :: string where
  "DatasetStorageBackendS3 = ''s3''"

record DatasetS3Options =
  s3_Endpoint :: string
  s3_Region :: string
  s3_Bucket :: string
  s3_AccessKeyID :: string
  s3_SecretAccessKey :: string
  s3_UseSSL :: bool
  s3_ForcePathStyle :: bool
  s3_KeyPrefix :: string

record DatasetStorageOptions =
  so_Backend :: string
  so_Domain :: string
  so_S3 :: "DatasetS3Options option"

record DatasetObjectRef =
  or_Backend :: string
  or_Bucket :: string
  or_Key :: string

record DatasetMultipartPart =
  mp_PartNumber :: int
  mp_ETag :: string

record DatasetStorageMetadata =
  sm_Backend :: string
  sm_Bucket :: string
  sm_Key :: string
  sm_Size :: int
  sm_Checksum :: string

definition safeObjectKeyPart :: "string \<Rightarrow> string" where
  "safeObjectKeyPart value = (let value = TrimSpace value in
     if value = [] then ''_'' else url_PathEscape (replace_char (CHR ''/'') (CHR ''_'') value))"

definition objectKey :: "DatasetStorageOptions \<Rightarrow> string \<Rightarrow> string \<Rightarrow> string" where
  "objectKey opt datasetUUID suf =
     (let pre = (case so_S3 opt of Some s3 \<Rightarrow> if TrimSpace (s3_KeyPrefix s3) \<noteq> [] then Trim_char (CHR ''/'') (s3_KeyPrefix s3) else ''datasets''
             | None \<Rightarrow> ''datasets'');
          parts = [pre] @ (if so_Domain opt \<noteq> [] then [safeObjectKeyPart (so_Domain opt)] else []) @ [datasetUUID, suf]
      in path_Join parts)"

definition inline_ref :: DatasetObjectRef where
  "inline_ref = \<lparr>or_Backend = DatasetStorageBackendInline, or_Bucket = [], or_Key = []\<rparr>"

definition ContentRef :: "DatasetStorageOptions \<Rightarrow> string \<Rightarrow> DatasetObjectRef" where
  "ContentRef opt datasetUUID = (case so_S3 opt of
       Some s3 \<Rightarrow> if so_Backend opt \<noteq> DatasetStorageBackendS3 then inline_ref
         else \<lparr>or_Backend = DatasetStorageBackendS3, or_Bucket = s3_Bucket s3, or_Key = objectKey opt datasetUUID ''content''\<rparr>
     | None \<Rightarrow> inline_ref)"

text \<open>The fresh name of \<^verbatim>\<open>uuid.NewString\<close> is an argument.\<close>

definition WriteRef :: "string \<Rightarrow> DatasetStorageOptions \<Rightarrow> string \<Rightarrow> DatasetObjectRef" where
  "WriteRef newid opt datasetUUID = (case so_S3 opt of
       Some s3 \<Rightarrow> if so_Backend opt \<noteq> DatasetStorageBackendS3 then inline_ref
         else \<lparr>or_Backend = DatasetStorageBackendS3, or_Bucket = s3_Bucket s3,
               or_Key = objectKey opt datasetUUID (path_Join [''objects'', newid])\<rparr>
     | None \<Rightarrow> inline_ref)"

definition UploadRef :: "DatasetStorageOptions \<Rightarrow> string \<Rightarrow> string \<Rightarrow> DatasetObjectRef" where
  "UploadRef opt datasetUUID uploadID = (case so_S3 opt of
       Some s3 \<Rightarrow> if so_Backend opt \<noteq> DatasetStorageBackendS3 then inline_ref
         else \<lparr>or_Backend = DatasetStorageBackendS3, or_Bucket = s3_Bucket s3,
               or_Key = objectKey opt datasetUUID (path_Join [''objects'', uploadID])\<rparr>
     | None \<Rightarrow> inline_ref)"

definition datasetContentType :: "string \<Rightarrow> string" where
  "datasetContentType format = (let f = ToLower format in
     if f = ''csv'' then ''text/csv''
     else if f = ''ini'' then ''text/plain; charset=utf-8''
     else if f = ''json'' then ''application/json''
     else if f = ''toml'' then ''application/toml''
     else if f = ''xml'' then ''application/xml''
     else if f = ''yaml'' then ''application/yaml''
     else ''application/octet-stream'')"

definition normalizeS3Endpoint :: "string \<Rightarrow> bool \<Rightarrow> string" where
  "normalizeS3Endpoint endpoint useSSL = (let endpoint = TrimSpace endpoint in
     if endpoint = [] then []
     else if Contains endpoint ''://'' then endpoint
     else (if useSSL then ''https'' else ''http'') @ ''://'' @ endpoint)"

text \<open>
  Whether there is a store: none for the inline backend.  \<open>load\<close> stands for
  \<^verbatim>\<open>awsconfig.LoadDefaultConfig\<close>, which may fail.
\<close>

definition NewDatasetObjectStore :: "(DatasetS3Options \<Rightarrow> go_error option) \<Rightarrow> DatasetStorageOptions \<Rightarrow> DatasetS3Options option res" where
  "NewDatasetObjectStore load opt =
     (if TrimSpace (so_Backend opt) = [] \<or> so_Backend opt = DatasetStorageBackendInline then Inr None
      else if so_Backend opt \<noteq> DatasetStorageBackendS3 then Inl (Plain (''unsupported dataset storage backend '' @ so_Backend opt))
      else (case so_S3 opt of
          None \<Rightarrow> Inl (Plain ''dataset S3 configuration is required'')
        | Some s3 \<Rightarrow>
            (let s3 = (if s3_Region s3 = [] then s3\<lparr>s3_Region := ''us-east-1''\<rparr> else s3) in
             if s3_Bucket s3 = [] then Inl (Plain ''dataset_storage.s3.bucket is empty'')
             else (case load s3 of Some e \<Rightarrow> Inl e | None \<Rightarrow> Inr (Some s3)))))"


section \<open>The world around the services\<close>

text \<open>
  The database, the object store, the directory tree and the faults of its calls to come.
  A directory tree is what its files hold and which directories exist.
\<close>

record ('v, 'o) world =
  w_db :: "'v db"
  w_s3 :: 'o
  w_files :: "string \<Rightarrow> string option"
  w_dirs :: "string \<Rightarrow> bool"
  w_os :: "go_error option list"

type_synonym ('v, 'o, 'a) wm = "('v, 'o) world \<Rightarrow> 'a res \<times> ('v, 'o) world"

definition attempt :: "('v, 'o, 'a) wm \<Rightarrow> ('a res \<Rightarrow> ('v, 'o, 'b) wm) \<Rightarrow> ('v, 'o, 'b) wm" where
  "attempt m k w = (case m w of (r, w') \<Rightarrow> k r w')"

definition wret :: "'a \<Rightarrow> ('v, 'o, 'a) wm" where
  "wret a w = (Inr a, w)"

definition wfail :: "go_error \<Rightarrow> ('v, 'o, 'a) wm" where
  "wfail e w = (Inl e, w)"

definition wthen :: "('v, 'o, 'a) wm \<Rightarrow> ('a \<Rightarrow> ('v, 'o, 'b) wm) \<Rightarrow> ('v, 'o, 'b) wm" where
  "wthen m k = attempt m (\<lambda>r. case r of Inl e \<Rightarrow> wfail e | Inr a \<Rightarrow> k a)"

definition ondb :: "('v, 'a) dbm \<Rightarrow> ('v, 'o, 'a) wm" where
  "ondb m w = (case m (w_db w) of (r, s) \<Rightarrow> (r, w\<lparr>w_db := s\<rparr>))"

definition ons3 :: "('o \<Rightarrow> 'a res \<times> 'o) \<Rightarrow> ('v, 'o, 'a) wm" where
  "ons3 m w = (case m (w_s3 w) of (r, s) \<Rightarrow> (r, w\<lparr>w_s3 := s\<rparr>))"

text \<open>\<^verbatim>\<open>_ = m\<close>, and then \<open>k\<close>.\<close>

definition ignoring :: "('v, 'o, 'a) wm \<Rightarrow> ('v, 'o, 'b) wm \<Rightarrow> ('v, 'o, 'b) wm" where
  "ignoring m k = attempt m (\<lambda>_. k)"

lemmas wsimps = attempt_def wret_def wfail_def wthen_def ondb_def ons3_def ignoring_def

subsection \<open>Files\<close>

definition os_call :: "('v, 'o, 'a) wm \<Rightarrow> ('v, 'o, 'a) wm" where
  "os_call f w = (case w_os w of
      [] \<Rightarrow> f w
    | None # fs \<Rightarrow> f (w\<lparr>w_os := fs\<rparr>)
    | Some e # fs \<Rightarrow> (Inl e, w\<lparr>w_os := fs\<rparr>))"

definition ErrNotExist :: go_error where
  "ErrNotExist = Plain ''no such file or directory''"

definition IsNotExist :: "go_error \<Rightarrow> bool" where
  "IsNotExist e \<longleftrightarrow> e = ErrNotExist"

definition below :: "string \<Rightarrow> string \<Rightarrow> bool" where
  "below d p \<longleftrightarrow> p = d \<or> prefix (d @ ''/'') p"

definition dir_of :: "string \<Rightarrow> string" where
  "dir_of p = rev (tl (dropWhile (\<lambda>c. c \<noteq> CHR ''/'') (rev p)))"

definition os_MkdirAll :: "string \<Rightarrow> ('v, 'o, unit) wm" where
  "os_MkdirAll d = os_call (\<lambda>w. (Inr (), w\<lparr>w_dirs := (\<lambda>p. w_dirs w p \<or> below p d)\<rparr>))"

definition os_WriteFile :: "string \<Rightarrow> string \<Rightarrow> ('v, 'o, unit) wm" where
  "os_WriteFile p body = os_call (\<lambda>w. if w_dirs w (dir_of p) then (Inr (), w\<lparr>w_files := (w_files w)(p \<mapsto> body)\<rparr>)
     else (Inl ErrNotExist, w))"

definition os_ReadFile :: "string \<Rightarrow> ('v, 'o, string) wm" where
  "os_ReadFile p = os_call (\<lambda>w. (case w_files w p of None \<Rightarrow> Inl ErrNotExist | Some c \<Rightarrow> Inr c, w))"

definition os_Remove :: "string \<Rightarrow> ('v, 'o, unit) wm" where
  "os_Remove p = os_call (\<lambda>w. case w_files w p of None \<Rightarrow> (Inl ErrNotExist, w)
     | Some _ \<Rightarrow> (Inr (), w\<lparr>w_files := (w_files w)(p := None)\<rparr>))"

definition os_RemoveAll :: "string \<Rightarrow> ('v, 'o, unit) wm" where
  "os_RemoveAll d = os_call (\<lambda>w. (Inr (), w\<lparr>w_files := (\<lambda>p. if below d p then None else w_files w p),
     w_dirs := (\<lambda>p. w_dirs w p \<and> \<not> below d p)\<rparr>))"

subsection \<open>The S3 client\<close>

text \<open>
  The calls the store makes, on the state \<open>'o\<close> of the service.  Reading an object has two
  stages: the answer, and the body, whose transfer may break off.
\<close>

record 'o s3_client =
  c_PutObject :: "string \<Rightarrow> string \<Rightarrow> string \<Rightarrow> string \<Rightarrow> 'o \<Rightarrow> unit res \<times> 'o"
  c_GetObject :: "string \<Rightarrow> string \<Rightarrow> 'o \<Rightarrow> string res res \<times> 'o"
  c_DeleteObject :: "string \<Rightarrow> string \<Rightarrow> 'o \<Rightarrow> unit res \<times> 'o"
  c_CreateMultipartUpload :: "string \<Rightarrow> string \<Rightarrow> string \<Rightarrow> 'o \<Rightarrow> string option res \<times> 'o"
  c_UploadPart :: "string \<Rightarrow> string \<Rightarrow> string \<Rightarrow> int \<Rightarrow> string \<Rightarrow> string \<Rightarrow> 'o \<Rightarrow> string option res \<times> 'o"
  c_CompleteMultipartUpload :: "string \<Rightarrow> string \<Rightarrow> string \<Rightarrow> (string \<times> int) list \<Rightarrow> 'o \<Rightarrow> unit res \<times> 'o"
  c_AbortMultipartUpload :: "string \<Rightarrow> string \<Rightarrow> string \<Rightarrow> 'o \<Rightarrow> unit res \<times> 'o"

text \<open>The digests: raw bytes of SHA-256 and MD5.\<close>

record digests =
  d_sha256 :: "string \<Rightarrow> string"
  d_md5 :: "string \<Rightarrow> string"

definition checksumHex :: "digests \<Rightarrow> string \<Rightarrow> string" where
  "checksumHex D content = hex_EncodeToString (d_sha256 D content)"

subsection \<open>DatasetS3Store\<close>

definition S3_PutObject :: "digests \<Rightarrow> 'o s3_client \<Rightarrow> DatasetObjectRef \<Rightarrow> string \<Rightarrow> string \<Rightarrow> ('v, 'o, DatasetStorageMetadata) wm" where
  "S3_PutObject D C ref body format =
     wthen (ons3 (c_PutObject C (or_Bucket ref) (or_Key ref) body (datasetContentType format))) (\<lambda>_.
       wret \<lparr>sm_Backend = DatasetStorageBackendS3, sm_Bucket = or_Bucket ref, sm_Key = or_Key ref,
         sm_Size = int (length body), sm_Checksum = hex_EncodeToString (d_sha256 D body)\<rparr>)"

definition S3_GetObject :: "'o s3_client \<Rightarrow> DatasetObjectRef \<Rightarrow> ('v, 'o, string res) wm" where
  "S3_GetObject C ref = ons3 (c_GetObject C (or_Bucket ref) (or_Key ref))"

definition S3_DeleteObject :: "'o s3_client \<Rightarrow> DatasetObjectRef \<Rightarrow> ('v, 'o, unit) wm" where
  "S3_DeleteObject C ref = (if or_Bucket ref = [] \<or> or_Key ref = [] then wret ()
     else ons3 (c_DeleteObject C (or_Bucket ref) (or_Key ref)))"

definition S3_CreateMultipartUpload :: "'o s3_client \<Rightarrow> DatasetObjectRef \<Rightarrow> string \<Rightarrow> ('v, 'o, string) wm" where
  "S3_CreateMultipartUpload C ref format =
     wthen (ons3 (c_CreateMultipartUpload C (or_Bucket ref) (or_Key ref) (datasetContentType format))) (\<lambda>out.
       case out of None \<Rightarrow> wfail (Plain ''multipart upload did not return an upload ID'') | Some u \<Rightarrow> wret u)"

definition S3_UploadPart :: "digests \<Rightarrow> 'o s3_client \<Rightarrow> DatasetObjectRef \<Rightarrow> string \<Rightarrow> int \<Rightarrow> string \<Rightarrow> string \<Rightarrow> ('v, 'o, string \<times> int) wm" where
  "S3_UploadPart D C ref uploadID partNumber body checksumMD5 =
     (let md5Hex = (if ToLower checksumMD5 = [] then hex_EncodeToString (d_md5 D body) else ToLower checksumMD5) in
      case hex_DecodeString md5Hex of
        Inl e \<Rightarrow> wfail e
      | Inr md5Raw \<Rightarrow>
          wthen (ons3 (c_UploadPart C (or_Bucket ref) (or_Key ref) uploadID partNumber body (base64_EncodeToString md5Raw))) (\<lambda>out.
            case out of None \<Rightarrow> wfail (Plain ''multipart upload part did not return an ETag'')
            | Some etag \<Rightarrow> wret (etag, int (length body))))"

definition S3_CompleteMultipartUpload :: "digests \<Rightarrow> 'o s3_client \<Rightarrow> DatasetObjectRef \<Rightarrow> string \<Rightarrow> DatasetMultipartPart list
    \<Rightarrow> ('v, 'o, DatasetStorageMetadata) wm" where
  "S3_CompleteMultipartUpload D C ref uploadID parts =
     wthen (ons3 (c_CompleteMultipartUpload C (or_Bucket ref) (or_Key ref) uploadID (map (\<lambda>p. (mp_ETag p, mp_PartNumber p)) parts))) (\<lambda>_.
     wthen (S3_GetObject C ref) (\<lambda>body. case body of
         Inl e \<Rightarrow> wfail e
       | Inr content \<Rightarrow> wret \<lparr>sm_Backend = DatasetStorageBackendS3, sm_Bucket = or_Bucket ref, sm_Key = or_Key ref,
           sm_Size = int (length content), sm_Checksum = hex_EncodeToString (d_sha256 D content)\<rparr>))"

definition S3_AbortMultipartUpload :: "'o s3_client \<Rightarrow> DatasetObjectRef \<Rightarrow> string \<Rightarrow> ('v, 'o, unit) wm" where
  "S3_AbortMultipartUpload C ref uploadID = (if uploadID = [] then wret ()
     else ons3 (c_AbortMultipartUpload C (or_Bucket ref) (or_Key ref) uploadID))"

end
