(* ===== verification/Datasets.thy ===== *)
theory Datasets
  imports Storage
begin

text \<open>
  Datasets: \<^verbatim>\<open>internal/services/dataset.go\<close> with \<^verbatim>\<open>datasets.sql\<close> and the trigger and constraints
  of its migrations.  The content of a dataset lies in its row or, when a store is
  configured, in an object the row refers to.
\<close>

section \<open>Queries\<close>

definition nullif :: "string \<Rightarrow> string option" where
  "nullif s = (if s = [] then None else Some s)"

text \<open>The check constraints of migration 17.\<close>

definition storage_ok :: "dataset_row \<Rightarrow> bool" where
  "storage_ok d \<longleftrightarrow> ds_backend d = ''inline'' \<and> ds_bucket d = None \<and> ds_key d = None
     \<or> ds_backend d = ''s3'' \<and> ds_bucket d \<noteq> None \<and> ds_key d \<noteq> None"

definition thing_ok :: "'v db \<Rightarrow> uuid option \<Rightarrow> bool" where
  "thing_ok s t \<longleftrightarrow> (case t of None \<Rightarrow> True | Some u \<Rightarrow> u \<in> set (map th_uuid (things s)))"

record CreateDatasetParams =
  cd_Uuid :: uuid
  cd_Name :: string
  cd_Format :: string
  cd_Content :: string
  cd_Checksum :: string
  cd_Size :: int
  cd_BelongsTo :: uuid
  cd_CreatedBy :: uuid
  cd_Tags :: "string list"
  cd_StorageBackend :: string
  cd_StorageBucket :: string
  cd_StorageKey :: string

definition new_dataset :: "int \<Rightarrow> CreateDatasetParams \<Rightarrow> dataset_row" where
  "new_dataset now p = \<lparr>ds_uuid = cd_Uuid p, ds_name = cd_Name p, ds_format = cd_Format p, ds_content = cd_Content p,
     ds_checksum = cd_Checksum p, ds_size = cd_Size p, ds_belongs_to = (if cd_BelongsTo p = NilUUID then None else Some (cd_BelongsTo p)),
     ds_created = now, ds_updated = now, ds_created_by = Some (cd_CreatedBy p), ds_updated_by = Some (cd_CreatedBy p), ds_tags = cd_Tags p,
     ds_backend = cd_StorageBackend p, ds_bucket = nullif (cd_StorageBucket p), ds_key = nullif (cd_StorageKey p)\<rparr>"

definition CreateDataset :: "uuid list \<Rightarrow> CreateDatasetParams \<Rightarrow> ('v, dataset_row) dbm" where
  "CreateDataset pids p = stmt (\<lambda>s.
     let d = new_dataset (clock s) p in
     if cd_Uuid p \<in> set (map ds_uuid (datasets s)) then (Inl unique_violation, s)
     else if \<not> storage_ok d then (Inl check_violation, s)
     else if \<not> thing_ok s (ds_belongs_to d) \<or> \<not> creator_ok s (Some (cd_CreatedBy p)) then (Inl fk_violation, s)
     else (case grant_owner ''datasets'' (cd_Uuid p) (Some (cd_CreatedBy p)) pids (s\<lparr>datasets := datasets s @ [d]\<rparr>) of
         (Inl e, _) \<Rightarrow> (Inl e, s)
       | (Inr _, s') \<Rightarrow> (Inr d, s')))"

text \<open>Uploads and their parts go with the dataset.\<close>

definition DeleteDataset_query :: "uuid \<Rightarrow> ('v, int) dbm" where
  "DeleteDataset_query dsid = stmt (\<lambda>s.
     (Inr (int (length (filter (\<lambda>d. ds_uuid d = dsid) (datasets s)))),
      s\<lparr>datasets := filter (\<lambda>d. ds_uuid d \<noteq> dsid) (datasets s),
        upload_parts := filter (\<lambda>p. pt_upload p \<notin> set (map up_id (filter (\<lambda>u. up_dataset u = dsid) (uploads s)))) (upload_parts s),
        uploads := filter (\<lambda>u. up_dataset u \<noteq> dsid) (uploads s)\<rparr>))"

definition ExistsDataset :: "uuid \<Rightarrow> ('v, int) dbm" where
  "ExistsDataset dsid = sel (\<lambda>s. int (length (filter (\<lambda>d. ds_uuid d = dsid) (datasets s))))"

definition FindDatasetByThing :: "uuid option \<Rightarrow> ('v, dataset_row list) dbm" where
  "FindDatasetByThing t = sel (\<lambda>s. sort_key ds_name (filter (\<lambda>d. t \<noteq> None \<and> ds_belongs_to d = t) (datasets s)))"

definition FindDatasetByUUID :: "uuid \<Rightarrow> ('v, dataset_row) dbm" where
  "FindDatasetByUUID dsid = sel_one (\<lambda>s. filter (\<lambda>d. ds_uuid d = dsid) (datasets s))"

definition FindDatasets :: "(string \<Rightarrow> string) \<Rightarrow> string \<Rightarrow> int \<Rightarrow> int \<Rightarrow> ('v, dataset_row list) dbm" where
  "FindDatasets sha token limit offset = sel_page limit offset (\<lambda>s.
     sort_key ds_name (listed sha token (\<lambda>d. ''datasets/'' @ ds_uuid d) s (datasets s)))"

definition FindDatasetsByTags :: "(string \<Rightarrow> string) \<Rightarrow> string \<Rightarrow> string list \<Rightarrow> int \<Rightarrow> int \<Rightarrow> ('v, dataset_row list) dbm" where
  "FindDatasetsByTags sha token tags limit offset = sel_page limit offset (\<lambda>s.
     sort_key ds_name (listed sha token (\<lambda>d. ''datasets/'' @ ds_uuid d) s (filter (\<lambda>d. overlap tags (ds_tags d)) (datasets s))))"

definition GetDatasetContentByUUID :: "uuid \<Rightarrow> ('v, dataset_row) dbm" where
  "GetDatasetContentByUUID dsid = sel_one (\<lambda>s. filter (\<lambda>d. ds_uuid d = dsid) (datasets s))"

definition GetDatasetObjectRefByUUID :: "uuid \<Rightarrow> ('v, dataset_row) dbm" where
  "GetDatasetObjectRefByUUID dsid = sel_one (\<lambda>s. filter (\<lambda>d. ds_uuid d = dsid) (datasets s))"

record UpdateDatasetByUUIDParams =
  ud_Uuid :: uuid
  ud_SetName :: bool
  ud_Name :: string
  ud_SetFormat :: bool
  ud_Format :: string
  ud_SetContent :: bool
  ud_Content :: string
  ud_Checksum :: string
  ud_Size :: int
  ud_StorageBackend :: string
  ud_StorageBucket :: string
  ud_StorageKey :: string
  ud_SetThingUuid :: bool
  ud_ThingUuid :: "uuid option"
  ud_SetTags :: bool
  ud_Tags :: "string list"

text \<open>
  The new row, after the trigger of migration 21: it fires on every update, since the
  statement names the column \<^verbatim>\<open>content\<close>.
\<close>

definition content_trigger :: "int \<Rightarrow> dataset_row \<Rightarrow> dataset_row" where
  "content_trigger now d = (if ds_backend d = ''inline'' then d\<lparr>ds_size := int (length (ds_content d)), ds_updated := now\<rparr>
     else d\<lparr>ds_updated := now\<rparr>)"

definition updated_dataset :: "int \<Rightarrow> UpdateDatasetByUUIDParams \<Rightarrow> dataset_row \<Rightarrow> dataset_row" where
  "updated_dataset now p d = content_trigger now (d\<lparr>
     ds_name := (if ud_SetName p then ud_Name p else ds_name d),
     ds_format := (if ud_SetFormat p then ud_Format p else ds_format d),
     ds_content := (if ud_SetContent p then ud_Content p else ds_content d),
     ds_checksum := (if ud_SetContent p then ud_Checksum p else ds_checksum d),
     ds_size := (if ud_SetContent p then ud_Size p else ds_size d),
     ds_backend := (if ud_SetContent p then ud_StorageBackend p else ds_backend d),
     ds_bucket := (if ud_SetContent p then nullif (ud_StorageBucket p) else ds_bucket d),
     ds_key := (if ud_SetContent p then nullif (ud_StorageKey p) else ds_key d),
     ds_belongs_to := (if ud_SetThingUuid p then ud_ThingUuid p else ds_belongs_to d),
     ds_tags := (if ud_SetTags p then ud_Tags p else ds_tags d)\<rparr>)"

definition UpdateDatasetByUUID :: "UpdateDatasetByUUIDParams \<Rightarrow> ('v, int) dbm" where
  "UpdateDatasetByUUID p = stmt (\<lambda>s.
     let hits = filter (\<lambda>d. ds_uuid d = ud_Uuid p) (datasets s) in
     if list_ex (\<lambda>d. \<not> storage_ok (updated_dataset (clock s) p d)) hits then (Inl check_violation, s)
     else if hits \<noteq> [] \<and> ud_SetThingUuid p \<and> \<not> thing_ok s (ud_ThingUuid p) then (Inl fk_violation, s)
     else (Inr (int (length hits)),
       s\<lparr>datasets := map (\<lambda>d. if ds_uuid d = ud_Uuid p then updated_dataset (clock s) p d else d) (datasets s)\<rparr>))"

section \<open>DatasetService\<close>

record 'o DatasetService =
  dv_store :: "'o s3_client option"
  dv_opt :: DatasetStorageOptions

text \<open>The client is used when there is a store at all.\<close>

definition NewDatasetService :: "(DatasetS3Options \<Rightarrow> go_error option) \<Rightarrow> 'o s3_client \<Rightarrow> DatasetStorageOptions \<Rightarrow> 'o DatasetService res" where
  "NewDatasetService load C opt = (case NewDatasetObjectStore load opt of
       Inl e \<Rightarrow> Inl e
     | Inr None \<Rightarrow> Inr \<lparr>dv_store = None, dv_opt = opt\<rparr>
     | Inr (Some _) \<Rightarrow> Inr \<lparr>dv_store = Some C, dv_opt = opt\<rparr>)"

record rest_Dataset =
  rd_Uuid :: string
  rd_Name :: string
  rd_Format :: string
  rd_Checksum :: string
  rd_Size :: int
  rd_Created :: int
  rd_Updated :: int
  rd_CreatedBy :: string
  rd_UpdatedBy :: string
  rd_Tags :: "string list"
  rd_ThingUuid :: "string option"

definition rest_dataset :: "dataset_row \<Rightarrow> rest_Dataset" where
  "rest_dataset d = \<lparr>rd_Uuid = ds_uuid d, rd_Name = ds_name d, rd_Format = ds_format d, rd_Checksum = ds_checksum d,
     rd_Size = ds_size d, rd_Created = ds_created d, rd_Updated = ds_updated d, rd_CreatedBy = nullableUUIDString (ds_created_by d),
     rd_UpdatedBy = nullableUUIDString (ds_updated_by d), rd_Tags = ds_tags d, rd_ThingUuid = ds_belongs_to d\<rparr>"

definition Dataset_Exists :: "uuid \<Rightarrow> ('v, 'o, bool) wm" where
  "Dataset_Exists dsid = wthen (ondb (ExistsDataset dsid)) (\<lambda>found. wret (found > 0))"

record AddDatasetParams =
  ad_Name :: string
  ad_Format :: string
  ad_Content :: "string option"
  ad_CreatedBy :: uuid
  ad_ThingUuid :: uuid
  ad_Tags :: "string list option"

definition object_ref :: "DatasetStorageMetadata \<Rightarrow> DatasetObjectRef" where
  "object_ref m = \<lparr>or_Backend = sm_Backend m, or_Bucket = sm_Bucket m, or_Key = sm_Key m\<rparr>"

text \<open>
  Where content goes: into the row, or into the object \<open>ContentRef\<close> of the dataset when there
  is a store and the content is not empty.  The result is the inline content and the
  metadata for the row.
\<close>

definition inline_meta :: "digests \<Rightarrow> string \<Rightarrow> DatasetStorageMetadata" where
  "inline_meta D content = \<lparr>sm_Backend = DatasetStorageBackendInline, sm_Bucket = [], sm_Key = [],
     sm_Size = int (length content), sm_Checksum = checksumHex D content\<rparr>"

definition drop_object :: "'o s3_client option \<Rightarrow> DatasetObjectRef \<Rightarrow> ('v, 'o, 'b) wm \<Rightarrow> ('v, 'o, 'b) wm" where
  "drop_object store ref k = (case store of
       Some C \<Rightarrow> if or_Backend ref = DatasetStorageBackendS3 then ignoring (S3_DeleteObject C ref) k else k
     | None \<Rightarrow> k)"

definition store_content :: "digests \<Rightarrow> 'o DatasetService \<Rightarrow> uuid \<Rightarrow> string \<Rightarrow> ('v, 'o, string) wm \<Rightarrow> ('v, 'o, string \<times> DatasetStorageMetadata) wm" where
  "store_content D svc dsid content getFormat = (case dv_store svc of
       None \<Rightarrow> wret (content, inline_meta D content)
     | Some C \<Rightarrow> if content = [] then wret (content, inline_meta D content)
         else wthen getFormat (\<lambda>format.
           wthen (S3_PutObject D C (ContentRef (dv_opt svc) dsid) content format) (\<lambda>meta. wret ([], meta))))"

definition create_params :: "uuid \<Rightarrow> AddDatasetParams \<Rightarrow> string \<Rightarrow> DatasetStorageMetadata \<Rightarrow> CreateDatasetParams" where
  "create_params newid p inlineContent meta = \<lparr>cd_Uuid = newid, cd_Name = ad_Name p, cd_Format = ad_Format p, cd_Content = inlineContent,
     cd_Checksum = sm_Checksum meta, cd_Size = to_i32 (sm_Size meta), cd_BelongsTo = ad_ThingUuid p, cd_CreatedBy = ad_CreatedBy p,
     cd_Tags = or_default [] (ad_Tags p), cd_StorageBackend = sm_Backend meta, cd_StorageBucket = sm_Bucket meta,
     cd_StorageKey = sm_Key meta\<rparr>"

definition AddDataset :: "digests \<Rightarrow> 'o DatasetService \<Rightarrow> uuid \<Rightarrow> uuid list \<Rightarrow> AddDatasetParams \<Rightarrow> ('v, 'o, rest_Dataset) wm" where
  "AddDataset D svc newid pids p =
     wthen (store_content D svc newid (or_default [] (ad_Content p)) (wret (ad_Format p))) (\<lambda>(inlineContent, meta).
     attempt (ondb (CreateDataset pids (create_params newid p inlineContent meta))) (\<lambda>r. case r of
         Inl e \<Rightarrow> drop_object (dv_store svc) (object_ref meta) (wfail e)
       | Inr dataset \<Rightarrow> wret (rest_dataset dataset)))"

definition FindDatasetByUuid :: "uuid \<Rightarrow> ('v, 'o, rest_Dataset) wm" where
  "FindDatasetByUuid dsid = wthen (ondb (FindDatasetByUUID dsid)) (\<lambda>dataset. wret (rest_dataset dataset))"

definition Dataset_FindByThing :: "uuid \<Rightarrow> ('v, 'o, rest_Dataset list) wm" where
  "Dataset_FindByThing tid =
     wthen (ondb (FindDatasetByThing (Some tid))) (\<lambda>datasetsList.
     wthen (if datasetsList = [] then wthen (ondb (ExistsThing tid)) (\<lambda>count. if count = 0 then wfail ErrorNotFound else wret ())
            else wret ()) (\<lambda>_.
     wret (map rest_dataset datasetsList)))"

definition Dataset_FindAll :: "(string \<Rightarrow> string) \<Rightarrow> string \<Rightarrow> int option \<Rightarrow> int option \<Rightarrow> ('v, 'o, rest_Dataset list) wm" where
  "Dataset_FindAll sha token limit offset =
     wthen (ondb (FindDatasets sha token (Pagination_Scan limit) (Pagination_Scan offset))) (\<lambda>ds. wret (map rest_dataset ds))"

definition Dataset_FindByTags :: "(string \<Rightarrow> string) \<Rightarrow> string \<Rightarrow> string list \<Rightarrow> int option \<Rightarrow> int option \<Rightarrow> ('v, 'o, rest_Dataset list) wm" where
  "Dataset_FindByTags sha token tags limit offset =
     wthen (ondb (FindDatasetsByTags sha token tags (Pagination_Scan limit) (Pagination_Scan offset))) (\<lambda>ds. wret (map rest_dataset ds))"

text \<open>A file: the content from the row, or the body of the object, whose transfer may break off.\<close>

record DatasetFile =
  df_Format :: string
  df_Content :: string
  df_Body :: "string res option"
  df_Checksum :: string
  df_Size :: int

definition row_ref :: "dataset_row \<Rightarrow> DatasetObjectRef option" where
  "row_ref d = (case (ds_bucket d, ds_key d) of
       (Some b, Some k) \<Rightarrow> if ds_backend d = DatasetStorageBackendS3 then Some \<lparr>or_Backend = ds_backend d, or_Bucket = b, or_Key = k\<rparr> else None
     | _ \<Rightarrow> None)"

definition GetDatasetContentByUuid :: "'o DatasetService \<Rightarrow> uuid \<Rightarrow> ('v, 'o, DatasetFile) wm" where
  "GetDatasetContentByUuid svc dsid =
     wthen (ondb (GetDatasetContentByUUID dsid)) (\<lambda>content.
       (case row_ref content of
          Some ref \<Rightarrow> (case dv_store svc of
              None \<Rightarrow> wfail ErrorUndefined
            | Some C \<Rightarrow> wthen (S3_GetObject C ref) (\<lambda>body.
                wret \<lparr>df_Format = ds_format content, df_Content = [], df_Body = Some body, df_Checksum = ds_checksum content, df_Size = ds_size content\<rparr>))
        | None \<Rightarrow> wret \<lparr>df_Format = ds_format content, df_Content = ds_content content, df_Body = None,
            df_Checksum = ds_checksum content, df_Size = ds_size content\<rparr>))"

record UpdateDatasetByUuidParams =
  dp_Content :: "string option"
  dp_Format :: "string option"
  dp_Name :: "string option"
  dp_Tags :: "string list option"
  dp_ThingUuid :: "uuid option"

definition update_params :: "uuid \<Rightarrow> UpdateDatasetByUuidParams \<Rightarrow> string \<Rightarrow> DatasetStorageMetadata \<Rightarrow> UpdateDatasetByUUIDParams" where
  "update_params dsid p inlineContent meta = \<lparr>ud_Uuid = dsid,
     ud_SetName = dp_Name p \<noteq> None, ud_Name = or_default [] (dp_Name p),
     ud_SetFormat = dp_Format p \<noteq> None, ud_Format = or_default [] (dp_Format p),
     ud_SetContent = dp_Content p \<noteq> None, ud_Content = inlineContent, ud_Checksum = sm_Checksum meta, ud_Size = to_i32 (sm_Size meta),
     ud_StorageBackend = sm_Backend meta, ud_StorageBucket = sm_Bucket meta, ud_StorageKey = sm_Key meta,
     ud_SetThingUuid = dp_ThingUuid p \<noteq> None, ud_ThingUuid = dp_ThingUuid p,
     ud_SetTags = dp_Tags p \<noteq> None, ud_Tags = or_default [] (dp_Tags p)\<rparr>"

definition no_meta :: DatasetStorageMetadata where
  "no_meta = \<lparr>sm_Backend = [], sm_Bucket = [], sm_Key = [], sm_Size = 0, sm_Checksum = []\<rparr>"

text \<open>After the row was updated, the object it referred to before goes, unless it is the new one.\<close>

definition drop_previous :: "'o s3_client option \<Rightarrow> DatasetObjectRef option \<Rightarrow> DatasetStorageMetadata \<Rightarrow> ('v, 'o, 'b) wm \<Rightarrow> ('v, 'o, 'b) wm" where
  "drop_previous store previousRef meta k = (case previousRef of
       None \<Rightarrow> k
     | Some ref \<Rightarrow> if sm_Backend meta \<noteq> DatasetStorageBackendS3 \<or> or_Bucket ref \<noteq> sm_Bucket meta \<or> or_Key ref \<noteq> sm_Key meta
         then drop_object store ref k else k)"

definition UpdateDatasetByUuid :: "digests \<Rightarrow> 'o DatasetService \<Rightarrow> uuid \<Rightarrow> UpdateDatasetByUuidParams \<Rightarrow> ('v, 'o, int) wm" where
  "UpdateDatasetByUuid D svc dsid p =
     (if dp_Name p = None \<and> dp_Format p = None \<and> dp_Content p = None \<and> dp_Tags p = None \<and> dp_ThingUuid p = None
      then wthen (ondb (FindDatasetByUUID dsid)) (\<lambda>_. wret 1)
      else attempt (if dp_Content p \<noteq> None then ondb (GetDatasetObjectRefByUUID dsid) else wfail no_rows) (\<lambda>previous.
        wthen (case dp_Content p of
            None \<Rightarrow> wret ([], no_meta)
          | Some content \<Rightarrow> store_content D svc dsid content (case dp_Format p of
                Some f \<Rightarrow> wret f
              | None \<Rightarrow> wthen (ondb (FindDatasetByUUID dsid)) (\<lambda>current. wret (ds_format current)))) (\<lambda>(inlineContent, meta).
        attempt (ondb (UpdateDatasetByUUID (update_params dsid p inlineContent meta))) (\<lambda>r. case r of
            Inl e \<Rightarrow> drop_object (dv_store svc) (object_ref meta) (wfail e)
          | Inr n \<Rightarrow>
              if n = 0 then drop_object (dv_store svc) (object_ref meta) (wfail ErrorNotFound)
              else drop_previous (dv_store svc) (case previous of Inl _ \<Rightarrow> None | Inr d \<Rightarrow> row_ref d) meta (wret n)))))"

definition DeleteDataset :: "'o DatasetService \<Rightarrow> uuid \<Rightarrow> ('v, 'o, int) wm" where
  "DeleteDataset svc dsid =
     wthen (ondb (GetDatasetObjectRefByUUID dsid)) (\<lambda>refRow.
     wthen (ondb (DeleteDataset_query dsid)) (\<lambda>count.
       case row_ref refRow of None \<Rightarrow> wret count | Some ref \<Rightarrow> drop_object (dv_store svc) ref (wret count)))"

end
