(* ===== verification/Uploads.thy ===== *)
theory Uploads
  imports Datasets
begin

text \<open>
  Uploads of datasets in parts: \<^verbatim>\<open>internal/services/dataset_upload.go\<close> with
  \<^verbatim>\<open>dataset_uploads.sql\<close>.  Parts lie in a directory per upload or, when a store is
  configured, in a multipart upload of the store.  Fresh names (\<^verbatim>\<open>uuid.NewString\<close>, the
  suffix of \<^verbatim>\<open>os.CreateTemp\<close>) are arguments.
\<close>

section \<open>Queries\<close>

record CreateDatasetUploadParams =
  cu_UploadID :: string
  cu_DatasetUuid :: uuid
  cu_CreatedBy :: "uuid option"
  cu_StorageBackend :: string
  cu_StorageBucket :: string
  cu_StorageKey :: string
  cu_BackendUploadID :: string

definition new_upload :: "int \<Rightarrow> CreateDatasetUploadParams \<Rightarrow> upload_row" where
  "new_upload now p = \<lparr>up_id = cu_UploadID p, up_dataset = cu_DatasetUuid p, up_created_by = cu_CreatedBy p, up_created = now,
     up_backend = cu_StorageBackend p, up_bucket = nullif (cu_StorageBucket p), up_key = nullif (cu_StorageKey p),
     up_backend_id = nullif (cu_BackendUploadID p)\<rparr>"

definition CreateDatasetUpload :: "CreateDatasetUploadParams \<Rightarrow> ('v, upload_row) dbm" where
  "CreateDatasetUpload p = stmt (\<lambda>s.
     let u = new_upload (clock s) p in
     if cu_UploadID p \<in> set (map up_id (uploads s)) then (Inl unique_violation, s)
     else if cu_StorageBackend p \<notin> {''inline'', ''s3''} then (Inl check_violation, s)
     else if cu_DatasetUuid p \<notin> set (map ds_uuid (datasets s)) \<or> \<not> creator_ok s (cu_CreatedBy p) then (Inl fk_violation, s)
     else (Inr u, s\<lparr>uploads := uploads s @ [u]\<rparr>))"

definition DeleteDatasetUploadByID :: "string \<Rightarrow> ('v, int) dbm" where
  "DeleteDatasetUploadByID uid = stmt (\<lambda>s.
     (Inr (int (length (filter (\<lambda>u. up_id u = uid) (uploads s)))),
      s\<lparr>uploads := filter (\<lambda>u. up_id u \<noteq> uid) (uploads s),
        upload_parts := (if uid \<in> set (map up_id (uploads s)) then filter (\<lambda>p. pt_upload p \<noteq> uid) (upload_parts s) else upload_parts s)\<rparr>))"

definition FindDatasetUploadByID :: "string \<Rightarrow> ('v, upload_row) dbm" where
  "FindDatasetUploadByID uid = sel_one (\<lambda>s. filter (\<lambda>u. up_id u = uid) (uploads s))"

definition parts_of :: "string \<Rightarrow> 'v db \<Rightarrow> part_row list" where
  "parts_of uid s = sort_key pt_number (filter (\<lambda>p. pt_upload p = uid) (upload_parts s))"

definition FindDatasetUploadParts :: "string \<Rightarrow> ('v, part_row list) dbm" where
  "FindDatasetUploadParts uid = sel (parts_of uid)"

record UpsertDatasetUploadPartParams =
  us_UploadID :: string
  us_PartNumber :: int
  us_Size :: int
  us_ChecksumMd5 :: string
  us_Etag :: string

definition new_part :: "int \<Rightarrow> UpsertDatasetUploadPartParams \<Rightarrow> part_row" where
  "new_part now p = \<lparr>pt_upload = us_UploadID p, pt_number = us_PartNumber p, pt_size = us_Size p, pt_md5 = us_ChecksumMd5 p,
     pt_created = now, pt_etag = nullif (us_Etag p)\<rparr>"

definition UpsertDatasetUploadPart :: "UpsertDatasetUploadPartParams \<Rightarrow> ('v, int) dbm" where
  "UpsertDatasetUploadPart p = stmt (\<lambda>s.
     let q = new_part (clock s) p; same = (\<lambda>x. pt_upload x = us_UploadID p \<and> pt_number x = us_PartNumber p) in
     if us_PartNumber p \<le> 0 \<or> us_Size p < 0 then (Inl check_violation, s)
     else if us_UploadID p \<notin> set (map up_id (uploads s)) then (Inl fk_violation, s)
     else (Inr 1, s\<lparr>upload_parts := (if list_ex same (upload_parts s) then map (\<lambda>x. if same x then q else x) (upload_parts s)
       else upload_parts s @ [q])\<rparr>))"

section \<open>Paths and bodies\<close>

record 'o DatasetUploadOptions =
  uo_Domain :: string
  uo_RootDir :: string
  uo_MaxPartSize :: int
  uo_MaxTotalSize :: int
  uo_Storage :: DatasetStorageOptions
  uo_Store :: "'o s3_client option"

definition minUploadPartSizeBytes :: int where
  "minUploadPartSizeBytes = 5 * 1024 * 1024"

definition safe_char :: "char \<Rightarrow> bool" where
  "safe_char c \<longleftrightarrow> (let n = of_char c :: nat in 48 \<le> n \<and> n \<le> 57 \<or> 65 \<le> n \<and> n \<le> 90 \<or> 97 \<le> n \<and> n \<le> 122) \<or> c \<in> set ''._-''"

definition safePathPart :: "string \<Rightarrow> string" where
  "safePathPart value = (if value = [] then ''_'' else if list_all safe_char value then value else hex_EncodeToString value)"

definition uploadDir :: "'o DatasetUploadOptions \<Rightarrow> string \<Rightarrow> string" where
  "uploadDir opt uploadID = path_Join [uo_RootDir opt, safePathPart (uo_Domain opt), safePathPart uploadID]"

text \<open>\<^verbatim>\<open>%08d\<close>: padded with zeros to eight characters, the sign included.\<close>

definition zero_padded :: "nat \<Rightarrow> int \<Rightarrow> string" where
  "zero_padded w n = (let ds = utoa (nat \<bar>n\<bar>) in
     if n < 0 then CHR ''-'' # replicate (w - 1 - length ds) CHR ''0'' @ ds else replicate (w - length ds) CHR ''0'' @ ds)"

definition partPath :: "'o DatasetUploadOptions \<Rightarrow> string \<Rightarrow> int \<Rightarrow> string" where
  "partPath opt uploadID partNumber = path_Join [uploadDir opt uploadID, zero_padded 8 partNumber @ ''.part'']"

text \<open>A reader: the bytes it delivers, and the error it ends with, if any.\<close>

type_synonym reader = "string \<times> go_error option"

definition LimitReader :: "int \<Rightarrow> reader \<Rightarrow> reader" where
  "LimitReader n r = (if int (length (fst r)) < n then r else (take (nat n) (fst r), None))"

definition ReadAll :: "reader \<Rightarrow> string res" where
  "ReadAll r = (case snd r of Some e \<Rightarrow> Inl e | None \<Rightarrow> Inr (fst r))"

definition readUploadBody :: "digests \<Rightarrow> 'o DatasetUploadOptions \<Rightarrow> reader \<Rightarrow> string \<Rightarrow> (string \<times> string) res" where
  "readUploadBody D opt content expectedMD5 =
     (case ReadAll (if uo_MaxPartSize opt > 0 then LimitReader (uo_MaxPartSize opt + 1) content else content) of
        Inl e \<Rightarrow> Inl e
      | Inr body \<Rightarrow>
          if uo_MaxPartSize opt > 0 \<and> int (length body) > uo_MaxPartSize opt then Inl (NewBadRequestError ''PartTooLarge'')
          else let actualMD5 = hex_EncodeToString (d_md5 D body) in
            if expectedMD5 \<noteq> [] \<and> \<not> EqualFold actualMD5 expectedMD5 then Inl (NewBadRequestError ''BadDigest'')
            else Inr (body, ToLower actualMD5))"

section \<open>DatasetUploadService\<close>

definition nullableSQLString :: "string option \<Rightarrow> string" where
  "nullableSQLString v = (case v of None \<Rightarrow> [] | Some x \<Rightarrow> x)"

definition upload_ref :: "upload_row \<Rightarrow> DatasetObjectRef" where
  "upload_ref u = \<lparr>or_Backend = up_backend u, or_Bucket = nullableSQLString (up_bucket u), or_Key = nullableSQLString (up_key u)\<rparr>"

text \<open>The store an upload lies in: the configured one, when the upload was begun there.\<close>

definition upload_store :: "'o DatasetUploadOptions \<Rightarrow> upload_row \<Rightarrow> 'o s3_client option" where
  "upload_store opt u = (if up_backend u = DatasetStorageBackendS3 then uo_Store opt else None)"

record DatasetUploadSession =
  se_UploadID :: string
  se_DatasetUUID :: string
  se_Created :: int

definition CreateUpload :: "'o DatasetUploadOptions \<Rightarrow> string \<Rightarrow> uuid \<Rightarrow> uuid \<Rightarrow> ('v, 'o, DatasetUploadSession) wm" where
  "CreateUpload opt uploadID datasetUUID createdBy =
     wthen (ondb (FindDatasetByUUID datasetUUID)) (\<lambda>ds.
     let params = \<lparr>cu_UploadID = uploadID, cu_DatasetUuid = datasetUUID, cu_CreatedBy = Some createdBy,
           cu_StorageBackend = DatasetStorageBackendInline, cu_StorageBucket = [], cu_StorageKey = [], cu_BackendUploadID = []\<rparr> in
     wthen (case uo_Store opt of
         Some C \<Rightarrow> (let ref = ContentRef (uo_Storage opt) datasetUUID in
           wthen (S3_CreateMultipartUpload C ref (ds_format ds)) (\<lambda>backendUploadID.
             wret (params\<lparr>cu_StorageBackend := DatasetStorageBackendS3, cu_StorageBucket := or_Bucket ref, cu_StorageKey := or_Key ref,
               cu_BackendUploadID := backendUploadID\<rparr>)))
       | None \<Rightarrow> wthen (os_MkdirAll (uploadDir opt uploadID)) (\<lambda>_. wret params)) (\<lambda>params.
     attempt (ondb (CreateDatasetUpload params)) (\<lambda>r. case r of
         Inl e \<Rightarrow> (case uo_Store opt of
             Some C \<Rightarrow> ignoring (S3_AbortMultipartUpload C \<lparr>or_Backend = DatasetStorageBackendS3, or_Bucket = cu_StorageBucket params,
                 or_Key = cu_StorageKey params\<rparr> (cu_BackendUploadID params)) (wfail e)
           | None \<Rightarrow> ignoring (os_RemoveAll (uploadDir opt uploadID)) (wfail e))
       | Inr row \<Rightarrow> wret \<lparr>se_UploadID = up_id row, se_DatasetUUID = up_dataset row, se_Created = up_created row\<rparr>)))"

definition find_upload :: "uuid \<Rightarrow> string \<Rightarrow> (upload_row \<Rightarrow> ('v, 'o, 'b) wm) \<Rightarrow> ('v, 'o, 'b) wm" where
  "find_upload datasetUUID uploadID k =
     wthen (ondb (FindDatasetUploadByID uploadID)) (\<lambda>upload.
       if up_dataset upload \<noteq> datasetUUID then wfail ErrorNotFound else k upload)"

text \<open>A part goes to the store, or into a file that is removed again when the database refuses it.\<close>

definition send_part :: "digests \<Rightarrow> 'o s3_client \<Rightarrow> upload_row \<Rightarrow> string \<Rightarrow> int \<Rightarrow> string \<Rightarrow> string \<Rightarrow> ('v, 'o, unit) wm" where
  "send_part D C upload uploadID partNumber body actualMD5 =
     wthen (S3_UploadPart D C (upload_ref upload) (nullableSQLString (up_backend_id upload)) (to_i32 partNumber) body actualMD5) (\<lambda>(etag, size).
     wthen (ondb (UpsertDatasetUploadPart \<lparr>us_UploadID = uploadID, us_PartNumber = to_i32 partNumber, us_Size = to_i32 size,
         us_ChecksumMd5 = actualMD5, us_Etag = etag\<rparr>)) (\<lambda>_. wret ()))"

definition write_part :: "'o DatasetUploadOptions \<Rightarrow> string \<Rightarrow> int \<Rightarrow> string \<Rightarrow> string \<Rightarrow> ('v, 'o, unit) wm" where
  "write_part opt uploadID partNumber body actualMD5 =
     wthen (os_MkdirAll (dir_of (partPath opt uploadID partNumber))) (\<lambda>_.
     wthen (os_WriteFile (partPath opt uploadID partNumber) body) (\<lambda>_.
     attempt (ondb (UpsertDatasetUploadPart \<lparr>us_UploadID = uploadID, us_PartNumber = to_i32 partNumber,
         us_Size = to_i32 (int (length body)), us_ChecksumMd5 = actualMD5, us_Etag = []\<rparr>)) (\<lambda>r. case r of
         Inl e \<Rightarrow> ignoring (os_Remove (partPath opt uploadID partNumber)) (wfail e)
       | Inr _ \<Rightarrow> wret ())))"

definition UploadPart :: "digests \<Rightarrow> 'o DatasetUploadOptions \<Rightarrow> uuid \<Rightarrow> string \<Rightarrow> int \<Rightarrow> string \<Rightarrow> reader \<Rightarrow> ('v, 'o, unit) wm" where
  "UploadPart D opt datasetUUID uploadID partNumber expectedMD5 content =
     find_upload datasetUUID uploadID (\<lambda>upload.
       case readUploadBody D opt content expectedMD5 of
         Inl e \<Rightarrow> wfail e
       | Inr (body, actualMD5) \<Rightarrow>
           (case upload_store opt upload of
              Some C \<Rightarrow> send_part D C upload uploadID partNumber body actualMD5
            | None \<Rightarrow> write_part opt uploadID partNumber body actualMD5))"

record DatasetUploadPart =
  dup_PartNumber :: int
  dup_Size :: int
  dup_ChecksumMD5 :: string
  dup_Created :: int

definition ListParts :: "uuid \<Rightarrow> string \<Rightarrow> ('v, 'o, DatasetUploadPart list) wm" where
  "ListParts datasetUUID uploadID = find_upload datasetUUID uploadID (\<lambda>_.
     wthen (ondb (FindDatasetUploadParts uploadID)) (\<lambda>rows.
       wret (map (\<lambda>row. \<lparr>dup_PartNumber = pt_number row, dup_Size = pt_size row, dup_ChecksumMD5 = pt_md5 row, dup_Created = pt_created row\<rparr>) rows)))"

definition CancelUpload :: "'o DatasetUploadOptions \<Rightarrow> uuid \<Rightarrow> string \<Rightarrow> ('v, 'o, unit) wm" where
  "CancelUpload opt datasetUUID uploadID = find_upload datasetUUID uploadID (\<lambda>upload.
     wthen (case upload_store opt upload of
         Some C \<Rightarrow> S3_AbortMultipartUpload C (upload_ref upload) (nullableSQLString (up_backend_id upload))
       | None \<Rightarrow> os_RemoveAll (uploadDir opt uploadID)) (\<lambda>_.
     wthen (ondb (DeleteDatasetUploadByID uploadID)) (\<lambda>n. if n = 0 then wfail ErrorNotFound else wret ())))"

section \<open>Assembling\<close>

text \<open>The parts are numbered from one without a gap; all but the last have the minimal size.\<close>

fun check_parts :: "int \<Rightarrow> part_row list \<Rightarrow> go_error option" where
  "check_parts i [] = None"
| "check_parts i (part # rest) =
     (if pt_number part \<noteq> i then Some (NewBadRequestError ''InvalidPartOrder'')
      else if rest \<noteq> [] \<and> pt_size part < minUploadPartSizeBytes then Some (NewBadRequestError ''EntityTooSmall'')
      else check_parts (i + 1) rest)"

definition os_CreateTemp :: "string \<Rightarrow> string \<Rightarrow> ('v, 'o, string) wm" where
  "os_CreateTemp d name = os_call (\<lambda>w. if w_dirs w d then (Inr (d @ ''/'' @ name), w\<lparr>w_files := (w_files w)(d @ ''/'' @ name \<mapsto> [])\<rparr>)
     else (Inl ErrNotExist, w))"

text \<open>\<^verbatim>\<open>io.Copy\<close> of an opened part to the end of a file.\<close>

definition copy_to :: "string \<Rightarrow> string \<Rightarrow> ('v, 'o, unit) wm" where
  "copy_to p body = os_call (\<lambda>w. (Inr (), w\<lparr>w_files := (w_files w)(p \<mapsto> (case w_files w p of None \<Rightarrow> body | Some c \<Rightarrow> c @ body))\<rparr>))"

text \<open>The loop over the parts; the result is what went through the digest.\<close>

fun copy_parts :: "'o DatasetUploadOptions \<Rightarrow> string \<Rightarrow> string \<Rightarrow> part_row list \<Rightarrow> string \<Rightarrow> ('v, 'o, string) wm" where
  "copy_parts opt uploadID out [] hashed = wret hashed"
| "copy_parts opt uploadID out (part # parts) hashed =
     attempt (os_ReadFile (partPath opt uploadID (pt_number part))) (\<lambda>r. case r of
         Inl e \<Rightarrow> wfail (if IsNotExist e then NewBadRequestError ''InvalidPart'' else e)
       | Inr body \<Rightarrow>
           wthen (copy_to out body) (\<lambda>_.
             if uo_MaxTotalSize opt > 0 \<and> int (length (hashed @ body)) > uo_MaxTotalSize opt then wfail (NewBadRequestError ''EntityTooLarge'')
             else copy_parts opt uploadID out parts (hashed @ body)))"

definition assembleInlineUpload :: "digests \<Rightarrow> 'o DatasetUploadOptions \<Rightarrow> string \<Rightarrow> string \<Rightarrow> part_row list \<Rightarrow> string
    \<Rightarrow> ('v, 'o, string \<times> DatasetStorageMetadata) wm" where
  "assembleInlineUpload D opt tmp uploadID parts expectedMD5 =
     wthen (os_CreateTemp (uploadDir opt uploadID) tmp) (\<lambda>assembledPath.
     attempt (
       wthen (copy_parts opt uploadID assembledPath parts []) (\<lambda>hashed.
         if expectedMD5 \<noteq> [] \<and> \<not> EqualFold (hex_EncodeToString (d_md5 D hashed)) expectedMD5 then wfail (NewBadRequestError ''BadDigest'')
         else wthen (os_ReadFile assembledPath) (\<lambda>content. wret (content, inline_meta D content)))) (\<lambda>r.
     ignoring (os_Remove assembledPath) (case r of Inl e \<Rightarrow> wfail e | Inr x \<Rightarrow> wret x)))"

fun completed_parts :: "part_row list \<Rightarrow> DatasetMultipartPart list option" where
  "completed_parts [] = Some []"
| "completed_parts (part # parts) = (case pt_etag part of
       None \<Rightarrow> None
     | Some etag \<Rightarrow> if etag = [] then None
         else map_option ((#) \<lparr>mp_PartNumber = pt_number part, mp_ETag = etag\<rparr>) (completed_parts parts))"

definition assembleStoredUpload :: "digests \<Rightarrow> 'o s3_client \<Rightarrow> upload_row \<Rightarrow> part_row list \<Rightarrow> string
    \<Rightarrow> ('v, 'o, string \<times> DatasetStorageMetadata) wm" where
  "assembleStoredUpload D C upload parts expectedMD5 = (case completed_parts parts of
       None \<Rightarrow> wfail (NewBadRequestError ''InvalidPart'')
     | Some completedParts \<Rightarrow>
         wthen (S3_CompleteMultipartUpload D C (upload_ref upload) (nullableSQLString (up_backend_id upload)) completedParts) (\<lambda>metadata.
           if expectedMD5 = [] then wret ([], metadata)
           else wthen (S3_GetObject C (object_ref metadata)) (\<lambda>body. case body of
               Inl e \<Rightarrow> wfail e
             | Inr content \<Rightarrow> if EqualFold (hex_EncodeToString (d_md5 D content)) expectedMD5 then wret ([], metadata)
                 else wfail (NewBadRequestError ''BadDigest''))))"

definition assembled_params :: "uuid \<Rightarrow> string \<Rightarrow> DatasetStorageMetadata \<Rightarrow> UpdateDatasetByUUIDParams" where
  "assembled_params datasetUUID inlineContent metadata = \<lparr>ud_Uuid = datasetUUID,
     ud_SetName = False, ud_Name = [], ud_SetFormat = False, ud_Format = [],
     ud_SetContent = True, ud_Content = inlineContent, ud_Checksum = sm_Checksum metadata, ud_Size = to_i32 (sm_Size metadata),
     ud_StorageBackend = sm_Backend metadata, ud_StorageBucket = sm_Bucket metadata, ud_StorageKey = sm_Key metadata,
     ud_SetThingUuid = False, ud_ThingUuid = None, ud_SetTags = False, ud_Tags = []\<rparr>"

definition drop_replaced :: "'o s3_client option \<Rightarrow> DatasetObjectRef option \<Rightarrow> DatasetStorageMetadata \<Rightarrow> ('v, 'o, 'b) wm \<Rightarrow> ('v, 'o, 'b) wm" where
  "drop_replaced store previousRef metadata k = (case previousRef of
       None \<Rightarrow> k
     | Some ref \<Rightarrow> if or_Bucket ref \<noteq> sm_Bucket metadata \<or> or_Key ref \<noteq> sm_Key metadata then drop_object store ref k else k)"

definition AssembleUpload :: "digests \<Rightarrow> 'o DatasetUploadOptions \<Rightarrow> string \<Rightarrow> uuid \<Rightarrow> string \<Rightarrow> string \<Rightarrow> ('v, 'o, unit) wm" where
  "AssembleUpload D opt tmp datasetUUID uploadID expectedMD5 =
     find_upload datasetUUID uploadID (\<lambda>upload.
     attempt (ondb (GetDatasetObjectRefByUUID datasetUUID)) (\<lambda>previous.
     wthen (ondb (FindDatasetUploadParts uploadID)) (\<lambda>parts.
     if parts = [] then wfail (NewBadRequestError ''InvalidPart'')
     else (case check_parts 1 parts of
         Some e \<Rightarrow> wfail e
       | None \<Rightarrow>
     wthen (case upload_store opt upload of
         Some C \<Rightarrow> assembleStoredUpload D C upload parts expectedMD5
       | None \<Rightarrow> assembleInlineUpload D opt tmp uploadID parts expectedMD5) (\<lambda>(inlineContent, metadata).
     attempt (ondb (UpdateDatasetByUUID (assembled_params datasetUUID inlineContent metadata))) (\<lambda>r. case r of
         Inl e \<Rightarrow> drop_object (uo_Store opt) (object_ref metadata) (wfail e)
       | Inr n \<Rightarrow>
           if n = 0 then drop_object (uo_Store opt) (object_ref metadata) (wfail ErrorNotFound)
           else drop_replaced (uo_Store opt) (case previous of Inl _ \<Rightarrow> None | Inr d \<Rightarrow> row_ref d) metadata (
             wthen (ondb (DeleteDatasetUploadByID uploadID)) (\<lambda>_.
               case uo_Store opt of None \<Rightarrow> os_RemoveAll (uploadDir opt uploadID) | Some _ \<Rightarrow> wret ()))))))))"

end
