(* ===== verification/UploadFacts.thy ===== *)
theory UploadFacts
  imports Uploads
begin

text \<open>
  What the dataset services promise: names of objects and part files do not collide, content
  written is read back, an upload is the concatenation of its parts, and what happens to
  the content when the database refuses an update.
\<close>

section \<open>Paths\<close>

definition plain_name :: "string \<Rightarrow> bool" where
  "plain_name p \<longleftrightarrow> p \<noteq> [] \<and> p \<noteq> ''.'' \<and> p \<noteq> ''..'' \<and> CHR ''/'' \<notin> set p"

lemma clean_parts_append: "clean_parts r out (xs @ ys) = clean_parts r (clean_parts r out xs) ys"
  by (induction r out xs rule: clean_parts.induct) (auto split: list.splits)

lemma clean_parts_plain: "\<forall>y\<in>set ys. plain_name y \<Longrightarrow> clean_parts r out ys = rev ys @ out"
  by (induction ys arbitrary: out) (auto simp: plain_name_def)

lemma clean_parts_set: "set (clean_parts r out xs) \<subseteq> set out \<union> set xs"
proof (induction xs arbitrary: out)
  case (Cons p xs)
  show ?case
  proof (cases out)
    case Nil
    then show ?thesis using Cons.IH [of "[]"] Cons.IH [of "[p]"] by auto
  next
    case (Cons q qs)
    then show ?thesis using Cons.IH [of out] Cons.IH [of "''..'' # out"] Cons.IH [of qs] Cons.IH [of "p # out"] by auto
  qed
qed simp

lemma split_on_join_any: "es \<noteq> [] \<Longrightarrow> split_on c (join_with [c] es) = concat (map (split_on c) es)"
proof (induction es)
  case (Cons a es)
  show ?case
  proof (cases es)
    case (Cons b bs)
    with \<open>es \<noteq> [] \<Longrightarrow> _\<close> show ?thesis by (simp add: split_on_append)
  qed simp
qed simp

text \<open>The components a path gets from all elements but the last ones, and whether it is rooted.\<close>

definition front_rooted :: "string list \<Rightarrow> bool" where
  "front_rooted xs \<longleftrightarrow> (case filter (\<lambda>p. p \<noteq> []) xs of [] \<Rightarrow> False | e # _ \<Rightarrow> HasPrefix e ''/'')"

definition front_parts :: "string list \<Rightarrow> string list" where
  "front_parts xs = rev (clean_parts (front_rooted xs) [] (concat (map (split_on (CHR ''/'')) (filter (\<lambda>p. p \<noteq> []) xs))))"

lemma HasPrefix_join_hd:
  assumes "es \<noteq> []" "hd es \<noteq> []"
  shows "HasPrefix (join_with [c] es) [d] = HasPrefix (hd es) [d]"
proof (cases es)
  case (Cons a as)
  then show ?thesis using assms by (cases as; cases a) (auto simp: HasPrefix_def)
qed (use assms in simp)

lemma plain_no_prefix: "plain_name y \<Longrightarrow> \<not> HasPrefix y ''/''"
  by (cases y) (simp_all add: plain_name_def HasPrefix_def)

lemma join_with_nonempty: "ps \<noteq> [] \<Longrightarrow> last ps \<noteq> [] \<Longrightarrow> join_with sep ps \<noteq> []"
  by (induction sep ps rule: join_with.induct) auto

lemma path_Join_plain_tail:
  assumes ys: "\<forall>y\<in>set ys. plain_name y" "ys \<noteq> []"
  shows "path_Join (xs @ ys) = (if front_rooted xs then ''/'' else []) @ join_with ''/'' (front_parts xs @ ys)"
proof -
  let ?f = "filter (\<lambda>p. p \<noteq> []) xs"
  have fy: "filter (\<lambda>p. p \<noteq> []) ys = ys" using ys(1) by (simp add: plain_name_def)
  have ne: "?f @ ys \<noteq> []" using ys(2) by simp
  have "hd (?f @ ys) \<in> set (?f @ ys)" by (rule hd_in_set [OF ne])
  then have h: "hd (?f @ ys) \<noteq> []" using ys(1) by (auto simp: plain_name_def)
  have r: "HasPrefix (join_with ''/'' (?f @ ys)) ''/'' = front_rooted xs"
    using HasPrefix_join_hd [OF ne h, of "CHR ''/''" "CHR ''/''"] plain_no_prefix [of "hd ys"] ys
    by (cases ?f) (simp_all add: front_rooted_def)
  have "concat (map (split_on (CHR ''/'')) ys) = ys" using ys(1) by (induction ys) (auto simp: plain_name_def split_on_absent)
  with ne have s: "split_on (CHR ''/'') (join_with ''/'' (?f @ ys)) = concat (map (split_on (CHR ''/'')) ?f) @ ys"
    by (simp add: split_on_join_any)
  have "rev (clean_parts (front_rooted xs) [] (split_on (CHR ''/'') (join_with ''/'' (?f @ ys)))) = front_parts xs @ ys"
    unfolding s clean_parts_append clean_parts_plain [OF ys(1)] front_parts_def by simp
  moreover have "join_with ''/'' (front_parts xs @ ys) \<noteq> []"
    using ys last_in_set [OF ys(2)] by (intro join_with_nonempty) (auto simp: plain_name_def)
  ultimately have "path_Clean (join_with ''/'' (?f @ ys)) = (if front_rooted xs then ''/'' else []) @ join_with ''/'' (front_parts xs @ ys)"
    unfolding path_Clean_def Let_def r by (cases "front_rooted xs") simp_all
  with ys(2) fy show ?thesis by (simp add: path_Join_def)
qed

lemma front_parts_no_slash: "\<forall>p\<in>set (front_parts xs). CHR ''/'' \<notin> set p"
proof
  fix p assume "p \<in> set (front_parts xs)"
  with clean_parts_set obtain x where "p \<in> set (split_on (CHR ''/'') x)" unfolding front_parts_def by fastforce
  then show "CHR ''/'' \<notin> set p" by (rule split_on_no_sep)
qed

lemma path_Join_inject:
  assumes "\<forall>y\<in>set ys. plain_name y" "ys \<noteq> []" "\<forall>z\<in>set zs. plain_name z" "zs \<noteq> []"
    and eq: "path_Join (xs @ ys) = path_Join (xs @ zs)"
  shows "ys = zs"
proof -
  from eq have "join_with ''/'' (front_parts xs @ ys) = join_with ''/'' (front_parts xs @ zs)"
    unfolding path_Join_plain_tail [OF assms(1,2)] path_Join_plain_tail [OF assms(3,4)] by simp
  then have "split_on (CHR ''/'') (join_with ''/'' (front_parts xs @ ys)) = split_on (CHR ''/'') (join_with ''/'' (front_parts xs @ zs))" by simp
  moreover have "\<forall>p\<in>set (front_parts xs @ ys). CHR ''/'' \<notin> set p" "\<forall>p\<in>set (front_parts xs @ zs). CHR ''/'' \<notin> set p"
    using front_parts_no_slash assms(1,3) by (auto simp: plain_name_def)
  ultimately show ?thesis using assms(2,4) by (simp add: split_on_join)
qed

lemma plain_id_name: "plain_id u \<Longrightarrow> plain_name u"
proof -
  assume u: "plain_id u"
  have "list_all (\<lambda>c. c \<noteq> CHR ''.'') ''0123456789abcdef-''" by code_simp
  with u have "CHR ''.'' \<notin> set u" unfolding plain_id_def list_all_iff by blast
  with u plain_id_chars(2) [OF u] show ?thesis by (auto simp: plain_name_def plain_id_def)
qed

text \<open>
  No two datasets share an object: under the same configuration the objects of different
  datasets have different names.
\<close>

theorem object_keys_distinct:
  assumes "plain_id u" "plain_id v" "objectKey opt u ''content'' = objectKey opt v ''content''"
  shows "u = v"
proof -
  have tail: "\<forall>y\<in>set [x, ''content'']. plain_name y" if "plain_id x" for x
    using plain_id_name [OF that] by (simp add: plain_name_def)
  obtain xs where "\<And>x. objectKey opt x ''content'' = path_Join (xs @ [x, ''content''])"
    unfolding objectKey_def Let_def append_assoc [symmetric] by metis
  with assms(3) path_Join_inject [OF tail [OF assms(1)] _ tail [OF assms(2)]] show ?thesis by auto
qed


section \<open>Steps of the world\<close>

lemma wthen_Inr:
  assumes "wthen m k w = (Inr b, w')"
  obtains a w1 where "m w = (Inr a, w1)" "k a w1 = (Inr b, w')"
  using assms by (cases "m w"; cases "fst (m w)") (auto simp: wthen_def attempt_def wfail_def)

lemma ondb_result: "ondb m w = (r, w') \<Longrightarrow> m (w_db w) = (r, w_db w') \<and> w' = w\<lparr>w_db := w_db w'\<rparr>"
  by (cases "m (w_db w)") (auto simp: ondb_def)

lemma ons3_result: "ons3 m w = (r, w') \<Longrightarrow> m (w_s3 w) = (r, w_s3 w') \<and> w' = w\<lparr>w_s3 := w_s3 w'\<rparr>"
  by (cases "m (w_s3 w)") (auto simp: ons3_def)

section \<open>What the code relies on of the S3 service\<close>

text \<open>
  \<open>objs\<close> gives the objects the service holds, \<open>up\<close> says that it can be reached.  A call for
  one object leaves the others alone; a call that reports success has done its work; a
  service that can be reached does not fail.
\<close>

definition put_law :: "'o s3_client \<Rightarrow> ('o \<Rightarrow> string \<times> string \<Rightarrow> string option) \<Rightarrow> ('o \<Rightarrow> bool) \<Rightarrow> bool" where
  "put_law C objs up \<longleftrightarrow> (\<forall>b k body ct x r y. c_PutObject C b k body ct x = (r, y) \<longrightarrow>
     (\<forall>a. a \<noteq> (b, k) \<longrightarrow> objs y a = objs x a) \<and> (r = Inr () \<longrightarrow> objs y (b, k) = Some body) \<and> (up x \<longrightarrow> r = Inr () \<and> up y))"

definition get_law :: "'o s3_client \<Rightarrow> ('o \<Rightarrow> string \<times> string \<Rightarrow> string option) \<Rightarrow> ('o \<Rightarrow> bool) \<Rightarrow> bool" where
  "get_law C objs up \<longleftrightarrow> (\<forall>b k x r y. c_GetObject C b k x = (r, y) \<longrightarrow>
     objs y = objs x \<and> (\<forall>body. r = Inr (Inr body) \<longrightarrow> objs x (b, k) = Some body)
     \<and> (up x \<longrightarrow> up y \<and> (case objs x (b, k) of Some body \<Rightarrow> r = Inr (Inr body) | None \<Rightarrow> isl r)))"

definition delete_law :: "'o s3_client \<Rightarrow> ('o \<Rightarrow> string \<times> string \<Rightarrow> string option) \<Rightarrow> ('o \<Rightarrow> bool) \<Rightarrow> bool" where
  "delete_law C objs up \<longleftrightarrow> (\<forall>b k x r y. c_DeleteObject C b k x = (r, y) \<longrightarrow>
     (\<forall>a. a \<noteq> (b, k) \<longrightarrow> objs y a = objs x a) \<and> (r = Inr () \<longrightarrow> objs y (b, k) = None) \<and> (up x \<longrightarrow> r = Inr () \<and> up y))"

definition s3_objects :: "'o s3_client \<Rightarrow> ('o \<Rightarrow> string \<times> string \<Rightarrow> string option) \<Rightarrow> ('o \<Rightarrow> bool) \<Rightarrow> bool" where
  "s3_objects C objs up \<longleftrightarrow> put_law C objs up \<and> get_law C objs up \<and> delete_law C objs up"

lemma s3_put:
  assumes "s3_objects C objs up" "c_PutObject C b k body ct x = (r, y)"
  shows "a \<noteq> (b, k) \<Longrightarrow> objs y a = objs x a" "r = Inr () \<Longrightarrow> objs y (b, k) = Some body" "up x \<Longrightarrow> r = Inr ()" "up x \<Longrightarrow> up y"
  using assms unfolding s3_objects_def put_law_def by blast+

lemma s3_get:
  assumes "s3_objects C objs up" "c_GetObject C b k x = (r, y)"
  shows "objs y = objs x" "r = Inr (Inr body) \<Longrightarrow> objs x (b, k) = Some body" "up x \<Longrightarrow> up y"
    "up x \<Longrightarrow> objs x (b, k) = Some body \<Longrightarrow> r = Inr (Inr body)" "up x \<Longrightarrow> objs x (b, k) = None \<Longrightarrow> isl r"
proof -
  from assms have law: "objs y = objs x" "\<forall>body. r = Inr (Inr body) \<longrightarrow> objs x (b, k) = Some body"
     "up x \<longrightarrow> up y \<and> (case objs x (b, k) of Some body \<Rightarrow> r = Inr (Inr body) | None \<Rightarrow> isl r)"
    unfolding s3_objects_def get_law_def by blast+
  show "objs y = objs x" by (rule law)
  show "r = Inr (Inr body) \<Longrightarrow> objs x (b, k) = Some body" using law(2) by blast
  show "up x \<Longrightarrow> up y" using law(3) by blast
  show "up x \<Longrightarrow> objs x (b, k) = Some body \<Longrightarrow> r = Inr (Inr body)" "up x \<Longrightarrow> objs x (b, k) = None \<Longrightarrow> isl r"
    using law(3) by (simp_all only: option.case simp_thms)
qed

lemma s3_delete:
  assumes "s3_objects C objs up" "c_DeleteObject C b k x = (r, y)"
  shows "a \<noteq> (b, k) \<Longrightarrow> objs y a = objs x a" "r = Inr () \<Longrightarrow> objs y (b, k) = None" "up x \<Longrightarrow> r = Inr ()" "up x \<Longrightarrow> up y"
  using assms unfolding s3_objects_def delete_law_def by blast+

section \<open>Content written is read back\<close>

text \<open>What a reader of a dataset gets: the bytes of its row or of its object.\<close>

definition file_bytes :: "DatasetFile \<Rightarrow> string res" where
  "file_bytes f = (case df_Body f of None \<Rightarrow> Inr (df_Content f) | Some r \<Rightarrow> r)"

definition readable :: "'o DatasetService \<Rightarrow> uuid \<Rightarrow> ('v, 'o) world \<Rightarrow> DatasetFile \<Rightarrow> bool" where
  "readable svc dsid w f \<longleftrightarrow> fst (GetDatasetContentByUuid svc dsid w) = Inr f"

text \<open>\<open>holds D svc objs d content w\<close>: row \<open>d\<close> describes \<open>content\<close>, which lies where the row says.\<close>

definition holds :: "digests \<Rightarrow> ('o \<Rightarrow> string \<times> string \<Rightarrow> string option) \<Rightarrow> dataset_row \<Rightarrow> string \<Rightarrow> 'o \<Rightarrow> bool" where
  "holds D objs d content x \<longleftrightarrow> ds_checksum d = checksumHex D content \<and> (case row_ref d of
       None \<Rightarrow> ds_content d = content
     | Some ref \<Rightarrow> objs x (or_Bucket ref, or_Key ref) = Some content)"

lemma holds_readable:
  assumes laws: "case dv_store svc of Some C \<Rightarrow> s3_objects C objs up \<and> up (w_s3 w) | None \<Rightarrow> row_ref d = None"
    and h: "healthy (w_db w)" and row: "\<exists>ds. filter (\<lambda>d. ds_uuid d = dsid) (datasets (w_db w)) = d # ds"
    and hold: "holds D objs d content (w_s3 w)"
  shows "\<exists>f. readable svc dsid w f \<and> file_bytes f = Inr content \<and> df_Checksum f = checksumHex D content \<and> df_Size f = ds_size d"
proof -
  have "fst (GetDatasetContentByUUID dsid (w_db w)) = Inr d"
    using h row by (auto simp: GetDatasetContentByUUID_def sel_one_def dbsimps)
  then obtain s' where s': "GetDatasetContentByUUID dsid (w_db w) = (Inr d, s')" by (metis prod.collapse)
  show ?thesis
  proof (cases "row_ref d")
    case None
    with s' hold show ?thesis by (simp add: readable_def GetDatasetContentByUuid_def wsimps holds_def file_bytes_def)
  next
    case (Some ref)
    with laws obtain C where C: "dv_store svc = Some C" "s3_objects C objs up" "up (w_s3 w)" by (auto split: option.splits)
    obtain r y where g: "c_GetObject C (or_Bucket ref) (or_Key ref) (w_s3 w) = (r, y)" by force
    have "objs (w_s3 w) (or_Bucket ref, or_Key ref) = Some content" using hold Some by (simp add: holds_def)
    with s3_get(4) [OF C(2) g C(3)] have "r = Inr (Inr content)" .
    with s' Some C(1) g hold show ?thesis
      by (simp add: readable_def GetDatasetContentByUuid_def S3_GetObject_def wsimps holds_def file_bytes_def)
  qed
qed


text \<open>\<open>placed\<close>: the content was put where the metadata says; nothing else of the world changed but the store.\<close>

definition placed :: "digests \<Rightarrow> 'o s3_client option \<Rightarrow> ('o \<Rightarrow> string \<times> string \<Rightarrow> string option) \<Rightarrow> string \<Rightarrow> string \<times> DatasetStorageMetadata \<Rightarrow> 'o \<Rightarrow> bool" where
  "placed D store objs content im x \<longleftrightarrow> sm_Checksum (snd im) = checksumHex D content \<and> sm_Size (snd im) = int (length content) \<and>
     (im = (content, inline_meta D content) \<or>
      store \<noteq> None \<and> fst im = [] \<and> sm_Backend (snd im) = DatasetStorageBackendS3 \<and> objs x (sm_Bucket (snd im), sm_Key (snd im)) = Some content)"

lemma placed_inline [simp]: "placed D store objs content (content, inline_meta D content) x"
  by (simp add: placed_def inline_meta_def)

lemma PutObject_placed:
  assumes "s3_objects C objs up" "wthen (S3_PutObject D C ref content format) (\<lambda>meta. wret ([], meta)) w = (Inr im, w')"
  shows "placed D (Some C) objs content im (w_s3 w') \<and> w' = w\<lparr>w_s3 := w_s3 w'\<rparr>"
proof -
  from assms(2) obtain meta where m: "S3_PutObject D C ref content format w = (Inr meta, w')" "im = ([], meta)"
    by (elim wthen_Inr) (auto simp: wret_def)
  from m(1) [unfolded S3_PutObject_def] obtain u where u: "ons3 (c_PutObject C (or_Bucket ref) (or_Key ref) content (datasetContentType format)) w = (Inr u, w')"
      "meta = \<lparr>sm_Backend = DatasetStorageBackendS3, sm_Bucket = or_Bucket ref, sm_Key = or_Key ref,
         sm_Size = int (length content), sm_Checksum = hex_EncodeToString (d_sha256 D content)\<rparr>"
    by (elim wthen_Inr) (auto simp: wret_def)
  from ons3_result [OF u(1)] s3_put(2) [OF assms(1)] m(2) u(2) show ?thesis
    by (auto simp: placed_def checksumHex_def)
qed

lemma store_content_placed:
  assumes "\<And>C. dv_store svc = Some C \<Longrightarrow> s3_objects C objs up" and "store_content D svc dsid content fmt w = (Inr im, w')"
  shows "placed D (dv_store svc) objs content im (w_s3 w')"
proof (cases "dv_store svc = None \<or> content = []")
  case True
  with assms(2) show ?thesis by (auto simp: store_content_def wret_def split: option.splits)
next
  case False
  then obtain C where C: "dv_store svc = Some C" by auto
  with False assms(2) obtain format w1 where
    "wthen (S3_PutObject D C (ContentRef (dv_opt svc) dsid) content format) (\<lambda>meta. wret ([], meta)) w1 = (Inr im, w')"
    by (auto simp: store_content_def elim: wthen_Inr)
  from PutObject_placed [OF assms(1) [OF C] this] C show ?thesis by simp
qed

text \<open>A step whose failure only drops an object.\<close>

lemma drop_object_wfail [simp]: "fst (drop_object store ref (wfail e) w) = Inl e"
  by (auto simp: drop_object_def ignoring_def attempt_def wfail_def split: option.splits prod.splits)

lemma attempt_drop_Inr:
  assumes "attempt m (\<lambda>r. case r of Inl e \<Rightarrow> drop_object store ref (wfail e) | Inr a \<Rightarrow> k a) w = (Inr b, w')"
    and "\<And>a w1. m w = (Inr a, w1) \<Longrightarrow> k a w1 = (Inr b, w') \<Longrightarrow> thesis"
  shows thesis
proof (cases "m w")
  case (Pair r w1)
  with assms show ?thesis by (cases r) (auto simp: attempt_def dest: arg_cong [where f = fst])
qed

lemma placed_row:
  assumes "placed D store objs content (ic, meta) x" and "storage_ok d"
    and "ds_checksum d = sm_Checksum meta" "ds_content d = ic" "ds_backend d = sm_Backend meta"
      "ds_bucket d = nullif (sm_Bucket meta)" "ds_key d = nullif (sm_Key meta)"
  shows "holds D objs d content x" "store = None \<Longrightarrow> row_ref d = None"
  using assms by (auto simp: placed_def holds_def row_ref_def inline_meta_def DatasetStorageBackendInline_def DatasetStorageBackendS3_def
      storage_ok_def nullif_def split: if_splits)

lemma committed: "(case x of (Inl e, _) \<Rightarrow> (Inl e, s) | (Inr _, s') \<Rightarrow> (Inr d, s')) = (Inr c, s1) \<Longrightarrow> \<exists>u. x = (Inr u, s1) \<and> c = d"
  by (cases x; cases "fst x") auto

lemma CreateDataset_Inr:
  assumes "CreateDataset pids p s = (Inr d, s')"
  shows "d = new_dataset (clock s) p" "datasets s' = datasets s @ [d]" "cd_Uuid p \<notin> set (map ds_uuid (datasets s))" "storage_ok d"
proof -
  let ?s = "s\<lparr>faults := tl (faults s)\<rparr>"
  note c = stmt_Inr [OF assms [unfolded CreateDataset_def], unfolded Let_def]
  from c have 1: "\<not> cd_Uuid p \<in> set (map ds_uuid (datasets ?s))" "\<not> \<not> storage_ok (new_dataset (clock ?s) p)"
    "(case grant_owner ''datasets'' (cd_Uuid p) (Some (cd_CreatedBy p)) pids (?s\<lparr>datasets := datasets ?s @ [new_dataset (clock ?s) p]\<rparr>) of
         (Inl e, _) \<Rightarrow> (Inl e, ?s) | (Inr _, s') \<Rightarrow> (Inr (new_dataset (clock ?s) p), s')) = (Inr d, s')"
    by - (elim if_eqE; (assumption | simp only: prod.inject sum.distinct simp_thms))+
  from committed [OF 1(3)] obtain u where u: "grant_owner ''datasets'' (cd_Uuid p) (Some (cd_CreatedBy p)) pids
      (?s\<lparr>datasets := datasets s @ [new_dataset (clock s) p]\<rparr>) = (Inr u, s')" "d = new_dataset (clock s) p" by auto
  have "datasets s' = datasets s @ [d]" using u(1) by (rule grant_owner_Inr) (simp add: u(2))
  with 1 u(2) show "d = new_dataset (clock s) p" "datasets s' = datasets s @ [d]" "cd_Uuid p \<notin> set (map ds_uuid (datasets s))" "storage_ok d" by simp_all
qed

text \<open>
  C21: Content given to a new dataset is read back: when \<^verbatim>\<open>AddDataset\<close> succeeds, the dataset has
  exactly those bytes, with their checksum and size, whether they lie in the row or in
  the store.
\<close>

theorem dataset_add_read:
  fixes w w' :: "('v, 'o) world"
  assumes store: "case dv_store svc of Some C \<Rightarrow> s3_objects C objs up \<and> up (w_s3 w') | None \<Rightarrow> True"
    and add: "AddDataset D svc newid pids p w = (Inr d, w')" and h: "healthy (w_db w')"
    and content: "content = or_default [] (ad_Content p)" "int (length content) < 2 ^ 31"
  shows "\<exists>f. readable svc newid w' f \<and> file_bytes f = Inr content \<and> df_Checksum f = checksumHex D content \<and> df_Size f = int (length content)"
proof -
  from add obtain ic meta w1 where pl: "store_content D svc newid content (wret (ad_Format p)) w = (Inr (ic, meta), w1)"
    and rest: "attempt (ondb (CreateDataset pids (create_params newid p ic meta))) (\<lambda>r. case r of
          Inl e \<Rightarrow> drop_object (dv_store svc) (object_ref meta) (wfail e)
        | Inr dataset \<Rightarrow> wret (rest_dataset dataset)) w1 = (Inr d, w')"
    unfolding AddDataset_def content(1) by (elim wthen_Inr) auto
  from rest obtain row where row: "ondb (CreateDataset pids (create_params newid p ic meta)) w1 = (Inr row, w')" by (rule attempt_drop_Inr) (simp add: wret_def)
  note c = CreateDataset_Inr [OF conjunct1 [OF ondb_result [OF row]]]
  have x: "w_s3 w' = w_s3 w1" using ondb_result [OF row] by (metis world.select_convs(2) world.surjective world.update_convs(1))
  have placed: "placed D (dv_store svc) objs content (ic, meta) (w_s3 w')" unfolding x
    using store by (intro store_content_placed [OF _ pl]) (auto split: option.splits)
  have "filter (\<lambda>d. ds_uuid d = newid) (datasets (w_db w')) = [row]"
    using c(3) by (simp add: c(1,2) new_dataset_def create_params_def filter_key_notin)
  moreover have "holds D objs row content (w_s3 w')" "dv_store svc = None \<Longrightarrow> row_ref row = None"
    by (rule placed_row [OF placed c(4)]; simp add: c(1) new_dataset_def create_params_def)+
  moreover have "ds_size row = int (length content)"
    using content(2) placed by (simp add: c(1) new_dataset_def create_params_def placed_def in_i32_def)
  ultimately show ?thesis using holds_readable [where svc = svc and objs = objs and up = up and w = w' and d = row and dsid = newid and D = D and content = content] store h
    by (auto split: option.splits)
qed


lemma UpdateDatasetByUUID_Inr:
  assumes "UpdateDatasetByUUID p s = (Inr n, s')"
  shows "n = int (length (filter (\<lambda>d. ds_uuid d = ud_Uuid p) (datasets s)))"
    "filter (\<lambda>d. ds_uuid d = ud_Uuid p) (datasets s') = map (updated_dataset (clock s) p) (filter (\<lambda>d. ds_uuid d = ud_Uuid p) (datasets s))"
    "\<forall>d\<in>set (datasets s). ds_uuid d = ud_Uuid p \<longrightarrow> storage_ok (updated_dataset (clock s) p d)"
proof -
  let ?s = "s\<lparr>faults := tl (faults s)\<rparr>" let ?hits = "filter (\<lambda>d. ds_uuid d = ud_Uuid p) (datasets ?s)"
  have c: "\<not> list_ex (\<lambda>d. \<not> storage_ok (updated_dataset (clock ?s) p d)) ?hits"
    "(Inr (int (length ?hits)) :: int res, ?s\<lparr>datasets := map (\<lambda>d. if ds_uuid d = ud_Uuid p then updated_dataset (clock ?s) p d else d) (datasets ?s)\<rparr>) = (Inr n, s')"
    using stmt_Inr [OF assms [unfolded UpdateDatasetByUUID_def], unfolded Let_def]
    by - (elim if_eqE; (assumption | simp only: prod.inject sum.distinct simp_thms))+
  have same: "ds_uuid (updated_dataset now p d) = ds_uuid d" for now d by (simp add: updated_dataset_def content_trigger_def)
  from c(1) show "\<forall>d\<in>set (datasets s). ds_uuid d = ud_Uuid p \<longrightarrow> storage_ok (updated_dataset (clock s) p d)" by (simp add: list_ex_iff)
  from c(2) show "n = int (length (filter (\<lambda>d. ds_uuid d = ud_Uuid p) (datasets s)))" by simp
  have "filter (\<lambda>d. ds_uuid d = u) (map (\<lambda>d. if ds_uuid d = u then updated_dataset now p d else d) ds)
      = map (updated_dataset now p) (filter (\<lambda>d. ds_uuid d = u) ds)" for u now ds by (induction ds) (simp_all add: same)
  with c(2) show "filter (\<lambda>d. ds_uuid d = ud_Uuid p) (datasets s') = map (updated_dataset (clock s) p) (filter (\<lambda>d. ds_uuid d = ud_Uuid p) (datasets s))"
    by auto
qed

lemma S3_DeleteObject_effect:
  assumes "s3_objects C objs up" "S3_DeleteObject C ref w = (r, w')"
  shows "w_db w' = w_db w" "a \<noteq> (or_Bucket ref, or_Key ref) \<Longrightarrow> objs (w_s3 w') a = objs (w_s3 w) a"
proof (atomize (full), cases "or_Bucket ref = [] \<or> or_Key ref = []")
  case True
  with assms(2) show "w_db w' = w_db w \<and> (a \<noteq> (or_Bucket ref, or_Key ref) \<longrightarrow> objs (w_s3 w') a = objs (w_s3 w) a)"
    by (auto simp: S3_DeleteObject_def wret_def)
next
  case False
  with assms(2) have "ons3 (c_DeleteObject C (or_Bucket ref) (or_Key ref)) w = (r, w')" by (simp add: S3_DeleteObject_def)
  from ons3_result [OF this] s3_delete(1) [OF assms(1)]
  show "w_db w' = w_db w \<and> (a \<noteq> (or_Bucket ref, or_Key ref) \<longrightarrow> objs (w_s3 w') a = objs (w_s3 w) a)"
    by (metis world.select_convs(1) world.surjective world.update_convs(2))
qed

lemma drop_object_effect:
  assumes "\<And>C. store = Some C \<Longrightarrow> s3_objects C objs up" "drop_object store ref (wret b) w = (r, w')"
  shows "r = Inr b \<and> w_db w' = w_db w \<and> (a \<noteq> (or_Bucket ref, or_Key ref) \<longrightarrow> objs (w_s3 w') a = objs (w_s3 w) a)"
proof (cases "\<exists>C. store = Some C \<and> or_Backend ref = DatasetStorageBackendS3")
  case True
  then obtain C where C: "store = Some C" "or_Backend ref = DatasetStorageBackendS3" by blast
  obtain q w1 where q: "S3_DeleteObject C ref w = (q, w1)" by force
  with assms(2) C have "r = Inr b" "w' = w1" by (auto simp: drop_object_def ignoring_def attempt_def wret_def)
  with S3_DeleteObject_effect [OF assms(1) [OF C(1)] q] show ?thesis by blast
next
  case False
  with assms(2) show ?thesis by (auto simp: drop_object_def wret_def split: option.splits if_splits)
qed

lemma drop_previous_effect:
  assumes "\<And>C. store = Some C \<Longrightarrow> s3_objects C objs up" "drop_previous store prev meta (wret b) w = (r, w')"
  shows "r = Inr b \<and> w_db w' = w_db w \<and> (sm_Backend meta = DatasetStorageBackendS3 \<longrightarrow>
    objs (w_s3 w') (sm_Bucket meta, sm_Key meta) = objs (w_s3 w) (sm_Bucket meta, sm_Key meta))"
  using assms(2) drop_object_effect [OF assms(1), where b = b and w = w and w' = w' and r = r]
  by (auto simp: drop_previous_def wret_def split: option.splits if_splits)

lemma placed_moved:
  assumes "placed D store objs content (ic, meta) x"
    and "sm_Backend meta = DatasetStorageBackendS3 \<longrightarrow> objs y (sm_Bucket meta, sm_Key meta) = objs x (sm_Bucket meta, sm_Key meta)"
  shows "placed D store objs content (ic, meta) y"
  using assms by (auto simp: placed_def)

lemma attempt_unfold: "attempt m k w = (r, w') \<Longrightarrow> \<exists>q w1. m w = (q, w1) \<and> k q w1 = (r, w')"
  by (cases "m w") (auto simp: attempt_def)

text \<open>
  C22: Content given to an update is read back: when \<^verbatim>\<open>UpdateDatasetByUuid\<close> succeeds with a new
  content, the dataset has exactly those bytes, with their checksum and size, also when
  the update moved them between row and store and dropped the object used before.
\<close>

theorem dataset_update_read:
  fixes w w' :: "('v, 'o) world"
  assumes store: "case dv_store svc of Some C \<Rightarrow> s3_objects C objs up \<and> up (w_s3 w') | None \<Rightarrow> True"
    and upd: "UpdateDatasetByUuid D svc dsid p w = (Inr n, w')" and h: "healthy (w_db w')"
    and content: "dp_Content p = Some content" "int (length content) < 2 ^ 31"
  shows "\<exists>f. readable svc dsid w' f \<and> file_bytes f = Inr content \<and> df_Checksum f = checksumHex D content \<and> df_Size f = int (length content)"
proof -
  have laws: "dv_store svc = Some C \<Longrightarrow> s3_objects C objs up" for C using store by auto
  have "\<not> (dp_Name p = None \<and> dp_Format p = None \<and> dp_Content p = None \<and> dp_Tags p = None \<and> dp_ThingUuid p = None)"
    using content(1) by simp
  note u = upd [unfolded UpdateDatasetByUuid_def, unfolded if_not_P [OF this], unfolded content(1) option.case]
  obtain ic meta w0 w1 fmt and previous :: "dataset_row res" where pl: "store_content D svc dsid content fmt w0 = (Inr (ic, meta), w1)"
    and rest: "attempt (ondb (UpdateDatasetByUUID (update_params dsid p ic meta))) (\<lambda>r. case r of
            Inl e \<Rightarrow> drop_object (dv_store svc) (object_ref meta) (wfail e)
          | Inr n \<Rightarrow>
              if n = 0 then drop_object (dv_store svc) (object_ref meta) (wfail ErrorNotFound)
              else drop_previous (dv_store svc) (case previous of Inl _ \<Rightarrow> None | Inr d \<Rightarrow> row_ref d) meta (wret n)) w1 = (Inr n, w')"
    using attempt_unfold [OF u] by (elim exE conjE wthen_Inr) auto
  from rest obtain m w2 prev where row: "ondb (UpdateDatasetByUUID (update_params dsid p ic meta)) w1 = (Inr m, w2)" "m \<noteq> 0"
      "drop_previous (dv_store svc) prev meta (wret m) w2 = (Inr n, w')"
    by (rule attempt_drop_Inr) (auto split: if_splits dest: arg_cong [where f = fst])
  note c = UpdateDatasetByUUID_Inr [OF conjunct1 [OF ondb_result [OF row(1)]]]
  have x: "w_s3 w2 = w_s3 w1" using ondb_result [OF row(1)] by (metis world.select_convs(2) world.surjective world.update_convs(1))
  from drop_previous_effect [OF laws row(3)] have db: "w_db w' = w_db w2" and ob: "sm_Backend meta = DatasetStorageBackendS3 \<longrightarrow>
    objs (w_s3 w') (sm_Bucket meta, sm_Key meta) = objs (w_s3 w1) (sm_Bucket meta, sm_Key meta)" unfolding x by simp_all
  note placed = placed_moved [OF store_content_placed [OF laws pl] ob]
  have uid: "ud_Uuid (update_params dsid p ic meta) = dsid" by (simp add: update_params_def)
  from c(1) row(2) obtain d ds where hits: "filter (\<lambda>d. ds_uuid d = dsid) (datasets (w_db w1)) = d # ds"
    unfolding uid by (cases "filter (\<lambda>d. ds_uuid d = dsid) (datasets (w_db w1))") auto
  let ?d = "updated_dataset (clock (w_db w1)) (update_params dsid p ic meta) d"
  have "d \<in> set (datasets (w_db w1)) \<and> ds_uuid d = dsid" by (rule filter_eq_ConsD [OF hits])
  with c(3) have ok: "storage_ok ?d" unfolding uid by blast
  have "\<exists>ds. filter (\<lambda>d. ds_uuid d = dsid) (datasets (w_db w')) = ?d # ds" using c(2) unfolding uid db hits by simp
  moreover have "holds D objs ?d content (w_s3 w')" "dv_store svc = None \<Longrightarrow> row_ref ?d = None"
    by (rule placed_row [OF placed ok]; simp add: updated_dataset_def content_trigger_def update_params_def content)+
  moreover have "ds_size ?d = int (length content)"
    using content placed ok by (auto simp: updated_dataset_def content_trigger_def update_params_def placed_def in_i32_def
        inline_meta_def DatasetStorageBackendInline_def DatasetStorageBackendS3_def)
  ultimately show ?thesis
    using holds_readable [where svc = svc and objs = objs and up = up and w = w' and d = ?d and dsid = dsid and D = D and content = content] store h
    by (auto split: option.splits)
qed


section \<open>Content lost by a refused update\<close>

lemma healthy_find_row:
  assumes "healthy (w_db w)" "filter (\<lambda>d. ds_uuid d = dsid) (datasets (w_db w)) = d # ds"
  shows "ondb (GetDatasetObjectRefByUUID dsid) w = (Inr d, w\<lparr>w_db := (w_db w)\<lparr>faults := tl (faults (w_db w))\<rparr>\<rparr>)"
    "ondb (FindDatasetByUUID dsid) w = (Inr d, w\<lparr>w_db := (w_db w)\<lparr>faults := tl (faults (w_db w))\<rparr>\<rparr>)"
    "ondb (GetDatasetContentByUUID dsid) w = (Inr d, w\<lparr>w_db := (w_db w)\<lparr>faults := tl (faults (w_db w))\<rparr>\<rparr>)"
  using assms by (simp_all add: ondb_def GetDatasetObjectRefByUUID_def FindDatasetByUUID_def GetDatasetContentByUUID_def sel_one_def dbsimps)

lemma content_key_nonempty:
  assumes "plain_id dsid"
  shows "objectKey opt dsid ''content'' \<noteq> []"
proof -
  have tail: "\<forall>y\<in>set [dsid, ''content'']. plain_name y" using plain_id_name [OF assms] by (simp add: plain_name_def)
  obtain xs where "objectKey opt dsid ''content'' = path_Join (xs @ [dsid, ''content''])"
    unfolding objectKey_def Let_def append_assoc [symmetric] by metis
  moreover have "join_with ''/'' (front_parts xs @ [dsid, ''content'']) \<noteq> []" by (rule join_with_nonempty) simp_all
  ultimately show ?thesis using path_Join_plain_tail [OF tail] by simp
qed

lemma S3_put_up:
  assumes "s3_objects C objs up" "up (w_s3 w)"
  obtains y where "S3_PutObject D C ref content format w = (Inr \<lparr>sm_Backend = DatasetStorageBackendS3, sm_Bucket = or_Bucket ref, sm_Key = or_Key ref,
         sm_Size = int (length content), sm_Checksum = hex_EncodeToString (d_sha256 D content)\<rparr>, w\<lparr>w_s3 := y\<rparr>)" "up y"
proof -
  obtain r y where c: "c_PutObject C (or_Bucket ref) (or_Key ref) content (datasetContentType format) (w_s3 w) = (r, y)" by force
  with s3_put(3,4) [OF assms(1) c assms(2)] show thesis by (intro that [of y]) (simp_all add: S3_PutObject_def wsimps)
qed

lemma S3_delete_up:
  assumes "s3_objects C objs up" "up (w_s3 w)" "or_Bucket ref \<noteq> []" "or_Key ref \<noteq> []"
  obtains y where "S3_DeleteObject C ref w = (Inr (), w\<lparr>w_s3 := y\<rparr>)" "up y" "objs y (or_Bucket ref, or_Key ref) = None"
proof -
  obtain r y where c: "c_DeleteObject C (or_Bucket ref) (or_Key ref) (w_s3 w) = (r, y)" by force
  with s3_delete(2-4) [OF assms(1) c] assms show thesis by (intro that [of y]) (simp_all add: S3_DeleteObject_def wsimps)
qed

text \<open>
  A refused update destroys the content of a stored dataset.  The store keeps one object
  per dataset; an update with a new content overwrites it first.  When the database then
  refuses the row, here because it names a thing that does not exist, the object is
  deleted: the update fails, the row is as before, and the content it refers to is gone.
\<close>

theorem refused_update_loses_content:
  fixes w :: "('v, 'o) world"
  assumes svc: "dv_store svc = Some C" "s3_objects C objs up" "up (w_s3 w)" and h: "healthy (w_db w)"
    and opt: "so_Backend (dv_opt svc) = DatasetStorageBackendS3" "so_S3 (dv_opt svc) = Some s3" "s3_Bucket s3 \<noteq> []" "plain_id dsid"
    and row: "filter (\<lambda>d. ds_uuid d = dsid) (datasets (w_db w)) = [d]" "row_ref d = Some (ContentRef (dv_opt svc) dsid)"
    and p: "dp_Content p = Some content" "content \<noteq> []" "dp_ThingUuid p = Some t" "t \<notin> set (map th_uuid (things (w_db w)))"
  shows "\<exists>w' e. UpdateDatasetByUuid D svc dsid p w = (Inl fk_violation, w') \<and> tables (w_db w') = tables (w_db w)
    \<and> fst (GetDatasetContentByUuid svc dsid w') = Inl e"
proof -
  let ?ref = "ContentRef (dv_opt svc) dsid"
  let ?meta = "\<lparr>sm_Backend = DatasetStorageBackendS3, sm_Bucket = or_Bucket ?ref, sm_Key = or_Key ?ref,
         sm_Size = int (length content), sm_Checksum = hex_EncodeToString (d_sha256 D content)\<rparr>"
  have ref: "or_Backend ?ref = DatasetStorageBackendS3" "or_Bucket ?ref \<noteq> []" "or_Key ?ref \<noteq> []"
    using opt content_key_nonempty [OF opt(4)] by (simp_all add: ContentRef_def)
  define s1 where "s1 = (w_db w)\<lparr>faults := tl (faults (w_db w))\<rparr>"
  have s1: "healthy s1" "datasets s1 = datasets (w_db w)" using h by (simp_all add: s1_def)
  obtain fs where fs: "(case dp_Format p of Some f \<Rightarrow> wret f | None \<Rightarrow> wthen (ondb (FindDatasetByUUID dsid)) (\<lambda>current. wret (ds_format current)))
      (w\<lparr>w_db := s1\<rparr>) = (Inr (case dp_Format p of Some f \<Rightarrow> f | None \<Rightarrow> ds_format d), w\<lparr>w_db := s1\<lparr>faults := fs\<rparr>\<rparr>)" "healthy (s1\<lparr>faults := fs\<rparr>)"
  proof (cases "dp_Format p")
    case None
    with s1 row(1) healthy_find_row(2) [of "w\<lparr>w_db := s1\<rparr>" dsid d "[]"] show thesis by (intro that [of "tl (faults s1)"]) (simp_all add: wsimps)
  next
    case (Some f)
    with s1 show thesis by (intro that [of "faults s1"]) (simp_all add: wret_def)
  qed
  let ?s2 = "s1\<lparr>faults := fs\<rparr>"
  obtain y where y: "S3_PutObject D C ?ref content (case dp_Format p of Some f \<Rightarrow> f | None \<Rightarrow> ds_format d) (w\<lparr>w_db := ?s2\<rparr>)
      = (Inr ?meta, w\<lparr>w_db := ?s2, w_s3 := y\<rparr>)" "up y"
    using S3_put_up [OF svc(2), of "w\<lparr>w_db := ?s2\<rparr>" D ?ref content "case dp_Format p of Some f \<Rightarrow> f | None \<Rightarrow> ds_format d" thesis] svc(3) by auto
  have "storage_ok (updated_dataset now (update_params dsid p [] ?meta) d)" for now
    using ref by (simp add: updated_dataset_def content_trigger_def update_params_def p storage_ok_def nullif_def DatasetStorageBackendS3_def)
  then have "UpdateDatasetByUUID (update_params dsid p [] ?meta) ?s2 = (Inl fk_violation, ?s2\<lparr>faults := tl fs\<rparr>)"
    using fs(2) row(1) p by (simp add: UpdateDatasetByUUID_def dbsimps Let_def update_params_def s1_def thing_ok_def)
  then have u: "ondb (UpdateDatasetByUUID (update_params dsid p [] ?meta)) (w\<lparr>w_db := ?s2, w_s3 := y\<rparr>)
      = (Inl fk_violation, w\<lparr>w_db := ?s2\<lparr>faults := tl fs\<rparr>, w_s3 := y\<rparr>)" by (simp add: ondb_def)
  obtain z where z: "S3_DeleteObject C (object_ref ?meta) (w\<lparr>w_db := ?s2\<lparr>faults := tl fs\<rparr>, w_s3 := y\<rparr>)
      = (Inr (), w\<lparr>w_db := ?s2\<lparr>faults := tl fs\<rparr>, w_s3 := z\<rparr>)" "up z" "objs z (or_Bucket ?ref, or_Key ?ref) = None"
    using S3_delete_up [OF svc(2), of "w\<lparr>w_db := ?s2\<lparr>faults := tl fs\<rparr>, w_s3 := y\<rparr>" "object_ref ?meta" thesis] y(2) ref by (auto simp: object_ref_def)
  let ?w = "w\<lparr>w_db := ?s2\<lparr>faults := tl fs\<rparr>, w_s3 := z\<rparr>"
  have "UpdateDatasetByUuid D svc dsid p w = (Inl fk_violation, ?w)"
    using healthy_find_row(1) [OF h row(1)] fs(1) y(1) u z(1) svc(1) p
    by (simp add: UpdateDatasetByUuid_def store_content_def attempt_def wthen_def wret_def wfail_def drop_object_def ignoring_def object_ref_def s1_def [symmetric])
  moreover have "fst (GetDatasetContentByUuid svc dsid ?w) = Inl (projl (fst (c_GetObject C (or_Bucket ?ref) (or_Key ?ref) z)))"
  proof -
    obtain r x where g: "c_GetObject C (or_Bucket ?ref) (or_Key ?ref) z = (r, x)" by force
    with s3_get(5) [OF svc(2) g z(2,3)] obtain e where "r = Inl e" by (cases r) simp_all
    moreover have "healthy (w_db ?w)" using healthy_tl [OF fs(2)] by simp
    ultimately show ?thesis using g svc(1) row healthy_find_row(3) [of ?w dsid d "[]"] s1(2)
      by (simp add: GetDatasetContentByUuid_def S3_GetObject_def wsimps)
  qed
  moreover have "tables (w_db ?w) = tables (w_db w)" by (simp add: s1_def)
  ultimately show ?thesis by blast
qed


section \<open>A store in memory\<close>

record mem =
  m_objects :: "string \<times> string \<Rightarrow> string option"
  m_parts :: "string \<Rightarrow> int \<Rightarrow> (string \<times> string) option"
  m_next :: nat

definition mem_concat :: "mem \<Rightarrow> string \<Rightarrow> (string \<times> int) list \<Rightarrow> string option" where
  "mem_concat x u ps = foldr (\<lambda>(etag, n) rest. case (m_parts x u n, rest) of
     (Some (t, body), Some content) \<Rightarrow> if t = etag then Some (body @ content) else None | _ \<Rightarrow> None) ps (Some [])"

definition mem_client :: "mem s3_client" where
  "mem_client = \<lparr>
     c_PutObject = (\<lambda>b k body ct x. (Inr (), x\<lparr>m_objects := (m_objects x)((b, k) \<mapsto> body)\<rparr>)),
     c_GetObject = (\<lambda>b k x. (case m_objects x (b, k) of Some body \<Rightarrow> Inr (Inr body) | None \<Rightarrow> Inl (Plain ''NoSuchKey''), x)),
     c_DeleteObject = (\<lambda>b k x. (Inr (), x\<lparr>m_objects := (m_objects x)((b, k) := None)\<rparr>)),
     c_CreateMultipartUpload = (\<lambda>b k ct x. (Inr (Some (utoa (m_next x))), x\<lparr>m_next := m_next x + 1\<rparr>)),
     c_UploadPart = (\<lambda>b k u n body md5 x. (Inr (Some (CHR ''e'' # md5)), x\<lparr>m_parts := (m_parts x)(u := (m_parts x u)(n \<mapsto> (CHR ''e'' # md5, body)))\<rparr>)),
     c_CompleteMultipartUpload = (\<lambda>b k u ps x. case mem_concat x u ps of
         None \<Rightarrow> (Inl (Plain ''InvalidPart''), x) | Some body \<Rightarrow> (Inr (), x\<lparr>m_objects := (m_objects x)((b, k) \<mapsto> body)\<rparr>)),
     c_AbortMultipartUpload = (\<lambda>b k u x. (Inr (), x\<lparr>m_parts := (m_parts x)(u := (\<lambda>_. None))\<rparr>))\<rparr>"

lemma mem_client_laws: "s3_objects mem_client m_objects (\<lambda>_. True)"
  by (auto simp: s3_objects_def put_law_def get_law_def delete_law_def mem_client_def split: option.splits)

definition plain_digests :: digests where
  "plain_digests = \<lparr>d_sha256 = (\<lambda>_. []), d_md5 = (\<lambda>_. [])\<rparr>"

definition s3_options :: DatasetStorageOptions where
  "s3_options = \<lparr>so_Backend = ''s3'', so_Domain = [], so_S3 = Some \<lparr>s3_Endpoint = [], s3_Region = ''r'', s3_Bucket = ''b'',
     s3_AccessKeyID = [], s3_SecretAccessKey = [], s3_UseSSL = True, s3_ForcePathStyle = True, s3_KeyPrefix = []\<rparr>\<rparr>"

definition s3_service :: "mem DatasetService" where
  "s3_service = \<lparr>dv_store = Some mem_client, dv_opt = s3_options\<rparr>"

definition owner_world :: "(unit, mem) world" where
  "owner_world = \<lparr>w_db = empty_db\<lparr>users := [\<lparr>u_uuid = ''aa'', u_name = ''ann'', u_state = ''active''\<rparr>],
       groups := [\<lparr>g_uuid = ''aa'', g_name = ''ann''\<rparr>], user_groups := [(''aa'', ''aa'')]\<rparr>,
     w_s3 = \<lparr>m_objects = (\<lambda>_. None), m_parts = (\<lambda>_ _. None), m_next = 0\<rparr>, w_files = (\<lambda>_. None), w_dirs = (\<lambda>_. False), w_os = []\<rparr>"

definition some_dataset :: AddDatasetParams where
  "some_dataset = \<lparr>ad_Name = ''n'', ad_Format = ''csv'', ad_Content = Some ''a,b'', ad_CreatedBy = ''aa'', ad_ThingUuid = NilUUID, ad_Tags = None\<rparr>"

definition stored_world :: "(unit, mem) world" where
  "stored_world = snd (AddDataset plain_digests s3_service ''d1'' [''1'', ''2'', ''3'', ''4''] some_dataset owner_world)"

definition new_content :: UpdateDatasetByUuidParams where
  "new_content = \<lparr>dp_Content = Some ''c,d,e'', dp_Format = None, dp_Name = None, dp_Tags = None, dp_ThingUuid = None\<rparr>"

lemma Inr_pair: "isl (fst x) = False \<Longrightarrow> \<exists>a. x = (Inr a, snd x)"
  by (cases x; cases "fst x") auto

theorem object_keys_distinct_witness:
  "(objectKey s3_options ''aa'' ''content'' = objectKey s3_options ''ab'' ''content'') = False"
proof -
  have "plain_id ''aa''" "plain_id ''ab''" by code_simp+
  from object_keys_distinct [OF this, of s3_options] show ?thesis by auto
qed

theorem dataset_add_read_witness:
  "\<exists>f. readable s3_service ''d1'' stored_world f \<and> file_bytes f = Inr ''a,b'' \<and> df_Size f = 3"
proof -
  have "isl (fst (AddDataset plain_digests s3_service ''d1'' [''1'', ''2'', ''3'', ''4''] some_dataset owner_world)) = False" by code_simp
  from Inr_pair [OF this] obtain d where
    d: "AddDataset plain_digests s3_service ''d1'' [''1'', ''2'', ''3'', ''4''] some_dataset owner_world = (Inr d, stored_world)"
    unfolding stored_world_def by blast
  have "healthy (w_db stored_world)" by code_simp
  from dataset_add_read [OF _ d this, of m_objects "\<lambda>_. True" "''a,b''"] mem_client_laws show ?thesis
    by (auto simp: s3_service_def some_dataset_def or_default_def)
qed

theorem dataset_update_read_witness:
  "\<exists>f. readable s3_service ''d1'' (snd (UpdateDatasetByUuid plain_digests s3_service ''d1'' new_content stored_world)) f \<and> file_bytes f = Inr ''c,d,e''"
proof -
  let ?u = "UpdateDatasetByUuid plain_digests s3_service ''d1'' new_content stored_world"
  have "isl (fst ?u) = False" by code_simp
  from Inr_pair [OF this] obtain n where n: "?u = (Inr n, snd ?u)" by blast
  have "healthy (w_db (snd ?u))" by code_simp
  from dataset_update_read [OF _ n this, of m_objects "\<lambda>_. True" "''c,d,e''"] mem_client_laws show ?thesis
    by (auto simp: s3_service_def new_content_def)
qed

theorem refused_update_loses_content_witness:
  "\<exists>w' e. UpdateDatasetByUuid plain_digests s3_service ''d1'' (new_content\<lparr>dp_ThingUuid := Some ''t1''\<rparr>) stored_world = (Inl fk_violation, w')
    \<and> tables (w_db w') = tables (w_db stored_world) \<and> fst (GetDatasetContentByUuid s3_service ''d1'' w') = Inl e"
proof (rule refused_update_loses_content)
  show "dv_store s3_service = Some mem_client" by (simp add: s3_service_def)
  show "s3_objects mem_client m_objects (\<lambda>_. True)" by (rule mem_client_laws)
  show "healthy (w_db stored_world)" by code_simp
  show "so_Backend (dv_opt s3_service) = DatasetStorageBackendS3" "so_S3 (dv_opt s3_service) = Some (the (so_S3 s3_options))"
    "s3_Bucket (the (so_S3 s3_options)) \<noteq> []" "plain_id ''d1''" by code_simp+
  show "filter (\<lambda>d. ds_uuid d = ''d1'') (datasets (w_db stored_world)) = [hd (datasets (w_db stored_world))]"
    "row_ref (hd (datasets (w_db stored_world))) = Some (ContentRef (dv_opt s3_service) ''d1'')" by code_simp+
  show "dp_Content (new_content\<lparr>dp_ThingUuid := Some ''t1''\<rparr>) = Some ''c,d,e''" "dp_ThingUuid (new_content\<lparr>dp_ThingUuid := Some ''t1''\<rparr>) = Some ''t1''"
    by (simp_all add: new_content_def)
  show "''t1'' \<notin> set (map th_uuid (things (w_db stored_world)))" by code_simp
qed simp_all

end
