(* ===== verification/GoNumbers.thy ===== *)
theory GoNumbers
  imports GoStrings
begin

text \<open>
  Numbers in text: \<^verbatim>\<open>strconv.Atoi\<close>, and that it reads back what \<^verbatim>\<open>strconv.Itoa\<close> writes.
\<close>

definition is_digit :: "char \<Rightarrow> bool" where
  "is_digit c \<longleftrightarrow> 48 \<le> (of_char c :: nat) \<and> (of_char c :: nat) \<le> 57"

definition digit_value :: "char \<Rightarrow> nat" where
  "digit_value c = of_char c - 48"

definition number_of :: "string \<Rightarrow> nat" where
  "number_of s = foldl (\<lambda>n c. 10 * n + digit_value c) 0 s"

text \<open>\<^verbatim>\<open>strconv.Atoi\<close>, \<^const>\<open>None\<close> for an error.\<close>

definition Atoi :: "string \<Rightarrow> int option" where
  "Atoi s = (let t = (if s \<noteq> [] \<and> (hd s = CHR ''-'' \<or> hd s = CHR ''+'') then tl s else s);
                 x = (if s \<noteq> [] \<and> hd s = CHR ''-'' then - int (number_of t) else int (number_of t)) in
     if t = [] \<or> \<not> list_all is_digit t \<or> x < - (2 ^ 63) \<or> x \<ge> 2 ^ 63 then None else Some x)"

section \<open>Facts\<close>

lemma digit_value_digit: "n < 10 \<Longrightarrow> digit_value (digit n) = n"
  by (simp add: digit_value_def digit_def)

lemma number_of_snoc: "number_of (s @ [c]) = 10 * number_of s + digit_value c"
  by (simp add: number_of_def)

lemma number_of_zeros: "number_of (replicate k CHR ''0'' @ s) = number_of s"
proof -
  have "foldl (\<lambda>n c. 10 * n + digit_value c) 0 (replicate k CHR ''0'') = 0" by (induction k) (simp_all add: digit_value_def)
  then show ?thesis by (simp add: number_of_def)
qed

lemma number_of_utoa: "number_of (utoa n) = n"
proof (induction n rule: utoa.induct)
  case (1 n)
  show ?case
  proof (cases "n < 10")
    case True
    then show ?thesis by (subst utoa.simps) (simp add: number_of_def digit_value_digit)
  next
    case False
    with 1 show ?thesis by (subst utoa.simps) (simp add: number_of_snoc digit_value_digit)
  qed
qed

lemma utoa_char: "c \<in> set (utoa n) \<Longrightarrow> 48 \<le> (of_char c :: nat) \<and> (of_char c :: nat) \<le> 57"
proof (induction n rule: utoa.induct)
  case (1 n)
  then show ?case by (subst (asm) (2) utoa.simps) (auto simp: digit_def split: if_splits)
qed

lemma utoa_digits: "list_all is_digit (utoa n) \<and> utoa n \<noteq> [] \<and> number_of (utoa n) = n"
  using utoa_char [of _ n] by (auto simp: list_all_iff is_digit_def number_of_utoa) (simp add: utoa.simps [of n] split: if_splits)

lemma is_digit_sign: "is_digit c \<Longrightarrow> c \<noteq> CHR ''-'' \<and> c \<noteq> CHR ''+'' \<and> c \<noteq> CHR ''@'' \<and> c \<noteq> slash"
  by (auto simp: is_digit_def)

lemma Atoi_Itoa: "- (2 ^ 63) \<le> x \<Longrightarrow> x < 2 ^ 63 \<Longrightarrow> Atoi (Itoa x) = Some x"
proof -
  assume r: "- (2 ^ 63) \<le> x" "x < 2 ^ 63"
  show ?thesis
  proof (cases "x < 0")
    case True
    with r utoa_digits [of "nat (- x)"] show ?thesis by (simp add: Atoi_def Itoa_def)
  next
    case False
    obtain c t where t: "utoa (nat x) = c # t" using utoa_digits [of "nat x"] by (cases "utoa (nat x)") auto
    then have "c \<noteq> CHR ''-''" "c \<noteq> CHR ''+''" "is_digit c" "list_all is_digit t" "number_of (c # t) = nat x"
      using utoa_digits [of "nat x"] is_digit_sign [of c] by auto
    with r False t show ?thesis by (simp add: Atoi_def Itoa_def)
  qed
qed

lemma utoa_inj: "utoa m = utoa n \<Longrightarrow> m = n"
  by (metis utoa_digits)

lemma Itoa_inj:
  assumes "Itoa x = Itoa y"
  shows "x = y"
proof -
  have no_sign: "utoa n \<noteq> CHR ''-'' # t" for n t
  proof
    assume "utoa n = CHR ''-'' # t"
    then have "is_digit (CHR ''-'')" using utoa_digits [of n] by simp
    then show False using is_digit_sign by blast
  qed
  consider "x < 0" "y < 0" | "x < 0" "\<not> y < 0" | "\<not> x < 0" "y < 0" | "\<not> x < 0" "\<not> y < 0" by blast
  then show ?thesis
  proof cases
    case 1
    with assms have "nat (- x) = nat (- y)" by (intro utoa_inj) (simp add: Itoa_def)
    with 1 show ?thesis by simp
  next
    case 4
    with assms have "nat x = nat y" by (intro utoa_inj) (simp add: Itoa_def)
    with 4 show ?thesis by simp
  qed (use assms no_sign [symmetric] no_sign in \<open>simp_all add: Itoa_def\<close>)
qed

lemma Itoa_chars:
  assumes "c \<in> set (Itoa x)"
  shows "c \<noteq> CHR ''@'' \<and> c \<noteq> slash"
proof -
  have "d \<in> set (utoa n) \<Longrightarrow> is_digit d" for d n using utoa_digits [of n] by (simp add: list_all_iff)
  with assms consider "c = CHR ''-''" | "is_digit c" unfolding Itoa_def by (cases "x < 0") fastforce+
  then show ?thesis by cases (simp, use is_digit_sign in blast)
qed

end
