(* ===== verification/UploadAssembly.thy ===== *)
theory UploadAssembly
  imports UploadFacts GoNumbers
begin

text \<open>
  Uploads that lie in directories: the part files are what was uploaded, and the assembled
  dataset is their concatenation in the order of their numbers.
\<close>

section \<open>Names of part files\<close>

definition padded_digits :: "nat \<Rightarrow> int \<Rightarrow> string" where
  "padded_digits w n = replicate (w - (if n < 0 then 1 else 0) - length (utoa (nat \<bar>n\<bar>))) CHR ''0'' @ utoa (nat \<bar>n\<bar>)"

lemma zero_padded_digits: "zero_padded w n = (if n < 0 then CHR ''-'' # padded_digits w n else padded_digits w n)"
  by (simp add: zero_padded_def padded_digits_def Let_def)

lemma number_of_padded: "number_of (padded_digits w n) = nat \<bar>n\<bar>"
  unfolding padded_digits_def number_of_zeros by (rule number_of_utoa)

lemma padded_digits_no_sign: "CHR ''-'' \<notin> set (padded_digits w n)"
  using utoa_char [of "CHR ''-''" "nat \<bar>n\<bar>"] by (auto simp: padded_digits_def)

lemma zero_padded_inject:
  assumes "zero_padded w m = zero_padded w n"
  shows "m = n"
proof -
  have "(m < 0) = (n < 0)"
    using assms padded_digits_no_sign [of w m] padded_digits_no_sign [of w n] unfolding zero_padded_digits
    by (metis list.set_intros(1))
  moreover from this assms have "padded_digits w m = padded_digits w n" unfolding zero_padded_digits by (simp split: if_splits)
  then have "nat \<bar>m\<bar> = nat \<bar>n\<bar>" by (metis number_of_padded)
  ultimately show ?thesis by linarith
qed

lemma part_name_plain: "plain_name (zero_padded w n @ ''.part'')"
proof -
  have "CHR ''/'' \<notin> set (zero_padded w n)" using utoa_char [of "CHR ''/''"] by (auto simp: zero_padded_def Let_def)
  then show ?thesis by (auto simp: plain_name_def append_eq_Cons_conv)
qed

lemma partPath_inject: "partPath opt uid m = partPath opt uid n \<Longrightarrow> m = n"
  using path_Join_inject [of "[zero_padded 8 m @ ''.part'']" "[zero_padded 8 n @ ''.part'']" "[uploadDir opt uid]"] part_name_plain
  by (auto simp: partPath_def dest: zero_padded_inject)

lemma join_with_last: "\<exists>t. join_with sep (ps @ [p]) = t @ p"
  by (induction sep ps rule: join_with.induct) (auto intro: exI [of _ "[]"] simp: append_assoc [symmetric] simp del: append_assoc)

lemma partPath_suffix: "suffix ''.part'' (partPath opt uid n)"
proof -
  obtain t where "join_with ''/'' (front_parts [uploadDir opt uid] @ [zero_padded 8 n @ ''.part'']) = t @ zero_padded 8 n @ ''.part''"
    using join_with_last by metis
  then have "partPath opt uid n = ((if front_rooted [uploadDir opt uid] then ''/'' else []) @ t @ zero_padded 8 n) @ ''.part''"
    using path_Join_plain_tail [of "[zero_padded 8 n @ ''.part'']" "[uploadDir opt uid]"] part_name_plain by (simp add: partPath_def)
  then show ?thesis unfolding suffix_def by blast
qed


section \<open>A part that was uploaded\<close>

lemma ToLower_idem [simp]: "ToLower (ToLower x) = ToLower x"
  by (auto simp: ToLower_def lower_char_def Let_def)

lemma readUploadBody_Inr:
  assumes "readUploadBody D opt content md5 = Inr (body, dg)"
  shows "body = fst content" "uo_MaxPartSize opt > 0 \<Longrightarrow> int (length body) \<le> uo_MaxPartSize opt"
    "dg = ToLower (hex_EncodeToString (d_md5 D body))" "md5 \<noteq> [] \<Longrightarrow> EqualFold dg md5"
proof -
  let ?r = "if uo_MaxPartSize opt > 0 then LimitReader (uo_MaxPartSize opt + 1) content else content"
  from assms have b: "ReadAll ?r = Inr body" "\<not> (uo_MaxPartSize opt > 0 \<and> int (length body) > uo_MaxPartSize opt)"
    and d: "dg = ToLower (hex_EncodeToString (d_md5 D body))" "md5 = [] \<or> EqualFold (hex_EncodeToString (d_md5 D body)) md5"
    by (auto simp: readUploadBody_def Let_def split: sum.splits if_splits)
  from b show "uo_MaxPartSize opt > 0 \<Longrightarrow> int (length body) \<le> uo_MaxPartSize opt" by linarith
  from b show "body = fst content"
    by (auto simp: ReadAll_def LimitReader_def split: option.splits if_splits)
  with d show "dg = ToLower (hex_EncodeToString (d_md5 D body))" "md5 \<noteq> [] \<Longrightarrow> EqualFold dg md5" by (auto simp: EqualFold_def)
qed

text \<open>What the parts of an upload hold: the files of the numbers the database lists.\<close>

definition upload_view :: "'o DatasetUploadOptions \<Rightarrow> string \<Rightarrow> ('v, 'o) world \<Rightarrow> int \<Rightarrow> string option" where
  "upload_view opt uid w n = (if n \<in> pt_number ` set (parts_of uid (w_db w)) then w_files w (partPath opt uid n) else None)"

lemma os_call_Inr: "os_call f w = (Inr a, w') \<Longrightarrow> f (w\<lparr>w_os := tl (w_os w)\<rparr>) = (Inr a, w')"
proof (cases "w_os w")
  case Nil
  then have eq: "w\<lparr>w_os := tl (w_os w)\<rparr> = w" by (cases w) simp
  show "os_call f w = (Inr a, w') \<Longrightarrow> f (w\<lparr>w_os := tl (w_os w)\<rparr>) = (Inr a, w')" unfolding eq by (simp add: os_call_def Nil)
next
  case (Cons x xs)
  then show "os_call f w = (Inr a, w') \<Longrightarrow> f (w\<lparr>w_os := tl (w_os w)\<rparr>) = (Inr a, w')" by (cases x) (simp_all add: os_call_def)
qed

lemma UpsertDatasetUploadPart_Inr:
  assumes "UpsertDatasetUploadPart p s = (Inr n, s')"
  shows "pt_number ` set (parts_of uid s') = pt_number ` set (parts_of uid s) \<union> (if uid = us_UploadID p then {us_PartNumber p} else {})"
proof -
  let ?s = "s\<lparr>faults := tl (faults s)\<rparr>"
  let ?same = "\<lambda>x. pt_upload x = us_UploadID p \<and> pt_number x = us_PartNumber p"
  have c: "(Inr 1 :: int res, ?s\<lparr>upload_parts := (if list_ex ?same (upload_parts ?s)
      then map (\<lambda>x. if ?same x then new_part (clock ?s) p else x) (upload_parts ?s) else upload_parts ?s @ [new_part (clock ?s) p])\<rparr>) = (Inr n, s')"
    using stmt_Inr [OF assms [unfolded UpsertDatasetUploadPart_def], unfolded Let_def]
    by - (elim if_eqE; (assumption | simp only: prod.inject sum.distinct simp_thms))
  have new: "pt_upload (new_part now p) = us_UploadID p" "pt_number (new_part now p) = us_PartNumber p" for now by (simp_all add: new_part_def)
  have parts: "upload_parts s' = (if list_ex ?same (upload_parts s)
      then map (\<lambda>x. if ?same x then new_part (clock s) p else x) (upload_parts s) else upload_parts s @ [new_part (clock s) p])"
    using c by auto
  show ?thesis
  proof (cases "list_ex ?same (upload_parts s)")
    case True
    then obtain x where x: "x \<in> set (upload_parts s)" "?same x" by (auto simp: list_ex_iff)
    have "map (\<lambda>x. (pt_upload x, pt_number x)) (upload_parts s') = map (\<lambda>x. (pt_upload x, pt_number x)) (upload_parts s)"
      unfolding parts using True new by simp
    then have "(\<lambda>x. (pt_upload x, pt_number x)) ` set (upload_parts s') = (\<lambda>x. (pt_upload x, pt_number x)) ` set (upload_parts s)"
      by (metis list.set_map)
    moreover have "pt_number ` set (parts_of uid t) = {k. (uid, k) \<in> (\<lambda>x. (pt_upload x, pt_number x)) ` set (upload_parts t)}" for t :: "'a db"
      by (auto simp: parts_of_def image_iff)
    moreover have "(us_UploadID p, us_PartNumber p) \<in> (\<lambda>x. (pt_upload x, pt_number x)) ` set (upload_parts s)" using x by force
    ultimately show ?thesis by auto
  next
    case False
    then have "upload_parts s' = upload_parts s @ [new_part (clock s) p]" unfolding parts by simp
    then show ?thesis using new by (auto simp: parts_of_def)
  qed
qed

lemma find_upload_Inr:
  assumes "find_upload dsid uid k w = (Inr b, w')"
  obtains u w1 where "u \<in> set (uploads (w_db w))" "up_id u = uid" "up_dataset u = dsid" "tables (w_db w1) = tables (w_db w)" "w1 = w\<lparr>w_db := w_db w1\<rparr>"
    "k u w1 = (Inr b, w')"
proof -
  from assms obtain u w1 where u: "ondb (FindDatasetUploadByID uid) w = (Inr u, w1)" "(if up_dataset u \<noteq> dsid then wfail ErrorNotFound else k u) w1 = (Inr b, w')"
    unfolding find_upload_def by (rule wthen_Inr)
  note q = ondb_result [OF u(1)]
  have "reads (FindDatasetUploadByID uid)" by (simp add: FindDatasetUploadByID_def)
  then have "tables (w_db w1) = tables (w_db w)" by (rule readsD) (rule conjunct1 [OF q])
  moreover from stmt_Inr [OF conjunct1 [OF q, unfolded FindDatasetUploadByID_def sel_one_def]]
  have "u \<in> set (uploads (w_db w)) \<and> up_id u = uid" by (auto split: list.splits dest: filter_eq_ConsD)
  moreover have "up_dataset u = dsid" "k u w1 = (Inr b, w')" using u(2) by (auto simp: wfail_def split: if_splits)
  ultimately show thesis using that q by blast
qed

lemma parts_of_tables: "tables s = tables t \<Longrightarrow> parts_of uid s = parts_of uid t"
  by (cases s; cases t) (simp add: tables_def parts_of_def)

lemma attempt_else_Inr:
  assumes "attempt m (\<lambda>r. case r of Inl e \<Rightarrow> ignoring x (wfail e) | Inr a \<Rightarrow> k a) w = (Inr b, w')"
  shows "\<exists>a w1. m w = (Inr a, w1) \<and> k a w1 = (Inr b, w')"
proof (cases "m w")
  case (Pair r w1)
  with assms show ?thesis by (cases r) (auto simp: attempt_def ignoring_def wfail_def split: prod.splits)
qed

lemma write_part_stored:
  assumes "write_part opt uid n body dg w = (Inr (), w')" "in_i32 n"
  shows "w_files w' = (w_files w)(partPath opt uid n \<mapsto> body)"
    "pt_number ` set (parts_of uid (w_db w')) = insert n (pt_number ` set (parts_of uid (w_db w)))"
proof -
  let ?P = "\<lparr>us_UploadID = uid, us_PartNumber = to_i32 n, us_Size = to_i32 (int (length body)), us_ChecksumMd5 = dg, us_Etag = []\<rparr>"
  let ?db = "attempt (ondb (UpsertDatasetUploadPart ?P)) (\<lambda>r. case r of
     Inl e \<Rightarrow> ignoring (os_Remove (partPath opt uid n)) (wfail e) | Inr _ \<Rightarrow> wret ())"
  from assms(1) [unfolded write_part_def] obtain w2 w3 where w2: "os_MkdirAll (dir_of (partPath opt uid n)) w = (Inr (), w2)"
    and w3: "os_WriteFile (partPath opt uid n) body w2 = (Inr (), w3)" "?db w3 = (Inr (), w')" by (elim wthen_Inr) auto
  from attempt_else_Inr [OF w3(2)] obtain j where j: "ondb (UpsertDatasetUploadPart ?P) w3 = (Inr j, w')" by (auto simp: wret_def)
  have f2: "w_db w2 = w_db w" "w_files w2 = w_files w" using os_call_Inr [OF w2 [unfolded os_MkdirAll_def]] by auto
  have f3: "w_db w3 = w_db w2" "w_files w3 = (w_files w2)(partPath opt uid n \<mapsto> body)"
    using os_call_Inr [OF w3(1) [unfolded os_WriteFile_def]] by (auto split: if_splits)
  note q = ondb_result [OF j]
  show "w_files w' = (w_files w)(partPath opt uid n \<mapsto> body)"
    using q f3 f2 by (metis world.select_convs(3) world.surjective world.update_convs(1))
  show "pt_number ` set (parts_of uid (w_db w')) = insert n (pt_number ` set (parts_of uid (w_db w)))"
    using UpsertDatasetUploadPart_Inr [OF conjunct1 [OF q], of uid] f3 f2 assms(2) by simp
qed



section \<open>The assembled dataset\<close>

lemma os_call_clear [simp]: "w_os w = [] \<Longrightarrow> os_call f w = f w"
  by (simp add: os_call_def)

lemma bin_not_part: "suffix ''.bin'' tmp \<Longrightarrow> d @ ''/'' @ tmp \<noteq> partPath opt uid n"
  using partPath_suffix [of opt uid n] by (auto simp: suffix_def)

lemma copy_parts_all:
  assumes "w_os w = []" "\<forall>n. out \<noteq> partPath opt uid n" "w_files w out = Some old"
    and "map (\<lambda>p. w_files w (partPath opt uid (pt_number p))) parts = map Some bodies"
    and "uo_MaxTotalSize opt > 0 \<longrightarrow> int (length (hashed @ concat bodies)) \<le> uo_MaxTotalSize opt"
  shows "copy_parts opt uid out parts hashed w = (Inr (hashed @ concat bodies), w\<lparr>w_files := (w_files w)(out \<mapsto> old @ concat bodies)\<rparr>)"
  using assms
proof (induction parts arbitrary: bodies hashed old w)
  case Nil
  then show ?case by (simp add: wret_def fun_upd_idem)
next
  case (Cons p parts)
  from Cons.prems(4) obtain b bs where b: "bodies = b # bs" "w_files w (partPath opt uid (pt_number p)) = Some b"
    "map (\<lambda>p. w_files w (partPath opt uid (pt_number p))) parts = map Some bs" by (cases bodies) auto
  let ?w = "w\<lparr>w_files := (w_files w)(out \<mapsto> old @ b)\<rparr>"
  have "map (\<lambda>p. w_files ?w (partPath opt uid (pt_number p))) parts = map Some bs"
    using b(3) Cons.prems(2) by (simp add: not_sym)
  moreover have "uo_MaxTotalSize opt > 0 \<longrightarrow> int (length ((hashed @ b) @ concat bs)) \<le> uo_MaxTotalSize opt" using Cons.prems(5) b(1) by simp
  ultimately have "copy_parts opt uid out parts (hashed @ b) ?w
      = (Inr ((hashed @ b) @ concat bs), ?w\<lparr>w_files := (w_files ?w)(out \<mapsto> (old @ b) @ concat bs)\<rparr>)"
    using Cons.prems(1,2) by (intro Cons.IH) auto
  moreover have "\<not> (uo_MaxTotalSize opt > 0 \<and> int (length (hashed @ b)) > uo_MaxTotalSize opt)" using Cons.prems(5) b(1) by auto
  moreover have "os_ReadFile (partPath opt uid (pt_number p)) w = (Inr b, w)" "copy_to out b w = (Inr (), ?w)"
    using Cons.prems(1,3) b(2) by (simp_all add: os_ReadFile_def copy_to_def)
  moreover have "?w\<lparr>w_files := (w_files ?w)(out \<mapsto> (old @ b) @ concat bs)\<rparr> = w\<lparr>w_files := (w_files w)(out \<mapsto> old @ concat bodies)\<rparr>"
    by (simp add: b(1))
  ultimately show ?case unfolding copy_parts.simps attempt_def wthen_def by (simp only: prod.case sum.case if_False) (simp add: b(1) fun_upd_def)
qed

lemma check_parts_numbers: "check_parts i parts = None \<Longrightarrow> map pt_number parts = [i..i + int (length parts) - 1]"
proof (induction parts arbitrary: i)
  case (Cons p parts)
  then have "pt_number p = i" "check_parts (i + 1) parts = None" by (simp_all split: if_splits)
  with Cons.IH [of "i + 1"] show ?case by (simp add: upto_rec1)
qed simp

lemma assembleInlineUpload_Inr:
  assumes "w_os w = []" "w_dirs w (uploadDir opt uid)" "suffix ''.bin'' tmp"
    and "map (\<lambda>p. w_files w (partPath opt uid (pt_number p))) parts = map Some bodies"
    and "uo_MaxTotalSize opt > 0 \<longrightarrow> int (length (concat bodies)) \<le> uo_MaxTotalSize opt"
    and "md5 \<noteq> [] \<longrightarrow> EqualFold (hex_EncodeToString (d_md5 D (concat bodies))) md5"
  shows "assembleInlineUpload D opt tmp uid parts md5 w = (Inr (concat bodies, inline_meta D (concat bodies)),
    w\<lparr>w_files := (w_files w)(uploadDir opt uid @ ''/'' @ tmp := None)\<rparr>)"
proof -
  let ?out = "uploadDir opt uid @ ''/'' @ tmp"
  let ?w = "w\<lparr>w_files := (w_files w)(?out \<mapsto> [])\<rparr>"
  have out: "\<forall>n. ?out \<noteq> partPath opt uid n" using bin_not_part [OF assms(3)] by blast
  have "map (\<lambda>p. w_files ?w (partPath opt uid (pt_number p))) parts = map Some bodies" using assms(4) out by (simp add: fun_upd_other eq_commute)
  with assms(1,5) out have "copy_parts opt uid ?out parts [] ?w = (Inr ([] @ concat bodies), ?w\<lparr>w_files := (w_files ?w)(?out \<mapsto> [] @ concat bodies)\<rparr>)"
    by (intro copy_parts_all) simp_all
  then have "copy_parts opt uid ?out parts [] ?w = (Inr (concat bodies), w\<lparr>w_files := (w_files w)(?out \<mapsto> concat bodies)\<rparr>)" by simp
  with assms(1,2,6) show ?thesis
    by (auto simp: assembleInlineUpload_def os_CreateTemp_def wthen_def attempt_def ignoring_def os_ReadFile_def os_Remove_def wret_def)
qed



section \<open>A wrong digest\<close>

text \<open>
  With a store, an upload of the wrong digest is refused after it has replaced the
  content: the parts are put together under the name of the dataset's object before the
  digest is compared.  \<^verbatim>\<open>AssembleUpload\<close> fails, the row keeps the old checksum, and readers
  get the refused bytes.
\<close>

theorem refused_digest_replaces_content:
  fixes w :: "('v, 'o) world"
  assumes store: "uo_Store opt = Some C" "s3_objects C objs up" and h: "healthy (w_db w)"
    and rows: "filter (\<lambda>u. up_id u = uid) (uploads (w_db w)) = [u]" "up_dataset u = dsid" "up_backend u = DatasetStorageBackendS3"
      "filter (\<lambda>d. ds_uuid d = dsid) (datasets (w_db w)) = [d]" "row_ref d = Some (upload_ref u)"
    and parts: "parts_of uid (w_db w) = parts" "parts \<noteq> []" "check_parts 1 parts = None" "completed_parts parts = Some cps"
    and complete: "c_CompleteMultipartUpload C (or_Bucket (upload_ref u)) (or_Key (upload_ref u)) (nullableSQLString (up_backend_id u))
        (map (\<lambda>p. (mp_ETag p, mp_PartNumber p)) cps) (w_s3 w) = (Inr (), y)"
      "objs y (or_Bucket (upload_ref u), or_Key (upload_ref u)) = Some body" "up y"
    and md5: "md5 \<noteq> []" "\<not> EqualFold (hex_EncodeToString (d_md5 D body)) md5"
  shows "\<exists>w'. AssembleUpload D opt tmp dsid uid md5 w = (Inl (NewBadRequestError ''BadDigest''), w') \<and> tables (w_db w') = tables (w_db w)
    \<and> (\<exists>f. readable \<lparr>dv_store = Some C, dv_opt = uo_Storage opt\<rparr> dsid w' f \<and> file_bytes f = Inr body \<and> df_Checksum f = ds_checksum d)"
proof -
  define s where "s = w_db w"
  define w1 w2 w3 where ws: "w1 = w\<lparr>w_db := s\<lparr>faults := tl (faults s)\<rparr>\<rparr>" "w2 = w\<lparr>w_db := s\<lparr>faults := tl (tl (faults s))\<rparr>\<rparr>"
    "w3 = w\<lparr>w_db := s\<lparr>faults := tl (tl (tl (faults s)))\<rparr>\<rparr>"
  note h1 = healthy_tl [OF h [folded s_def]] and h2 = healthy_tl [OF healthy_tl [OF h [folded s_def]]]
  have steps: "ondb (FindDatasetUploadByID uid) w = (Inr u, w1)" "ondb (GetDatasetObjectRefByUUID dsid) w1 = (Inr d, w2)"
    "ondb (FindDatasetUploadParts uid) w2 = (Inr parts, w3)"
    using h h1 h2 rows parts(1)
    by (simp_all add: ws ondb_def FindDatasetUploadByID_def GetDatasetObjectRefByUUID_def FindDatasetUploadParts_def parts_of_def sel_def sel_one_def dbsimps s_def)
  let ?g = "c_GetObject C (or_Bucket (upload_ref u)) (or_Key (upload_ref u))"
  obtain r1 y1 where g1: "?g y = (r1, y1)" by force
  obtain r2 y2 where g2: "?g y1 = (r2, y2)" by force
  have r1: "r1 = Inr (Inr body)" and "up y1" "objs y1 = objs y" using s3_get [OF store(2) g1] complete(2,3) by blast+
  then have r2: "r2 = Inr (Inr body)" and up2: "up y2" "objs y2 = objs y" using s3_get [OF store(2) g2] complete(2) by metis+
  let ?w = "w3\<lparr>w_s3 := y2\<rparr>"
  have "assembleStoredUpload D C u parts md5 w3 = (Inl (NewBadRequestError ''BadDigest''), ?w)"
    using parts(4) complete(1) g1 g2 r1 r2 md5
    by (simp add: assembleStoredUpload_def S3_CompleteMultipartUpload_def S3_GetObject_def object_ref_def wthen_def attempt_def ons3_def wret_def wfail_def ws)
  then have "AssembleUpload D opt tmp dsid uid md5 w = (Inl (NewBadRequestError ''BadDigest''), ?w)"
    using steps rows(2,3) parts(2,3) store(1)
    by (simp add: AssembleUpload_def find_upload_def wthen_def attempt_def upload_store_def wfail_def)
  moreover have "tables (w_db ?w) = tables (w_db w)" by (simp add: ws s_def)
  moreover have "ondb (GetDatasetContentByUUID dsid) ?w = (Inr d, ?w\<lparr>w_db := (w_db ?w)\<lparr>faults := tl (faults (w_db ?w))\<rparr>\<rparr>)"
    using healthy_find_row(3) [of ?w dsid d "[]"] healthy_tl [OF h2] rows(4) by (simp add: ws s_def)
  moreover obtain r3 y3 where g3: "?g y2 = (r3, y3)" by force
  moreover have "r3 = Inr (Inr body)" using s3_get(4) [OF store(2) g3 up2(1)] up2(2) complete(2) by simp
  ultimately show ?thesis using rows(5)
    by (intro exI [of _ ?w]) (simp add: readable_def file_bytes_def GetDatasetContentByUuid_def S3_GetObject_def wthen_def attempt_def ons3_def wret_def)
qed

section \<open>Examples\<close>

definition file_options :: "mem DatasetUploadOptions" where
  "file_options = \<lparr>uo_Domain = [], uo_RootDir = ''/up'', uo_MaxPartSize = 100, uo_MaxTotalSize = 1000,
     uo_Storage = \<lparr>so_Backend = ''inline'', so_Domain = [], so_S3 = None\<rparr>, uo_Store = None\<rparr>"

definition store_options :: "mem DatasetUploadOptions" where
  "store_options = file_options\<lparr>uo_Storage := s3_options, uo_Store := Some mem_client\<rparr>"

definition begun :: "mem DatasetUploadOptions \<Rightarrow> (unit, mem) world" where
  "begun opt = snd (UploadPart plain_digests opt ''d1'' ''u1'' 1 [] (''xyz'', None) (snd (CreateUpload opt ''u1'' ''d1'' ''aa'' stored_world)))"

lemma Inr_unit: "isl (fst x) = False \<Longrightarrow> x = (Inr (), snd x)"
  by (cases x; cases "fst x") auto



theorem refused_digest_replaces_content_witness:
  "\<exists>w' f. AssembleUpload plain_digests store_options ''t.bin'' ''d1'' ''u1'' ''00'' (begun store_options) = (Inl (NewBadRequestError ''BadDigest''), w')
    \<and> readable \<lparr>dv_store = Some mem_client, dv_opt = s3_options\<rparr> ''d1'' w' f \<and> file_bytes f = Inr ''xyz''"
proof -
  let ?w = "begun store_options" let ?u = "hd (uploads (w_db ?w))" let ?ps = "parts_of ''u1'' (w_db ?w)"
  let ?c = "c_CompleteMultipartUpload mem_client (or_Bucket (upload_ref ?u)) (or_Key (upload_ref ?u)) (nullableSQLString (up_backend_id ?u))
        (map (\<lambda>p. (mp_ETag p, mp_PartNumber p)) (the (completed_parts ?ps))) (w_s3 ?w)"
  have st: "uo_Store store_options = Some mem_client" "uo_Storage store_options = s3_options" by (simp_all add: store_options_def)
  have "isl (fst ?c) = False" by code_simp
  then have c: "?c = (Inr (), snd ?c)" by (rule Inr_unit)
  have f1: "healthy (w_db ?w)" by code_simp
  have f2: "filter (\<lambda>u. up_id u = ''u1'') (uploads (w_db ?w)) = [?u]" by code_simp
  have f3: "up_dataset ?u = ''d1''" by code_simp
  have f4: "up_backend ?u = DatasetStorageBackendS3" by code_simp
  have f5: "filter (\<lambda>d. ds_uuid d = ''d1'') (datasets (w_db ?w)) = [hd (datasets (w_db ?w))]" by code_simp
  have f6: "row_ref (hd (datasets (w_db ?w))) = Some (upload_ref ?u)" by code_simp
  have f7: "?ps \<noteq> []" by code_simp
  have f8: "check_parts 1 ?ps = None" by code_simp
  have f9: "completed_parts ?ps = Some (the (completed_parts ?ps))" by code_simp
  have f10: "m_objects (snd ?c) (or_Bucket (upload_ref ?u), or_Key (upload_ref ?u)) = Some ''xyz''" by code_simp
  have f11: "\<not> EqualFold (hex_EncodeToString (d_md5 plain_digests ''xyz'')) ''00''" by code_simp
  from refused_digest_replaces_content [OF st(1) mem_client_laws f1 f2 f3 f4 f5 f6 refl f7 f8 f9 c f10 TrueI _ f11, of "''t.bin''"] st(2)
  show ?thesis by auto
qed

end
