(* ===== verification/Timeseries.thy ===== *)
theory Timeseries
  imports TsData Things
begin

text \<open>
  \<^verbatim>\<open>TimeseriesService\<close> of \<^verbatim>\<open>internal/services/timeseries.go\<close> with the queries of
  \<^verbatim>\<open>timeseries.sql\<close> and \<^verbatim>\<open>tsdata.sql\<close>.  The \<^verbatim>\<open>units\<close> package is a record of functions, and
  \<^verbatim>\<open>time.LoadLocation\<close> a function from names to zones; both are arguments.
\<close>

record 'v units_api =
  un_Find :: "string \<Rightarrow> string option"
  un_Convert :: "'v \<Rightarrow> string \<Rightarrow> string \<Rightarrow> 'v option"

section \<open>Queries on time series\<close>

definition ExistsTimeseries :: "uuid \<Rightarrow> ('v, int) dbm" where
  "ExistsTimeseries tid = sel (\<lambda>s. int (length (filter (\<lambda>t. ts_uuid t = tid) (timeseries s))))"

definition CountExistingTimeseries :: "uuid list \<Rightarrow> ('v, int) dbm" where
  "CountExistingTimeseries ids = sel (\<lambda>s. int (length (filter (\<lambda>t. ts_uuid t \<in> set ids) (timeseries s))))"

definition thing_ok :: "'v db \<Rightarrow> uuid option \<Rightarrow> bool" where
  "thing_ok s t = (case t of None \<Rightarrow> True | Some x \<Rightarrow> x \<in> set (map th_uuid (things s)))"

definition CreateTimeseries :: "uuid list \<Rightarrow> 'v timeseries_row \<Rightarrow> ('v, 'v timeseries_row) dbm" where
  "CreateTimeseries pids t = stmt (\<lambda>s.
     if ts_uuid t \<in> set (map ts_uuid (timeseries s)) then (Inl unique_violation, s)
     else (case grant_owner ''timeseries'' (ts_uuid t) (ts_created_by t) pids (s\<lparr>timeseries := timeseries s @ [t]\<rparr>) of
             (Inl e, _) \<Rightarrow> (Inl e, s)
           | (Inr _, s') \<Rightarrow> if creator_ok s (ts_created_by t) \<and> thing_ok s (ts_thing t) then (Inr t, s')
                           else (Inl fk_violation, s)))"

definition FindTimeseriesByUUID :: "uuid \<Rightarrow> ('v, 'v timeseries_row) dbm" where
  "FindTimeseriesByUUID tid = sel_one (\<lambda>s. filter (\<lambda>t. ts_uuid t = tid) (timeseries s))"

definition GetTimeseriesByUUID :: "uuid \<Rightarrow> ('v, 'v timeseries_row) dbm" where
  "GetTimeseriesByUUID tid = sel_one (\<lambda>s. filter (\<lambda>t. ts_uuid t = tid) (timeseries s))"

definition GetUnitFromTimeseries :: "uuid \<Rightarrow> ('v, string) dbm" where
  "GetUnitFromTimeseries tid = sel_one (\<lambda>s. map ts_si_unit (filter (\<lambda>t. ts_uuid t = tid) (timeseries s)))"

definition FindTimeseries :: "(string \<Rightarrow> string) \<Rightarrow> string \<Rightarrow> int \<Rightarrow> int \<Rightarrow> ('v, 'v timeseries_row list) dbm" where
  "FindTimeseries sha token limit offset = sel_page limit offset (\<lambda>s.
     sort_key ts_name (listed sha token (\<lambda>t. ''timeseries/'' @ ts_uuid t) s (timeseries s)))"

definition FindTimeseriesByTags ::
  "(string \<Rightarrow> string) \<Rightarrow> string \<Rightarrow> string list \<Rightarrow> int \<Rightarrow> int \<Rightarrow> ('v, 'v timeseries_row list) dbm" where
  "FindTimeseriesByTags sha token tags limit offset = sel_page limit offset (\<lambda>s.
     sort_key ts_name (listed sha token (\<lambda>t. ''timeseries/'' @ ts_uuid t) s
       (filter (\<lambda>t. overlap tags (ts_tags t)) (timeseries s))))"

definition FindTimeseriesByThing :: "uuid \<Rightarrow> ('v, 'v timeseries_row list) dbm" where
  "FindTimeseriesByThing thing = sel (\<lambda>s. sort_key ts_name (filter (\<lambda>t. ts_thing t = Some thing) (timeseries s)))"

definition update_series :: "uuid \<Rightarrow> ('v timeseries_row \<Rightarrow> 'v timeseries_row) \<Rightarrow> 'v db \<Rightarrow> int res \<times> 'v db" where
  "update_series tid f s = (Inr (int (length (filter (\<lambda>t. ts_uuid t = tid) (timeseries s)))),
     s\<lparr>timeseries := map (\<lambda>t. if ts_uuid t = tid then f t else t) (timeseries s)\<rparr>)"

definition SetTimeseriesName :: "uuid \<Rightarrow> string \<Rightarrow> ('v, int) dbm" where
  "SetTimeseriesName tid name = stmt (update_series tid (\<lambda>t. t\<lparr>ts_name := name\<rparr>))"

definition SetTimeseriesSiUnit :: "uuid \<Rightarrow> string \<Rightarrow> ('v, int) dbm" where
  "SetTimeseriesSiUnit tid u = stmt (update_series tid (\<lambda>t. t\<lparr>ts_si_unit := u\<rparr>))"

definition SetTimeseriesThing :: "uuid \<Rightarrow> uuid option \<Rightarrow> ('v, int) dbm" where
  "SetTimeseriesThing tid thing = stmt (\<lambda>s.
     if filter (\<lambda>t. ts_uuid t = tid) (timeseries s) = [] \<or> thing_ok s thing
     then update_series tid (\<lambda>t. t\<lparr>ts_thing := thing\<rparr>) s else (Inl fk_violation, s))"

definition SetTimeseriesLowerBound :: "uuid \<Rightarrow> 'v option \<Rightarrow> ('v, int) dbm" where
  "SetTimeseriesLowerBound tid b = stmt (update_series tid (\<lambda>t. t\<lparr>ts_lower := b\<rparr>))"

definition SetTimeseriesUpperBound :: "uuid \<Rightarrow> 'v option \<Rightarrow> ('v, int) dbm" where
  "SetTimeseriesUpperBound tid b = stmt (update_series tid (\<lambda>t. t\<lparr>ts_upper := b\<rparr>))"

definition SetTimeseriesTags :: "uuid \<Rightarrow> string list \<Rightarrow> ('v, int) dbm" where
  "SetTimeseriesTags tid tags = stmt (update_series tid (\<lambda>t. t\<lparr>ts_tags := tags\<rparr>))"

text \<open>
  Data points hold on to their series (a foreign key without an action), rollups go with
  it.
\<close>

definition DeleteTimeseries_query :: "uuid \<Rightarrow> ('v, int) dbm" where
  "DeleteTimeseries_query tid = stmt (\<lambda>s.
     if tid \<in> set (map ts_uuid (timeseries s)) \<and> tid \<in> set (map td_uuid (tsdata s)) then (Inl fk_violation, s)
     else (Inr (int (length (filter (\<lambda>t. ts_uuid t = tid) (timeseries s)))),
           s\<lparr>timeseries := filter (\<lambda>t. ts_uuid t \<noteq> tid) (timeseries s),
             hourly := filter (\<lambda>r. ru_uuid r \<noteq> tid) (hourly s),
             daily := filter (\<lambda>r. ru_uuid r \<noteq> tid) (daily s)\<rparr>))"

section \<open>Points into a series\<close>

record 'v DataPoint =
  dp_Value :: 'v
  dp_Timestamp :: int

record 'v AddDataToTimeseriesParams =
  ad_Uuid :: uuid
  ad_Points :: "'v DataPoint list"
  ad_CreatedBy :: uuid
  ad_Unit :: "string option"

text \<open>The unit a request names, when it is not the unit of the series: both ends of the conversion.\<close>

definition resolve_units :: "'v units_api \<Rightarrow> string option \<Rightarrow> string \<Rightarrow> (string \<times> string) option res" where
  "resolve_units U u tsUnit = (case u of None \<Rightarrow> Inr None | Some x \<Rightarrow>
     if tsUnit = x then Inr None
     else (case un_Find U x of None \<Rightarrow> Inl ErrorInvalidUnit
           | Some a \<Rightarrow> (case un_Find U tsUnit of None \<Rightarrow> Inl ErrorInvalidUnit | Some b \<Rightarrow> Inr (Some (a, b)))))"

fun filter_points :: "'v fops \<Rightarrow> 'v units_api \<Rightarrow> (string \<times> string) option \<Rightarrow> 'v timeseries_row \<Rightarrow> 'v DataPoint list
    \<Rightarrow> 'v DataPoint list res" where
  "filter_points F U units series [] = Inr []"
| "filter_points F U units series (item # rest) =
     (case (case units of None \<Rightarrow> Some (dp_Value item) | Some (from, to) \<Rightarrow> un_Convert U (dp_Value item) from to) of
        None \<Rightarrow> Inl ErrorInvalidUnitConversion
      | Some v \<Rightarrow>
          if (case ts_lower series of None \<Rightarrow> False | Some b \<Rightarrow> f_lt F v b)
             \<or> (case ts_upper series of None \<Rightarrow> False | Some b \<Rightarrow> f_lt F b v)
          then filter_points F U units series rest
          else (case filter_points F U units series rest of Inl e \<Rightarrow> Inl e
                | Inr ps \<Rightarrow> Inr (item\<lparr>dp_Value := v\<rparr> # ps)))"

definition insertTimeseriesBatchSize :: nat where
  "insertTimeseriesBatchSize = 256"

definition insertTimeseriesBatch :: "'v fops \<Rightarrow> uuid \<Rightarrow> uuid \<Rightarrow> 'v DataPoint list \<Rightarrow> ('v, int) dbm" where
  "insertTimeseriesBatch F tid createdBy points =
     insert_tsdata F (map (\<lambda>p. \<lparr>td_uuid = tid, td_value = dp_Value p, td_ts = to_us (dp_Timestamp p),
                                td_created_by = Some createdBy\<rparr>) points)"

text \<open>\<^verbatim>\<open>for start := 0; start < len(points); start += size\<close>: one statement per batch, no transaction.\<close>

function insert_batches :: "'v fops \<Rightarrow> uuid \<Rightarrow> uuid \<Rightarrow> 'v DataPoint list \<Rightarrow> int \<Rightarrow> ('v, int) dbm" where
  "insert_batches F tid createdBy points totalCount =
     (if points = [] then ret totalCount
      else andthen (insertTimeseriesBatch F tid createdBy (take insertTimeseriesBatchSize points)) (\<lambda>count.
             insert_batches F tid createdBy (drop insertTimeseriesBatchSize points) (totalCount + count)))"
  by pat_completeness auto
termination
  by (relation "measure (\<lambda>(F, tid, cb, points, n). length points)") (auto simp: insertTimeseriesBatchSize_def)

declare insert_batches.simps [simp del]

definition AddDataToTimeseries :: "'v fops \<Rightarrow> 'v units_api \<Rightarrow> 'v AddDataToTimeseriesParams \<Rightarrow> ('v, int) dbm" where
  "AddDataToTimeseries F U p =
     andthen (GetTimeseriesByUUID (ad_Uuid p)) (\<lambda>series.
     andthen (case ad_Unit p of None \<Rightarrow> ret None
              | Some u \<Rightarrow> andthen (GetUnitFromTimeseries (ad_Uuid p)) (\<lambda>tsUnit.
                  case resolve_units U (ad_Unit p) tsUnit of Inl e \<Rightarrow> fail e | Inr us \<Rightarrow> ret us)) (\<lambda>units.
     case filter_points F U units series (ad_Points p) of
       Inl e \<Rightarrow> fail e
     | Inr filtered \<Rightarrow> if filtered = [] then ret 0 else insert_batches F (ad_Uuid p) (ad_CreatedBy p) filtered 0))"

section \<open>Series\<close>

definition Timeseries_Exists :: "uuid \<Rightarrow> ('v, bool) dbm" where
  "Timeseries_Exists tid = andthen (ExistsTimeseries tid) (\<lambda>found. ret (found > 0))"

definition ExistAll :: "uuid list \<Rightarrow> ('v, bool) dbm" where
  "ExistAll ids = (if ids = [] then ret True
     else andthen (CountExistingTimeseries ids) (\<lambda>count. ret (count = int (length ids))))"

record 'v NewTimeseriesParams =
  nt_CreatedBy :: uuid
  nt_ThingUuid :: uuid
  nt_Name :: string
  nt_SiUnit :: string
  nt_Tags :: "string list"
  nt_LowerBound :: "'v option"
  nt_UpperBound :: "'v option"

text \<open>\<^verbatim>\<open>NULLIF\<close> in the query turns the nil UUID into no thing.\<close>

record 'v rest_Timeseries =
  rs_Uuid :: string
  rs_Name :: string
  rs_SiUnit :: string
  rs_UpperBound :: "'v option"
  rs_LowerBound :: "'v option"
  rs_Tags :: "string list"
  rs_CreatedBy :: string
  rs_ThingUuid :: "string option"

definition rest_timeseries :: "'v timeseries_row \<Rightarrow> 'v rest_Timeseries" where
  "rest_timeseries t = \<lparr>rs_Uuid = ts_uuid t, rs_Name = ts_name t, rs_SiUnit = ts_si_unit t,
     rs_UpperBound = ts_upper t, rs_LowerBound = ts_lower t, rs_Tags = ts_tags t,
     rs_CreatedBy = nullableUUIDString (ts_created_by t), rs_ThingUuid = ts_thing t\<rparr>"

definition AddTimeseries :: "uuid \<Rightarrow> uuid list \<Rightarrow> 'v NewTimeseriesParams \<Rightarrow> ('v, 'v rest_Timeseries) dbm" where
  "AddTimeseries newid pids opt = andthen (with_tx (CreateTimeseries pids
     \<lparr>ts_uuid = newid, ts_thing = (if nt_ThingUuid opt = NilUUID then None else Some (nt_ThingUuid opt)),
      ts_name = nt_Name opt, ts_si_unit = nt_SiUnit opt, ts_lower = nt_LowerBound opt, ts_upper = nt_UpperBound opt,
      ts_created_by = Some (nt_CreatedBy opt), ts_tags = nt_Tags opt\<rparr>)) (\<lambda>t. ret (rest_timeseries t))"

definition Timeseries_FindByTags ::
  "(string \<Rightarrow> string) \<Rightarrow> string \<Rightarrow> string list \<Rightarrow> int option \<Rightarrow> int option \<Rightarrow> ('v, 'v rest_Timeseries list) dbm" where
  "Timeseries_FindByTags sha token tags limit offset =
     andthen (FindTimeseriesByTags sha token tags (Pagination_Scan limit) (Pagination_Scan offset)) (\<lambda>tsList.
       ret (map rest_timeseries tsList))"

definition FindByThing :: "uuid \<Rightarrow> ('v, 'v rest_Timeseries list) dbm" where
  "FindByThing thing = andthen (FindTimeseriesByThing thing) (\<lambda>tsList.
     if tsList = [] then andthen (ExistsThing thing) (\<lambda>count. if count = 0 then fail ErrorNotFound else ret [])
     else ret (map rest_timeseries tsList))"

definition Timeseries_FindByUuid :: "uuid \<Rightarrow> ('v, 'v rest_Timeseries) dbm" where
  "Timeseries_FindByUuid tid = andthen (FindTimeseriesByUUID tid) (\<lambda>t. ret (rest_timeseries t))"

definition Timeseries_FindAll ::
  "(string \<Rightarrow> string) \<Rightarrow> string \<Rightarrow> int option \<Rightarrow> int option \<Rightarrow> ('v, 'v rest_Timeseries list) dbm" where
  "Timeseries_FindAll sha token limit offset =
     andthen (FindTimeseries sha token (Pagination_Scan limit) (Pagination_Scan offset)) (\<lambda>tsList.
       ret (map rest_timeseries tsList))"

record 'v UpdateTimeseriesParams =
  ut_Uuid :: uuid
  ut_ThingUuid :: "uuid option"
  ut_LowerBound :: "'v option option"
  ut_UpperBound :: "'v option option"
  ut_Name :: "string option"
  ut_SiUnit :: "string option"
  ut_Tags :: "string list option"

definition UpdateTimeseries :: "'v UpdateTimeseriesParams \<Rightarrow> ('v, int) dbm" where
  "UpdateTimeseries p = with_tx (
     andthen (opt_step (ut_Name p) (SetTimeseriesName (ut_Uuid p)) 0) (\<lambda>count.
     andthen (opt_step (ut_SiUnit p) (SetTimeseriesSiUnit (ut_Uuid p)) count) (\<lambda>count.
     andthen (opt_step (ut_ThingUuid p) (\<lambda>t. SetTimeseriesThing (ut_Uuid p) (Some t)) count) (\<lambda>count.
     andthen (opt_step (ut_LowerBound p) (SetTimeseriesLowerBound (ut_Uuid p)) count) (\<lambda>count.
     andthen (opt_step (ut_UpperBound p) (SetTimeseriesUpperBound (ut_Uuid p)) count) (\<lambda>count.
     opt_step (ut_Tags p) (SetTimeseriesTags (ut_Uuid p)) count))))))"

definition DeleteTimeseries :: "uuid \<Rightarrow> ('v, int) dbm" where
  "DeleteTimeseries tid = DeleteTimeseries_query tid"

record 'v DeleteTsDataParams =
  dd_Uuid :: uuid
  dd_Start :: int
  dd_End :: int
  dd_GreaterOrEq :: "'v option"
  dd_LessOrEq :: "'v option"

definition DeleteTsData :: "'v fops \<Rightarrow> 'v DeleteTsDataParams \<Rightarrow> ('v, int) dbm" where
  "DeleteTsData F p = DeleteTsDataRange F [dd_Uuid p] (dd_Start p) (dd_End p) (dd_GreaterOrEq p) (dd_LessOrEq p)"

section \<open>Reading one series\<close>

definition shouldAggregateData :: "string \<Rightarrow> string \<Rightarrow> bool" where
  "shouldAggregateData aggregate precision \<longleftrightarrow> TrimSpace precision \<noteq> '''' \<and> TrimSpace aggregate \<noteq> ''''"

definition validateSingleSeriesPointLimit :: "int \<Rightarrow> int \<Rightarrow> go_error option" where
  "validateSingleSeriesPointLimit points maxPoints =
     (if maxPoints > 0 \<and> points > maxPoints
      then Some (NewHTTPError None 413 (''timeseries query returned '' @ Itoa points @ '' points, limit is '' @ Itoa maxPoints))
      else None)"

record 'v QuerySingleSourceDataParams =
  qs_Uuid :: uuid
  qs_Start :: int
  qs_End :: int
  qs_GreaterOrEq :: "'v option"
  qs_LessOrEq :: "'v option"
  qs_Unit :: "string option"
  qs_Aggregate :: string
  qs_Precision :: string
  qs_Timezone :: string
  qs_UseRollups :: bool
  qs_MaxPoints :: int

text \<open>One query per raw rest, their rows appended.\<close>

fun load_raw :: "uuid list \<Rightarrow> timeRange list \<Rightarrow> ('v, 'v data_row list) dbm" where
  "load_raw uuids [] = ret []"
| "load_raw uuids (r # rs) = andthen (GetTsDataRange uuids (fst r) (snd r)) (\<lambda>rows.
     andthen (load_raw uuids rs) (\<lambda>more. ret (rows @ more)))"

definition loadAggregateSources ::
  "uuid list \<Rightarrow> int \<Rightarrow> int \<Rightarrow> string \<Rightarrow> ('v, 'v data_row list \<times> 'v aggregateRollupRow list) dbm" where
  "loadAggregateSources uuids start stop precision =
     (let source = rollupSourceForPrecision True ''UTC'' precision;
          (rollupRange, rawRanges) = splitRollupRanges start stop source
      in andthen (load_raw uuids rawRanges) (\<lambda>rawRows.
           case rollupRange of
             None \<Rightarrow> ret (rawRows, [])
           | Some (a, b) \<Rightarrow>
               if source = ''daily'' then andthen (GetTsDailyRollupRange uuids a b) (\<lambda>rows. ret (rawRows, rows))
               else if source = ''hourly'' then andthen (GetTsHourlyRollupRange uuids a b) (\<lambda>rows. ret (rawRows, rows))
               else ret (rawRows, [])))"

definition agg_of :: "'v QuerySingleSourceDataParams \<Rightarrow> 'v agg_params" where
  "agg_of p = \<lparr>ap_Aggregate = qs_Aggregate p, ap_Precision = qs_Precision p,
     ap_LessOrEq = qs_LessOrEq p, ap_GreaterOrEq = qs_GreaterOrEq p\<rparr>"

definition lift_res :: "'a res \<Rightarrow> ('v, 'a) dbm" where
  "lift_res r = (case r of Inl e \<Rightarrow> fail e | Inr a \<Rightarrow> ret a)"

definition querySingleSourceAggregatedData ::
  "'v fops \<Rightarrow> ('v \<Rightarrow> 'v option) option \<Rightarrow> 'v QuerySingleSourceDataParams \<Rightarrow> zone \<Rightarrow> ('v, 'v TsRow list) dbm" where
  "querySingleSourceAggregatedData F conv p z =
     (if rollupSourceForPrecision (qs_UseRollups p) (qs_Timezone p) (qs_Precision p) \<noteq> ''''
      then andthen (loadAggregateSources [qs_Uuid p] (qs_Start p) (qs_End p) (qs_Precision p)) (\<lambda>(rawRows, rollupRows).
             lift_res (aggregateSingleSourceFromSources F conv rawRows rollupRows (agg_of p) z))
      else andthen (GetTsDataRange [qs_Uuid p] (qs_Start p) (qs_End p)) (\<lambda>dataList.
             lift_res (aggregateSingleSourceRows F conv dataList (agg_of p) z)))"

text \<open>The loop over raw rows: conversion, rounding, filter.\<close>

fun raw_rows :: "'v fops \<Rightarrow> ('v \<Rightarrow> 'v option) option \<Rightarrow> 'v agg_params \<Rightarrow> 'v data_row list \<Rightarrow> 'v TsRow list res" where
  "raw_rows F conv p [] = Inr []"
| "raw_rows F conv p (item # rest) =
     (case (case conv of None \<Rightarrow> Some (dr_value item) | Some c \<Rightarrow> c (dr_value item)) of
        None \<Rightarrow> Inl ErrorInvalidUnitConversion
      | Some w \<Rightarrow> let f = f_single F w in
          (case raw_rows F conv p rest of Inl e \<Rightarrow> Inl e
           | Inr rows \<Rightarrow> Inr ((if inValidRange F f (ap_LessOrEq p) (ap_GreaterOrEq p)
                               then [\<lparr>tr_V = f, tr_Ts = dr_ts item\<rparr>] else []) @ rows)))"

text \<open>An empty answer is only given for a series that exists; then the limit is checked.\<close>

definition finish_single :: "'v QuerySingleSourceDataParams \<Rightarrow> 'v TsRow list \<Rightarrow> ('v, 'v TsRow list) dbm" where
  "finish_single p rows =
     andthen (if rows = [] then andthen (FindTimeseriesByUUID (qs_Uuid p)) (\<lambda>_. ret ()) else ret ()) (\<lambda>_.
       case validateSingleSeriesPointLimit (int (length rows)) (qs_MaxPoints p) of Some e \<Rightarrow> fail e | None \<Rightarrow> ret rows)"

definition single_conv :: "'v units_api \<Rightarrow> (string \<times> string) option \<Rightarrow> ('v \<Rightarrow> 'v option) option" where
  "single_conv U us = (case us of None \<Rightarrow> None | Some (to, from) \<Rightarrow> Some (\<lambda>v. un_Convert U v from to))"

definition QuerySingleSourceData ::
  "'v fops \<Rightarrow> 'v units_api \<Rightarrow> (string \<Rightarrow> zone res) \<Rightarrow> 'v QuerySingleSourceDataParams \<Rightarrow> ('v, 'v TsRow list) dbm" where
  "QuerySingleSourceData F U loc p =
     andthen (case qs_Unit p of None \<Rightarrow> ret None
              | Some u \<Rightarrow> andthen (GetUnitFromTimeseries (qs_Uuid p)) (\<lambda>tsUnit. lift_res (resolve_units U (qs_Unit p) tsUnit))) (\<lambda>us.
     andthen (lift_res (loc (qs_Timezone p))) (\<lambda>tzloc.
     if shouldAggregateData (qs_Aggregate p) (qs_Precision p)
     then andthen (querySingleSourceAggregatedData F (single_conv U us) p tzloc) (finish_single p)
     else andthen (GetTsDataRange [qs_Uuid p] (qs_Start p) (qs_End p)) (\<lambda>dataList.
          andthen (lift_res (raw_rows F (single_conv U us) (agg_of p) dataList)) (finish_single p))))"

end
