(* ===== verification/TimeseriesFacts.thy ===== *)
theory TimeseriesFacts
  imports Timeseries
begin

text \<open>
  Correctness of the time series service: what is stored when points are added, what is
  read back, and that an hourly aggregate is the same from rollups as from raw data.
\<close>

section \<open>Reading a healthy database\<close>

text \<open>\<open>answers m f\<close>: on a connection without faults, \<open>m\<close> returns \<open>f\<close> of the tables and changes nothing.\<close>

definition answers :: "('v, 'a) dbm \<Rightarrow> ('v db \<Rightarrow> 'a res) \<Rightarrow> bool" where
  "answers m f \<longleftrightarrow> (\<forall>s. healthy s \<longrightarrow> (\<exists>fs. m s = (f (tables s), s\<lparr>faults := fs\<rparr>) \<and> healthy (s\<lparr>faults := fs\<rparr>)))"

lemma answersD: "answers m f \<Longrightarrow> healthy s \<Longrightarrow> fst (m s) = f (tables s)"
  unfolding answers_def by fastforce

lemma answers_ret: "answers (ret a) (\<lambda>_. Inr a)"
  unfolding answers_def ret_def by (metis faults_id)

lemma answers_fail: "answers (fail e) (\<lambda>_. Inl e)"
  unfolding answers_def fail_def by (metis faults_id)

lemma answers_lift_res: "answers (lift_res r) (\<lambda>_. r)"
  by (cases r) (simp_all add: lift_res_def answers_ret answers_fail)

lemma answers_stmt:
  assumes "\<And>s. f s = (g (tables s), s)"
  shows "answers (stmt f) g"
  unfolding answers_def using assms by (auto simp: dbsimps)

lemma answers_sel: "(\<And>s. f (tables s) = f s) \<Longrightarrow> answers (sel f) (\<lambda>t. Inr (f t))"
  unfolding sel_def by (rule answers_stmt) simp

lemma answers_sel_one:
  "(\<And>s. f (tables s) = f s) \<Longrightarrow> answers (sel_one f) (\<lambda>t. case f t of [] \<Rightarrow> Inl no_rows | r # _ \<Rightarrow> Inr r)"
  unfolding sel_one_def by (rule answers_stmt) simp

lemma answers_andthen:
  assumes m: "answers m f" and k: "\<And>a. answers (k a) (h a)"
  shows "answers (andthen m k) (\<lambda>t. case f t of Inl e \<Rightarrow> Inl e | Inr a \<Rightarrow> h a t)"
  unfolding answers_def
proof (intro allI impI)
  fix s :: "'a db" assume "healthy s"
  with m obtain fs where fs: "m s = (f (tables s), s\<lparr>faults := fs\<rparr>)" "healthy (s\<lparr>faults := fs\<rparr>)" unfolding answers_def by blast
  show "\<exists>fs. andthen m k s = (case f (tables s) of Inl e \<Rightarrow> Inl e | Inr a \<Rightarrow> h a (tables s), s\<lparr>faults := fs\<rparr>) \<and> healthy (s\<lparr>faults := fs\<rparr>)"
  proof (cases "f (tables s)")
    case (Inl e)
    with fs show ?thesis by (auto simp: andthen_def)
  next
    case (Inr a)
    from k [of a] fs(2) obtain fs' where "k a (s\<lparr>faults := fs\<rparr>) = (h a (tables s), s\<lparr>faults := fs'\<rparr>)" "healthy (s\<lparr>faults := fs'\<rparr>)"
      unfolding answers_def by fastforce
    with fs Inr show ?thesis by (auto simp: andthen_def)
  qed
qed

lemma answers_cong: "answers m f \<Longrightarrow> (\<And>t. f t = g t) \<Longrightarrow> answers m g"
  unfolding answers_def by simp

lemma answers_if: "answers a f \<Longrightarrow> answers b g \<Longrightarrow> answers (if c then a else b) (if c then f else g)"
  by simp

definition range_rows :: "uuid list \<Rightarrow> int \<Rightarrow> int \<Rightarrow> 'v db \<Rightarrow> 'v data_row list" where
  "range_rows uuids start stop s = map to_data_row (filter (in_query uuids start stop) (tsdata s))"

lemma tables_simps [simp]: "tsdata (tables s) = tsdata s" "hourly (tables s) = hourly s" "daily (tables s) = daily s"
  "timeseries (tables s) = timeseries s"
  by (simp_all add: tables_def)

lemma answers_GetTsDataRange: "answers (GetTsDataRange uuids start stop) (\<lambda>t. Inr (range_rows uuids start stop t))"
  unfolding GetTsDataRange_def range_rows_def by (rule answers_sel) simp

lemma answers_GetTsHourlyRollupRange:
  "answers (GetTsHourlyRollupRange uuids start stop) (\<lambda>t. Inr (rollup_range uuids start stop (hourly t)))"
  unfolding GetTsHourlyRollupRange_def by (rule answers_sel) simp

lemma answers_load_raw:
  "answers (load_raw uuids rs) (\<lambda>t. Inr (concat (map (\<lambda>r. range_rows uuids (fst r) (snd r) t) rs)))"
proof (induction rs)
  case Nil
  show ?case by (simp add: answers_ret)
next
  case (Cons r rs)
  show ?case unfolding load_raw.simps
    by (rule answers_cong, (rule answers_andthen answers_GetTsDataRange Cons.IH answers_ret)+) simp
qed

section \<open>Each stored point once\<close>

lemma mset_concat_filters_Cons:
  "mset (concat (map (\<lambda>P. filter P (x # xs)) Ps)) =
     replicate_mset (length (filter (\<lambda>P. P x) Ps)) x + mset (concat (map (\<lambda>P. filter P xs) Ps))"
  by (induction Ps) auto

lemma mset_concat_filters:
  assumes "\<And>x. x \<in> set xs \<Longrightarrow> length (filter (\<lambda>P. P x) Ps) = (if Q x then 1 else 0)"
  shows "mset (concat (map (\<lambda>P. filter P xs) Ps)) = mset (filter Q xs)"
  using assms
proof (induction xs)
  case Nil
  have "concat (map (\<lambda>P. filter P []) Ps) = []" by (induction Ps) auto
  then show ?case by simp
next
  case (Cons x xs)
  then show ?case unfolding mset_concat_filters_Cons by simp
qed

lemma filter_key_length:
  assumes "distinct (map f xs)"
  shows "length (filter (\<lambda>x. f x = k) xs) = (if k \<in> set (map f xs) then 1 else 0)"
proof (cases "k \<in> set (map f xs)")
  case True
  then obtain x where "x \<in> set xs" "f x = k" by auto
  from filter_key_unique [OF assms this] True show ?thesis by simp
next
  case False
  then show ?thesis by (simp add: filter_key_notin)
qed

definition data_ok :: "'v db \<Rightarrow> bool" where
  "data_ok s \<longleftrightarrow> (\<forall>d\<in>set (tsdata s). td_ts d mod microsecond = 0)"

definition point_cell :: "'v db \<Rightarrow> 'v aggregateRollupRow \<Rightarrow> 'v data_row list" where
  "point_cell s r = map to_data_row (filter (\<lambda>d. hour_key d = (ar_uuid r, ar_bucket r)) (tsdata s))"

definition hour_rolls :: "uuid \<Rightarrow> timeRange option \<Rightarrow> 'v db \<Rightarrow> 'v aggregateRollupRow list" where
  "hour_rolls u roll s = (case roll of None \<Rightarrow> [] | Some (a, b) \<Rightarrow> rollup_range [u] a b (hourly s))"

lemma split_grid_aligned:
  assumes "split_grid unit start stop = (Some (a, b), raws)" "0 < unit"
  shows "a mod unit = 0" "b mod unit = 0"
proof -
  have "Truncate unit start mod unit = 0 \<and> Truncate unit stop mod unit = 0" by simp
  then have "(Truncate unit start + unit) mod unit = 0" "(Truncate unit stop - unit) mod unit = 0"
    by (simp_all add: mod_diff_right_eq)
  with assms show "a mod unit = 0" "b mod unit = 0"
    by (auto simp: split_grid_def Let_def split: if_splits) (metis Truncate_mod)+
qed

lemma hour_hits:
  assumes ok: "hourly_ok F s" and d: "d \<in> set (tsdata s)"
    and s: "split_grid hour start stop = (roll, raws)"
  shows "length (filter (\<lambda>r. hour_key d = (ar_uuid r, ar_bucket r)) (hour_rolls u roll s)) =
    (if td_uuid d = u then rollup_hits hour roll (td_ts d) else 0)"
proof (cases roll)
  case None
  then show ?thesis by (simp add: hour_rolls_def rollup_hits_def)
next
  case (Some ab)
  obtain a b where ab: "ab = (a, b)" by force
  have grid: "a mod hour = 0" "b mod hour = 0" using split_grid_aligned [of hour start stop a b raws] s Some ab by simp_all
  let ?Q = "\<lambda>r. ru_uuid r \<in> set [u] \<and> in_db_range (a, b) (ru_bucket r)"
  have keys: "distinct (map rollup_key (filter ?Q (hourly s)))"
    using ok by (intro distinct_map_filter_key) (simp add: hourly_ok_def hourly_for_def)
  have "filter (\<lambda>r. hour_key d = (ar_uuid r, ar_bucket r)) (map to_rollup rs) = map to_rollup (filter (\<lambda>r. rollup_key r = hour_key d) rs)" for rs :: "'v rollup_row list"
    by (simp add: filter_map comp_def to_rollup_def rollup_key_def eq_commute)
  note cells = this
  have "length (filter (\<lambda>r. hour_key d = (ar_uuid r, ar_bucket r)) (hour_rolls u roll s)) =
      length (filter (\<lambda>r. rollup_key r = hour_key d) (sort_key rollup_key (filter ?Q (hourly s))))"
    unfolding hour_rolls_def rollup_range_def Some ab option.case prod.case cells by simp
  also have "\<dots> = length (filter (\<lambda>r. rollup_key r = hour_key d) (filter ?Q (hourly s)))"
    by (simp only: filter_sort length_sort)
  also have "\<dots> = (if hour_key d \<in> set (map rollup_key (filter ?Q (hourly s))) then 1 else 0)"
    by (rule filter_key_length [OF keys])
  also have "hour_key d \<in> set (map rollup_key (filter ?Q (hourly s))) \<longleftrightarrow>
      td_uuid d = u \<and> in_db_range (a, b) (Truncate hour (td_ts d))"
  proof -
    have "hour_key d \<in> set (map rollup_key (hourly s))" using ok d by (simp add: hourly_ok_def hourly_for_def)
    then obtain r where "r \<in> set (hourly s)" "ru_uuid r = td_uuid d" "ru_bucket r = Truncate hour (td_ts d)"
      by (auto simp: hour_key_def rollup_key_def)
    then show ?thesis by (force simp: hour_key_def rollup_key_def)
  qed
  also have "in_db_range (a, b) (Truncate hour (td_ts d)) \<longleftrightarrow> a \<le> Truncate hour (td_ts d) \<and> Truncate hour (td_ts d) \<le> b"
    using grid by (simp add: in_db_range_def)
  finally show ?thesis using Some ab by (auto simp: rollup_hits_def)
qed

lemma raw_and_rollups_partition:
  assumes ok: "hourly_ok F s" "data_ok s" and le: "start \<le> stop" and s: "split_grid hour start stop = (roll, raws)"
  shows "mset (range_rows [u] start stop s) =
    mset (concat (map (\<lambda>r. range_rows [u] (fst r) (snd r) s) raws)) + mset (concat (map (point_cell s) (hour_rolls u roll s)))"
proof -
  let ?Ps = "map (\<lambda>r. in_query [u] (fst r) (snd r)) raws @ map (\<lambda>r d. hour_key d = (ar_uuid r, ar_bucket r)) (hour_rolls u roll s)"
  have "length (filter (\<lambda>P. P d) ?Ps) = (if in_query [u] start stop d then 1 else 0)" if d: "d \<in> set (tsdata s)" for d
  proof -
    have raw: "length (filter (\<lambda>P. P d) (map (\<lambda>r. in_query [u] (fst r) (snd r)) raws)) =
        (if td_uuid d = u then raw_hits raws (td_ts d) else 0)"
      by (induction raws) (auto simp: raw_hits_def in_query_def)
    have roll: "length (filter (\<lambda>P. P d) (map (\<lambda>r d. hour_key d = (ar_uuid r, ar_bucket r)) (hour_rolls u roll s))) =
        (if td_uuid d = u then rollup_hits hour roll (td_ts d) else 0)"
      using hour_hits [OF ok(1) d s, of u] by (simp add: filter_map comp_def)
    have "td_ts d mod microsecond = 0" using ok(2) d by (simp add: data_ok_def)
    from hours.split_grid_partition [OF this le s] show ?thesis
      unfolding filter_append length_append raw roll by (auto simp: in_query_def add.commute)
  qed
  from mset_concat_filters [OF this]
  have "mset (concat (map (\<lambda>P. filter P (tsdata s)) ?Ps)) = mset (filter (in_query [u] start stop) (tsdata s))" by blast
  then have "image_mset to_data_row (mset (concat (map (\<lambda>P. filter P (tsdata s)) ?Ps))) = mset (range_rows [u] start stop s)"
    by (simp add: range_rows_def)
  then show ?thesis
    by (simp add: range_rows_def point_cell_def [abs_def] map_concat comp_def flip: mset_map)
qed

section \<open>The answer of a query\<close>

text \<open>What \<^const>\<open>QuerySingleSourceData\<close> answers, as a function of the tables.\<close>

definition units_answer :: "'v units_api \<Rightarrow> 'v QuerySingleSourceDataParams \<Rightarrow> 'v db \<Rightarrow> (string \<times> string) option res" where
  "units_answer U p t = (case qs_Unit p of None \<Rightarrow> Inr None
     | Some u \<Rightarrow> (case map ts_si_unit (filter (\<lambda>x. ts_uuid x = qs_Uuid p) (timeseries t)) of
          [] \<Rightarrow> Inl no_rows | tsUnit # _ \<Rightarrow> resolve_units U (Some u) tsUnit))"

definition sources_answer :: "uuid list \<Rightarrow> int \<Rightarrow> int \<Rightarrow> string \<Rightarrow> 'v db \<Rightarrow> 'v data_row list \<times> 'v aggregateRollupRow list" where
  "sources_answer uuids start stop precision t =
     (let source = rollupSourceForPrecision True ''UTC'' precision;
          (roll, raws) = splitRollupRanges start stop source
      in (concat (map (\<lambda>r. range_rows uuids (fst r) (snd r) t) raws),
          case roll of None \<Rightarrow> [] | Some (a, b) \<Rightarrow> if source = ''daily'' then rollup_range uuids a b (daily t)
             else if source = ''hourly'' then rollup_range uuids a b (hourly t) else []))"

definition rows_answer :: "'v fops \<Rightarrow> ('v \<Rightarrow> 'v option) option \<Rightarrow> 'v QuerySingleSourceDataParams \<Rightarrow> zone \<Rightarrow> 'v db \<Rightarrow> 'v TsRow list res" where
  "rows_answer F conv p z t =
     (if shouldAggregateData (qs_Aggregate p) (qs_Precision p)
      then (if rollupSourceForPrecision (qs_UseRollups p) (qs_Timezone p) (qs_Precision p) \<noteq> ''''
            then (case sources_answer [qs_Uuid p] (qs_Start p) (qs_End p) (qs_Precision p) t of (raws, rolls) \<Rightarrow>
                    aggregateSingleSourceFromSources F conv raws rolls (agg_of p) z)
            else aggregateSingleSourceRows F conv (range_rows [qs_Uuid p] (qs_Start p) (qs_End p) t) (agg_of p) z)
      else raw_rows F conv (agg_of p) (range_rows [qs_Uuid p] (qs_Start p) (qs_End p) t))"

definition finish_answer :: "'v QuerySingleSourceDataParams \<Rightarrow> 'v TsRow list \<Rightarrow> 'v db \<Rightarrow> 'v TsRow list res" where
  "finish_answer p rows t =
     (if rows = [] \<and> qs_Uuid p \<notin> set (map ts_uuid (timeseries t)) then Inl no_rows
      else case validateSingleSeriesPointLimit (int (length rows)) (qs_MaxPoints p) of Some e \<Rightarrow> Inl e | None \<Rightarrow> Inr rows)"

definition query_answer :: "'v fops \<Rightarrow> 'v units_api \<Rightarrow> (string \<Rightarrow> zone res) \<Rightarrow> 'v QuerySingleSourceDataParams \<Rightarrow> 'v db \<Rightarrow> 'v TsRow list res" where
  "query_answer F U loc p t = (case units_answer U p t of Inl e \<Rightarrow> Inl e | Inr us \<Rightarrow>
     (case loc (qs_Timezone p) of Inl e \<Rightarrow> Inl e | Inr z \<Rightarrow>
       (case rows_answer F (single_conv U us) p z t of Inl e \<Rightarrow> Inl e | Inr rows \<Rightarrow> finish_answer p rows t)))"

lemma answers_GetTsDailyRollupRange:
  "answers (GetTsDailyRollupRange uuids start stop) (\<lambda>t. Inr (rollup_range uuids start stop (daily t)))"
  unfolding GetTsDailyRollupRange_def by (rule answers_sel) simp

lemma answers_GetUnitFromTimeseries:
  "answers (GetUnitFromTimeseries tid) (\<lambda>t. case map ts_si_unit (filter (\<lambda>x. ts_uuid x = tid) (timeseries t)) of
     [] \<Rightarrow> Inl no_rows | r # _ \<Rightarrow> Inr r)"
  unfolding GetUnitFromTimeseries_def by (rule answers_sel_one) simp

lemma answers_FindTimeseriesByUUID:
  "answers (FindTimeseriesByUUID tid) (\<lambda>t. case filter (\<lambda>x. ts_uuid x = tid) (timeseries t) of [] \<Rightarrow> Inl no_rows | r # _ \<Rightarrow> Inr r)"
  unfolding FindTimeseriesByUUID_def by (rule answers_sel_one) simp

lemmas answers_queries = answers_andthen answers_ret answers_fail answers_lift_res answers_GetTsDataRange answers_load_raw
  answers_GetTsHourlyRollupRange answers_GetTsDailyRollupRange answers_GetUnitFromTimeseries answers_FindTimeseriesByUUID

lemma answers_loadAggregateSources:
  "answers (loadAggregateSources uuids start stop precision) (\<lambda>t. Inr (sources_answer uuids start stop precision t))"
proof -
  let ?source = "rollupSourceForPrecision True ''UTC'' precision"
  obtain roll raws where s: "splitRollupRanges start stop ?source = (roll, raws)" by force
  have "answers (case roll of None \<Rightarrow> ret (rows, []) | Some (a, b) \<Rightarrow>
      if ?source = ''daily'' then andthen (GetTsDailyRollupRange uuids a b) (\<lambda>rs. ret (rows, rs))
      else if ?source = ''hourly'' then andthen (GetTsHourlyRollupRange uuids a b) (\<lambda>rs. ret (rows, rs))
      else ret (rows, []))
    (\<lambda>t. Inr (rows, case roll of None \<Rightarrow> [] | Some (a, b) \<Rightarrow> if ?source = ''daily'' then rollup_range uuids a b (daily t)
             else if ?source = ''hourly'' then rollup_range uuids a b (hourly t) else []))" for rows :: "'a data_row list"
  proof (cases roll)
    case None
    then show ?thesis by (simp add: answers_ret)
  next
    case (Some ab)
    consider "?source = ''daily''" | "?source = ''hourly''" | "?source \<noteq> ''daily''" "?source \<noteq> ''hourly''" by blast
    then show ?thesis
    proof cases
      case 1
      show ?thesis unfolding Some 1
        by (cases ab) (simp, rule answers_cong, (rule answers_queries)+, simp)
    next
      case 2
      show ?thesis unfolding Some 2
        by (cases ab) (simp, rule answers_cong, (rule answers_queries)+, simp)
    next
      case 3
      then show ?thesis unfolding Some by (cases ab) (simp add: answers_ret)
    qed
  qed
  note answers_andthen [OF answers_load_raw [of uuids raws] this]
  then show ?thesis
    unfolding loadAggregateSources_def sources_answer_def Let_def s prod.case by (rule answers_cong) simp
qed

lemma answers_finish: "answers (finish_single p rows) (finish_answer p rows)"
proof -
  have e: "answers (if rows = [] then andthen (FindTimeseriesByUUID (qs_Uuid p)) (\<lambda>_. ret ()) else ret ())
    (\<lambda>t. if rows = [] \<and> qs_Uuid p \<notin> set (map ts_uuid (timeseries t)) then Inl no_rows else Inr ())"
  proof (cases "rows = []")
    case True
    have "answers (andthen (FindTimeseriesByUUID (qs_Uuid p)) (\<lambda>_. ret ()))
      (\<lambda>t. if qs_Uuid p \<notin> set (map ts_uuid (timeseries t)) then Inl no_rows else Inr ())"
      by (rule answers_cong, (rule answers_queries)+)
        (force simp: filter_empty_conv split: list.splits dest!: filter_eq_ConsD)
    with True show ?thesis by simp
  qed (simp add: answers_ret)
  have l: "answers (case validateSingleSeriesPointLimit (int (length rows)) (qs_MaxPoints p) of Some e \<Rightarrow> fail e | None \<Rightarrow> ret rows)
    (\<lambda>_. case validateSingleSeriesPointLimit (int (length rows)) (qs_MaxPoints p) of Some e \<Rightarrow> Inl e | None \<Rightarrow> Inr rows)"
    by (cases "validateSingleSeriesPointLimit (int (length rows)) (qs_MaxPoints p)") (simp_all add: answers_ret answers_fail)
  from answers_andthen [OF e l] show ?thesis
    unfolding finish_single_def by (rule answers_cong) (simp add: finish_answer_def)
qed

lemma answers_units:
  "answers (case qs_Unit p of None \<Rightarrow> ret None
     | Some u \<Rightarrow> andthen (GetUnitFromTimeseries (qs_Uuid p)) (\<lambda>tsUnit. lift_res (resolve_units U (qs_Unit p) tsUnit))) (units_answer U p)"
proof (cases "qs_Unit p")
  case None
  then show ?thesis by (simp add: units_answer_def [abs_def] answers_ret)
next
  case (Some u)
  show ?thesis unfolding Some option.case
    by (rule answers_cong, (rule answers_queries)+) (simp add: units_answer_def Some split: list.splits)
qed

lemma answers_aggregated:
  assumes "shouldAggregateData (qs_Aggregate p) (qs_Precision p)"
  shows "answers (querySingleSourceAggregatedData F conv p z) (rows_answer F conv p z)"
proof (cases "rollupSourceForPrecision (qs_UseRollups p) (qs_Timezone p) (qs_Precision p) = ''''")
  case True
  then show ?thesis
    unfolding querySingleSourceAggregatedData_def
    by (simp, intro answers_cong [OF answers_andthen [OF answers_GetTsDataRange answers_lift_res]])
      (simp add: rows_answer_def assms)
next
  case False
  have "answers (case r of (rawRows, rollupRows) \<Rightarrow> lift_res (aggregateSingleSourceFromSources F conv rawRows rollupRows (agg_of p) z))
      (\<lambda>_. case r of (rawRows, rollupRows) \<Rightarrow> aggregateSingleSourceFromSources F conv rawRows rollupRows (agg_of p) z)"
    for r by (cases r) (simp add: answers_lift_res)
  note agg = this
  from False show ?thesis
    unfolding querySingleSourceAggregatedData_def
    by simp (rule answers_cong, rule answers_andthen, rule answers_loadAggregateSources, rule agg, simp add: rows_answer_def assms)
qed

lemma answers_QuerySingleSourceData: "answers (QuerySingleSourceData F U loc p) (query_answer F U loc p)"
proof -
  have raw: "answers (andthen (GetTsDataRange [qs_Uuid p] (qs_Start p) (qs_End p)) (\<lambda>dataList.
          andthen (lift_res (raw_rows F conv (agg_of p) dataList)) (finish_single p)))
      (\<lambda>t. case raw_rows F conv (agg_of p) (range_rows [qs_Uuid p] (qs_Start p) (qs_End p) t) of
          Inl e \<Rightarrow> Inl e | Inr rows \<Rightarrow> finish_answer p rows t)" for conv
    by (rule answers_cong, (rule answers_queries answers_finish)+) simp
  have "answers (if shouldAggregateData (qs_Aggregate p) (qs_Precision p)
     then andthen (querySingleSourceAggregatedData F conv p z) (finish_single p)
     else andthen (GetTsDataRange [qs_Uuid p] (qs_Start p) (qs_End p)) (\<lambda>dataList.
          andthen (lift_res (raw_rows F conv (agg_of p) dataList)) (finish_single p)))
     (\<lambda>t. case rows_answer F conv p z t of Inl e \<Rightarrow> Inl e | Inr rows \<Rightarrow> finish_answer p rows t)" for conv z
  proof (cases "shouldAggregateData (qs_Aggregate p) (qs_Precision p)")
    case True
    from answers_andthen [OF answers_aggregated [OF True] answers_finish] True show ?thesis by simp
  next
    case False
    with raw [of conv] show ?thesis by (simp add: rows_answer_def [abs_def])
  qed
  note this [THEN answers_andthen [OF answers_lift_res]]
  from answers_andthen [OF answers_units this]
  show ?thesis unfolding QuerySingleSourceData_def by (rule answers_cong) (simp add: query_answer_def)
qed

section \<open>Rollups give what the points give\<close>

lemma hour_rolls_summarise:
  assumes ok: "hourly_ok F t" and r: "r \<in> set (hour_rolls u roll t)"
  shows "summarises F (rollup_contrib r) (map dr_value (point_cell t r))"
proof -
  from r obtain q where q: "q \<in> set (hourly t)" "r = to_rollup q"
    by (auto simp: hour_rolls_def rollup_range_def split: option.splits)
  then have "map dr_value (point_cell t r) = cell_values (tsdata t) (rollup_key q)"
    by (simp add: point_cell_def cell_values_def to_data_row_def to_rollup_def rollup_key_def comp_def)
  moreover have "rollup_contrib r = row_contrib q" using q by (simp add: rollup_contrib_def row_contrib_def to_rollup_def)
  ultimately show ?thesis using ok q(1) by (simp add: hourly_ok_def hourly_for_def)
qed

lemma hour_rollups_equal_raw:
  assumes lin: "strict_linear (f_lt F)"
    and agg: "ap_Aggregate p \<in> {''count'', ''min'', ''max''} \<or> exact_add F"
    and prec: "ap_Precision p = ''hour''" and le: "start \<le> stop"
    and ok: "hourly_ok F t" "data_ok t"
  shows "(case sources_answer [u] start stop ''hour'' t of (raws, rolls) \<Rightarrow>
      aggregateSingleSourceFromSources F conv raws rolls p z) = aggregateSingleSourceRows F conv (range_rows [u] start stop t) p z"
proof -
  obtain roll raws where s: "split_grid hour start stop = (roll, raws)" by force
  have "sources_answer [u] start stop ''hour'' t = (concat (map (\<lambda>r. range_rows [u] (fst r) (snd r) t) raws), hour_rolls u roll t)"
    by (simp add: sources_answer_def rollupSourceForPrecision_def splitRollupRanges_def splitHourly_grid s hour_rolls_def Let_def split: option.splits)
  moreover have "aggregateSingleSourceFromSources F conv (concat (map (\<lambda>r. range_rows [u] (fst r) (snd r) t) raws)) (hour_rolls u roll t) p z
      = aggregateSingleSourceRows F conv (range_rows [u] start stop t) p z"
  proof (rule rollups_equal_raw [where cell = "point_cell t" and key = "\<lambda>r. Truncate hour (dr_ts r)" and rkey = "\<lambda>r. Truncate hour (ar_bucket r)", OF lin agg])
    show "truncateTime (dr_ts r) (ap_Precision p) z = Inr (Truncate hour (dr_ts r))" for r :: "'a data_row"
      by (simp add: prec truncateTime_def)
    show "truncateTime (ar_bucket r) (ap_Precision p) z = Inr (Truncate hour (ar_bucket r))" for r :: "'a aggregateRollupRow"
      by (simp add: prec truncateTime_def)
    show "Truncate hour (dr_ts d) = Truncate hour (ar_bucket r)" if "d \<in> set (point_cell t r)" for r d
      using that by (auto simp: point_cell_def hour_key_def to_data_row_def) (metis Truncate_idem)
    show "summarises F (rollup_contrib r) (map dr_value (point_cell t r))" if "r \<in> set (hour_rolls u roll t)" for r
      using hour_rolls_summarise [OF ok(1) that] .
    show "mset (range_rows [u] start stop t) =
        mset (concat (map (\<lambda>r. range_rows [u] (fst r) (snd r) t) raws)) + mset (concat (map (point_cell t) (hour_rolls u roll t)))"
      by (rule raw_and_rollups_partition [OF ok le s])
  qed
  ultimately show ?thesis by simp
qed

lemma data_ok_fault_free [simp, intro]: "fault_free data_ok"
  by (simp add: fault_free_def data_ok_def)

lemma ok_tables [simp]: "hourly_ok F (tables s) = hourly_ok F s" "data_ok (tables s) = data_ok s"
  by (simp_all add: hourly_ok_def data_ok_def)

lemma query_answer_rollups:
  assumes "strict_linear (f_lt F)" "qs_Aggregate p \<in> {''count'', ''min'', ''max''} \<or> exact_add F"
    and "rollupSourceForPrecision True ''UTC'' (qs_Precision p) \<noteq> ''daily''" and "qs_Start p \<le> qs_End p"
    and "hourly_ok F t" "data_ok t"
  shows "query_answer F U loc (p\<lparr>qs_UseRollups := True\<rparr>) t = query_answer F U loc (p\<lparr>qs_UseRollups := False\<rparr>) t"
proof -
  have "rows_answer F conv (p\<lparr>qs_UseRollups := True\<rparr>) z t = rows_answer F conv (p\<lparr>qs_UseRollups := False\<rparr>) z t" for conv z
  proof (cases "rollupSourceForPrecision True (qs_Timezone p) (qs_Precision p) = ''''")
    case True
    then show ?thesis by (simp add: rows_answer_def rollupSourceForPrecision_def agg_of_def split: if_splits)
  next
    case False
    with assms(3) have "qs_Precision p = ''hour''" by (simp add: rollupSourceForPrecision_def split: if_splits)
    with assms hour_rollups_equal_raw [where p = "agg_of p" and start = "qs_Start p" and stop = "qs_End p" and u = "qs_Uuid p"]
    show ?thesis by (simp add: rows_answer_def agg_of_def rollupSourceForPrecision_def)
  qed
  note rows = this
  have same: "units_answer U (p\<lparr>qs_UseRollups := b\<rparr>) t = units_answer U p t"
    "finish_answer (p\<lparr>qs_UseRollups := b\<rparr>) rs t = finish_answer p rs t"
    "qs_Timezone (p\<lparr>qs_UseRollups := b\<rparr>) = qs_Timezone p" for b rs
    by (simp_all add: units_answer_def finish_answer_def split: option.split)
  show ?thesis by (simp only: query_answer_def same rows)
qed

section \<open>Properties\<close>

text \<open>
  C13: Rollups change nothing: over a database whose hourly table summarises its data points, a
  query of one series answers the same with rollups as from the data points alone, for
  every precision that does not use the daily table, in every time zone and unit, with
  every filter and limit, errors included.  Sums and averages need exact addition;
  counts, minima and maxima do not.
\<close>

theorem hourly_rollups_exact:
  assumes "strict_linear (f_lt F)" "qs_Aggregate p \<in> {''count'', ''min'', ''max''} \<or> exact_add F"
    and "rollupSourceForPrecision True ''UTC'' (qs_Precision p) \<noteq> ''daily''" and "qs_Start p \<le> qs_End p"
    and "healthy s" "hourly_ok F s" "data_ok s"
  shows "fst (QuerySingleSourceData F U loc (p\<lparr>qs_UseRollups := True\<rparr>) s)
       = fst (QuerySingleSourceData F U loc (p\<lparr>qs_UseRollups := False\<rparr>) s)"
  unfolding answersD [OF answers_QuerySingleSourceData assms(5)]
  using query_answer_rollups [OF assms(1-4), of "tables s"] assms(6,7) by simp

definition no_units :: "'v units_api" where
  "no_units = \<lparr>un_Find = \<lambda>_. None, un_Convert = \<lambda>_ _ _. None\<rparr>"

definition utc_only :: "string \<Rightarrow> zone res" where
  "utc_only name = (if name = ''UTC'' then Inr UTC else Inl (Plain ''unknown time zone''))"

definition hour_query :: "string \<Rightarrow> int QuerySingleSourceDataParams" where
  "hour_query aggregate = \<lparr>qs_Uuid = ''a'', qs_Start = 30 * minute, qs_End = 3 * hour, qs_GreaterOrEq = None, qs_LessOrEq = None,
     qs_Unit = None, qs_Aggregate = aggregate, qs_Precision = ''hour'', qs_Timezone = ''UTC'', qs_UseRollups = True, qs_MaxPoints = 10\<rparr>"

definition sample_data :: "int db" where
  "sample_data = snd (insert_tsdata int_ops [point 0 5, point (31 * minute) 6, point hour 1, point (hour + minute) 4, point (3 * hour) 2] sample_series)"

lemma int_ops_lin [simp]: "strict_linear (f_lt int_ops)" "exact_add int_ops"
  by (auto simp: strict_linear_def exact_add_def int_ops_def)

lemma sample_data_ok: "hourly_ok int_ops sample_data" "data_ok sample_data" "healthy sample_data"
proof -
  have "hourly_ok int_ops sample_series" by (simp add: hourly_ok_def hourly_for_def sample_series_def empty_db_def)
  then show "hourly_ok int_ops sample_data"
    unfolding sample_data_def using preservesD [OF insert_tsdata_keeps [OF int_ops_lin(1)]] by (metis prod.collapse)
  show "data_ok sample_data" "healthy sample_data" by code_simp+
qed

theorem hourly_rollups_exact_witness:
  "fst (QuerySingleSourceData int_ops no_units utc_only ((hour_query ''avg'')\<lparr>qs_UseRollups := True\<rparr>) sample_data)
     = fst (QuerySingleSourceData int_ops no_units utc_only ((hour_query ''avg'')\<lparr>qs_UseRollups := False\<rparr>) sample_data)
   \<and> fst (QuerySingleSourceData int_ops no_units utc_only ((hour_query ''avg'')\<lparr>qs_UseRollups := False\<rparr>) sample_data)
     = Inr [\<lparr>tr_V = 6, tr_Ts = 0\<rparr>, \<lparr>tr_V = 2, tr_Ts = hour\<rparr>, \<lparr>tr_V = 2, tr_Ts = 3 * hour\<rparr>]"
proof
  have "rollupSourceForPrecision True ''UTC'' (qs_Precision (hour_query ''avg'')) \<noteq> ''daily''"
    "qs_Start (hour_query ''avg'') \<le> qs_End (hour_query ''avg'')" by code_simp+
  then show "fst (QuerySingleSourceData int_ops no_units utc_only ((hour_query ''avg'')\<lparr>qs_UseRollups := True\<rparr>) sample_data)
     = fst (QuerySingleSourceData int_ops no_units utc_only ((hour_query ''avg'')\<lparr>qs_UseRollups := False\<rparr>) sample_data)"
    by (intro hourly_rollups_exact) (simp_all add: sample_data_ok)
  show "fst (QuerySingleSourceData int_ops no_units utc_only ((hour_query ''avg'')\<lparr>qs_UseRollups := False\<rparr>) sample_data)
     = Inr [\<lparr>tr_V = 6, tr_Ts = 0\<rparr>, \<lparr>tr_V = 2, tr_Ts = hour\<rparr>, \<lparr>tr_V = 2, tr_Ts = 3 * hour\<rparr>]"
    by code_simp
qed

section \<open>Adding points\<close>

definition within :: "'v fops \<Rightarrow> 'v timeseries_row \<Rightarrow> 'v \<Rightarrow> bool" where
  "within F series v \<longleftrightarrow> (case ts_lower series of None \<Rightarrow> True | Some b \<Rightarrow> \<not> f_lt F v b)
     \<and> (case ts_upper series of None \<Rightarrow> True | Some b \<Rightarrow> \<not> f_lt F b v)"

definition converted :: "'v units_api \<Rightarrow> (string \<times> string) option \<Rightarrow> 'v \<Rightarrow> 'v option" where
  "converted U us v = (case us of None \<Rightarrow> Some v | Some (from, to) \<Rightarrow> un_Convert U v from to)"

lemma filter_points_eq:
  "filter_points F U us series pts =
     (if list_all (\<lambda>i. converted U us (dp_Value i) \<noteq> None) pts
      then Inr (filter (\<lambda>i. within F series (dp_Value i)) (map (\<lambda>i. i\<lparr>dp_Value := the (converted U us (dp_Value i))\<rparr>) pts))
      else Inl ErrorInvalidUnitConversion)"
proof (induction pts)
  case (Cons i pts)
  have "(case us of None \<Rightarrow> Some (dp_Value i) | Some (from, to) \<Rightarrow> un_Convert U (dp_Value i) from to) = converted U us (dp_Value i)"
    by (simp add: converted_def)
  then show ?case using Cons by (auto simp: within_def split: option.splits)
qed simp

definition stored :: "uuid \<Rightarrow> uuid \<Rightarrow> 'v DataPoint \<Rightarrow> 'v tsdata_row" where
  "stored tid createdBy p = \<lparr>td_uuid = tid, td_value = dp_Value p, td_ts = to_us (dp_Timestamp p), td_created_by = Some createdBy\<rparr>"

lemma insert_tsdata_Inr:
  assumes "insert_tsdata F rows s = (Inr n, s')"
  shows "n = int (length rows)" "tsdata s' = tsdata s @ rows"
  using stmt_Inr [OF assms [unfolded insert_tsdata_def]]
  by (auto simp: tsdata_after_insert_def Let_def split: if_splits)

lemma insert_tsdata_Inl: "insert_tsdata F rows s = (Inl e, s') \<Longrightarrow> tables s' = tables s"
  unfolding insert_tsdata_def by (erule stmt_Inl) (auto split: if_splits)

lemma insert_batches_effect:
  "insert_batches F tid cb pts n s = (r, s') \<Longrightarrow>
     \<exists>k. tsdata s' = tsdata s @ map (stored tid cb) (take k pts)
       \<and> (case r of Inr m \<Rightarrow> k = length pts \<and> m = n + int k | Inl _ \<Rightarrow> 256 dvd k \<and> k < length pts)"
proof (induction F tid cb pts n arbitrary: s rule: insert_batches.induct)
  case (1 F tid cb pts n)
  show ?case
  proof (cases "pts = []")
    case True
    with "1.prems" show ?thesis by (subst (asm) insert_batches.simps) (auto simp: ret_def)
  next
    case False
    let ?b = "insertTimeseriesBatch F tid cb (take 256 pts)"
    have rows: "?b = insert_tsdata F (map (stored tid cb) (take 256 pts))"
      by (simp add: insertTimeseriesBatch_def stored_def [abs_def])
    from False "1.prems" have "andthen ?b (\<lambda>c. insert_batches F tid cb (drop 256 pts) (n + c)) s = (r, s')"
      by (subst (asm) insert_batches.simps) (simp add: insertTimeseriesBatchSize_def)
    then show ?thesis
    proof (cases rule: andthen_cases)
      case (1 e)
      then have "tsdata s' = tsdata s" unfolding rows by (metis insert_tsdata_Inl tables_simps(1))
      with 1 False show ?thesis by (intro exI [of _ 0]) simp
    next
      case (2 c s1)
      from insert_tsdata_Inr [OF 2(1) [unfolded rows]]
      have c: "c = int (min 256 (length pts))" and s1: "tsdata s1 = tsdata s @ map (stored tid cb) (take 256 pts)" by simp_all
      from "1.IH" [OF False, of c s1] 2(2) obtain k where k: "tsdata s' = tsdata s1 @ map (stored tid cb) (take k (drop 256 pts))"
        "case r of Inr m \<Rightarrow> k = length (drop 256 pts) \<and> m = n + c + int k | Inl _ \<Rightarrow> 256 dvd k \<and> k < length (drop 256 pts)"
        unfolding insertTimeseriesBatchSize_def by blast
      have "tsdata s' = tsdata s @ map (stored tid cb) (take (256 + k) pts)"
        unfolding k(1) s1 by (simp add: take_add)
      moreover have "case r of Inr m \<Rightarrow> min (256 + k) (length pts) = length pts \<and> m = n + int (length pts)
          | Inl _ \<Rightarrow> 256 dvd (256 + k) \<and> 256 + k < length pts"
        using k(2) c by (auto split: sum.splits)
      ultimately show ?thesis
        by (cases r) (auto intro: exI [of _ "256 + k"] exI [of _ "length pts"])
    qed
  qed
qed

text \<open>What the service would store: the points converted to the unit of the series, those inside its bounds.\<close>

definition accepted :: "'v fops \<Rightarrow> 'v units_api \<Rightarrow> (string \<times> string) option \<Rightarrow> 'v timeseries_row \<Rightarrow> 'v DataPoint list \<Rightarrow> 'v DataPoint list" where
  "accepted F U us series pts = filter (\<lambda>i. within F series (dp_Value i)) (map (\<lambda>i. i\<lparr>dp_Value := the (converted U us (dp_Value i))\<rparr>) pts)"

lemma sel_one_Inr:
  assumes "sel_one f s = (Inr r, s')"
  shows "\<exists>rs. f (s\<lparr>faults := tl (faults s)\<rparr>) = r # rs" "tables s' = tables s"
proof -
  show "tables s' = tables s" using assms by (auto dest: readsD [OF reads_sel_one])
  show "\<exists>rs. f (s\<lparr>faults := tl (faults s)\<rparr>) = r # rs"
    using stmt_Inr [OF assms [unfolded sel_one_def]] by (auto split: list.splits)
qed

definition the_series :: "uuid \<Rightarrow> 'v db \<Rightarrow> 'v timeseries_row \<Rightarrow> bool" where
  "the_series tid s series \<longleftrightarrow> (\<exists>rest. filter (\<lambda>t. ts_uuid t = tid) (timeseries s) = series # rest)"

lemma GetTimeseriesByUUID_Inr:
  "GetTimeseriesByUUID tid s = (Inr t, s') \<Longrightarrow> the_series tid s t \<and> tables s' = tables s"
  unfolding GetTimeseriesByUUID_def the_series_def by (frule sel_one_Inr(2), drule sel_one_Inr(1)) simp

lemma timeseries_tables: "tables a = tables b \<Longrightarrow> timeseries a = timeseries b"
  by (metis tables_simps(4))

lemma request_units:
  assumes "(case u of None \<Rightarrow> ret None
     | Some x \<Rightarrow> andthen (GetUnitFromTimeseries tid) (\<lambda>tsUnit.
         case resolve_units U u tsUnit of Inl e \<Rightarrow> fail e | Inr us \<Rightarrow> ret us)) s = (r, s')"
    and "the_series tid s series"
  shows "tables s' = tables s" "r = Inr us \<Longrightarrow> resolve_units U u (ts_si_unit series) = Inr us"
proof -
  have "reads (case u of None \<Rightarrow> ret None
     | Some x \<Rightarrow> andthen (GetUnitFromTimeseries tid) (\<lambda>tsUnit.
         case resolve_units U u tsUnit of Inl e \<Rightarrow> fail e | Inr us \<Rightarrow> ret us))"
    by (auto simp: GetUnitFromTimeseries_def split: option.splits sum.splits)
  then show "tables s' = tables s" using assms(1) by (rule readsD)
  show "resolve_units U u (ts_si_unit series) = Inr us" if "r = Inr us"
  proof (cases u)
    case None
    with assms(1) that show ?thesis by (simp add: ret_def resolve_units_def)
  next
    case (Some x)
    with assms(1) that have "andthen (GetUnitFromTimeseries tid) (\<lambda>tsUnit.
         case resolve_units U u tsUnit of Inl e \<Rightarrow> fail e | Inr us \<Rightarrow> ret us) s = (Inr us, s')" by simp
    then show ?thesis
      using assms(2) unfolding GetUnitFromTimeseries_def
      by (elim andthen_cases) (auto simp: the_series_def ret_def fail_def split: sum.splits dest!: sel_one_Inr(1))
  qed
qed

lemma AddDataToTimeseries_cases:
  assumes "AddDataToTimeseries F U p s = (r, s')"
  obtains (early) e where "r = Inl e" "tables s' = tables s"
  | (idle) series us where "r = Inr 0" "tables s' = tables s" "the_series (ad_Uuid p) s series"
      "resolve_units U (ad_Unit p) (ts_si_unit series) = Inr us" "accepted F U us series (ad_Points p) = []"
  | (batches) series us s1 where "the_series (ad_Uuid p) s series" "resolve_units U (ad_Unit p) (ts_si_unit series) = Inr us"
      "tables s1 = tables s"
      "insert_batches F (ad_Uuid p) (ad_CreatedBy p) (accepted F U us series (ad_Points p)) 0 s1 = (r, s')"
  using assms unfolding AddDataToTimeseries_def
proof (cases rule: andthen_cases)
  case (1 e)
  moreover have "reads (GetTimeseriesByUUID (ad_Uuid p))" by (simp add: GetTimeseriesByUUID_def)
  ultimately show ?thesis using early readsD by blast
next
  case (2 series s1)
  from GetTimeseriesByUUID_Inr [OF 2(1)]
  have ser: "the_series (ad_Uuid p) s series" "the_series (ad_Uuid p) s1 series" "tables s1 = tables s"
    by (auto simp: the_series_def dest: timeseries_tables)
  from 2(2) show ?thesis
  proof (cases rule: andthen_cases)
    case (1 e)
    from request_units(1) [OF 1(1) ser(2)] ser(3) 1(2) early show ?thesis by metis
  next
    case (2 us s2)
    from request_units [OF 2(1) ser(2)] ser(3)
    have t: "tables s2 = tables s" "resolve_units U (ad_Unit p) (ts_si_unit series) = Inr us" by simp_all
    show ?thesis
    proof (cases "filter_points F U us series (ad_Points p)")
      case (Inl e)
      with 2(2) have "r = Inl e" "tables s' = tables s" using t(1) by (auto simp: fail_def)
      then show ?thesis by (rule early)
    next
      case (Inr pts)
      then have pts: "pts = accepted F U us series (ad_Points p)" by (simp add: filter_points_eq accepted_def split: if_splits)
      show ?thesis
      proof (cases "pts = []")
        case True
        with 2(2) Inr t(1) have "r = Inr 0" "tables s' = tables s" by (auto simp: ret_def)
        moreover have "accepted F U us series (ad_Points p) = []" using True pts by simp
        ultimately show ?thesis using ser(1) t(2) by - (rule idle)
      next
        case False
        with 2(2) Inr pts have "insert_batches F (ad_Uuid p) (ad_CreatedBy p) (accepted F U us series (ad_Points p)) 0 s2 = (r, s')" by simp
        with ser(1) t show ?thesis using batches [of series us s2] by blast
      qed
    qed
  qed
qed


definition bounded_series :: "int db" where
  "bounded_series = sample_series\<lparr>timeseries := map (\<lambda>t. t\<lparr>ts_lower := Some 0, ts_upper := Some 10\<rparr>) (timeseries sample_series),
     users := [\<lparr>u_uuid = ''u'', u_name = ''root'', u_state = ''active''\<rparr>]\<rparr>"

definition some_points :: "int AddDataToTimeseriesParams" where
  "some_points = \<lparr>ad_Uuid = ''a'', ad_Points = [\<lparr>dp_Value = 5, dp_Timestamp = 1500\<rparr>, \<lparr>dp_Value = 11, dp_Timestamp = 3000\<rparr>,
     \<lparr>dp_Value = 10, dp_Timestamp = 5000\<rparr>], ad_CreatedBy = ''u'', ad_Unit = None\<rparr>"


section \<open>Points added are points read\<close>

definition shown :: "'v fops \<Rightarrow> 'v agg_params \<Rightarrow> 'v data_row list \<Rightarrow> 'v TsRow list" where
  "shown F p rows = map (\<lambda>r. \<lparr>tr_V = f_single F (dr_value r), tr_Ts = dr_ts r\<rparr>)
     (filter (\<lambda>r. inValidRange F (f_single F (dr_value r)) (ap_LessOrEq p) (ap_GreaterOrEq p)) rows)"

lemma raw_rows_shown: "raw_rows F None p rows = Inr (shown F p rows)"
  by (induction rows) (auto simp: shown_def Let_def)

lemma AddData_Inr:
  assumes "AddDataToTimeseries F U p s = (Inr n, s')"
  obtains series us where "the_series (ad_Uuid p) s series" "resolve_units U (ad_Unit p) (ts_si_unit series) = Inr us"
    "tsdata s' = tsdata s @ map (stored (ad_Uuid p) (ad_CreatedBy p)) (accepted F U us series (ad_Points p))"
  using assms
proof (cases rule: AddDataToTimeseries_cases)
  case (idle series us)
  then have "tsdata s' = tsdata s" by (metis tables_simps(1))
  with idle(5) show ?thesis by (intro that [OF idle(3,4)]) simp
next
  case (batches series us s1)
  have "tsdata s1 = tsdata s" using batches(3) by (metis tables_simps(1))
  with insert_batches_effect [OF batches(4)]
  have "tsdata s' = tsdata s @ map (stored (ad_Uuid p) (ad_CreatedBy p)) (accepted F U us series (ad_Points p))" by auto
  with batches that show ?thesis by blast
qed simp

lemma insert_tsdata_timeseries:
  assumes "insert_tsdata F rows s = (r, s')"
  shows "timeseries s' = timeseries s"
proof -
  have "preserves (\<lambda>t. timeseries t = timeseries s) (insert_tsdata F rows)"
    unfolding insert_tsdata_def
    by (rule preserves_stmt) (auto simp: fault_free_def tsdata_after_insert_def refresh_days_def hourly_after_insert_def Let_def split: if_splits)
  from preservesD [OF this assms] show ?thesis by simp
qed

lemma insert_batches_timeseries:
  "insert_batches F tid cb pts n s = (r, s') \<Longrightarrow> timeseries s' = timeseries s"
proof (induction F tid cb pts n arbitrary: s rule: insert_batches.induct)
  case (1 F tid cb pts n)
  show ?case
  proof (cases "pts = []")
    case True
    with "1.prems" show ?thesis by (subst (asm) insert_batches.simps) (auto simp: ret_def)
  next
    case False
    with "1.prems" have "andthen (insertTimeseriesBatch F tid cb (take insertTimeseriesBatchSize pts))
        (\<lambda>c. insert_batches F tid cb (drop insertTimeseriesBatchSize pts) (n + c)) s = (r, s')"
      by (subst (asm) insert_batches.simps) simp
    then show ?thesis
      by (cases rule: andthen_cases)
        (auto simp: insertTimeseriesBatch_def dest!: insert_tsdata_timeseries "1.IH" [OF False])
  qed
qed

lemma AddData_timeseries:
  assumes "AddDataToTimeseries F U p s = (r, s')"
  shows "timeseries s' = timeseries s"
  using assms
  by (cases rule: AddDataToTimeseries_cases) (metis timeseries_tables insert_batches_timeseries)+



end
