(* ===== verification/TsMulti.thy ===== *)
theory TsMulti
  imports TimeseriesFacts
begin

text \<open>
  Queries over several time series: \<^verbatim>\<open>QueryMultiSourceData\<close> of
  \<^verbatim>\<open>internal/services/timeseries.go\<close> with \<^verbatim>\<open>GetTsDataRangeLimited\<close>.  Go's iteration over a
  map has no fixed order: the order in which the series are visited is the argument \<open>ord\<close>,
  a function that rearranges the list of keys.
\<close>

section \<open>Parameters and limits\<close>

record 'v QueryMultiSourceDataParams =
  qm_Uuids :: "uuid list"
  qm_Start :: int
  qm_End :: int
  qm_GreaterOrEq :: "'v option"
  qm_LessOrEq :: "'v option"
  qm_Aggregate :: string
  qm_Precision :: string
  qm_Timezone :: string
  qm_UseRollups :: bool
  qm_MaxPointsPerSeries :: int
  qm_MaxTotalPoints :: int

definition series_limit_error :: "int \<Rightarrow> go_error" where
  "series_limit_error n = NewHTTPError None 413 (''timeseries query returned more than '' @ Itoa n @ '' points for one series'')"

definition total_limit_error :: "int \<Rightarrow> go_error" where
  "total_limit_error n = NewHTTPError None 413 (''timeseries query returned more than '' @ Itoa n @ '' total points'')"

definition validateMultiSeriesLimits :: "int \<Rightarrow> int \<Rightarrow> 'v QueryMultiSourceDataParams \<Rightarrow> go_error option" where
  "validateMultiSeriesLimits seriesPoints totalPoints p =
     (if qm_MaxPointsPerSeries p > 0 \<and> seriesPoints > qm_MaxPointsPerSeries p then Some (series_limit_error (qm_MaxPointsPerSeries p))
      else if qm_MaxTotalPoints p > 0 \<and> totalPoints > qm_MaxTotalPoints p then Some (total_limit_error (qm_MaxTotalPoints p))
      else None)"

section \<open>Raw rows\<close>

type_synonym 'v mapping_rows = "uuid \<Rightarrow> 'v TsRow list option"

definition add_row :: "uuid \<Rightarrow> 'v TsRow \<Rightarrow> 'v mapping_rows \<Rightarrow> 'v mapping_rows" where
  "add_row u row m = m(u \<mapsto> (case m u of None \<Rightarrow> [] | Some l \<Rightarrow> l) @ [row])"

definition rows_in :: "'v mapping_rows \<Rightarrow> uuid \<Rightarrow> int" where
  "rows_in m u = (case m u of None \<Rightarrow> 0 | Some l \<Rightarrow> int (length l))"

fun append_raw :: "'v fops \<Rightarrow> 'v QueryMultiSourceDataParams \<Rightarrow> 'v data_row list \<Rightarrow> int \<Rightarrow> 'v mapping_rows \<Rightarrow> 'v mapping_rows res" where
  "append_raw F p [] totalPoints m = Inr m"
| "append_raw F p (item # rows) totalPoints m =
     (let f = f_single F (dr_value item) in
      if \<not> inValidRange F f (qm_LessOrEq p) (qm_GreaterOrEq p) then append_raw F p rows totalPoints m
      else let m' = add_row (dr_uuid item) \<lparr>tr_V = f, tr_Ts = dr_ts item\<rparr> m in
        (case validateMultiSeriesLimits (rows_in m' (dr_uuid item)) (totalPoints + 1) p of
           Some e \<Rightarrow> Inl e
         | None \<Rightarrow> append_raw F p rows (totalPoints + 1) m'))"

definition appendRawMultiSourceRows :: "'v fops \<Rightarrow> 'v QueryMultiSourceDataParams \<Rightarrow> 'v data_row list \<Rightarrow> 'v mapping_rows res" where
  "appendRawMultiSourceRows F p rows = (case append_raw F p rows 0 (\<lambda>_. None) of
       Inl e \<Rightarrow> Inl e
     | Inr m \<Rightarrow> Inr (\<lambda>u. map_option (sort_key tr_Ts) (m u)))"

text \<open>
  The limited query numbers the rows within their series and overall, and returns one row
  more than each limit, so that the caller notices.
\<close>

record 'v limited_row =
  lr_row :: "'v data_row"
  lr_series_num :: int
  lr_total_num :: int

fun numbered :: "(uuid \<Rightarrow> int) \<Rightarrow> int \<Rightarrow> 'v data_row list \<Rightarrow> 'v limited_row list" where
  "numbered c n [] = []"
| "numbered c n (r # rs) = \<lparr>lr_row = r, lr_series_num = c (dr_uuid r) + 1, lr_total_num = n + 1\<rparr>
     # numbered (c(dr_uuid r := c (dr_uuid r) + 1)) (n + 1) rs"

definition in_limited :: "'v fops \<Rightarrow> 'v QueryMultiSourceDataParams \<Rightarrow> 'v tsdata_row \<Rightarrow> bool" where
  "in_limited F p d \<longleftrightarrow> deletes F (qm_Uuids p) (qm_Start p) (qm_End p) (qm_GreaterOrEq p) (qm_LessOrEq p) d"

definition limited_rows :: "'v fops \<Rightarrow> 'v QueryMultiSourceDataParams \<Rightarrow> 'v db \<Rightarrow> 'v data_row list" where
  "limited_rows F p s = sort_key (\<lambda>r. (dr_uuid r, dr_ts r)) (map to_data_row (filter (in_limited F p) (tsdata s)))"

definition within_limits :: "int \<Rightarrow> int \<Rightarrow> 'v QueryMultiSourceDataParams \<Rightarrow> 'v limited_row \<Rightarrow> bool" where
  "within_limits a b p r \<longleftrightarrow> (qm_MaxPointsPerSeries p \<le> 0 \<or> lr_series_num r \<le> qm_MaxPointsPerSeries p + a)
     \<and> (qm_MaxTotalPoints p \<le> 0 \<or> lr_total_num r \<le> qm_MaxTotalPoints p + b)"

definition GetTsDataRangeLimited :: "'v fops \<Rightarrow> 'v QueryMultiSourceDataParams \<Rightarrow> ('v, 'v limited_row list) dbm" where
  "GetTsDataRangeLimited F p = sel (\<lambda>s. filter (within_limits 1 1 p) (numbered (\<lambda>_. 0) 0 (limited_rows F p s)))"

fun append_limited :: "'v fops \<Rightarrow> 'v QueryMultiSourceDataParams \<Rightarrow> 'v limited_row list \<Rightarrow> int \<Rightarrow> 'v mapping_rows \<Rightarrow> 'v mapping_rows res" where
  "append_limited F p [] totalPoints m = Inr m"
| "append_limited F p (r # rows) totalPoints m =
     (if qm_MaxPointsPerSeries p > 0 \<and> lr_series_num r > qm_MaxPointsPerSeries p then Inl (series_limit_error (qm_MaxPointsPerSeries p))
      else if qm_MaxTotalPoints p > 0 \<and> lr_total_num r > qm_MaxTotalPoints p then Inl (total_limit_error (qm_MaxTotalPoints p))
      else let item = lr_row r;
               m' = add_row (dr_uuid item) \<lparr>tr_V = f_single F (dr_value item), tr_Ts = dr_ts item\<rparr> m in
        (case validateMultiSeriesLimits (rows_in m' (dr_uuid item)) (totalPoints + 1) p of
           Some e \<Rightarrow> Inl e
         | None \<Rightarrow> append_limited F p rows (totalPoints + 1) m'))"

definition appendRawMultiSourceLimitedRows :: "'v fops \<Rightarrow> 'v QueryMultiSourceDataParams \<Rightarrow> 'v limited_row list \<Rightarrow> 'v mapping_rows res" where
  "appendRawMultiSourceLimitedRows F p rows = append_limited F p rows 0 (\<lambda>_. None)"

section \<open>Aggregates\<close>

type_synonym 'v series_buckets = "(uuid \<Rightarrow> 'v buckets option) \<times> uuid list"

definition on_series :: "uuid \<Rightarrow> ('v buckets \<Rightarrow> 'v buckets) \<Rightarrow> 'v series_buckets \<Rightarrow> 'v series_buckets" where
  "on_series sid f st = (case fst st sid of
       None \<Rightarrow> ((fst st)(sid \<mapsto> f no_buckets), snd st @ [sid])
     | Some b \<Rightarrow> ((fst st)(sid \<mapsto> f b), snd st))"

definition accumulateSeriesAggregateBucket ::
  "'v fops \<Rightarrow> uuid \<Rightarrow> int \<Rightarrow> int \<Rightarrow> 'v \<Rightarrow> 'v \<Rightarrow> 'v \<Rightarrow> 'v series_buckets \<Rightarrow> 'v series_buckets" where
  "accumulateSeriesAggregateBucket F sid bucketTs n tot mn mx =
     on_series sid (accumulateAggregateBucket F bucketTs n tot mn mx)"

definition magg_of :: "'v QueryMultiSourceDataParams \<Rightarrow> 'v agg_params" where
  "magg_of p = \<lparr>ap_Aggregate = qm_Aggregate p, ap_Precision = qm_Precision p,
     ap_LessOrEq = qm_LessOrEq p, ap_GreaterOrEq = qm_GreaterOrEq p\<rparr>"

text \<open>The rows of one series from its buckets; a series without rows is left out.\<close>

fun build_series :: "'v fops \<Rightarrow> 'v QueryMultiSourceDataParams \<Rightarrow> 'v series_buckets \<Rightarrow> uuid list \<Rightarrow> int \<Rightarrow> 'v mapping_rows \<Rightarrow> 'v mapping_rows res" where
  "build_series F p st [] totalPoints m = Inr m"
| "build_series F p st (sid # sids) totalPoints m =
     (case buildSingleSourceAggregateResult F None (magg_of p) (case fst st sid of None \<Rightarrow> no_buckets | Some b \<Rightarrow> b) of
        Inl e \<Rightarrow> Inl e
      | Inr rows \<Rightarrow>
          if rows = [] then build_series F p st sids totalPoints m
          else let totalPoints = totalPoints + int (length rows) in
            (case validateMultiSeriesLimits (int (length rows)) totalPoints p of
               Some e \<Rightarrow> Inl e
             | None \<Rightarrow> build_series F p st sids totalPoints (m(sid \<mapsto> rows))))"

definition aggregateMultiSourceRows ::
  "'v fops \<Rightarrow> (uuid list \<Rightarrow> uuid list) \<Rightarrow> 'v data_row list \<Rightarrow> 'v QueryMultiSourceDataParams \<Rightarrow> zone \<Rightarrow> 'v mapping_rows res" where
  "aggregateMultiSourceRows F ord rows p z =
     (if rows = [] then Inr (\<lambda>_. None)
      else case bucket_loop (\<lambda>r. truncateTime (dr_ts r) (qm_Precision p) z)
             (\<lambda>key r. on_series (dr_uuid r) (bucket_row F key (dr_value r))) rows (\<lambda>_. None, []) of
        Inl e \<Rightarrow> Inl e
      | Inr st \<Rightarrow> build_series F p st (ord (snd st)) 0 (\<lambda>_. None))"

definition aggregateMultiSourceFromSources ::
  "'v fops \<Rightarrow> (uuid list \<Rightarrow> uuid list) \<Rightarrow> 'v data_row list \<Rightarrow> 'v aggregateRollupRow list \<Rightarrow> 'v QueryMultiSourceDataParams
     \<Rightarrow> zone \<Rightarrow> 'v mapping_rows res" where
  "aggregateMultiSourceFromSources F ord rawRows rollupRows p z =
     (case bucket_loop (\<lambda>r. truncateTime (dr_ts r) (qm_Precision p) z)
             (\<lambda>key r. accumulateSeriesAggregateBucket F (dr_uuid r) key 1 (dr_value r) (dr_value r) (dr_value r)) rawRows (\<lambda>_. None, []) of
        Inl e \<Rightarrow> Inl e
      | Inr st \<Rightarrow>
          (case bucket_loop (\<lambda>r. truncateTime (ar_bucket r) (qm_Precision p) z)
                  (\<lambda>key r. accumulateSeriesAggregateBucket F (ar_uuid r) key (ar_count r) (ar_sum r) (ar_min r) (ar_max r)) rollupRows st of
             Inl e \<Rightarrow> Inl e
           | Inr st' \<Rightarrow> build_series F p st' (ord (snd st')) 0 (\<lambda>_. None)))"

definition queryMultiSourceAggregatedData ::
  "'v fops \<Rightarrow> (uuid list \<Rightarrow> uuid list) \<Rightarrow> 'v QueryMultiSourceDataParams \<Rightarrow> zone \<Rightarrow> ('v, 'v mapping_rows) dbm" where
  "queryMultiSourceAggregatedData F ord p z =
     (if rollupSourceForPrecision (qm_UseRollups p) (qm_Timezone p) (qm_Precision p) \<noteq> ''''
      then andthen (loadAggregateSources (qm_Uuids p) (qm_Start p) (qm_End p) (qm_Precision p)) (\<lambda>(rawRows, rollupRows).
             lift_res (aggregateMultiSourceFromSources F ord rawRows rollupRows p z))
      else andthen (GetTsDataRange (qm_Uuids p) (qm_Start p) (qm_End p)) (\<lambda>dataList.
             lift_res (aggregateMultiSourceRows F ord dataList p z)))"

section \<open>The query\<close>

record 'v TsResults =
  tr_Uuid :: string
  tr_Data :: "'v TsRow list"

definition results_of :: "uuid list \<Rightarrow> 'v mapping_rows \<Rightarrow> 'v TsResults list" where
  "results_of uuids m = concat (map (\<lambda>key. case m key of None \<Rightarrow> [] | Some rows \<Rightarrow> [\<lparr>tr_Uuid = key, tr_Data = rows\<rparr>]) (dedup [] uuids))"

definition QueryMultiSourceData ::
  "'v fops \<Rightarrow> (string \<Rightarrow> zone res) \<Rightarrow> (uuid list \<Rightarrow> uuid list) \<Rightarrow> 'v QueryMultiSourceDataParams \<Rightarrow> ('v, 'v TsResults list) dbm" where
  "QueryMultiSourceData F loc ord p =
     andthen (lift_res (loc (qm_Timezone p))) (\<lambda>tzloc.
     andthen (if shouldAggregateData (qm_Aggregate p) (qm_Precision p) then queryMultiSourceAggregatedData F ord p tzloc
              else if qm_MaxPointsPerSeries p > 0 \<or> qm_MaxTotalPoints p > 0
              then andthen (GetTsDataRangeLimited F p) (\<lambda>dataList. lift_res (appendRawMultiSourceLimitedRows F p dataList))
              else andthen (GetTsDataRange (qm_Uuids p) (qm_Start p) (qm_End p)) (\<lambda>dataList.
                     lift_res (appendRawMultiSourceRows F p dataList))) (\<lambda>mapping.
     ret (results_of (qm_Uuids p) mapping)))"

end
