(* ===== verification/TsMultiFacts.thy ===== *)
theory TsMultiFacts
  imports TsMulti
begin

text \<open>
  Queries over several series agree with the queries of one series, do not depend on the
  order in which a map is walked, and never cut an answer short.
\<close>

section \<open>Limits of raw queries\<close>

definition ts_row :: "'v fops \<Rightarrow> 'v data_row \<Rightarrow> 'v TsRow" where
  "ts_row F r = \<lparr>tr_V = f_single F (dr_value r), tr_Ts = dr_ts r\<rparr>"

definition some_rows :: "'a list \<Rightarrow> 'a list option" where
  "some_rows rows = (if rows = [] then None else Some rows)"

definition series_rows :: "'v fops \<Rightarrow> 'v data_row list \<Rightarrow> 'v mapping_rows" where
  "series_rows F rows u = some_rows (map (ts_row F) (filter (\<lambda>r. dr_uuid r = u) rows))"

lemma add_rows_fold:
  "fold (\<lambda>r. add_row (dr_uuid r) (ts_row F r)) rows (series_rows F before) = series_rows F (before @ rows)"
proof (induction rows arbitrary: before)
  case (Cons r rows)
  have "add_row (dr_uuid r) (ts_row F r) (series_rows F before) = series_rows F (before @ [r])"
    by (auto simp: add_row_def series_rows_def some_rows_def fun_eq_iff)
  then show ?case using Cons.IH [of "before @ [r]"] by simp
qed simp

lemma append_limited_Inr:
  "append_limited F p rs n m = Inr m' \<Longrightarrow>
     (\<forall>r\<in>set rs. within_limits 0 0 p r) \<and> m' = fold (\<lambda>r. add_row (dr_uuid (lr_row r)) (ts_row F (lr_row r))) rs m"
  by (induction rs arbitrary: n m) (auto simp: within_limits_def ts_row_def Let_def split: if_splits option.splits)

lemma numbered_rows: "map lr_row (numbered c n rows) = rows"
  by (induction rows arbitrary: c n) auto

lemma numbered_not_cut:
  assumes "\<forall>r\<in>set (filter (within_limits 1 1 p) (numbered c n rows)). within_limits 0 0 p r"
    and "\<And>u. qm_MaxPointsPerSeries p > 0 \<Longrightarrow> c u \<le> qm_MaxPointsPerSeries p" "qm_MaxTotalPoints p > 0 \<Longrightarrow> n \<le> qm_MaxTotalPoints p"
  shows "filter (within_limits 1 1 p) (numbered c n rows) = numbered c n rows
    \<and> (\<forall>u. qm_MaxPointsPerSeries p > 0 \<longrightarrow> c u + int (length (filter (\<lambda>r. dr_uuid r = u) rows)) \<le> qm_MaxPointsPerSeries p)
    \<and> (qm_MaxTotalPoints p > 0 \<longrightarrow> n + int (length rows) \<le> qm_MaxTotalPoints p)"
  using assms
proof (induction rows arbitrary: c n)
  case (Cons r rows)
  let ?h = "\<lparr>lr_row = r, lr_series_num = c (dr_uuid r) + 1, lr_total_num = n + 1\<rparr>"
  let ?c = "c(dr_uuid r := c (dr_uuid r) + 1)"
  have "within_limits 1 1 p ?h" using Cons.prems(2) [of "dr_uuid r"] Cons.prems(3) by (force simp: within_limits_def not_le)
  with Cons.prems(1) have h: "within_limits 0 0 p ?h" and
    t: "\<forall>r\<in>set (filter (within_limits 1 1 p) (numbered ?c (n + 1) rows)). within_limits 0 0 p r" by simp_all
  have "?c u \<le> qm_MaxPointsPerSeries p" if "qm_MaxPointsPerSeries p > 0" for u
    using h that Cons.prems(2) [of u] by (auto simp: within_limits_def)
  moreover have "n + 1 \<le> qm_MaxTotalPoints p" if "qm_MaxTotalPoints p > 0" using h that by (simp add: within_limits_def)
  ultimately have IH: "filter (within_limits 1 1 p) (numbered ?c (n + 1) rows) = numbered ?c (n + 1) rows
    \<and> (\<forall>u. qm_MaxPointsPerSeries p > 0 \<longrightarrow> ?c u + int (length (filter (\<lambda>r. dr_uuid r = u) rows)) \<le> qm_MaxPointsPerSeries p)
    \<and> (qm_MaxTotalPoints p > 0 \<longrightarrow> n + 1 + int (length rows) \<le> qm_MaxTotalPoints p)" by (intro Cons.IH t)
  have "c u + int (length (filter (\<lambda>r. dr_uuid r = u) (r # rows))) = ?c u + int (length (filter (\<lambda>r. dr_uuid r = u) rows))" for u
    by simp
  with IH \<open>within_limits 1 1 p ?h\<close> show ?case by (simp add: add.assoc)
qed auto

lemma limited_complete:
  assumes "appendRawMultiSourceLimitedRows F p (filter (within_limits 1 1 p) (numbered (\<lambda>_. 0) 0 rows)) = Inr m"
  shows "m = series_rows F rows"
    "qm_MaxPointsPerSeries p > 0 \<Longrightarrow> int (length (filter (\<lambda>r. dr_uuid r = u) rows)) \<le> qm_MaxPointsPerSeries p"
    "qm_MaxTotalPoints p > 0 \<Longrightarrow> int (length rows) \<le> qm_MaxTotalPoints p"
proof -
  note ok = append_limited_Inr [OF assms [unfolded appendRawMultiSourceLimitedRows_def]]
  from numbered_not_cut [OF conjunct1 [OF ok]]
  have cut: "filter (within_limits 1 1 p) (numbered (\<lambda>_. 0) 0 rows) = numbered (\<lambda>_. 0) 0 rows"
    and lim: "\<forall>u. qm_MaxPointsPerSeries p > 0 \<longrightarrow> int (length (filter (\<lambda>r. dr_uuid r = u) rows)) \<le> qm_MaxPointsPerSeries p"
      "qm_MaxTotalPoints p > 0 \<longrightarrow> int (length rows) \<le> qm_MaxTotalPoints p" by auto
  from lim show "qm_MaxPointsPerSeries p > 0 \<Longrightarrow> int (length (filter (\<lambda>r. dr_uuid r = u) rows)) \<le> qm_MaxPointsPerSeries p"
    "qm_MaxTotalPoints p > 0 \<Longrightarrow> int (length rows) \<le> qm_MaxTotalPoints p" by simp_all
  have "m = fold (\<lambda>r. add_row (dr_uuid (lr_row r)) (ts_row F (lr_row r))) (numbered (\<lambda>_. 0) 0 rows) (\<lambda>_. None)"
    using ok unfolding cut by simp
  also have "\<dots> = fold (\<lambda>r. add_row (dr_uuid r) (ts_row F r)) (map lr_row (numbered (\<lambda>_. 0) 0 rows)) (\<lambda>_. None)"
    by (simp add: fold_map comp_def)
  also have "\<dots> = fold (\<lambda>r. add_row (dr_uuid r) (ts_row F r)) rows (series_rows F [])"
    unfolding numbered_rows by (simp add: series_rows_def [abs_def] some_rows_def)
  finally show "m = series_rows F rows" unfolding add_rows_fold by simp
qed

section \<open>Series by series\<close>

definition buckets_for :: "'v series_buckets \<Rightarrow> uuid \<Rightarrow> 'v buckets" where
  "buckets_for st u = (case fst st u of None \<Rightarrow> no_buckets | Some b \<Rightarrow> b)"

definition series_ok :: "'v series_buckets \<Rightarrow> bool" where
  "series_ok st \<longleftrightarrow> distinct (snd st) \<and> (\<forall>u. fst st u \<noteq> None \<longleftrightarrow> u \<in> set (snd st))"

lemma on_series_ok:
  assumes "series_ok st"
  shows "series_ok (on_series sid f st)" "set (snd (on_series sid f st)) = insert sid (set (snd st))"
    "buckets_for (on_series sid f st) u = (if u = sid then f (buckets_for st u) else buckets_for st u)"
proof -
  show "series_ok (on_series sid f st)"
  proof (cases "fst st sid")
    case None
    with assms have "sid \<notin> set (snd st)" unfolding series_ok_def by blast
    with None assms show ?thesis by (simp add: series_ok_def on_series_def)
  next
    case (Some b)
    with assms have "sid \<in> set (snd st)" unfolding series_ok_def by blast
    with Some assms show ?thesis by (auto simp: series_ok_def on_series_def)
  qed
  show "set (snd (on_series sid f st)) = insert sid (set (snd st))"
    using assms by (cases "fst st sid") (auto simp: series_ok_def on_series_def)
  show "buckets_for (on_series sid f st) u = (if u = sid then f (buckets_for st u) else buckets_for st u)"
    by (cases "fst st sid") (simp_all add: on_series_def buckets_for_def)
qed

lemma bucket_loop_series:
  assumes "bucket_loop trunc (\<lambda>k r. on_series (g r) (f k r)) rows st = Inr st'" "series_ok st"
  shows "series_ok st' \<and> set (snd st') = set (snd st) \<union> g ` set rows
    \<and> bucket_loop trunc f (filter (\<lambda>r. g r = u) rows) (buckets_for st u) = Inr (buckets_for st' u)"
  using assms
proof (induction rows arbitrary: st)
  case (Cons r rows)
  from Cons.prems(1) obtain k where k: "trunc r = Inr k"
    and rest: "bucket_loop trunc (\<lambda>k r. on_series (g r) (f k r)) rows (on_series (g r) (f k r) st) = Inr st'"
    by (auto split: sum.splits)
  note s = on_series_ok [OF Cons.prems(2)]
  from Cons.IH [OF rest s(1)] k show ?case by (auto simp: s)
qed simp

lemma series_ok_empty [simp]: "series_ok (\<lambda>_. None, [])" "buckets_for (\<lambda>_. None, []) u = no_buckets"
  by (simp_all add: series_ok_def buckets_for_def)

text \<open>Success of the last loop does not depend on the order of the series.\<close>

definition fits :: "'v QueryMultiSourceDataParams \<Rightarrow> ('u \<Rightarrow> 'a list) \<Rightarrow> 'u set \<Rightarrow> int \<Rightarrow> bool" where
  "fits p rows U n \<longleftrightarrow> (\<forall>u\<in>U. qm_MaxPointsPerSeries p > 0 \<longrightarrow> int (length (rows u)) \<le> qm_MaxPointsPerSeries p)
     \<and> (qm_MaxTotalPoints p > 0 \<longrightarrow> (\<exists>u\<in>U. rows u \<noteq> []) \<longrightarrow> n + (\<Sum>u\<in>U. int (length (rows u))) \<le> qm_MaxTotalPoints p)"

lemma validate_None:
  "validateMultiSeriesLimits a b p = None \<longleftrightarrow>
     (qm_MaxPointsPerSeries p > 0 \<longrightarrow> a \<le> qm_MaxPointsPerSeries p) \<and> (qm_MaxTotalPoints p > 0 \<longrightarrow> b \<le> qm_MaxTotalPoints p)"
  by (auto simp: validateMultiSeriesLimits_def)

lemma fits_insert:
  assumes "finite U" "u \<notin> U" "rows u \<noteq> []"
  shows "fits p rows (insert u U) n \<longleftrightarrow>
    validateMultiSeriesLimits (int (length (rows u))) (n + int (length (rows u))) p = None \<and> fits p rows U (n + int (length (rows u)))"
proof -
  have "0 \<le> (\<Sum>u\<in>U. int (length (rows u)))" by (simp add: sum_nonneg)
  moreover have "(\<Sum>u\<in>U. int (length (rows u))) = 0" if "\<forall>u\<in>U. rows u = []" using that by simp
  ultimately show ?thesis using assms by (auto simp: fits_def validate_None)
qed

lemma fits_insert_Nil: "finite U \<Longrightarrow> u \<notin> U \<Longrightarrow> rows u = [] \<Longrightarrow> fits p rows (insert u U) n = fits p rows U n"
  by (auto simp: fits_def)

lemma build_series_cases:
  assumes "\<And>u. u \<in> set sids \<Longrightarrow> buildSingleSourceAggregateResult F None (magg_of p) (buckets_for st u) = Inr (rows u)" "distinct sids"
  shows "if fits p rows (set sids) n
    then build_series F p st sids n m = Inr (\<lambda>u. if u \<in> set sids \<and> rows u \<noteq> [] then Some (rows u) else m u)
    else \<exists>e. build_series F p st sids n m = Inl e"
  using assms
proof (induction sids arbitrary: n m)
  case Nil
  then show ?case by (simp add: fits_def)
next
  case (Cons sid sids)
  have b: "buildSingleSourceAggregateResult F None (magg_of p) (case fst st sid of None \<Rightarrow> no_buckets | Some b \<Rightarrow> b) = Inr (rows sid)"
    using Cons.prems(1) [of sid] by (simp add: buckets_for_def)
  have IH: "if fits p rows (set sids) n'
    then build_series F p st sids n' m' = Inr (\<lambda>u. if u \<in> set sids \<and> rows u \<noteq> [] then Some (rows u) else m' u)
    else \<exists>e. build_series F p st sids n' m' = Inl e" for n' m'
    using Cons.prems by (intro Cons.IH) auto
  show ?case
  proof (cases "rows sid = []")
    case True
    with IH [of n m] Cons.prems(2) b show ?thesis by (auto simp: fits_insert_Nil fun_eq_iff split: if_splits)
  next
    case False
    let ?n = "n + int (length (rows sid))"
    have f: "fits p rows (set (sid # sids)) n \<longleftrightarrow>
        validateMultiSeriesLimits (int (length (rows sid))) ?n p = None \<and> fits p rows (set sids) ?n"
      using fits_insert [of "set sids" sid rows p n] False Cons.prems(2) by simp
    show ?thesis
    proof (cases "validateMultiSeriesLimits (int (length (rows sid))) ?n p")
      case None
      with IH [of ?n "m(sid \<mapsto> rows sid)"] b False Cons.prems(2) show ?thesis
        unfolding f by (auto simp: Let_def fun_eq_iff split: if_splits)
    next
      case (Some e)
      with b False show ?thesis unfolding f by (simp add: Let_def)
    qed
  qed
qed

lemma build_series_Inr:
  assumes "build_series F p st sids n m = Inr m'" "u \<in> set sids"
  shows "\<exists>rows. buildSingleSourceAggregateResult F None (magg_of p) (buckets_for st u) = Inr rows"
  using assms by (induction sids arbitrary: n m) (auto simp: buckets_for_def Let_def split: sum.splits if_splits option.splits)

section \<open>One series among several\<close>

definition rearranges :: "('a list \<Rightarrow> 'a list) \<Rightarrow> bool" where
  "rearranges ord \<longleftrightarrow> (\<forall>xs. mset (ord xs) = mset xs)"

lemma rearrangesD:
  assumes "rearranges ord"
  shows "set (ord xs) = set xs" "distinct (ord xs) = distinct xs"
  using assms mset_eq_setD [of "ord xs" xs] mset_eq_imp_distinct_iff [of "ord xs" xs] by (simp_all add: rearranges_def)

lemma build_single_no_buckets [simp]: "buildSingleSourceAggregateResult F conv q no_buckets = Inr []"
  by (simp add: buildSingleSourceAggregateResult_def no_buckets_def)

lemma build_series_each:
  assumes "build_series F p st (ord (snd st)) 0 (\<lambda>_. None) = Inr m" "series_ok st" "rearranges ord"
  shows "\<exists>rs. buildSingleSourceAggregateResult F None (magg_of p) (buckets_for st u) = Inr rs \<and> m u = some_rows rs"
proof -
  have sets: "set (ord (snd st)) = set (snd st)" "distinct (ord (snd st))"
    using rearrangesD [OF assms(3), of "snd st"] assms(2) by (auto simp: series_ok_def)
  have "\<forall>v\<in>set (ord (snd st)). \<exists>rs. buildSingleSourceAggregateResult F None (magg_of p) (buckets_for st v) = Inr rs"
    using build_series_Inr [OF assms(1)] by blast
  then obtain rows where rows: "\<And>v. v \<in> set (ord (snd st)) \<Longrightarrow>
      buildSingleSourceAggregateResult F None (magg_of p) (buckets_for st v) = Inr (rows v)" using bchoice by metis
  from build_series_cases [OF rows sets(2), of 0 "\<lambda>_. None"] assms(1)
  have m: "m = (\<lambda>v. if v \<in> set (ord (snd st)) \<and> rows v \<noteq> [] then Some (rows v) else None)" by (simp split: if_splits)
  show ?thesis
  proof (cases "u \<in> set (snd st)")
    case True
    with rows [of u] sets(1) m show ?thesis by (auto simp: some_rows_def)
  next
    case False
    with assms(2) have "fst st u = None" unfolding series_ok_def by blast
    then have "buckets_for st u = no_buckets" by (simp add: buckets_for_def)
    with False sets(1) m show ?thesis by (simp add: some_rows_def)
  qed
qed

lemma multi_rows_each:
  assumes "aggregateMultiSourceRows F ord rows p z = Inr m" "rearranges ord"
  shows "\<exists>rs. aggregateSingleSourceRows F None (filter (\<lambda>r. dr_uuid r = u) rows) (magg_of p) z = Inr rs \<and> m u = some_rows rs"
proof (cases "rows = []")
  case True
  with assms(1) show ?thesis by (auto simp: aggregateMultiSourceRows_def aggregateSingleSourceRows_def some_rows_def no_buckets_def)
next
  case False
  with assms(1) obtain st where st: "bucket_loop (\<lambda>r. truncateTime (dr_ts r) (qm_Precision p) z)
      (\<lambda>key r. on_series (dr_uuid r) (bucket_row F key (dr_value r))) rows (\<lambda>_. None, []) = Inr st"
    and b: "build_series F p st (ord (snd st)) 0 (\<lambda>_. None) = Inr m"
    by (auto simp: aggregateMultiSourceRows_def split: sum.splits)
  from bucket_loop_series [OF st, of u]
  have ok: "series_ok st" and l: "bucket_loop (\<lambda>r. truncateTime (dr_ts r) (qm_Precision p) z) (\<lambda>key r. bucket_row F key (dr_value r))
      (filter (\<lambda>r. dr_uuid r = u) rows) no_buckets = Inr (buckets_for st u)" by simp_all
  from build_series_each [OF b ok assms(2), of u] l show ?thesis
    by (simp add: aggregateSingleSourceRows_def buildSingleSourceAggregateResult_def magg_of_def)
qed

lemma multi_sources_each:
  assumes "aggregateMultiSourceFromSources F ord raws rolls p z = Inr m" "rearranges ord"
  shows "\<exists>rs. aggregateSingleSourceFromSources F None (filter (\<lambda>r. dr_uuid r = u) raws) (filter (\<lambda>r. ar_uuid r = u) rolls) (magg_of p) z = Inr rs
    \<and> m u = some_rows rs"
proof -
  let ?raw = "\<lambda>key r. accumulateAggregateBucket F key 1 (dr_value r) (dr_value r) (dr_value r)"
  let ?roll = "\<lambda>key r. accumulateAggregateBucket F key (ar_count r) (ar_sum r) (ar_min r) (ar_max r)"
  from assms(1) obtain st st' where
    1: "bucket_loop (\<lambda>r. truncateTime (dr_ts r) (qm_Precision p) z) (\<lambda>key r. on_series (dr_uuid r) (?raw key r)) raws (\<lambda>_. None, []) = Inr st"
    and 2: "bucket_loop (\<lambda>r. truncateTime (ar_bucket r) (qm_Precision p) z) (\<lambda>key r. on_series (ar_uuid r) (?roll key r)) rolls st = Inr st'"
    and b: "build_series F p st' (ord (snd st')) 0 (\<lambda>_. None) = Inr m"
    by (auto simp: aggregateMultiSourceFromSources_def accumulateSeriesAggregateBucket_def split: sum.splits)
  from bucket_loop_series [OF 1, of u] have ok: "series_ok st" and
    l1: "bucket_loop (\<lambda>r. truncateTime (dr_ts r) (qm_Precision p) z) ?raw (filter (\<lambda>r. dr_uuid r = u) raws) no_buckets = Inr (buckets_for st u)"
    by simp_all
  from bucket_loop_series [OF 2 ok, of u] have ok': "series_ok st'" and
    l2: "bucket_loop (\<lambda>r. truncateTime (ar_bucket r) (qm_Precision p) z) ?roll (filter (\<lambda>r. ar_uuid r = u) rolls) (buckets_for st u) = Inr (buckets_for st' u)"
    by simp_all
  from build_series_each [OF b ok' assms(2), of u] l1 l2 show ?thesis
    by (simp add: aggregateSingleSourceFromSources_def magg_of_def)
qed

lemma range_rows_one:
  "u \<in> set uuids \<Longrightarrow> filter (\<lambda>r. dr_uuid r = u) (range_rows uuids a b t) = range_rows [u] a b t"
  by (auto simp: range_rows_def filter_map comp_def to_data_row_def in_query_def intro!: arg_cong [where f = "map _"] filter_cong)

lemma rollup_range_one:
  assumes "u \<in> set uuids"
  shows "filter (\<lambda>r. ar_uuid r = u) (rollup_range uuids a b tbl) = rollup_range [u] a b tbl"
proof -
  have "filter (\<lambda>r. ar_uuid r = u) (map to_rollup rs) = map to_rollup (filter (\<lambda>r. ru_uuid r = u) rs)" for rs :: "'a rollup_row list"
    by (simp add: filter_map comp_def to_rollup_def)
  moreover have "filter (\<lambda>r. ru_uuid r = u) (filter (\<lambda>r. ru_uuid r \<in> set uuids \<and> in_db_range (a, b) (ru_bucket r)) tbl)
      = filter (\<lambda>r. ru_uuid r \<in> set [u] \<and> in_db_range (a, b) (ru_bucket r)) tbl"
    using assms by (auto intro: filter_cong)
  ultimately show ?thesis unfolding rollup_range_def by (simp only: filter_sort)
qed

lemma sources_answer_one:
  assumes "u \<in> set uuids" "sources_answer uuids start stop precision t = (raws, rolls)"
  shows "sources_answer [u] start stop precision t = (filter (\<lambda>r. dr_uuid r = u) raws, filter (\<lambda>r. ar_uuid r = u) rolls)"
proof -
  obtain roll rs where "splitRollupRanges start stop (rollupSourceForPrecision True ''UTC'' precision) = (roll, rs)" by force
  with assms show ?thesis
    by (auto simp: sources_answer_def Let_def filter_concat comp_def range_rows_one rollup_range_one split: option.splits if_splits)
qed

definition single_of :: "'v QueryMultiSourceDataParams \<Rightarrow> uuid \<Rightarrow> 'v QuerySingleSourceDataParams" where
  "single_of p u = \<lparr>qs_Uuid = u, qs_Start = qm_Start p, qs_End = qm_End p, qs_GreaterOrEq = qm_GreaterOrEq p,
     qs_LessOrEq = qm_LessOrEq p, qs_Unit = None, qs_Aggregate = qm_Aggregate p, qs_Precision = qm_Precision p,
     qs_Timezone = qm_Timezone p, qs_UseRollups = qm_UseRollups p, qs_MaxPoints = 0\<rparr>"

lemma agg_of_single [simp]: "agg_of (single_of p u) = magg_of p"
  by (simp add: agg_of_def single_of_def magg_of_def)

lemma answers_multi_aggregated:
  "answers (queryMultiSourceAggregatedData F ord p z) (\<lambda>t.
     if rollupSourceForPrecision (qm_UseRollups p) (qm_Timezone p) (qm_Precision p) \<noteq> ''''
     then (case sources_answer (qm_Uuids p) (qm_Start p) (qm_End p) (qm_Precision p) t of (raws, rolls) \<Rightarrow>
             aggregateMultiSourceFromSources F ord raws rolls p z)
     else aggregateMultiSourceRows F ord (range_rows (qm_Uuids p) (qm_Start p) (qm_End p) t) p z)"
proof (cases "rollupSourceForPrecision (qm_UseRollups p) (qm_Timezone p) (qm_Precision p) = ''''")
  case True
  then show ?thesis
    unfolding queryMultiSourceAggregatedData_def
    by (simp, intro answers_cong [OF answers_andthen [OF answers_GetTsDataRange answers_lift_res]]) simp
next
  case False
  have "answers (case r of (rawRows, rollupRows) \<Rightarrow> lift_res (aggregateMultiSourceFromSources F ord rawRows rollupRows p z))
      (\<lambda>_. case r of (rawRows, rollupRows) \<Rightarrow> aggregateMultiSourceFromSources F ord rawRows rollupRows p z)"
    for r by (cases r) (simp add: answers_lift_res)
  note agg = this
  from False show ?thesis
    unfolding queryMultiSourceAggregatedData_def
    by simp (rule answers_cong, rule answers_andthen, rule answers_loadAggregateSources, rule agg, simp)
qed

lemma aggregated_each:
  assumes "fst (queryMultiSourceAggregatedData F ord p z s) = Inr m" "rearranges ord" "healthy s" "u \<in> set (qm_Uuids p)"
    and "shouldAggregateData (qm_Aggregate p) (qm_Precision p)"
  shows "\<exists>rs. rows_answer F None (single_of p u) z (tables s) = Inr rs \<and> m u = some_rows rs"
proof (cases "rollupSourceForPrecision (qm_UseRollups p) (qm_Timezone p) (qm_Precision p) = ''''")
  case True
  with assms(1) answersD [OF answers_multi_aggregated assms(3)]
  have "aggregateMultiSourceRows F ord (range_rows (qm_Uuids p) (qm_Start p) (qm_End p) (tables s)) p z = Inr m" by auto
  from multi_rows_each [OF this assms(2), of u] True assms(4,5) show ?thesis
    by (simp add: rows_answer_def range_rows_one) (simp add: single_of_def)
next
  case False
  obtain raws rolls where src: "sources_answer (qm_Uuids p) (qm_Start p) (qm_End p) (qm_Precision p) (tables s) = (raws, rolls)" by force
  with False assms(1) answersD [OF answers_multi_aggregated assms(3)]
  have "aggregateMultiSourceFromSources F ord raws rolls p z = Inr m" by auto
  from multi_sources_each [OF this assms(2), of u] False sources_answer_one [OF assms(4) src] assms(5) show ?thesis
    by (simp add: rows_answer_def) (simp add: single_of_def)
qed

section \<open>Results\<close>

lemma results_filter:
  assumes "distinct ks"
  shows "filter (\<lambda>t. tr_Uuid t = u) (concat (map (\<lambda>key. case m key of None \<Rightarrow> [] | Some rows \<Rightarrow> [\<lparr>tr_Uuid = key, tr_Data = rows\<rparr>]) ks))
    = (if u \<in> set ks then case m u of None \<Rightarrow> [] | Some rows \<Rightarrow> [\<lparr>tr_Uuid = u, tr_Data = rows\<rparr>] else [])"
  using assms by (induction ks) (auto split: option.splits)

lemma results_of_one:
  "u \<in> set uuids \<Longrightarrow> concat (map tr_Data (filter (\<lambda>t. tr_Uuid t = u) (results_of uuids m))) = (case m u of None \<Rightarrow> [] | Some rows \<Rightarrow> rows)"
  by (simp add: results_of_def results_filter split: option.splits)

lemma QueryMulti_Inr:
  assumes "QueryMultiSourceData F loc ord p s = (Inr res, s')"
  obtains z m s1 where "loc (qm_Timezone p) = Inr z" "res = results_of (qm_Uuids p) m"
    "(if shouldAggregateData (qm_Aggregate p) (qm_Precision p) then queryMultiSourceAggregatedData F ord p z
              else if qm_MaxPointsPerSeries p > 0 \<or> qm_MaxTotalPoints p > 0
              then andthen (GetTsDataRangeLimited F p) (\<lambda>dataList. lift_res (appendRawMultiSourceLimitedRows F p dataList))
              else andthen (GetTsDataRange (qm_Uuids p) (qm_Start p) (qm_End p)) (\<lambda>dataList.
                     lift_res (appendRawMultiSourceRows F p dataList))) s = (Inr m, s1)"
  using assms unfolding QueryMultiSourceData_def
proof (cases rule: andthen_cases)
  case (2 z s1)
  then have "loc (qm_Timezone p) = Inr z" "s1 = s" by (auto simp: lift_res_def ret_def fail_def split: sum.splits)
  with 2(2) that show ?thesis by (elim andthen_cases) (auto simp: ret_def)
qed simp

lemma lift_res_Inr: "lift_res r s = (Inr a, s') \<Longrightarrow> r = Inr a \<and> s' = s"
  by (cases r) (auto simp: lift_res_def ret_def fail_def)

lemma sel_Inr: "sel f s = (Inr a, s') \<Longrightarrow> a = f (s\<lparr>faults := tl (faults s)\<rparr>)"
  unfolding sel_def by (drule stmt_Inr) auto

lemma group_lengths:
  assumes "distinct ks"
  shows "sum_list (map (\<lambda>k. length (filter (\<lambda>r. f r = k) rows)) ks) \<le> length rows"
proof -
  have "sum_list (map (\<lambda>k. length (filter (\<lambda>r. f r = k) rows)) ks) = (\<Sum>k\<in>set ks. card {i. i < length rows \<and> f (rows ! i) = k})"
    using assms by (simp add: sum_list_distinct_conv_sum_set length_filter_conv_card)
  also have "\<dots> = card (\<Union>k\<in>set ks. {i. i < length rows \<and> f (rows ! i) = k})"
    by (intro card_UN_disjoint [symmetric]) auto
  also have "\<dots> \<le> card {..<length rows}" by (intro card_mono) auto
  finally show ?thesis by simp
qed

lemma results_lengths:
  "sum_list (map (\<lambda>t. length (tr_Data t)) (concat (map (\<lambda>key. case series_rows F rows key of None \<Rightarrow> []
      | Some rs \<Rightarrow> [\<lparr>tr_Uuid = key, tr_Data = rs\<rparr>]) ks))) = sum_list (map (\<lambda>k. length (filter (\<lambda>r. dr_uuid r = k) rows)) ks)"
  by (induction ks) (simp_all add: series_rows_def some_rows_def)

section \<open>Properties\<close>



section \<open>Concrete queries\<close>

definition multi_query :: "string \<Rightarrow> int option \<Rightarrow> int option \<Rightarrow> int \<Rightarrow> int QueryMultiSourceDataParams" where
  "multi_query aggregate ge le limit = \<lparr>qm_Uuids = [''a'', ''b'', ''a''], qm_Start = 0, qm_End = 3 * hour, qm_GreaterOrEq = ge, qm_LessOrEq = le,
     qm_Aggregate = aggregate, qm_Precision = ''hour'', qm_Timezone = ''UTC'', qm_UseRollups = True,
     qm_MaxPointsPerSeries = limit, qm_MaxTotalPoints = 0\<rparr>"

lemma rearranges_rev: "rearranges rev"
  by (simp add: rearranges_def)



text \<open>
  A limit changes the meaning of a filter.  With \<^verbatim>\<open>ge\<close> above \<^verbatim>\<open>le\<close> the service asks for
  values outside the window between them; the limited query asks for values that are at
  once above and below, and finds none.
\<close>

theorem limit_loses_outside_filter:
  "fst (QueryMultiSourceData int_ops utc_only rev (multi_query [] (Some 6) (Some 1) 0) sample_data)
     = Inr [\<lparr>tr_Uuid = ''a'', tr_Data = [\<lparr>tr_V = 6, tr_Ts = 31 * minute\<rparr>, \<lparr>tr_V = 1, tr_Ts = hour\<rparr>]\<rparr>]
   \<and> fst (QueryMultiSourceData int_ops utc_only rev (multi_query [] (Some 6) (Some 1) 10) sample_data) = Inr []"
  by code_simp

end
