(* ===== verification/Domains.thy ===== *)
theory Domains
  imports Schema
begin

text \<open>
  The registry of domains, \<^verbatim>\<open>postgres/postgresql.go\<close>: for every domain the connection to its
  database, and how a change of the configuration file is carried over to it (the callback
  of \<^verbatim>\<open>ProgramManager\<close>).  A connection of type \<open>'c\<close> is opened by \<open>dial\<close>; the goroutine that
  opens and pings it is a pair of steps.  The list of pairs stands for the Go map, in the
  order in which a \<^verbatim>\<open>range\<close> loop happens to walk it.
\<close>

section \<open>Maps as lists of pairs\<close>

definition put :: "'k \<Rightarrow> 'a \<Rightarrow> ('k \<times> 'a) list \<Rightarrow> ('k \<times> 'a) list" where
  "put k a m = (if k \<in> set (map fst m) then map (\<lambda>(k', b). if k' = k then (k', a) else (k', b)) m else m @ [(k, a)])"

definition cut :: "'k \<Rightarrow> ('k \<times> 'a) list \<Rightarrow> ('k \<times> 'a) list" where
  "cut k m = filter (\<lambda>x. fst x \<noteq> k) m"

lemma map_of_put [simp]: "map_of (put k a m) = (map_of m)(k \<mapsto> a)"
proof (cases "k \<in> set (map fst m)")
  case True
  have "map_of (map (\<lambda>(k', b). if k' = k then (k', a) else (k', b)) m) x
      = (if x = k then (if k \<in> set (map fst m) then Some a else None) else map_of m x)" for x
    by (induction m) (auto split: if_splits)
  with True show ?thesis by (intro ext) (simp add: put_def)
next
  case False
  then have "map_of m k = None" by (simp add: map_of_eq_None_iff)
  with False show ?thesis by (auto simp: put_def map_add_def split: option.splits)
qed

lemma map_of_cut [simp]: "map_of (cut k m) = (map_of m)(k := None)"
  by (rule ext, induction m) (auto simp: cut_def)

lemma set_put: "x \<in> set (put k a m) \<Longrightarrow> x = (k, a) \<or> x \<in> set m"
  by (auto simp: put_def split: if_splits)

lemma keys_put: "map fst (put k a m) = (if k \<in> set (map fst m) then map fst m else map fst m @ [k])"
  by (auto simp: put_def)

lemma distinct_put [intro]: "distinct (map fst m) \<Longrightarrow> distinct (map fst (put k a m))"
  by (simp add: keys_put)

lemma distinct_cut [intro]: "distinct (map fst m) \<Longrightarrow> distinct (map fst (cut k m))"
  unfolding cut_def by (rule distinct_map_filter_key)

lemma set_keys_put [simp]: "set (map fst (put k a m)) = insert k (set (map fst m))"
  by (auto simp: keys_put)

lemma set_keys_cut [simp]: "set (map fst (cut k m)) = set (map fst m) - {k}"
  by (auto simp: cut_def)

section \<open>The registry\<close>

record 'c DBConnection =
  dc_C :: "'c option"
  dc_Domain :: string
  dc_ConnectionString :: string
  dc_quit :: bool

type_synonym 'c registry = "(string \<times> 'c DBConnection) list"

definition DBConnection_Equals :: "'c DBConnection \<Rightarrow> 'c DBConnection \<Rightarrow> bool" where
  "DBConnection_Equals c d \<longleftrightarrow> dc_ConnectionString c = dc_ConnectionString d"

text \<open>
  \<^verbatim>\<open>Connect\<close> starts the goroutine once.  Until the goroutine is told to quit it opens the connection
  when there is none and drops one that does not answer; \<^verbatim>\<open>sql.Open\<close> may fail, which leaves none.
\<close>

definition Connect :: "'c DBConnection \<Rightarrow> 'c DBConnection" where
  "Connect c = (if dc_quit c then c else c\<lparr>dc_quit := True\<rparr>)"

definition open_step :: "(string \<Rightarrow> 'c option) \<Rightarrow> 'c DBConnection \<Rightarrow> 'c DBConnection" where
  "open_step dial c = (if dc_quit c \<and> dc_C c = None then c\<lparr>dc_C := dial (dc_ConnectionString c)\<rparr> else c)"

definition ping_step :: "('c \<Rightarrow> bool) \<Rightarrow> 'c DBConnection \<Rightarrow> 'c DBConnection" where
  "ping_step ping c = (case dc_C c of None \<Rightarrow> c
     | Some h \<Rightarrow> if dc_quit c \<and> \<not> ping h then c\<lparr>dc_C := None\<rparr> else c)"

definition AddDB :: "string \<Rightarrow> string \<Rightarrow> 'c registry \<Rightarrow> 'c registry" where
  "AddDB domain connectionInfo dbCache =
     (let newDBC = \<lparr>dc_C = None, dc_Domain = domain, dc_ConnectionString = connectionInfo, dc_quit = False\<rparr> in
      case map_of dbCache domain of
        Some c \<Rightarrow> if DBConnection_Equals c newDBC then dbCache else put domain (Connect newDBC) dbCache
      | None \<Rightarrow> put domain (Connect newDBC) dbCache)"

definition no_such_domain :: "string \<Rightarrow> go_error" where
  "no_such_domain domain = Plain (''no such domain '' @ [CHR 39] @ domain @ [CHR 39])"

definition RemoveDB :: "string \<Rightarrow> 'c registry \<Rightarrow> unit res \<times> 'c registry" where
  "RemoveDB domain dbCache = (case map_of dbCache domain of
       None \<Rightarrow> (Inl (no_such_domain domain), dbCache)
     | Some c \<Rightarrow> (Inr (), cut domain dbCache))"

definition Domain_GetDB :: "string \<Rightarrow> 'c registry \<Rightarrow> 'c res" where
  "Domain_GetDB domain dbCache = (case map_of dbCache domain of
       None \<Rightarrow> Inl (no_such_domain domain)
     | Some res \<Rightarrow> (case dc_C res of None \<Rightarrow> Inl (Plain (''no active connection to domain '' @ [CHR 39] @ domain @ [CHR 39]))
         | Some c \<Rightarrow> Inr c))"

definition GetAllDB :: "'c registry \<Rightarrow> (string \<times> 'c option) list" where
  "GetAllDB dbCache = map (\<lambda>(domain, db). (domain, dc_C db)) dbCache"

definition GetDomains :: "'c registry \<Rightarrow> string list" where
  "GetDomains dbCache = map fst dbCache"

section \<open>A change of the configuration\<close>

fun StringSliceIndex :: "string list \<Rightarrow> string \<Rightarrow> int" where
  "StringSliceIndex [] needle = -1"
| "StringSliceIndex (a # haystack) needle = (if a = needle then 0
     else let i = StringSliceIndex haystack needle in if i = -1 then -1 else i + 1)"

text \<open>One round of the loop that takes the configured domains out of the list: the last element fills the gap.\<close>

definition drop_domain :: "string list \<Rightarrow> string \<Rightarrow> string list" where
  "drop_domain domains domain =
     (let index = StringSliceIndex domains domain in
      if index = -1 \<or> length domains = 0 then domains
      else if length domains = 1 then []
      else butlast (domains[nat index := last domains]))"

definition OnConfigChange :: "(string \<times> string) list \<Rightarrow> 'c registry \<Rightarrow> 'c registry" where
  "OnConfigChange config dbCache =
     (let domains = foldl drop_domain (GetDomains dbCache) (map fst config);
          removed = foldl (\<lambda>c domain. snd (RemoveDB domain c)) dbCache domains
      in foldl (\<lambda>c (domain, pguri). AddDB domain pguri c) removed config)"

lemma StringSliceIndex_found:
  "needle \<in> set xs \<Longrightarrow> 0 \<le> StringSliceIndex xs needle \<and> nat (StringSliceIndex xs needle) < length xs
    \<and> xs ! nat (StringSliceIndex xs needle) = needle"
  by (induction xs) (auto simp: Let_def nat_add_distrib)

lemma StringSliceIndex_missing: "needle \<notin> set xs \<Longrightarrow> StringSliceIndex xs needle = -1"
  by (induction xs) auto

lemma swap_out:
  assumes "distinct xs" "i < length xs"
  shows "set (butlast (xs[i := last xs])) = set xs - {xs ! i} \<and> distinct (butlast (xs[i := last xs]))"
proof -
  from assms(2) have "xs \<noteq> []" by auto
  then obtain ys y where xs: "xs = ys @ [y]" by (metis append_butlast_last_id)
  show ?thesis
  proof (cases "i = length ys")
    case True
    then show ?thesis using assms xs by auto
  next
    case False
    with assms(2) xs have i: "i < length ys" by simp
    then have e: "butlast (xs[i := last xs]) = ys[i := y]" by (simp add: xs list_update_append)
    have "set (ys[i := y]) = insert y (set ys - {ys ! i})"
      using i assms(1) xs by (intro set_update_distinct) auto
    moreover have "distinct (ys[i := y])" using assms(1) xs by (intro distinct_list_update) auto
    moreover have "y \<noteq> ys ! i" using i assms(1) xs by auto
    ultimately show ?thesis unfolding e using i xs by (auto simp: nth_append)
  qed
qed

lemma drop_domain_set:
  assumes "distinct xs"
  shows "set (drop_domain xs d) = set xs - {d} \<and> distinct (drop_domain xs d)"
proof (cases "d \<in> set xs")
  case True
  note i = StringSliceIndex_found [OF True]
  then have k: "StringSliceIndex xs d \<noteq> -1" "xs \<noteq> []" using True by auto
  show ?thesis
  proof (cases "length xs = 1")
    case True
    then obtain x where "xs = [x]" by (auto simp: length_Suc_conv)
    with \<open>d \<in> set xs\<close> k show ?thesis by (simp add: drop_domain_def)
  next
    case False
    with k have "drop_domain xs d = butlast (xs[nat (StringSliceIndex xs d) := last xs])" by (simp add: drop_domain_def Let_def)
    with swap_out [OF assms, of "nat (StringSliceIndex xs d)"] i show ?thesis by simp
  qed
qed (use assms in \<open>simp add: drop_domain_def StringSliceIndex_missing\<close>)

lemma drop_domains_set: "distinct xs \<Longrightarrow> set (foldl drop_domain xs ds) = set xs - set ds \<and> distinct (foldl drop_domain xs ds)"
  by (induction ds arbitrary: xs) (auto simp: drop_domain_set)

definition fresh_connection :: "string \<Rightarrow> string \<Rightarrow> 'c DBConnection" where
  "fresh_connection domain uri = \<lparr>dc_C = None, dc_Domain = domain, dc_ConnectionString = uri, dc_quit = True\<rparr>"

text \<open>What a domain has after the reload: its connection if the URI is the same, else a fresh one.\<close>

definition reloaded :: "'c DBConnection option \<Rightarrow> string \<Rightarrow> string \<Rightarrow> 'c DBConnection" where
  "reloaded old domain uri = (case old of None \<Rightarrow> fresh_connection domain uri
     | Some c \<Rightarrow> if dc_ConnectionString c = uri then c else fresh_connection domain uri)"

lemma map_of_AddDB: "map_of (AddDB d u m) = (map_of m)(d \<mapsto> reloaded (map_of m d) d u)"
  by (auto simp: AddDB_def reloaded_def fresh_connection_def Connect_def DBConnection_Equals_def Let_def split: option.splits)

lemma map_of_AddDBs:
  "distinct (map fst config) \<Longrightarrow> map_of (foldl (\<lambda>c (d, u). AddDB d u c) m config) x
    = (case map_of config x of Some u \<Rightarrow> Some (reloaded (map_of m x) x u) | None \<Rightarrow> map_of m x)"
proof (induction config arbitrary: m)
  case (Cons e config)
  obtain d u where e: "e = (d, u)" by force
  have none: "map_of config d = None" using Cons.prems e by (simp add: map_of_eq_None_iff)
  show ?case
  proof (cases "x = d")
    case True
    with Cons e none show ?thesis by (simp add: map_of_AddDB)
  next
    case False
    with Cons e show ?thesis by (simp add: map_of_AddDB split: option.splits)
  qed
qed simp

lemma map_of_RemoveDBs: "map_of (foldl (\<lambda>c d. snd (RemoveDB d c)) m ds) x = (if x \<in> set ds then None else map_of m x)"
proof (induction ds arbitrary: m)
  case (Cons d ds)
  have "map_of (snd (RemoveDB d m)) = (map_of m)(d := None)"
    by (auto simp: RemoveDB_def split: option.splits)
  with Cons.IH show ?case by auto
qed simp

lemma keys_AddDB: "distinct (map fst m) \<Longrightarrow> distinct (map fst (AddDB d u m))"
  by (auto simp: AddDB_def Let_def split: option.splits)

lemma keys_RemoveDB: "distinct (map fst m) \<Longrightarrow> distinct (map fst (snd (RemoveDB d m)))"
  by (auto simp: RemoveDB_def split: option.splits)

text \<open>
  C29: A change of the configuration file leaves exactly the configured domains, each with the
  configured database.  A domain whose database did not change keeps its open connection; every
  other one starts without.
\<close>

theorem config_change_exact:
  assumes "distinct (map fst dbCache)" "distinct (map fst config)"
  shows "map_of (OnConfigChange config dbCache) domain
      = (case map_of config domain of None \<Rightarrow> None | Some uri \<Rightarrow> Some (reloaded (map_of dbCache domain) domain uri))
    \<and> distinct (map fst (OnConfigChange config dbCache))"
proof
  let ?gone = "foldl drop_domain (GetDomains dbCache) (map fst config)"
  let ?mid = "foldl (\<lambda>c domain. snd (RemoveDB domain c)) dbCache ?gone"
  have gone: "set ?gone = set (map fst dbCache) - set (map fst config)"
    using drop_domains_set [of "GetDomains dbCache" "map fst config"] assms(1) by (simp add: GetDomains_def)
  have mid: "map_of ?mid domain = (if domain \<in> set (map fst config) then map_of dbCache domain else None)"
    unfolding map_of_RemoveDBs gone by (auto simp: map_of_eq_None_iff)
  show "map_of (OnConfigChange config dbCache) domain
      = (case map_of config domain of None \<Rightarrow> None | Some uri \<Rightarrow> Some (reloaded (map_of dbCache domain) domain uri))"
  proof (cases "map_of config domain")
    case None
    then have "domain \<notin> set (map fst config)" by (simp add: map_of_eq_None_iff)
    with mid None map_of_AddDBs [OF assms(2), of ?mid domain] show ?thesis by (simp add: OnConfigChange_def Let_def)
  next
    case (Some uri)
    then have "domain \<in> set (map fst config)" by (metis map_of_eq_None_iff option.simps(3) list.set_map)
    with mid Some map_of_AddDBs [OF assms(2), of ?mid domain] show ?thesis by (simp add: OnConfigChange_def Let_def)
  qed
  have "distinct (map fst (foldl (\<lambda>c d. snd (RemoveDB d c)) m ds))" if "distinct (map fst m)" for m :: "'a registry" and ds
    using that by (induction ds arbitrary: m) (auto intro: keys_RemoveDB)
  moreover have "distinct (map fst (foldl (\<lambda>c (d, u). AddDB d u c) m cs))" if "distinct (map fst m)" for m :: "'a registry" and cs
    using that by (induction cs arbitrary: m) (auto intro: keys_AddDB)
  ultimately show "distinct (map fst (OnConfigChange config dbCache))" using assms(1) by (simp add: OnConfigChange_def Let_def)
qed

definition registry_example :: "nat registry" where
  "registry_example = [(''a'', \<lparr>dc_C = Some 1, dc_Domain = ''a'', dc_ConnectionString = ''pg:a'', dc_quit = True\<rparr>),
     (''b'', \<lparr>dc_C = Some 2, dc_Domain = ''b'', dc_ConnectionString = ''pg:b'', dc_quit = True\<rparr>),
     (''c'', \<lparr>dc_C = Some 3, dc_Domain = ''c'', dc_ConnectionString = ''pg:c'', dc_quit = True\<rparr>)]"

theorem config_change_exact_witness:
  "(let m = OnConfigChange [(''c'', ''pg:x''), (''a'', ''pg:a''), (''d'', ''pg:d'')] registry_example in
     map_option dc_C (map_of m ''a'') = Some (Some 1) \<and> map_of m ''b'' = None \<and> map_option dc_C (map_of m ''c'') = Some None
     \<and> map_option dc_ConnectionString (map_of m ''d'') = Some ''pg:d'')"
proof -
  have "distinct (map fst registry_example)" "distinct (map fst [(''c'', ''pg:x''), (''a'', ''pg:a''), (''d'', ''pg:d'')])"
    by (simp_all add: registry_example_def)
  note config_change_exact [OF this, THEN conjunct1]
  then show ?thesis by (simp add: Let_def) (simp add: registry_example_def reloaded_def fresh_connection_def)
qed

end
