(* ===== verification/Middleware.thy ===== *)
theory Middleware
  imports AccountFacts Rest Domains
begin

text \<open>
  The middleware in front of the handlers: the check of access rights
  (\<^verbatim>\<open>middleware/policyvalidator.go\<close>), the rate control (\<^verbatim>\<open>ratecontrol.go\<close>) and the fixed
  credentials (\<^verbatim>\<open>auth.go\<close>).  A request is what these functions look at: the credentials of the
  \<^verbatim>\<open>Authorization\<close> header, the scopes that the generated router put into the context, and
  the URL parameters.  The rate limiter (\<^verbatim>\<open>golang.org/x/time/rate\<close>) is an argument.
\<close>

record http_request =
  rq_BasicAuth :: "(string \<times> string) option"
  rq_Scopes :: "string list option"
  rq_URLParam :: "string \<Rightarrow> string"

section \<open>Scopes\<close>

text \<open>\<^verbatim>\<open>urlParamRegex\<close>, the submatches: a brace, at least one character that closes none, and the closing brace.\<close>

function url_params :: "string \<Rightarrow> string list" where
  "url_params [] = []"
| "url_params (c # cs) =
     (if c = CHR ''{'' \<and> takeWhile (\<lambda>x. x \<noteq> CHR ''}'') cs \<noteq> [] \<and> dropWhile (\<lambda>x. x \<noteq> CHR ''}'') cs \<noteq> []
      then takeWhile (\<lambda>x. x \<noteq> CHR ''}'') cs # url_params (tl (dropWhile (\<lambda>x. x \<noteq> CHR ''}'') cs))
      else url_params cs)"
  by pat_completeness auto
termination
proof (relation "measure length", simp)
  fix c cs
  have "length (dropWhile (\<lambda>x. x \<noteq> CHR ''}'') cs) \<le> length cs" by (rule length_dropWhile_le)
  then show "(tl (dropWhile (\<lambda>x. x \<noteq> CHR ''}'') cs), c # cs) \<in> measure length" by simp
qed simp

text \<open>\<^verbatim>\<open>strings.Replace(s, old, new, 1)\<close>\<close>

definition Replace1 :: "string \<Rightarrow> string \<Rightarrow> string \<Rightarrow> string" where
  "Replace1 s old new = (case str_index s old of None \<Rightarrow> s | Some n \<Rightarrow> take n s @ new @ drop (n + length old) s)"

definition scope_resource :: "(string \<Rightarrow> string) \<Rightarrow> string \<Rightarrow> string" where
  "scope_resource URLParam resource = foldl (\<lambda>res name. Replace1 res (''{'' @ name @ ''}'') (URLParam name)) resource (url_params resource)"

text \<open>An action and a resource, or \<^const>\<open>None\<close> when the scope is not made of two parts.\<close>

definition scope_request :: "(string \<Rightarrow> string) \<Rightarrow> string \<Rightarrow> (string \<times> string) option" where
  "scope_request URLParam scope = (case split_on (CHR '':'') scope of
       [action, resource] \<Rightarrow> Some (action, scope_resource URLParam resource)
     | _ \<Rightarrow> None)"

definition append_to :: "string \<Rightarrow> string \<Rightarrow> (string \<times> string list) list \<Rightarrow> (string \<times> string list) list" where
  "append_to action resource m = put action ((case map_of m action of None \<Rightarrow> [] | Some rs \<Rightarrow> rs) @ [resource]) m"

fun resourcesByAction :: "(string \<Rightarrow> string) \<Rightarrow> string list \<Rightarrow> (string \<times> string list) list \<Rightarrow> (string \<times> string list) list option" where
  "resourcesByAction URLParam [] m = Some m"
| "resourcesByAction URLParam (scope # scopes) m = (case scope_request URLParam scope of
       None \<Rightarrow> None
     | Some (action, resource) \<Rightarrow> resourcesByAction URLParam scopes (append_to action resource m))"

section \<open>The check\<close>

fun check_actions :: "(string \<Rightarrow> string) \<Rightarrow> string \<Rightarrow> policy_ctx \<Rightarrow> (string \<times> string list) list \<Rightarrow> 'v db
    \<Rightarrow> go_error option \<times> policy_ctx \<times> 'v db" where
  "check_actions sha apiKey ctx [] s = (None, ctx, s)"
| "check_actions sha apiKey ctx ((action, resources) # rest) s =
     (case UserHasManyAccessViaToken sha ctx apiKey action resources s of
        (Inl e, ctx', s') \<Rightarrow> (Some (ParseDBError e), ctx', s')
      | (Inr access, ctx', s') \<Rightarrow> if access then check_actions sha apiKey ctx' rest s' else (Some ErrorForbidden, ctx', s'))"

definition requiresUserID :: "string list \<Rightarrow> bool" where
  "requiresUserID scopes = list_ex (\<lambda>scope. case split_on (CHR '':'') scope of [action, _] \<Rightarrow> action \<noteq> ''read'' | _ \<Rightarrow> False) scopes"

text \<open>
  From the database handle on.  \<open>order\<close> is the order in which the map of actions is walked; the
  context handed on has the database, the domain token, the cache of decisions and, when a scope is
  more than reading, the user.
\<close>

definition validated :: "(string \<Rightarrow> string) \<Rightarrow> ((string \<times> string list) list \<Rightarrow> (string \<times> string list) list) \<Rightarrow> (string \<Rightarrow> string)
    \<Rightarrow> string list \<Rightarrow> string \<Rightarrow> string \<Rightarrow> (request_context \<Rightarrow> ('v, 'p) handler) \<Rightarrow> ('v, 'p) handler" where
  "validated sha order URLParam scopes domain apiKey next s =
     (case resourcesByAction URLParam scopes [] of
        None \<Rightarrow> (Problem ErrorUnprocessable, s)
      | Some m \<Rightarrow>
          (case check_actions sha apiKey (WithPolicyCheckCache None) (order m) s of
             (Some e, _, s1) \<Rightarrow> (Problem e, s1)
           | (None, ctx, s1) \<Rightarrow>
               (let cx = \<lparr>cx_db = True, cx_user = None, cx_domaintoken = (if domain \<noteq> [] \<and> apiKey \<noteq> []
                      then Some \<lparr>dt_Domain = domain, dt_Token = apiKey\<rparr> else None), cx_cache = ctx\<rparr> in
                if requiresUserID scopes
                then call (GetUserUuidFromToken sha apiKey) (\<lambda>userUUID. next (cx\<lparr>cx_user := Some userUUID\<rparr>)) s1
                else next cx s1)))"

definition PolicyValidator :: "(string \<Rightarrow> string) \<Rightarrow> ((string \<times> string list) list \<Rightarrow> (string \<times> string list) list) \<Rightarrow> http_request
    \<Rightarrow> (request_context \<Rightarrow> ('v, 'p) handler) \<Rightarrow> 'v db registry \<Rightarrow> 'p answer \<times> 'v db registry" where
  "PolicyValidator sha order rq next reg =
     (case rq_BasicAuth rq of
        None \<Rightarrow> (Problem ErrorUnauthorized, reg)
      | Some (domain, apiKey) \<Rightarrow>
          (case rq_Scopes rq of
             None \<Rightarrow> (Problem ErrorForbidden, reg)
           | Some scopes \<Rightarrow>
               (case Domain_GetDB domain reg of
                  Inl e \<Rightarrow> (Problem (NewInvalidRequestError (error_string e)), reg)
                | Inr db \<Rightarrow>
                    (let (ans, db') = validated sha order (rq_URLParam rq) scopes domain apiKey next db in
                     (ans, put domain ((the (map_of reg domain))\<lparr>dc_C := Some db'\<rparr>) reg)))))"

section \<open>Fixed credentials and headers\<close>

record BasicAuthItem =
  ba_User :: string
  ba_Password :: string

definition BasicAuth :: "BasicAuthItem list \<Rightarrow> http_request \<Rightarrow> ('s \<Rightarrow> 'p answer \<times> 's) \<Rightarrow> 's \<Rightarrow> 'p answer \<times> 's" where
  "BasicAuth auths rq next s = (case rq_BasicAuth rq of
       Some (u, p) \<Rightarrow> if list_ex (\<lambda>item. ba_User item = u \<and> ba_Password item = p) auths then next s else (Problem ErrorUnauthorized, s)
     | None \<Rightarrow> (Problem ErrorUnauthorized, s))"

section \<open>Rate control\<close>

text \<open>
  A limiter as the package offers it: a new one for an interval between requests and a burst, and
  \<^verbatim>\<open>Allow\<close>, which reads the clock and takes a token when there is one.
\<close>

record 'l rate_lib =
  rl_NewLimiter :: "int \<Rightarrow> int \<Rightarrow> 'l"
  rl_Allow :: "int \<Rightarrow> 'l \<Rightarrow> bool \<times> 'l"

record 'l visitor =
  vi_limiter :: 'l
  vi_lastSeen :: int

record 'l visitorController =
  vc_visitors :: "(string \<times> 'l visitor) list"
  vc_rateLimit :: int
  vc_maxBurst :: int
  vc_cleanUpInterval :: int
  vc_tickInterval :: int

definition newVisitorController :: "int \<Rightarrow> int \<Rightarrow> int \<Rightarrow> 'l visitorController" where
  "newVisitorController r b cleanUp = \<lparr>vc_visitors = [], vc_rateLimit = r, vc_maxBurst = b, vc_cleanUpInterval = cleanUp,
     vc_tickInterval = (if 0 < cleanUp \<and> cleanUp < 6000000000 then cleanUp else 6000000000)\<rparr>"

text \<open>The visitor of a key, made when there is none; a rate of zero is a division by zero, which panics (\<^const>\<open>None\<close>).\<close>

definition GetVisitor :: "'l rate_lib \<Rightarrow> int \<Rightarrow> string \<Rightarrow> 'l visitorController \<Rightarrow> ('l visitor \<times> 'l visitorController) option" where
  "GetVisitor L now token c =
     (let seen = (\<lambda>v. (v\<lparr>vi_lastSeen := now\<rparr>, c\<lparr>vc_visitors := put token (v\<lparr>vi_lastSeen := now\<rparr>) (vc_visitors c)\<rparr>)) in
      case map_of (vc_visitors c) token of
        Some v \<Rightarrow> Some (seen v)
      | None \<Rightarrow> if vc_rateLimit c = 0 then None
          else Some (seen \<lparr>vi_limiter = rl_NewLimiter L (sgn (vc_rateLimit c) * (3600000000000 div \<bar>vc_rateLimit c\<bar>)) (vc_maxBurst c), vi_lastSeen = now\<rparr>))"

definition cleanup_tick :: "int \<Rightarrow> 'l visitorController \<Rightarrow> 'l visitorController" where
  "cleanup_tick now c = c\<lparr>vc_visitors := filter (\<lambda>(key, v). \<not> vi_lastSeen v < now - vc_cleanUpInterval c) (vc_visitors c)\<rparr>"

definition RateControl :: "'l rate_lib \<Rightarrow> int \<Rightarrow> http_request \<Rightarrow> ('s \<Rightarrow> 'p answer \<times> 's) \<Rightarrow> 'l visitorController \<times> 's
    \<Rightarrow> ('p answer \<times> 'l visitorController \<times> 's) option" where
  "RateControl L now rq next st = (case rq_BasicAuth rq of
       None \<Rightarrow> Some (Problem ErrorUnauthorized, st)
     | Some (domain, apiKey) \<Rightarrow>
         if domain = [] \<or> apiKey = [] then Some (Problem ErrorUnauthorized, st)
         else let lutkey = domain @ ''.'' @ apiKey in
           (case GetVisitor L now lutkey (fst st) of
              None \<Rightarrow> None
            | Some (v, c) \<Rightarrow>
                (let (ok, l) = rl_Allow L now (vi_limiter v);
                     c' = c\<lparr>vc_visitors := put lutkey (v\<lparr>vi_limiter := l\<rparr>) (vc_visitors c)\<rparr> in
                 if ok then (let (ans, s') = next (snd st) in Some (ans, c', s')) else Some (Problem ErrorTooManyRequests, c', snd st))))"

section \<open>What the check guarantees\<close>

text \<open>
  Whatever the connection does, an answer that did arrive is the documented one.
\<close>

lemma access_rows:
  assumes "ExplainUserTokenAccessMany sha token action rs s = (Inr rows, s')" "parse_action action = Some act"
  shows "rows = (case token_user sha s token of None \<Rightarrow> [] | Some uid \<Rightarrow> map (explain_one s uid act) rs) \<and> tables s' = tables s"
  using stmt_Inr [OF assms(1) [unfolded ExplainUserTokenAccessMany_def]] assms(2) by (auto split: option.splits)

lemma ExplainMany_answered:
  assumes "ctx_ok sha s ctx" "CHR 0x00 \<notin> set token" "parse_action action = Some act"
    "ExplainUserAccessManyViaToken sha ctx token action resources s = (Inr ds, ctx', s')"
  shows "ds = map (decide sha s token action) resources" "ctx_ok sha s ctx'" "tables s' = tables s"
proof -
  let ?t = "s\<lparr>faults := []\<rparr>"
  have "healthy ?t" by (simp add: healthy_def)
  have "ctx_ok sha ?t ctx" using assms(1) by simp
  from ExplainMany_spec [OF this assms(2,3) \<open>healthy ?t\<close>, of resources]
  obtain c fs where spec: "ExplainUserAccessManyViaToken sha ctx token action resources ?t
       = (Inr (map (decide sha s token action) resources), c, s\<lparr>faults := fs\<rparr>)" "ctx_ok sha s c" by auto
  have rows: "\<exists>t'. ExplainUserTokenAccessMany sha token action rs ?t = (Inr rows, t')" "tables s1 = tables s"
    if "ExplainUserTokenAccessMany sha token action rs s = (Inr rows, s1)" for rs rows s1
    using access_rows [OF that assms(3)] assms(3) by (auto simp: ExplainUserTokenAccessMany_def stmt_def split: option.splits)
  have "ds = map (decide sha s token action) resources \<and> ctx' = c \<and> tables s' = tables s"
    using assms(4) spec(1) unfolding ExplainUserAccessManyViaToken_def Let_def
    by (auto split: if_splits prod.splits sum.splits dest: rows)
  with spec(2) show "ds = map (decide sha s token action) resources" "ctx_ok sha s ctx'" "tables s' = tables s" by auto
qed

lemma unparsed_denied:
  assumes "ctx_ok sha s ctx" "CHR 0x00 \<notin> set token" "CHR 0x00 \<notin> set action" "parse_action action = None"
    "ExplainUserAccessManyViaToken sha ctx token action resources s = (Inr ds, ctx', s')" "resources \<noteq> []"
  shows "\<not> list_all ad_Access ds"
proof -
  let ?known = "cached_part ctx token action (dedupeStrings resources)"
  have no: "ExplainUserTokenAccessMany sha token action rs s \<noteq> (Inr rows, s1)" for rs rows s1
    unfolding ExplainUserTokenAccessMany_def assms(4) by (auto dest: stmt_Inr)
  have ds: "ds = map (\<lambda>r. case ?known r of None \<Rightarrow> denied action r | Some d \<Rightarrow> d) resources"
    using assms(5,6) no unfolding ExplainUserAccessManyViaToken_def Let_def by (auto split: if_splits prod.splits sum.splits)
  have known: "\<not> ad_Access d" if "?known r = Some d" for r d
  proof -
    have "d = denied action r" using cached_part_ok [OF assms(1-3) that] assms(4) by (simp add: decide_def)
    then show ?thesis by (simp add: denied_def)
  qed
  have "\<not> ad_Access (case ?known r of None \<Rightarrow> denied action r | Some d \<Rightarrow> d)" for r
    by (cases "?known r") (simp_all add: denied_def known)
  then show ?thesis unfolding ds using assms(6) by (cases resources) simp_all
qed

lemma UserHasMany_yes:
  assumes "ctx_ok sha s ctx" "CHR 0x00 \<notin> set token" "CHR 0x00 \<notin> set action"
    "UserHasManyAccessViaToken sha ctx token action resources s = (Inr True, ctx', s')"
  obtains act uid where "parse_action action = Some act" "token_user sha s token = Some uid"
    "\<And>r. r \<in> set resources \<Longrightarrow> permitted s uid act r" "ctx_ok sha s ctx'" "tables s' = tables s"
proof -
  have ne: "resources \<noteq> []" using assms(4) by (auto simp: UserHasManyAccessViaToken_def)
  then obtain ds where ds: "ExplainUserAccessManyViaToken sha ctx token action resources s = (Inr ds, ctx', s')" "list_all ad_Access ds"
    using assms(4) by (auto simp: UserHasManyAccessViaToken_def split: prod.splits sum.splits)
  with unparsed_denied [OF assms(1-3) _ ds(1) ne] obtain act where act: "parse_action action = Some act" by fastforce
  note e = ExplainMany_answered [OF assms(1,2) act ds(1)]
  have all: "ad_Access (decide sha s token action r)" if "r \<in> set resources" for r
    using ds(2) that unfolding e(1) by (simp add: list_all_iff)
  obtain r where "r \<in> set resources" using ne by (cases resources) auto
  from all [OF this] obtain uid where uid: "token_user sha s token = Some uid" by (auto simp: decide_access)
  show thesis
  proof (rule that [OF act uid])
    show "permitted s uid act r" if "r \<in> set resources" for r using all [OF that] act uid by (auto simp: decide_access)
  qed (use e in auto)
qed

lemma permitted_faults: "permitted (s\<lparr>faults := fs\<rparr>) = permitted s"
  by (intro ext) (simp add: permitted_def applies_def)

lemma permitted_tables: "tables s = tables t \<Longrightarrow> permitted s = permitted t"
  by (metis permitted_faults tables_def)

lemma token_user_tables: "tables s = tables t \<Longrightarrow> token_user sha s = token_user sha t"
  by (rule ext) (metis token_user_faults tables_def)

lemma ctx_ok_tables: "tables s = tables t \<Longrightarrow> ctx_ok sha s = ctx_ok sha t"
  by (metis ctx_ok_faults tables_def)

lemma reads_access: "reads (ExplainUserTokenAccessMany sha token action rs)"
  unfolding ExplainUserTokenAccessMany_def by (rule reads_stmt) simp

lemma UserHasMany_tables: "UserHasManyAccessViaToken sha ctx token action rs s = (r, c, s') \<Longrightarrow> tables s' = tables s"
  unfolding UserHasManyAccessViaToken_def ExplainUserAccessManyViaToken_def Let_def
  by (auto split: if_splits prod.splits sum.splits dest: readsD [OF reads_access])

lemma check_actions_tables: "check_actions sha k ctx m s = (r, ctx', s') \<Longrightarrow> tables s' = tables s"
proof (induction m arbitrary: ctx s)
  case (Cons x m)
  obtain a rs where x: "x = (a, rs)" by force
  obtain u c s1 where u: "UserHasManyAccessViaToken sha ctx k a rs s = (u, c, s1)" by (metis prod.collapse)
  from Cons.prems x u UserHasMany_tables [OF u] Cons.IH [of c s1] show ?case by (cases u) (auto split: if_splits)
qed simp

lemma check_actions_passed:
  assumes "ctx_ok sha s ctx" "CHR 0x00 \<notin> set k" "list_all (\<lambda>(a, rs). CHR 0x00 \<notin> set a) m"
    "check_actions sha k ctx m s = (None, ctx', s')"
  shows "(\<forall>(a, rs)\<in>set m. \<exists>act uid. parse_action a = Some act \<and> token_user sha s k = Some uid \<and> (\<forall>r\<in>set rs. permitted s uid act r))
    \<and> tables s' = tables s \<and> ctx_ok sha s ctx'"
  using assms
proof (induction m arbitrary: ctx s)
  case (Cons x m)
  obtain a rs where x: "x = (a, rs)" by force
  from Cons.prems(4) x obtain c s1 where u: "UserHasManyAccessViaToken sha ctx k a rs s = (Inr True, c, s1)"
    "check_actions sha k c m s1 = (None, ctx', s')" by (auto split: prod.splits sum.splits if_splits)
  have nul: "CHR 0x00 \<notin> set a" using Cons.prems(3) x by simp
  obtain act uid where h: "parse_action a = Some act" "token_user sha s k = Some uid"
    "\<And>r. r \<in> set rs \<Longrightarrow> permitted s uid act r" "ctx_ok sha s c" "tables s1 = tables s"
    by (rule UserHasMany_yes [OF Cons.prems(1,2) nul u(1)]) (rule that)
  have "ctx_ok sha s1 c" using h(4) ctx_ok_tables [OF h(5)] by simp
  moreover have "list_all (\<lambda>(a, rs). CHR 0x00 \<notin> set a) m" using Cons.prems(3) by simp
  ultimately have "(\<forall>(a, rs)\<in>set m. \<exists>act uid. parse_action a = Some act \<and> token_user sha s1 k = Some uid \<and> (\<forall>r\<in>set rs. permitted s1 uid act r))
    \<and> tables s' = tables s1 \<and> ctx_ok sha s1 ctx'" using Cons.IH [of s1 c] Cons.prems(2) u(2) by blast
  then show ?case using h unfolding x permitted_tables [OF h(5)] token_user_tables [OF h(5)] ctx_ok_tables [OF h(5)] by auto
qed simp

text \<open>The map of actions holds exactly the requests of the scopes.\<close>

definition requests :: "(string \<times> string list) list \<Rightarrow> (string \<times> string) set" where
  "requests m = {(a, r). \<exists>rs. map_of m a = Some rs \<and> r \<in> set rs}"

lemma requests_append_to: "requests (append_to a r m) = insert (a, r) (requests m)"
  by (auto simp: requests_def append_to_def split: option.splits if_splits)

lemma resourcesByAction_requests:
  "resourcesByAction P scopes m = Some m' \<Longrightarrow> requests m' = requests m \<union> {q. \<exists>scope\<in>set scopes. scope_request P scope = Some q}
    \<and> (\<forall>a\<in>set (map fst m'). a \<in> set (map fst m) \<or> (\<exists>scope\<in>set scopes. \<exists>r. scope_request P scope = Some (a, r)))
    \<and> (\<forall>scope\<in>set scopes. scope_request P scope \<noteq> None)"
proof (induction scopes arbitrary: m)
  case (Cons scope scopes)
  then obtain a r where q: "scope_request P scope = Some (a, r)" "resourcesByAction P scopes (append_to a r m) = Some m'"
    by (auto split: option.splits)
  have "set (map fst (append_to a r m)) = insert a (set (map fst m))" unfolding append_to_def by (rule set_keys_put)
  with Cons.IH [OF q(2)] q(1) requests_append_to [of a r m] show ?case by auto
qed simp

lemma scope_action_chars:
  assumes "scope_request P scope = Some (a, r)"
  shows "set a \<subseteq> set scope"
proof -
  obtain res where "split_on (CHR '':'') scope = [a, res]"
    using assms by (auto simp: scope_request_def split: list.splits)
  then have "scope = a @ [CHR '':''] @ res" using join_split_on [of "CHR '':''" scope] by simp
  then show ?thesis by auto
qed

definition scope_allowed :: "(string \<Rightarrow> string) \<Rightarrow> (string \<Rightarrow> string) \<Rightarrow> 'v db \<Rightarrow> string \<Rightarrow> string \<Rightarrow> bool" where
  "scope_allowed sha P s apiKey scope \<longleftrightarrow> (\<exists>act res uid. scope_request P scope = Some (action_str act, res)
     \<and> token_user sha s apiKey = Some uid \<and> permitted s uid act res)"

lemma user_of_token:
  assumes "GetUserUuidFromToken sha apiKey s = (Inr u, s')"
  shows "token_user sha s apiKey = Some u" "tables s' = tables s"
proof -
  have "List.find P xs = Some x" if "filter P xs = x # ys" for P and x :: token_row and xs ys
    using that by (induction xs) (auto split: if_splits)
  then show "token_user sha s apiKey = Some u"
    using stmt_Inr [OF assms [unfolded GetUserUuidFromToken_def sel_one_def]]
    by (fastforce simp: token_user_def split: list.splits)
  show "tables s' = tables s" using assms unfolding GetUserUuidFromToken_def by (rule readsD [OF reads_sel_one])
qed

lemma validated_cases:
  assumes nul: "CHR 0x00 \<notin> set apiKey" "\<forall>scope\<in>set scopes. CHR 0x00 \<notin> set scope" and order: "\<And>m. set (order m) = set m"
    and v: "validated sha order P scopes domain apiKey next s = (ans, s')"
  obtains (refused) e where "ans = Problem e" "tables s' = tables s"
  | (passed) cx s1 where "next cx s1 = (ans, s')" "tables s1 = tables s" "list_all (scope_allowed sha P s apiKey) scopes"
      "cx_user cx = (if requiresUserID scopes then token_user sha s apiKey else None)" "cx_db cx"
      "cx_domaintoken cx = (if domain \<noteq> [] \<and> apiKey \<noteq> [] then Some \<lparr>dt_Domain = domain, dt_Token = apiKey\<rparr> else None)"
      "ctx_ok sha s (cx_cache cx)"
proof (cases "resourcesByAction P scopes []")
  case None
  with v show thesis by (intro refused) (auto simp: validated_def)
next
  case (Some m)
  note m = resourcesByAction_requests [OF Some, simplified]
  obtain r c s1 where ch: "check_actions sha apiKey (WithPolicyCheckCache None) (order m) s = (r, c, s1)" by (metis prod.collapse)
  have t1: "tables s1 = tables s" using ch by (rule check_actions_tables)
  show thesis
  proof (cases r)
    case e: (Some e)
    with v ch Some t1 show thesis by (intro refused) (auto simp: validated_def)
  next
    case None
    let ?cx = "\<lparr>cx_db = True, cx_user = None, cx_domaintoken = (if domain \<noteq> [] \<and> apiKey \<noteq> []
        then Some \<lparr>dt_Domain = domain, dt_Token = apiKey\<rparr> else None), cx_cache = c\<rparr>"
    have "CHR 0x00 \<notin> set a" if "(a, rs) \<in> set m" for a rs
    proof -
      have "a \<in> fst ` set m" using that by force
      with m obtain scope r where "scope \<in> set scopes" "scope_request P scope = Some (a, r)" by blast
      with scope_action_chars nul(2) show ?thesis by blast
    qed
    then have plain: "list_all (\<lambda>(a, rs). CHR 0x00 \<notin> set a) (order m)" using order [of m] by (auto simp: list_all_iff)
    from check_actions_passed [OF _ nul(1) this ch [unfolded None]] order [of m]
    have ok: "\<exists>act uid. parse_action a = Some act \<and> token_user sha s apiKey = Some uid \<and> (\<forall>r\<in>set rs. permitted s uid act r)"
      if "(a, rs) \<in> set m" for a rs using that by (auto simp: WithPolicyCheckCache_def ctx_ok_def decision_cache.consistent_def)
    have fresh: "ctx_ok sha s (WithPolicyCheckCache None)" by simp
    have cache: "ctx_ok sha s c" using check_actions_passed [OF fresh nul(1) plain ch [unfolded None]] by blast
    have all: "list_all (scope_allowed sha P s apiKey) scopes"
      unfolding list_all_iff
    proof
      fix scope assume "scope \<in> set scopes"
      with m obtain a r where q: "scope_request P scope = Some (a, r)" "(a, r) \<in> requests m" by fastforce
      then obtain rs where "(a, rs) \<in> set m" "r \<in> set rs" by (auto simp: requests_def dest: map_of_SomeD)
      with ok q(1) show "scope_allowed sha P s apiKey scope" by (fastforce simp: scope_allowed_def parse_action_Some)
    qed
    show thesis
    proof (cases "requiresUserID scopes")
      case False
      with v ch Some None have "next ?cx s1 = (ans, s')" by (simp add: validated_def)
      then show thesis by (rule passed) (use t1 all False cache in auto)
    next
      case True
      obtain u s2 where u: "GetUserUuidFromToken sha apiKey s1 = (u, s2)" by force
      show thesis
      proof (cases u)
        case (Inl e)
        have "tables s2 = tables s1" using u unfolding GetUserUuidFromToken_def by (rule readsD [OF reads_sel_one])
        with v ch Some None True Inl u t1 show thesis by (intro refused) (auto simp: validated_def call_def)
      next
        case (Inr uid)
        note g = user_of_token [OF u [unfolded Inr]]
        from v ch Some None True Inr u have "next (?cx\<lparr>cx_user := Some uid\<rparr>) s2 = (ans, s')" by (simp add: validated_def call_def)
        then show thesis by (rule passed) (use t1 g all True cache token_user_tables [OF t1] in auto)
      qed
    qed
  qed
qed

lemma resourcesByAction_total: "list_all (scope_allowed sha P s k) scopes \<Longrightarrow> \<exists>m'. resourcesByAction P scopes m = Some m'"
  by (induction scopes arbitrary: m) (auto simp: scope_allowed_def)

lemma resourcesByAction_nonempty:
  "resourcesByAction P scopes m = Some m' \<Longrightarrow> distinct (map fst m) \<and> (\<forall>(a, rs)\<in>set m. rs \<noteq> [])
    \<Longrightarrow> distinct (map fst m') \<and> (\<forall>(a, rs)\<in>set m'. rs \<noteq> [])"
proof (induction scopes arbitrary: m)
  case (Cons scope scopes)
  then obtain a r where q: "resourcesByAction P scopes (append_to a r m) = Some m'" by (auto split: option.splits)
  have "distinct (map fst (append_to a r m))" using Cons.prems(2) by (auto simp: append_to_def)
  moreover have "\<forall>(a, rs)\<in>set (append_to a r m). rs \<noteq> []" using Cons.prems(2) by (auto simp: append_to_def put_def split: if_splits)
  ultimately show ?case using Cons.IH [OF q] by blast
qed simp

lemma user_of_healthy:
  assumes "healthy s" "token_user sha s k = Some u"
  shows "GetUserUuidFromToken sha k s = (Inr u, s\<lparr>faults := tl (faults s)\<rparr>)"
proof -
  have "\<exists>ys. filter P xs = x # ys" if "List.find P xs = Some x" for P and x :: token_row and xs
    using that by (induction xs) (auto split: if_splits)
  with assms show ?thesis by (fastforce simp: GetUserUuidFromToken_def sel_one_def dbsimps token_user_def)
qed

text \<open>With a connection that answers, a request that is permitted is not refused.\<close>

lemma healthy_access:
  assumes "healthy s" "ctx_ok sha s ctx" "CHR 0x00 \<notin> set k" "rs \<noteq> []" "token_user sha s k = Some uid"
    "\<And>r. r \<in> set rs \<Longrightarrow> permitted s uid act r"
  obtains c fs where "UserHasManyAccessViaToken sha ctx k (action_str act) rs s = (Inr True, c, s\<lparr>faults := fs\<rparr>)" "ctx_ok sha s c"
    "healthy (s\<lparr>faults := fs\<rparr>)"
proof -
  obtain c fs where e: "ExplainUserAccessManyViaToken sha ctx k (action_str act) rs s
       = (Inr (map (decide sha s k (action_str act)) rs), c, s\<lparr>faults := fs\<rparr>)" "ctx_ok sha s c"
    using ExplainMany_spec [OF assms(2,3) parse_action_str assms(1)] by blast
  have "healthy (snd (snd (ExplainUserAccessManyViaToken sha ctx k (action_str act) rs s)))"
    unfolding ExplainUserAccessManyViaToken_def ExplainUserTokenAccessMany_def Let_def
    using assms(1) by (simp add: dbsimps split: prod.splits sum.splits option.splits)
  moreover have "list_all ad_Access (map (decide sha s k (action_str act)) rs)"
    using assms(5,6) by (auto simp: list_all_iff decide_access)
  ultimately show thesis using e assms(4) by (intro that [of c fs]) (auto simp: UserHasManyAccessViaToken_def)
qed

lemma check_actions_granted:
  assumes "healthy s" "ctx_ok sha s ctx" "CHR 0x00 \<notin> set k" "token_user sha s k = Some uid"
    "\<forall>(a, rs)\<in>set m. rs \<noteq> [] \<and> (\<exists>act. a = action_str act \<and> (\<forall>r\<in>set rs. permitted s uid act r))"
  shows "\<exists>c fs. check_actions sha k ctx m s = (None, c, s\<lparr>faults := fs\<rparr>) \<and> healthy (s\<lparr>faults := fs\<rparr>)"
  using assms
proof (induction m arbitrary: ctx s)
  case Nil
  then show ?case by (intro exI [of _ ctx] exI [of _ "faults s"]) simp
next
  case (Cons x m)
  obtain a rs where x: "x = (a, rs)" by force
  with Cons.prems(5) obtain act where a: "rs \<noteq> []" "a = action_str act" "\<And>r. r \<in> set rs \<Longrightarrow> permitted s uid act r" by auto
  obtain c fs where h: "UserHasManyAccessViaToken sha ctx k (action_str act) rs s = (Inr True, c, s\<lparr>faults := fs\<rparr>)" "ctx_ok sha s c"
    "healthy (s\<lparr>faults := fs\<rparr>)"
    using healthy_access [OF Cons.prems(1-3) a(1) Cons.prems(4) a(3)] by blast
  have "\<forall>(a, rs)\<in>set m. rs \<noteq> [] \<and> (\<exists>act. a = action_str act \<and> (\<forall>r\<in>set rs. permitted (s\<lparr>faults := fs\<rparr>) uid act r))"
    using Cons.prems(5) unfolding permitted_faults by simp
  with Cons.IH [of "s\<lparr>faults := fs\<rparr>" c] h Cons.prems(3,4) obtain c' fs' where
    "check_actions sha k c m (s\<lparr>faults := fs\<rparr>) = (None, c', s\<lparr>faults := fs'\<rparr>)" "healthy (s\<lparr>faults := fs'\<rparr>)" by auto
  with h(1) show ?case by (auto simp: x a(2))
qed

lemma validated_granted:
  assumes h: "healthy s" and nul: "CHR 0x00 \<notin> set apiKey" and order: "\<And>m. set (order m) = set m"
    and allowed: "list_all (scope_allowed sha P s apiKey) scopes"
  obtains cx s1 where "validated sha order P scopes domain apiKey next s = next cx s1" "tables s1 = tables s"
    "cx_user cx = (if requiresUserID scopes then token_user sha s apiKey else None)" "cx_db cx" "healthy s1"
proof -
  let ?cx = "\<lambda>c. \<lparr>cx_db = True, cx_user = None, cx_domaintoken = (if domain \<noteq> [] \<and> apiKey \<noteq> []
      then Some \<lparr>dt_Domain = domain, dt_Token = apiKey\<rparr> else None), cx_cache = c\<rparr>"
  obtain m where m: "resourcesByAction P scopes [] = Some m" using resourcesByAction_total allowed by blast
  note facts = resourcesByAction_requests [OF m, simplified] resourcesByAction_nonempty [OF m, simplified]
  have "\<exists>c fs. check_actions sha apiKey (WithPolicyCheckCache None) (order m) s = (None, c, s\<lparr>faults := fs\<rparr>) \<and> healthy (s\<lparr>faults := fs\<rparr>)"
  proof (cases "scopes = []")
    case True
    with m have "m = []" by simp
    with order [of m] have "order m = []" by simp
    with h show ?thesis by (intro exI [of _ "WithPolicyCheckCache None"] exI [of _ "faults s"]) simp
  next
    case False
    then obtain scope where "scope \<in> set scopes" by (cases scopes) auto
    with allowed obtain uid where uid: "token_user sha s apiKey = Some uid" by (auto simp: list_all_iff scope_allowed_def)
    have "rs \<noteq> [] \<and> (\<exists>act. a = action_str act \<and> (\<forall>r\<in>set rs. permitted s uid act r))" if "(a, rs) \<in> set m" for a rs
    proof -
      have "map_of m a = Some rs" using facts(2) that by (simp add: map_of_is_SomeI)
      then have rs: "r \<in> set rs \<Longrightarrow> \<exists>scope\<in>set scopes. scope_request P scope = Some (a, r)" for r
        using facts(1) by (auto simp: requests_def)
      have one: "r \<in> set rs \<Longrightarrow> \<exists>act. a = action_str act \<and> permitted s uid act r" for r
        using rs [of r] allowed uid by (fastforce simp: list_all_iff scope_allowed_def)
      from facts(2) that have "rs \<noteq> []" by auto
      moreover then obtain r0 where "r0 \<in> set rs" by (cases rs) auto
      then obtain act where "a = action_str act" using one by blast
      ultimately show ?thesis using one by (metis action_str_inj)
    qed
    then have "\<forall>(a, rs)\<in>set (order m). rs \<noteq> [] \<and> (\<exists>act. a = action_str act \<and> (\<forall>r\<in>set rs. permitted s uid act r))"
      using order [of m] by auto
    then show ?thesis using check_actions_granted [OF h _ nul uid] by (simp add: WithPolicyCheckCache_def ctx_ok_def decision_cache.consistent_def)
  qed
  then obtain c fs where ch: "check_actions sha apiKey (WithPolicyCheckCache None) (order m) s = (None, c, s\<lparr>faults := fs\<rparr>)" "healthy (s\<lparr>faults := fs\<rparr>)"
    by blast
  show thesis
  proof (cases "requiresUserID scopes")
    case False
    with m ch show thesis by (intro that [of "?cx c" "s\<lparr>faults := fs\<rparr>"]) (auto simp: validated_def)
  next
    case True
    then have "scopes \<noteq> []" by (auto simp: requiresUserID_def)
    then obtain scope where "scope \<in> set scopes" by (cases scopes) auto
    with allowed obtain uid where uid: "token_user sha s apiKey = Some uid" by (auto simp: list_all_iff scope_allowed_def)
    have "GetUserUuidFromToken sha apiKey (s\<lparr>faults := fs\<rparr>) = (Inr uid, s\<lparr>faults := tl fs\<rparr>)"
      using user_of_healthy [OF ch(2), of sha apiKey uid] uid by simp
    moreover have "healthy (s\<lparr>faults := tl fs\<rparr>)" using healthy_tl [OF ch(2)] by simp
    ultimately show thesis using m ch True uid
      by (intro that [of "(?cx c)\<lparr>cx_user := Some uid\<rparr>" "s\<lparr>faults := tl fs\<rparr>"]) (auto simp: validated_def call_def)
  qed
qed

section \<open>Templates\<close>

text \<open>A resource of a scope: literal text and parameters in braces, in turn.\<close>

fun template :: "(string \<times> string) list \<Rightarrow> string \<Rightarrow> string" where
  "template [] end_text = end_text"
| "template ((text_part, name) # ps) end_text = text_part @ ''{'' @ name @ ''}'' @ template ps end_text"

fun filled :: "(string \<Rightarrow> string) \<Rightarrow> (string \<times> string) list \<Rightarrow> string \<Rightarrow> string" where
  "filled P [] end_text = end_text"
| "filled P ((text_part, name) # ps) end_text = text_part @ P name @ filled P ps end_text"

abbreviation open_brace :: char where
  "open_brace \<equiv> CHR ''{''"

lemma url_params_skip: "open_brace \<notin> set l \<Longrightarrow> url_params (l @ s) = url_params s"
  by (induction l) auto

lemma url_params_one:
  assumes "open_brace \<notin> set l" "p \<noteq> []" "CHR ''}'' \<notin> set p"
  shows "url_params (l @ ''{'' @ p @ ''}'' @ s) = p # url_params s"
proof -
  have "takeWhile (\<lambda>x. x \<noteq> CHR ''}'') (p @ CHR ''}'' # s) = p" "dropWhile (\<lambda>x. x \<noteq> CHR ''}'') (p @ CHR ''}'' # s) = CHR ''}'' # s"
    using assms(3) by (induction p) auto
  with assms(2) show ?thesis unfolding url_params_skip [OF assms(1)] by simp
qed

lemma Replace1_at:
  assumes "open_brace \<notin> set a"
  shows "Replace1 (a @ ''{'' @ p @ ''}'' @ s) (''{'' @ p @ ''}'') v = a @ v @ s"
proof -
  have "str_index (a @ ''{'' @ p @ ''}'' @ s) (''{'' @ p @ ''}'') = Some (length a)"
    using assms by (induction a) auto
  then show ?thesis by (simp add: Replace1_def)
qed

lemma fill_template:
  assumes "open_brace \<notin> set a" "list_all (\<lambda>(l, p). open_brace \<notin> set l \<and> open_brace \<notin> set (P p)) ps"
  shows "foldl (\<lambda>res name. Replace1 res (''{'' @ name @ ''}'') (P name)) (a @ template ps e) (map snd ps) = a @ filled P ps e"
  using assms
proof (induction ps arbitrary: a)
  case (Cons x ps)
  obtain l p where x: "x = (l, p)" by force
  with Cons.prems have l: "open_brace \<notin> set (a @ l)" "open_brace \<notin> set (a @ l @ P p)" by auto
  have "Replace1 (a @ template (x # ps) e) (''{'' @ p @ ''}'') (P p) = (a @ l @ P p) @ template ps e"
    using Replace1_at [OF l(1)] by (simp add: x)
  with Cons.IH [OF l(2)] Cons.prems(2) x show ?case by simp
qed simp

lemma scope_resource_template:
  assumes "list_all (\<lambda>(l, p). open_brace \<notin> set l \<and> p \<noteq> [] \<and> CHR ''}'' \<notin> set p \<and> open_brace \<notin> set (P p)) ps" "open_brace \<notin> set e"
  shows "scope_resource P (template ps e) = filled P ps e"
proof -
  have "url_params (template ps e) = map snd ps"
    using assms(1)
  proof (induction ps)
    case Nil
    then show ?case using url_params_skip [OF assms(2), of "[]"] by simp
  next
    case (Cons x ps)
    then show ?case using url_params_one by (cases x) auto
  qed
  with fill_template [of "[]" P ps e] assms(1) show ?thesis by (auto simp: scope_resource_def list_all_iff)
qed

section \<open>Nothing happens without permission\<close>

definition stored :: "'v db registry \<Rightarrow> string \<Rightarrow> 'v db option" where
  "stored reg d = (case Domain_GetDB d reg of Inl _ \<Rightarrow> None | Inr s \<Rightarrow> Some (tables s))"

lemma GetDB_put: "Domain_GetDB d reg = Inr s \<Longrightarrow>
  stored (put d ((the (map_of reg d))\<lparr>dc_C := Some s'\<rparr>) reg) x = (if x = d then Some (tables s') else stored reg x)"
  by (auto simp: stored_def Domain_GetDB_def split: option.splits)

definition plain_request :: "http_request \<Rightarrow> bool" where
  "plain_request rq \<longleftrightarrow> (\<forall>u k. rq_BasicAuth rq = Some (u, k) \<longrightarrow> CHR 0x00 \<notin> set k)
     \<and> (\<forall>scopes. rq_Scopes rq = Some scopes \<longrightarrow> (\<forall>scope\<in>set scopes. CHR 0x00 \<notin> set scope))"

lemma PolicyValidator_db:
  assumes "PolicyValidator sha order rq next reg = (ans, reg')" "rq_BasicAuth rq = Some (domain, apiKey)" "rq_Scopes rq = Some scopes"
    "Domain_GetDB domain reg = Inr db"
  obtains s2 where "validated sha order (rq_URLParam rq) scopes domain apiKey next db = (ans, s2)" "stored reg' = (stored reg)(domain \<mapsto> tables s2)"
    "stored reg domain = Some (tables db)"
proof -
  obtain s2 where v: "validated sha order (rq_URLParam rq) scopes domain apiKey next db = (ans, s2)"
    and r: "reg' = put domain ((the (map_of reg domain))\<lparr>dc_C := Some s2\<rparr>) reg"
    using assms by (auto simp: PolicyValidator_def split: prod.splits)
  have "stored reg' = (stored reg)(domain \<mapsto> tables s2)" unfolding r using GetDB_put [OF assms(4)] by (intro ext) simp
  moreover have "stored reg domain = Some (tables db)" using assms(4) by (simp add: stored_def)
  ultimately show thesis using v by (intro that)
qed

lemma PolicyValidator_cases:
  assumes "plain_request rq" "\<And>m. set (order m) = set m" "PolicyValidator sha order rq next reg = (ans, reg')"
  obtains (refused) e where "ans = Problem e" "stored reg' = stored reg"
  | (passed) domain apiKey scopes db cx s1 s2 where "rq_BasicAuth rq = Some (domain, apiKey)" "rq_Scopes rq = Some scopes"
      "Domain_GetDB domain reg = Inr db" "list_all (scope_allowed sha (rq_URLParam rq) db apiKey) scopes"
      "tables s1 = tables db" "next cx s1 = (ans, s2)" "stored reg' = (stored reg)(domain \<mapsto> tables s2)"
      "cx_user cx = (if requiresUserID scopes then token_user sha db apiKey else None)" "ctx_ok sha db (cx_cache cx)"
      "cx_domaintoken cx = (if domain \<noteq> [] \<and> apiKey \<noteq> [] then Some \<lparr>dt_Domain = domain, dt_Token = apiKey\<rparr> else None)"
proof (cases "\<exists>domain apiKey scopes db. rq_BasicAuth rq = Some (domain, apiKey) \<and> rq_Scopes rq = Some scopes \<and> Domain_GetDB domain reg = Inr db")
  case False
  then have "\<exists>e. ans = Problem e \<and> reg' = reg"
    using assms(3) unfolding PolicyValidator_def by (auto split: option.splits sum.splits prod.splits)
  then show thesis by (auto intro: refused)
next
  case True
  then obtain domain apiKey scopes db where r: "rq_BasicAuth rq = Some (domain, apiKey)" "rq_Scopes rq = Some scopes"
    "Domain_GetDB domain reg = Inr db" by blast
  obtain s2 where v: "validated sha order (rq_URLParam rq) scopes domain apiKey next db = (ans, s2)"
      "stored reg' = (stored reg)(domain \<mapsto> tables s2)" "stored reg domain = Some (tables db)"
    by (rule PolicyValidator_db [OF assms(3) r]) (rule that)
  have nul: "CHR 0x00 \<notin> set apiKey" "\<forall>scope\<in>set scopes. CHR 0x00 \<notin> set scope"
    using assms(1) r by (auto simp: plain_request_def)
  from nul assms(2) v(1) show thesis
  proof (cases rule: validated_cases)
    case (refused e)
    with v(2,3) have "stored reg' = stored reg" by (intro ext) simp
    with refused(1) that(1) show thesis by blast
  next
    case (passed cx s1)
    with r v(2) that(2) show thesis by blast
  qed
qed

text \<open>
  C32: A request reaches its handler only with permission.  Whatever the handler, the connection and
  the order in which actions are checked: either the validator answers with an error and no
  database changes, which it does not do to a permitted request when the database answers, or every scope of the route, with the parameters of the URL filled in, is
  permitted by the access rules to the user of the token, and the handler runs once, on the
  caller's domain as it was, with that user in its context.  No other domain changes.
\<close>

theorem access_enforced:
  assumes "plain_request rq" "\<And>m. set (order m) = set m" "PolicyValidator sha order rq next reg = (ans, reg')"
  shows "(\<exists>e. ans = Problem e) \<and> stored reg' = stored reg
        \<and> (\<forall>domain apiKey scopes db. rq_BasicAuth rq = Some (domain, apiKey) \<and> rq_Scopes rq = Some scopes
             \<and> Domain_GetDB domain reg = Inr db \<and> healthy db \<longrightarrow> \<not> list_all (scope_allowed sha (rq_URLParam rq) db apiKey) scopes)
    \<or> (\<exists>domain apiKey scopes db cx s1 s2. rq_BasicAuth rq = Some (domain, apiKey) \<and> rq_Scopes rq = Some scopes
        \<and> Domain_GetDB domain reg = Inr db \<and> list_all (scope_allowed sha (rq_URLParam rq) db apiKey) scopes
        \<and> tables s1 = tables db \<and> next cx s1 = (ans, s2) \<and> stored reg' = (stored reg)(domain \<mapsto> tables s2)
        \<and> cx_user cx = (if requiresUserID scopes then token_user sha db apiKey else None))"
proof (cases "\<exists>domain apiKey scopes db. rq_BasicAuth rq = Some (domain, apiKey) \<and> rq_Scopes rq = Some scopes
    \<and> Domain_GetDB domain reg = Inr db \<and> healthy db \<and> list_all (scope_allowed sha (rq_URLParam rq) db apiKey) scopes")
  case True
  then obtain domain apiKey scopes db where r: "rq_BasicAuth rq = Some (domain, apiKey)" "rq_Scopes rq = Some scopes"
    "Domain_GetDB domain reg = Inr db" "healthy db" "list_all (scope_allowed sha (rq_URLParam rq) db apiKey) scopes" by blast
  obtain s2 where v: "validated sha order (rq_URLParam rq) scopes domain apiKey next db = (ans, s2)"
      "stored reg' = (stored reg)(domain \<mapsto> tables s2)"
    by (rule PolicyValidator_db [OF assms(3) r(1-3)]) (rule that)
  have "CHR 0x00 \<notin> set apiKey" using assms(1) r(1) by (auto simp: plain_request_def)
  then obtain cx s1 where "next cx s1 = (ans, s2)" "tables s1 = tables db"
      "cx_user cx = (if requiresUserID scopes then token_user sha db apiKey else None)"
    using validated_granted [of db apiKey order sha "rq_URLParam rq" scopes domain "next"] assms(2) r(4,5) v(1) by metis
  with r v(2) show ?thesis by blast
next
  case False
  from assms show ?thesis
  proof (cases rule: PolicyValidator_cases)
    case (refused e)
    with False show ?thesis by blast
  next
    case passed
    then show ?thesis by blast
  qed
qed

definition access_registry :: "unit db registry" where
  "access_registry = [(''home'', \<lparr>dc_C = Some access_db, dc_Domain = ''home'', dc_ConnectionString = ''pg'', dc_quit = True\<rparr>)]"

definition read_request :: "string \<Rightarrow> http_request" where
  "read_request x = \<lparr>rq_BasicAuth = Some (''home'', ''secret''), rq_Scopes = Some [''read:ts/{uuid}''], rq_URLParam = (\<lambda>_. x)\<rparr>"

theorem access_enforced_witness:
  "fst (PolicyValidator id id (read_request ''1'') (\<lambda>cx. answer (JSON 200 ())) access_registry) = JSON 200 ()
   \<and> permitted access_db ''u1'' Read ''ts/1''
   \<and> stored (snd (PolicyValidator id id (read_request ''9'') (\<lambda>cx. answer (JSON 200 ())) access_registry)) = stored access_registry"
proof -
  let ?v = "\<lambda>x. PolicyValidator id id (read_request x) (\<lambda>cx. answer (JSON 200 ())) access_registry"
  have p: "plain_request (read_request x)" for x by (simp add: plain_request_def read_request_def)
  have i: "set (id m) = set m" for m :: "(string \<times> string list) list" by simp
  have j: "fst (?v ''1'') = JSON 200 ()" by code_simp
  have r: "is_Problem (fst (?v ''9''))" by code_simp
  have db: "Domain_GetDB ''home'' access_registry = Inr access_db" by (simp add: access_registry_def Domain_GetDB_def)
  have "list_all (scope_allowed id (\<lambda>_. ''1'') access_db ''secret'') [''read:ts/{uuid}'']"
    using access_enforced [OF p [of "''1''"], of id id "\<lambda>cx. answer (JSON 200 ())" access_registry, OF i prod.collapse [symmetric]] j db
    by (auto simp: read_request_def)
  moreover have "scope_request (\<lambda>_. ''1'') ''read:ts/{uuid}'' = Some (action_str Read, ''ts/1'')" by code_simp
  moreover have "token_user id access_db ''secret'' = Some ''u1''" by code_simp
  ultimately have "permitted access_db ''u1'' Read ''ts/1''"
    by (auto simp: scope_allowed_def simp del: action_str.simps)
  moreover have "stored (snd (?v ''9'')) = stored access_registry"
    using access_enforced [OF p [of "''9''"], of id id "\<lambda>cx. answer (JSON 200 ())" access_registry, OF i prod.collapse [symmetric]] r
    by (auto simp: answer_def)
  ultimately show ?thesis using j by blast
qed

end
