(* ===== verification/Alerts.thy ===== *)
theory Alerts
  imports Things Rest GoTime
begin

text \<open>
  Alerts: \<^verbatim>\<open>internal/services/alert.go\<close>, \<^verbatim>\<open>alerts.sql\<close> with the function \<^verbatim>\<open>alert_merge\<close> and the
  view \<^verbatim>\<open>v_alerts\<close> of migration 5, and the handlers of \<^verbatim>\<open>api/aapije/alert.go\<close>.  The clock
  counts nanoseconds.
\<close>

section \<open>Enumerations\<close>

definition alert_statuses :: "string list" where
  "alert_statuses = [''open'', ''close'', ''expire'', ''shelve'', ''acknowledge'', ''unknown'']"

definition alert_severities :: "string list" where
  "alert_severities = [''security'', ''critical'', ''major'', ''minor'', ''warning'', ''informational'', ''debug'', ''trace'', ''indeterminate'']"

text \<open>\<^verbatim>\<open>severity_levels\<close> of the listing query: the position in the list.\<close>

definition severity_level :: "string \<Rightarrow> nat option" where
  "severity_level name = (if name \<in> set alert_severities then Some (length (takeWhile (\<lambda>x. x \<noteq> name) alert_severities)) else None)"

definition too_many_rows :: go_error where
  "too_many_rows = pg_error ''P0003'' ''query returned more than one row''"

section \<open>Reporting\<close>

record CreateAlertParams =
  ca_Resource :: string
  ca_Environment :: string
  ca_Event :: string
  ca_Severity :: string
  ca_Status :: string
  ca_Value :: string
  ca_Description :: string
  ca_Origin :: string
  ca_Service :: "string list option"
  ca_Tags :: "string list option"
  ca_Timeout :: int
  ca_Rawdata :: "string option"

definition last_seen :: "alert_row \<Rightarrow> int" where
  "last_seen a = (case al_last_receive a of None \<Rightarrow> al_created a | Some t \<Rightarrow> t)"

definition in_time :: "int \<Rightarrow> alert_row \<Rightarrow> bool" where
  "in_time now a \<longleftrightarrow> last_seen a + al_timeout a * second \<ge> now"

definition mergeable :: "int \<Rightarrow> alert_row \<Rightarrow> bool" where
  "mergeable now a \<longleftrightarrow> al_status a \<in> set [''open'', ''acknowledge'', ''shelve''] \<and> in_time now a"

definition alert_key :: "alert_row \<Rightarrow> string \<times> string \<times> string \<times> string" where
  "alert_key a = (al_resource a, al_environment a, al_event a, al_origin a)"

definition params_key :: "CreateAlertParams \<Rightarrow> string \<times> string \<times> string \<times> string" where
  "params_key p = (ca_Resource p, ca_Environment p, ca_Event p, ca_Origin p)"

definition merge_alert :: "int \<Rightarrow> CreateAlertParams \<Rightarrow> alert_row \<Rightarrow> alert_row" where
  "merge_alert now p a = a\<lparr>al_duplicate := al_duplicate a + 1, al_last_receive := Some now, al_previous_severity := al_severity a,
     al_severity := ca_Severity p, al_service := the (ca_Service p), al_description := ca_Description p, al_value := ca_Value p,
     al_timeout := ca_Timeout p, al_tags := the (ca_Tags p), al_rawdata := the (ca_Rawdata p)\<rparr>"

definition fresh_alert :: "uuid \<Rightarrow> int \<Rightarrow> CreateAlertParams \<Rightarrow> alert_row" where
  "fresh_alert newid now p = \<lparr>al_uuid = newid, al_resource = ca_Resource p, al_environment = ca_Environment p, al_event = ca_Event p,
     al_severity = ca_Severity p, al_status = ca_Status p, al_service = the (ca_Service p), al_value = ca_Value p,
     al_description = ca_Description p, al_origin = ca_Origin p, al_tags = the (ca_Tags p), al_created = now, al_timeout = ca_Timeout p,
     al_rawdata = the (ca_Rawdata p), al_duplicate = 0, al_previous_severity = ''indeterminate'', al_last_receive = None\<rparr>"

text \<open>
  Update the alerts that are still alive under the same key; when there is none, insert one.
  \<^verbatim>\<open>RETURNING ... INTO\<close> is an error in PL/pgSQL when more than one row was updated.
\<close>

definition alert_merge :: "uuid \<Rightarrow> CreateAlertParams \<Rightarrow> 'v db \<Rightarrow> uuid res \<times> 'v db" where
  "alert_merge newid p s =
     (let hit = (\<lambda>a. mergeable (clock s) a \<and> alert_key a = params_key p);
          hits = filter hit (alerts s) in
      if ca_Severity p \<notin> set alert_severities \<or> ca_Status p \<notin> set alert_statuses then (Inl invalid_text, s)
      else if ca_Service p = None \<or> ca_Tags p = None \<or> ca_Rawdata p = None then (Inl not_null_violation, s)
      else if hits \<noteq> [] then
        (if list_ex (\<lambda>a. al_duplicate a \<ge> 2 ^ 31 - 1) hits then (Inl out_of_range, s)
         else if length hits > 1 then (Inl too_many_rows, s)
         else (Inr (al_uuid (hd hits)), s\<lparr>alerts := map (\<lambda>a. if hit a then merge_alert (clock s) p a else a) (alerts s)\<rparr>))
      else if newid \<in> set (map al_uuid (alerts s)) then (Inl unique_violation, s)
      else (Inr newid, s\<lparr>alerts := alerts s @ [fresh_alert newid (clock s) p]\<rparr>))"

definition CreateAlert_query :: "uuid \<Rightarrow> CreateAlertParams \<Rightarrow> ('v, uuid) dbm" where
  "CreateAlert_query newid p = stmt (alert_merge newid p)"

definition CreateAlert :: "uuid \<Rightarrow> CreateAlertParams \<Rightarrow> ('v, uuid) dbm" where
  "CreateAlert newid p = CreateAlert_query newid p"

section \<open>Reading\<close>

text \<open>The view \<^verbatim>\<open>v_alerts\<close>: alerts that ran out of time show as expired.\<close>

definition v_alert :: "int \<Rightarrow> alert_row \<Rightarrow> alert_row" where
  "v_alert now a = (if al_status a \<in> set [''open'', ''acknowledge''] \<and> last_seen a + al_timeout a * second < now
     then a\<lparr>al_status := ''expire''\<rparr> else a)"

definition ExistsAlert :: "uuid \<Rightarrow> ('v, int) dbm" where
  "ExistsAlert aid = sel (\<lambda>s. int (length (filter (\<lambda>a. al_uuid a = aid) (alerts s))))"

definition FindAlertByUUID :: "uuid \<Rightarrow> ('v, alert_row) dbm" where
  "FindAlertByUUID aid = sel_one (\<lambda>s. filter (\<lambda>a. al_uuid a = aid) (map (v_alert (clock s)) (alerts s)))"

record FindAlertsParams =
  fp_Resource :: string
  fp_Environment :: string
  fp_Event :: string
  fp_Origin :: string
  fp_Status :: string
  fp_SeverityLe :: string
  fp_SeverityGe :: string
  fp_SeverityEq :: string
  fp_Service :: "string list"
  fp_Tags :: "string list"
  fp_ArgOffset :: int
  fp_ArgLimit :: int

text \<open>A comparison of levels; an unknown name gives \<^verbatim>\<open>NULL\<close>, which selects nothing.\<close>

definition level_test :: "(nat \<Rightarrow> nat \<Rightarrow> bool) \<Rightarrow> string \<Rightarrow> alert_row \<Rightarrow> bool" where
  "level_test cmp name a = (name = [] \<or> (case (severity_level name, severity_level (al_severity a)) of
      (Some l, Some l') \<Rightarrow> cmp l l' | _ \<Rightarrow> False))"

definition same_or_empty :: "string \<Rightarrow> string \<Rightarrow> bool" where
  "same_or_empty x y \<longleftrightarrow> x = [] \<or> x = y"

definition alert_selected :: "FindAlertsParams \<Rightarrow> alert_row \<Rightarrow> bool" where
  "alert_selected p a \<longleftrightarrow> same_or_empty (fp_Resource p) (al_resource a) \<and> same_or_empty (fp_Environment p) (al_environment a)
     \<and> same_or_empty (fp_Event p) (al_event a) \<and> same_or_empty (fp_Origin p) (al_origin a) \<and> same_or_empty (fp_Status p) (al_status a)
     \<and> level_test (\<le>) (fp_SeverityLe p) a \<and> level_test (\<ge>) (fp_SeverityGe p) a \<and> level_test (=) (fp_SeverityEq p) a
     \<and> (fp_Service p = [] \<or> overlap (fp_Service p) (al_service a)) \<and> (fp_Tags p = [] \<or> overlap (fp_Tags p) (al_tags a))"

definition FindAlerts_query :: "FindAlertsParams \<Rightarrow> ('v, alert_row list) dbm" where
  "FindAlerts_query p = sel_page (fp_ArgLimit p) (fp_ArgOffset p) (\<lambda>s.
     sort_key (\<lambda>a. (al_resource a, al_environment a, al_event a)) (filter (alert_selected p) (map (v_alert (clock s)) (alerts s))))"

record FindAllAlertParams =
  fa_Resource :: string
  fa_Environment :: string
  fa_Event :: string
  fa_Origin :: string
  fa_Status :: "string option"
  fa_SeverityLe :: "string option"
  fa_SeverityGe :: "string option"
  fa_SeverityEq :: "string option"
  fa_Service :: "string list"
  fa_Tags :: "string list"
  fa_ArgOffset :: int
  fa_ArgLimit :: int

text \<open>One severity condition at most: an exact one before \<^verbatim>\<open>le\<close>, \<^verbatim>\<open>le\<close> before \<^verbatim>\<open>ge\<close>.\<close>

definition find_params :: "FindAllAlertParams \<Rightarrow> FindAlertsParams" where
  "find_params p =
     (let q = \<lparr>fp_Resource = fa_Resource p, fp_Environment = fa_Environment p, fp_Event = fa_Event p, fp_Origin = fa_Origin p,
            fp_Status = [], fp_SeverityLe = [], fp_SeverityGe = [], fp_SeverityEq = [],
            fp_Service = fa_Service p, fp_Tags = fa_Tags p, fp_ArgOffset = fa_ArgOffset p, fp_ArgLimit = fa_ArgLimit p\<rparr>;
          q = (case fa_SeverityEq p of Some x \<Rightarrow> q\<lparr>fp_SeverityEq := x\<rparr>
               | None \<Rightarrow> (case fa_SeverityLe p of Some x \<Rightarrow> q\<lparr>fp_SeverityLe := x\<rparr>
               | None \<Rightarrow> (case fa_SeverityGe p of Some x \<Rightarrow> q\<lparr>fp_SeverityGe := x\<rparr> | None \<Rightarrow> q)))
      in (case fa_Status p of Some x \<Rightarrow> q\<lparr>fp_Status := x\<rparr> | None \<Rightarrow> q))"

definition Alert_FindAll :: "FindAllAlertParams \<Rightarrow> ('v, alert_row list) dbm" where
  "Alert_FindAll p = FindAlerts_query (find_params p)"

definition Alert_Exists :: "uuid \<Rightarrow> ('v, bool) dbm" where
  "Alert_Exists aid = andthen (ExistsAlert aid) (\<lambda>found. ret (found > 0))"

definition FindAlertByUuid :: "uuid \<Rightarrow> ('v, alert_row) dbm" where
  "FindAlertByUuid aid = FindAlertByUUID aid"

section \<open>Changing\<close>

definition update_alert :: "uuid \<Rightarrow> (alert_row \<Rightarrow> alert_row) \<Rightarrow> 'v db \<Rightarrow> int res \<times> 'v db" where
  "update_alert aid f s = (Inr (int (length (filter (\<lambda>a. al_uuid a = aid) (alerts s)))),
     s\<lparr>alerts := map (\<lambda>a. if al_uuid a = aid then f a else a) (alerts s)\<rparr>)"

definition UpdateAlertSetResource :: "uuid \<Rightarrow> string \<Rightarrow> ('v, int) dbm" where
  "UpdateAlertSetResource aid v = stmt (update_alert aid (\<lambda>a. a\<lparr>al_resource := v\<rparr>))"

definition UpdateAlertSetEnvironment :: "uuid \<Rightarrow> string \<Rightarrow> ('v, int) dbm" where
  "UpdateAlertSetEnvironment aid v = stmt (update_alert aid (\<lambda>a. a\<lparr>al_environment := v\<rparr>))"

definition UpdateAlertSetEvent :: "uuid \<Rightarrow> string \<Rightarrow> ('v, int) dbm" where
  "UpdateAlertSetEvent aid v = stmt (update_alert aid (\<lambda>a. a\<lparr>al_event := v\<rparr>))"

definition UpdateAlertSetOrigin :: "uuid \<Rightarrow> string \<Rightarrow> ('v, int) dbm" where
  "UpdateAlertSetOrigin aid v = stmt (update_alert aid (\<lambda>a. a\<lparr>al_origin := v\<rparr>))"

definition UpdateAlertSetSeverity :: "uuid \<Rightarrow> string \<Rightarrow> ('v, int) dbm" where
  "UpdateAlertSetSeverity aid v = stmt (\<lambda>s. if v \<in> set alert_severities
     then update_alert aid (\<lambda>a. a\<lparr>al_previous_severity := al_severity a, al_severity := v\<rparr>) s else (Inl invalid_text, s))"

definition UpdateAlertSetStatus :: "uuid \<Rightarrow> string \<Rightarrow> ('v, int) dbm" where
  "UpdateAlertSetStatus aid v = stmt (\<lambda>s. if v \<in> set alert_statuses
     then update_alert aid (\<lambda>a. a\<lparr>al_status := v\<rparr>) s else (Inl invalid_text, s))"

definition UpdateAlertSetService :: "uuid \<Rightarrow> string list \<Rightarrow> ('v, int) dbm" where
  "UpdateAlertSetService aid v = stmt (update_alert aid (\<lambda>a. a\<lparr>al_service := v\<rparr>))"

definition UpdateAlertSetValue :: "uuid \<Rightarrow> string \<Rightarrow> ('v, int) dbm" where
  "UpdateAlertSetValue aid v = stmt (update_alert aid (\<lambda>a. a\<lparr>al_value := v\<rparr>))"

definition UpdateAlertSetDescription :: "uuid \<Rightarrow> string \<Rightarrow> ('v, int) dbm" where
  "UpdateAlertSetDescription aid v = stmt (update_alert aid (\<lambda>a. a\<lparr>al_description := v\<rparr>))"

definition UpdateAlertSetTags :: "uuid \<Rightarrow> string list \<Rightarrow> ('v, int) dbm" where
  "UpdateAlertSetTags aid v = stmt (update_alert aid (\<lambda>a. a\<lparr>al_tags := v\<rparr>))"

definition UpdateAlertSetTimeout :: "uuid \<Rightarrow> int \<Rightarrow> ('v, int) dbm" where
  "UpdateAlertSetTimeout aid v = stmt (update_alert aid (\<lambda>a. a\<lparr>al_timeout := v\<rparr>))"

definition UpdateAlertSetRawdata :: "uuid \<Rightarrow> string \<Rightarrow> ('v, int) dbm" where
  "UpdateAlertSetRawdata aid v = stmt (update_alert aid (\<lambda>a. a\<lparr>al_rawdata := v\<rparr>))"

definition UpdateAlertIncDuplicate :: "uuid \<Rightarrow> ('v, int) dbm" where
  "UpdateAlertIncDuplicate aid = stmt (\<lambda>s.
     if list_ex (\<lambda>a. al_uuid a = aid \<and> al_duplicate a \<ge> 2 ^ 31 - 1) (alerts s) then (Inl out_of_range, s)
     else update_alert aid (\<lambda>a. a\<lparr>al_duplicate := al_duplicate a + 1\<rparr>) s)"

definition UpdateAlertSetLastReceivedTime :: "uuid \<Rightarrow> ('v, int) dbm" where
  "UpdateAlertSetLastReceivedTime aid = stmt (\<lambda>s. update_alert aid (\<lambda>a. a\<lparr>al_last_receive := Some (clock s)\<rparr>) s)"

record UpdateAlertByUuidParams =
  ua_Resource :: "string option"
  ua_Environment :: "string option"
  ua_Event :: "string option"
  ua_Severity :: "string option"
  ua_Status :: "string option"
  ua_Value :: "string option"
  ua_Description :: "string option"
  ua_Origin :: "string option"
  ua_Service :: "string list option"
  ua_Tags :: "string list option"
  ua_Timeout :: "int option"
  ua_Rawdata :: "string option"

definition UpdateAlertByUuid :: "uuid \<Rightarrow> UpdateAlertByUuidParams \<Rightarrow> ('v, int) dbm" where
  "UpdateAlertByUuid aid p = with_tx (
     andthen (opt_step (ua_Resource p) (UpdateAlertSetResource aid) 0) (\<lambda>n.
     andthen (opt_step (ua_Environment p) (UpdateAlertSetEnvironment aid) n) (\<lambda>n.
     andthen (opt_step (ua_Event p) (UpdateAlertSetEvent aid) n) (\<lambda>n.
     andthen (opt_step (ua_Origin p) (UpdateAlertSetOrigin aid) n) (\<lambda>n.
     andthen (opt_step (ua_Severity p) (UpdateAlertSetSeverity aid) n) (\<lambda>n.
     andthen (opt_step (ua_Status p) (UpdateAlertSetStatus aid) n) (\<lambda>n.
     andthen (opt_step (ua_Service p) (UpdateAlertSetService aid) n) (\<lambda>n.
     andthen (opt_step (ua_Value p) (UpdateAlertSetValue aid) n) (\<lambda>n.
     andthen (opt_step (ua_Description p) (UpdateAlertSetDescription aid) n) (\<lambda>n.
     andthen (opt_step (ua_Tags p) (UpdateAlertSetTags aid) n) (\<lambda>n.
     andthen (opt_step (ua_Timeout p) (UpdateAlertSetTimeout aid) n) (\<lambda>n.
     opt_step (ua_Rawdata p) (UpdateAlertSetRawdata aid) n))))))))))))"

definition DeleteAlert_query :: "uuid \<Rightarrow> ('v, int) dbm" where
  "DeleteAlert_query aid = stmt (\<lambda>s. (Inr (int (length (filter (\<lambda>a. al_uuid a = aid) (alerts s)))),
     s\<lparr>alerts := filter (\<lambda>a. al_uuid a \<noteq> aid) (alerts s)\<rparr>))"

definition DeleteAlert :: "uuid \<Rightarrow> ('v, int) dbm" where
  "DeleteAlert aid = DeleteAlert_query aid"

section \<open>Handlers\<close>

record NewAlert =
  na_Resource :: string
  na_Environment :: string
  na_Event :: string
  na_Severity :: string
  na_Description :: string
  na_Origin :: string
  na_Value :: string
  na_Status :: "string option"
  na_Service :: "string list option"
  na_Tags :: "string list option"
  na_Timeout :: "int option"
  na_Rawdata :: "string option"

definition new_alert_params :: "NewAlert \<Rightarrow> CreateAlertParams" where
  "new_alert_params n = \<lparr>ca_Resource = na_Resource n, ca_Environment = na_Environment n, ca_Event = na_Event n,
     ca_Severity = na_Severity n, ca_Status = or_default ''open'' (na_Status n), ca_Value = na_Value n,
     ca_Description = na_Description n, ca_Origin = na_Origin n, ca_Service = Some (or_default [] (na_Service n)),
     ca_Tags = Some (or_default [] (na_Tags n)), ca_Timeout = or_default 3600 (na_Timeout n),
     ca_Rawdata = Some (or_default [] (na_Rawdata n))\<rparr>"

definition CreateAlert_handler :: "uuid \<Rightarrow> request_context \<Rightarrow> NewAlert option \<Rightarrow> ('v, uuid) handler" where
  "CreateAlert_handler newid cx body =
     decodeJSONBody body (\<lambda>n. GetDB cx (call (CreateAlert newid (new_alert_params n)) (\<lambda>alert. answer (JSON 201 alert))))"

record rest_FindAlertsParams =
  rf_Status :: "string option"
  rf_SeverityLe :: "string option"
  rf_SeverityGe :: "string option"
  rf_Severity :: "string option"
  rf_Limit :: "int option"
  rf_Offset :: "int option"
  rf_Resource :: "string option"
  rf_Environment :: "string option"
  rf_Event :: "string option"
  rf_Origin :: "string option"
  rf_Service :: "string list option"
  rf_Tags :: "string list option"

definition FindAlerts_handler :: "request_context \<Rightarrow> rest_FindAlertsParams \<Rightarrow> ('v, alert_row list) handler" where
  "FindAlerts_handler cx p = GetDB cx (call (Alert_FindAll
     \<lparr>fa_Resource = or_default [] (rf_Resource p), fa_Environment = or_default [] (rf_Environment p), fa_Event = or_default [] (rf_Event p),
      fa_Origin = or_default [] (rf_Origin p), fa_Status = rf_Status p, fa_SeverityLe = rf_SeverityLe p, fa_SeverityGe = rf_SeverityGe p,
      fa_SeverityEq = rf_Severity p, fa_Service = or_default [] (rf_Service p), fa_Tags = or_default [] (rf_Tags p),
      fa_ArgOffset = or_default 0 (rf_Offset p), fa_ArgLimit = or_default 20 (rf_Limit p)\<rparr>) (\<lambda>alerts. answer (JSON 200 alerts)))"

definition FindAlertByUuid_handler :: "request_context \<Rightarrow> uuid \<Rightarrow> ('v, alert_row) handler" where
  "FindAlertByUuid_handler cx aid = GetDB cx (call (FindAlertByUuid aid) (\<lambda>alert. answer (JSON 200 alert)))"

definition UpdateAlertByUuid_handler :: "request_context \<Rightarrow> uuid \<Rightarrow> UpdateAlertByUuidParams option \<Rightarrow> ('v, unit) handler" where
  "UpdateAlertByUuid_handler cx aid body =
     GetDB cx (decodeJSONBody body (\<lambda>params. call (UpdateAlertByUuid aid params) none_is_404))"

definition DeleteAlertByUuid_handler :: "request_context \<Rightarrow> uuid \<Rightarrow> ('v, unit) handler" where
  "DeleteAlertByUuid_handler cx aid = GetDB cx (call (DeleteAlert aid) none_is_404)"

section \<open>At most one living alert per key\<close>

definition unique_alerts :: "'v db \<Rightarrow> bool" where
  "unique_alerts s \<longleftrightarrow> distinct (map al_uuid (alerts s))
     \<and> (\<forall>a\<in>set (alerts s). \<forall>b\<in>set (alerts s). mergeable (clock s) a \<and> mergeable (clock s) b \<and> alert_key a = alert_key b \<longrightarrow> al_uuid a = al_uuid b)"

lemma unique_alerts_fault_free [simp, intro]: "fault_free unique_alerts"
  by (simp add: fault_free_def unique_alerts_def)

lemma merge_alert_same [simp]: "al_uuid (merge_alert now p a) = al_uuid a" "alert_key (merge_alert now p a) = alert_key a"
  "al_status (merge_alert now p a) = al_status a"
  by (simp_all add: merge_alert_def alert_key_def)

lemma fresh_alert_key [simp]: "al_uuid (fresh_alert newid now p) = newid" "alert_key (fresh_alert newid now p) = params_key p"
  by (simp_all add: fresh_alert_def alert_key_def params_key_def)

lemma alert_merge_cases:
  assumes "alert_merge newid p s = (r, s')"
  obtains (refused) e where "r = Inl e" "s' = s"
  | (merged) "filter (\<lambda>a. mergeable (clock s) a \<and> alert_key a = params_key p) (alerts s) \<noteq> []"
      "r = Inr (al_uuid (hd (filter (\<lambda>a. mergeable (clock s) a \<and> alert_key a = params_key p) (alerts s))))"
      "s' = s\<lparr>alerts := map (\<lambda>a. if mergeable (clock s) a \<and> alert_key a = params_key p then merge_alert (clock s) p a else a) (alerts s)\<rparr>"
  | (fresh) "filter (\<lambda>a. mergeable (clock s) a \<and> alert_key a = params_key p) (alerts s) = []" "newid \<notin> set (map al_uuid (alerts s))"
      "r = Inr newid" "s' = s\<lparr>alerts := alerts s @ [fresh_alert newid (clock s) p]\<rparr>"
  using assms unfolding alert_merge_def Let_def
  by (elim if_eqE Pair_inject)
    (rule refused, erule sym, erule sym | rule merged, assumption, erule sym, erule sym
      | rule fresh, erule notnotD, assumption, erule sym, erule sym)+

lemma alert_merge_keeps:
  assumes m: "alert_merge newid p s = (r, s')" and u: "unique_alerts s"
  shows "unique_alerts s'"
proof -
  let ?hit = "\<lambda>a. mergeable (clock s) a \<and> alert_key a = params_key p"
  let ?f = "\<lambda>a. if ?hit a then merge_alert (clock s) p a else a"
  from m show ?thesis
  proof (cases rule: alert_merge_cases)
    case merged
    note 2 = merged(3)
    have id: "al_uuid (?f a) = al_uuid a" "alert_key (?f a) = alert_key a" for a by simp_all
    have live: "mergeable (clock s) (?f a) \<Longrightarrow> mergeable (clock s) a" for a by (simp split: if_splits)
    have "map al_uuid (alerts s') = map al_uuid (alerts s)" using 2 by simp
    with u have d: "distinct (map al_uuid (alerts s'))" by (simp add: unique_alerts_def)
    have e: "al_uuid x = al_uuid y"
      if xy: "x \<in> set (alerts s')" "y \<in> set (alerts s')" "mergeable (clock s') x" "mergeable (clock s') y" "alert_key x = alert_key y" for x y
    proof -
      from xy(1,2) 2 obtain a b where ab: "a \<in> set (alerts s)" "b \<in> set (alerts s)" "x = ?f a" "y = ?f b" by auto
      have "clock s' = clock s" using 2 by simp
      with xy(3,4) ab(3,4) live [of a] live [of b] have "mergeable (clock s) a" "mergeable (clock s) b" by simp_all
      moreover from xy(5) have "alert_key a = alert_key b" unfolding ab(3,4) id .
      ultimately have "mergeable (clock s) a" "mergeable (clock s) b" "alert_key a = alert_key b" .
      with u ab(1,2) have "al_uuid a = al_uuid b" unfolding unique_alerts_def by blast
      with ab(3,4) show ?thesis by simp
    qed
    show ?thesis unfolding unique_alerts_def using d e by blast
  next
    case fresh
    let ?n = "fresh_alert newid (clock s) p"
    from fresh(1) have none: "a \<in> set (alerts s) \<Longrightarrow> mergeable (clock s) a \<Longrightarrow> alert_key a \<noteq> params_key p" for a
      by (auto simp: filter_empty_conv)
    from fresh(2,4) u have d: "distinct (map al_uuid (alerts s'))" by (simp add: unique_alerts_def)
    have e: "al_uuid x = al_uuid y"
      if "x \<in> set (alerts s')" "y \<in> set (alerts s')" "mergeable (clock s') x" "mergeable (clock s') y" "alert_key x = alert_key y" for x y
    proof -
      have in_s: "x = ?n \<or> x \<in> set (alerts s)" "y = ?n \<or> y \<in> set (alerts s)" "mergeable (clock s) x" "mergeable (clock s) y"
        using that(1-4) fresh(4) by auto
      have "alert_key ?n = params_key p" by simp
      with in_s that(5) none consider "x = ?n" "y = ?n" | "x \<in> set (alerts s)" "y \<in> set (alerts s)" by metis
      then show ?thesis using in_s(3,4) that(5) u unfolding unique_alerts_def by cases blast+
    qed
    show ?thesis unfolding unique_alerts_def using d e by blast
  qed (use u in simp)
qed

text \<open>The steps that keep the key and the status of an alert: reports, deletions, the passing of time, faults.\<close>

inductive alert_step :: "'v db \<Rightarrow> 'v db \<Rightarrow> bool" where
  report: "CreateAlert newid p s = (r, s') \<Longrightarrow> alert_step s s'"
| remove: "DeleteAlert aid s = (r, s') \<Longrightarrow> alert_step s s'"
| look: "Alert_FindAll q s = (r, s') \<Longrightarrow> alert_step s s'"
| tick: "0 \<le> d \<Longrightarrow> alert_step s (s\<lparr>clock := clock s + d\<rparr>)"
| fault: "alert_step s (s\<lparr>faults := fs\<rparr>)"

lemma mergeable_earlier: "mergeable (now + d) a \<Longrightarrow> 0 \<le> d \<Longrightarrow> mergeable now a"
  by (auto simp: mergeable_def in_time_def)

lemma alert_step_keeps: "alert_step s s' \<Longrightarrow> unique_alerts s \<Longrightarrow> unique_alerts s'"
proof (induction rule: alert_step.induct)
  case (report newid p s r s')
  have "preserves unique_alerts (CreateAlert newid p)"
    unfolding CreateAlert_def CreateAlert_query_def by (rule preserves_stmt [OF unique_alerts_fault_free alert_merge_keeps])
  then show ?case using report.hyps report.prems by (rule preservesD)
next
  case (remove aid s r s')
  have "preserves unique_alerts (DeleteAlert aid)"
    unfolding DeleteAlert_def DeleteAlert_query_def by (rule preserves_stmt) (auto simp: unique_alerts_def distinct_map_filter_key)
  then show ?case using remove.hyps remove.prems by (rule preservesD)
next
  case (look q s r s')
  have "reads (Alert_FindAll q)" by (simp add: Alert_FindAll_def FindAlerts_query_def)
  then have "preserves unique_alerts (Alert_FindAll q)" by (rule reads_preserves [OF unique_alerts_fault_free])
  then show ?case using look.hyps look.prems by (rule preservesD)
next
  case (tick d s)
  have eqs: "alerts (s\<lparr>clock := clock s + d\<rparr>) = alerts s" "clock (s\<lparr>clock := clock s + d\<rparr>) = clock s + d" by simp_all
  show ?case unfolding unique_alerts_def eqs
    using tick.prems mergeable_earlier [OF _ tick.hyps] unfolding unique_alerts_def by blast
next
  case (fault s fs)
  then show ?case by (simp only: fault_freeD [OF unique_alerts_fault_free])
qed


section \<open>What a report leaves behind\<close>

definition carries :: "CreateAlertParams \<Rightarrow> alert_row \<Rightarrow> bool" where
  "carries p a \<longleftrightarrow> alert_key a = params_key p \<and> al_severity a = ca_Severity p \<and> al_value a = ca_Value p
     \<and> al_description a = ca_Description p \<and> Some (al_service a) = ca_Service p \<and> Some (al_tags a) = ca_Tags p
     \<and> al_timeout a = ca_Timeout p \<and> Some (al_rawdata a) = ca_Rawdata p"

lemma alert_merge_given: "alert_merge newid p s = (Inr u, s') \<Longrightarrow> ca_Service p \<noteq> None \<and> ca_Tags p \<noteq> None \<and> ca_Rawdata p \<noteq> None"
  unfolding alert_merge_def Let_def by (simp only: prod.inject sum.distinct split: if_split_asm) simp_all

lemma merge_carries:
  assumes "ca_Service p \<noteq> None \<and> ca_Tags p \<noteq> None \<and> ca_Rawdata p \<noteq> None"
  shows "alert_key a = params_key p \<Longrightarrow> carries p (merge_alert now p a)" "carries p (fresh_alert newid now p)"
  using assms by (auto simp: carries_def merge_alert_def fresh_alert_def alert_key_def params_key_def)

lemma v_alert_same [simp]: "al_uuid (v_alert now a) = al_uuid a" "carries p (v_alert now a) = carries p a"
  by (simp_all add: v_alert_def carries_def alert_key_def)

lemma CreateAlert_row:
  assumes u: "unique_alerts s" and c: "CreateAlert newid p s = (Inr aid, s')"
  obtains a where "filter (\<lambda>a. al_uuid a = aid) (alerts s') = [a]" "carries p a"
    "al_duplicate a = 0 \<and> aid = newid \<or> (\<exists>b\<in>set (alerts s). al_uuid b = aid \<and> al_duplicate a = al_duplicate b + 1 \<and> al_previous_severity a = al_severity b)"
proof -
  let ?s = "s\<lparr>faults := tl (faults s)\<rparr>"
  from stmt_Inr [OF c [unfolded CreateAlert_def CreateAlert_query_def]] have m: "alert_merge newid p ?s = (Inr aid, s')" .
  have "unique_alerts ?s" using u by (simp only: fault_freeD [OF unique_alerts_fault_free])
  from alert_merge_keeps [OF m this] have d: "distinct (map al_uuid (alerts s'))" by (simp add: unique_alerts_def)
  note given = alert_merge_given [OF m]
  have "\<exists>a. a \<in> set (alerts s') \<and> al_uuid a = aid \<and> carries p a \<and> (al_duplicate a = 0 \<and> aid = newid \<or>
      (\<exists>b\<in>set (alerts s). al_uuid b = aid \<and> al_duplicate a = al_duplicate b + 1 \<and> al_previous_severity a = al_severity b))"
    using m
  proof (cases rule: alert_merge_cases)
    case merged
    let ?hits = "filter (\<lambda>a. mergeable (clock ?s) a \<and> alert_key a = params_key p) (alerts ?s)"
    let ?b = "hd ?hits"
    have "?b \<in> set ?hits" using merged(1) by (rule hd_in_set)
    then have b: "?b \<in> set (alerts s)" "mergeable (clock s) ?b" "alert_key ?b = params_key p" by auto
    let ?a = "merge_alert (clock s) p ?b"
    have "?a \<in> set (alerts s')" using b unfolding merged(3) by (auto intro!: image_eqI [of _ _ ?b])
    moreover have "al_uuid ?a = aid" using merged(2) by simp
    moreover have "al_duplicate ?a = al_duplicate ?b + 1" "al_previous_severity ?a = al_severity ?b" by (simp_all add: merge_alert_def)
    ultimately show ?thesis using merge_carries(1) [OF given b(3)] b(1) by (intro exI [of _ ?a]) auto
  next
    case fresh
    then show ?thesis using merge_carries(2) [OF given] by (intro exI [of _ "fresh_alert newid (clock s) p"]) (auto simp: fresh_alert_def)
  qed simp
  then obtain a where a: "a \<in> set (alerts s')" "al_uuid a = aid" "carries p a" "al_duplicate a = 0 \<and> aid = newid \<or>
      (\<exists>b\<in>set (alerts s). al_uuid b = aid \<and> al_duplicate a = al_duplicate b + 1 \<and> al_previous_severity a = al_severity b)" by blast
  from filter_key_unique [OF d a(1,2)] a(3,4) that show thesis by blast
qed


definition empty_report :: "string \<Rightarrow> CreateAlertParams" where
  "empty_report sev = \<lparr>ca_Resource = ''pump'', ca_Environment = ''plant'', ca_Event = ''leak'', ca_Severity = sev, ca_Status = ''open'',
     ca_Value = [], ca_Description = [], ca_Origin = ''plc'', ca_Service = Some [], ca_Tags = Some [], ca_Timeout = 60, ca_Rawdata = Some []\<rparr>"

definition alerted_db :: "unit db" where
  "alerted_db = snd (CreateAlert ''a1'' (empty_report ''minor'') empty_db)"

lemma empty_unique: "unique_alerts empty_db"
  by (simp add: unique_alerts_def empty_db_def)

lemma alerted_db_step: "alert_step (empty_db :: unit db) alerted_db"
  unfolding alerted_db_def by (rule alert_step.report [OF prod.collapse [symmetric]])



section \<open>Updates\<close>

text \<open>\<open>edits aid g m\<close>: when \<open>m\<close> succeeds, the alert \<open>aid\<close> was changed by \<open>g\<close> and nothing else was.\<close>

definition edits :: "uuid \<Rightarrow> (alert_row \<Rightarrow> alert_row) \<Rightarrow> ('v, 'a) dbm \<Rightarrow> bool" where
  "edits aid g m \<longleftrightarrow> (\<forall>a. al_uuid (g a) = al_uuid a) \<and> (\<forall>s r s'. m s = (Inr r, s') \<longrightarrow>
     tables s' = (tables s)\<lparr>alerts := map (\<lambda>a. if al_uuid a = aid then g a else a) (alerts s)\<rparr>)"

lemma edits_ret: "edits aid (\<lambda>a. a) (ret r)"
  by (simp add: edits_def ret_def tables_def)

lemma editsD: "edits aid g m \<Longrightarrow> m s = (Inr r, s') \<Longrightarrow>
  tables s' = (tables s)\<lparr>alerts := map (\<lambda>a. if al_uuid a = aid then g a else a) (alerts s)\<rparr>"
  by (simp add: edits_def)

lemma edits_andthen:
  assumes "edits aid g m" "\<And>r. edits aid h (k r)"
  shows "edits aid (\<lambda>a. h (g a)) (andthen m k)"
proof -
  have ids: "al_uuid (g a) = al_uuid a" "al_uuid (h a) = al_uuid a" for a using assms by (simp_all add: edits_def)
  have "tables s' = (tables s)\<lparr>alerts := map (\<lambda>a. if al_uuid a = aid then h (g a) else a) (alerts s)\<rparr>"
    if "andthen m k s = (Inr r, s')" for s r s'
  proof -
    from that obtain q s1 where 1: "m s = (Inr q, s1)" "k q s1 = (Inr r, s')" by (elim andthen_cases) auto
    note t1 = editsD [OF assms(1) 1(1)] and t2 = editsD [OF assms(2) 1(2)]
    have "alerts s1 = alerts (tables s1)" by (simp add: tables_def)
    also have "\<dots> = map (\<lambda>a. if al_uuid a = aid then g a else a) (alerts s)" unfolding t1 by simp
    finally have "map (\<lambda>a. if al_uuid a = aid then h a else a) (alerts s1) = map (\<lambda>a. if al_uuid a = aid then h (g a) else a) (alerts s)"
      using ids(1) by simp
    then show ?thesis unfolding t2 t1 by simp
  qed
  with ids show ?thesis by (simp add: edits_def)
qed

lemma edits_update: "(\<And>a. al_uuid (g a) = al_uuid a) \<Longrightarrow> edits aid g (stmt (update_alert aid g))"
  unfolding edits_def by (auto simp: update_alert_def tables_def dest!: stmt_Inr)

lemma edits_guarded:
  "(\<And>a. al_uuid (g a) = al_uuid a) \<Longrightarrow> edits aid g (stmt (\<lambda>s. if c then update_alert aid g s else (Inl e, s)))"
  unfolding edits_def by (cases c) (auto simp: update_alert_def tables_def dest!: stmt_Inr)

lemma edits_opt_step:
  assumes "\<And>v. edits aid (f v) (m v)"
  shows "edits aid (\<lambda>a. case x of None \<Rightarrow> a | Some v \<Rightarrow> f v a) (opt_step x m n)"
proof (cases x)
  case (Some v)
  from edits_andthen [OF assms [of v] edits_ret] Some show ?thesis by (simp add: opt_step_def)
qed (simp add: opt_step_def edits_ret)

definition updated_alert :: "UpdateAlertByUuidParams \<Rightarrow> alert_row \<Rightarrow> alert_row" where
  "updated_alert p a = a\<lparr>al_resource := or_default (al_resource a) (ua_Resource p), al_environment := or_default (al_environment a) (ua_Environment p),
     al_event := or_default (al_event a) (ua_Event p), al_severity := or_default (al_severity a) (ua_Severity p),
     al_previous_severity := (if ua_Severity p = None then al_previous_severity a else al_severity a),
     al_status := or_default (al_status a) (ua_Status p), al_value := or_default (al_value a) (ua_Value p),
     al_description := or_default (al_description a) (ua_Description p), al_origin := or_default (al_origin a) (ua_Origin p),
     al_service := or_default (al_service a) (ua_Service p), al_tags := or_default (al_tags a) (ua_Tags p),
     al_timeout := or_default (al_timeout a) (ua_Timeout p), al_rawdata := or_default (al_rawdata a) (ua_Rawdata p)\<rparr>"

lemma edits_cong: "edits aid g m \<Longrightarrow> (\<And>a. g a = h a) \<Longrightarrow> edits aid h m"
  unfolding edits_def by simp

lemmas alert_setters = UpdateAlertSetResource_def UpdateAlertSetEnvironment_def UpdateAlertSetEvent_def UpdateAlertSetOrigin_def
  UpdateAlertSetSeverity_def UpdateAlertSetStatus_def UpdateAlertSetService_def UpdateAlertSetValue_def UpdateAlertSetDescription_def
  UpdateAlertSetTags_def UpdateAlertSetTimeout_def UpdateAlertSetRawdata_def

lemma alert_steps:
  "edits aid (\<lambda>a. a\<lparr>al_resource := or_default (al_resource a) x1\<rparr>) (opt_step x1 (UpdateAlertSetResource aid) n)"
  "edits aid (\<lambda>a. a\<lparr>al_environment := or_default (al_environment a) x2\<rparr>) (opt_step x2 (UpdateAlertSetEnvironment aid) n)"
  "edits aid (\<lambda>a. a\<lparr>al_event := or_default (al_event a) x3\<rparr>) (opt_step x3 (UpdateAlertSetEvent aid) n)"
  "edits aid (\<lambda>a. a\<lparr>al_origin := or_default (al_origin a) x4\<rparr>) (opt_step x4 (UpdateAlertSetOrigin aid) n)"
  "edits aid (\<lambda>a. a\<lparr>al_service := or_default (al_service a) x5\<rparr>) (opt_step x5 (UpdateAlertSetService aid) n)"
  "edits aid (\<lambda>a. a\<lparr>al_value := or_default (al_value a) x6\<rparr>) (opt_step x6 (UpdateAlertSetValue aid) n)"
  "edits aid (\<lambda>a. a\<lparr>al_description := or_default (al_description a) x7\<rparr>) (opt_step x7 (UpdateAlertSetDescription aid) n)"
  "edits aid (\<lambda>a. a\<lparr>al_tags := or_default (al_tags a) x8\<rparr>) (opt_step x8 (UpdateAlertSetTags aid) n)"
  "edits aid (\<lambda>a. a\<lparr>al_timeout := or_default (al_timeout a) x9\<rparr>) (opt_step x9 (UpdateAlertSetTimeout aid) n)"
  "edits aid (\<lambda>a. a\<lparr>al_rawdata := or_default (al_rawdata a) x10\<rparr>) (opt_step x10 (UpdateAlertSetRawdata aid) n)"
  unfolding alert_setters
  by (rule edits_cong, rule edits_opt_step, rule edits_update, simp, simp add: or_default_def split: option.split)+

lemma alert_guarded_steps:
  "edits aid (\<lambda>a. a\<lparr>al_status := or_default (al_status a) x\<rparr>) (opt_step x (UpdateAlertSetStatus aid) n)"
  "edits aid (\<lambda>a. a\<lparr>al_previous_severity := (if y = None then al_previous_severity a else al_severity a),
     al_severity := or_default (al_severity a) y\<rparr>) (opt_step y (UpdateAlertSetSeverity aid) n)"
  unfolding alert_setters
  by (rule edits_cong, rule edits_opt_step, rule edits_guarded, simp, simp add: or_default_def split: option.split)+

definition edited :: "uuid \<Rightarrow> UpdateAlertByUuidParams \<Rightarrow> 'v db \<Rightarrow> 'v db \<Rightarrow> bool" where
  "edited aid p s s' \<longleftrightarrow> tables s' = (tables s)\<lparr>alerts := map (\<lambda>a. if al_uuid a = aid then updated_alert p a else a) (alerts s)\<rparr>"

lemma alert_edits:
  "edits aid (updated_alert p) (
     andthen (opt_step (ua_Resource p) (UpdateAlertSetResource aid) 0) (\<lambda>n.
     andthen (opt_step (ua_Environment p) (UpdateAlertSetEnvironment aid) n) (\<lambda>n.
     andthen (opt_step (ua_Event p) (UpdateAlertSetEvent aid) n) (\<lambda>n.
     andthen (opt_step (ua_Origin p) (UpdateAlertSetOrigin aid) n) (\<lambda>n.
     andthen (opt_step (ua_Severity p) (UpdateAlertSetSeverity aid) n) (\<lambda>n.
     andthen (opt_step (ua_Status p) (UpdateAlertSetStatus aid) n) (\<lambda>n.
     andthen (opt_step (ua_Service p) (UpdateAlertSetService aid) n) (\<lambda>n.
     andthen (opt_step (ua_Value p) (UpdateAlertSetValue aid) n) (\<lambda>n.
     andthen (opt_step (ua_Description p) (UpdateAlertSetDescription aid) n) (\<lambda>n.
     andthen (opt_step (ua_Tags p) (UpdateAlertSetTags aid) n) (\<lambda>n.
     andthen (opt_step (ua_Timeout p) (UpdateAlertSetTimeout aid) n) (\<lambda>n.
     opt_step (ua_Rawdata p) (UpdateAlertSetRawdata aid) n))))))))))))"
  by (rule edits_cong, (rule edits_andthen alert_steps alert_guarded_steps)+) (simp add: updated_alert_def)

text \<open>
  An update of an alert is all or nothing: it sets exactly the given fields of exactly that
  alert, remembering the severity it replaces, and touches no other table; or it fails
  and changes nothing.
\<close>

theorem alert_update_atomic:
  assumes "UpdateAlertByUuid aid p s = (r, s')"
  shows "tables s' = (case r of Inl _ \<Rightarrow> tables s
     | Inr _ \<Rightarrow> (tables s)\<lparr>alerts := map (\<lambda>a. if al_uuid a = aid then updated_alert p a else a) (alerts s)\<rparr>)"
proof (cases r)
  case (Inl e)
  with assms have "tables s' = tables s" unfolding UpdateAlertByUuid_def by (auto dest: with_tx_Inl)
  with Inl show ?thesis by simp
next
  case (Inr n)
  from assms [unfolded Inr UpdateAlertByUuid_def] obtain s1 s2 where t: "tables s1 = tables s" "tables s' = tables s2"
    and "edited aid p s1 s2"
    by (rule with_tx_Inr) (auto simp: edited_def dest: editsD [OF alert_edits])
  moreover have "alerts s1 = alerts s" using t(1) by (cases s; cases s1; simp add: tables_def)
  ultimately show ?thesis using Inr by (simp add: edited_def)
qed


definition close_it :: UpdateAlertByUuidParams where
  "close_it = \<lparr>ua_Resource = None, ua_Environment = None, ua_Event = None, ua_Severity = Some ''major'', ua_Status = Some ''close'',
     ua_Value = None, ua_Description = None, ua_Origin = None, ua_Service = None, ua_Tags = None, ua_Timeout = None, ua_Rawdata = None\<rparr>"

theorem alert_update_atomic_witness:
  "tables (snd (UpdateAlertByUuid ''a1'' close_it alerted_db))
     = (tables alerted_db)\<lparr>alerts := map (updated_alert close_it) (alerts alerted_db)\<rparr>"
proof -
  have "isl (fst (UpdateAlertByUuid ''a1'' close_it alerted_db)) = False" by code_simp
  then obtain n where n: "fst (UpdateAlertByUuid ''a1'' close_it alerted_db) = Inr n" by (cases "fst (UpdateAlertByUuid ''a1'' close_it alerted_db)") auto
  have "list_all (\<lambda>a. al_uuid a = ''a1'') (alerts alerted_db)" by code_simp
  then have "map (\<lambda>a. if al_uuid a = ''a1'' then updated_alert close_it a else a) (alerts alerted_db) = map (updated_alert close_it) (alerts alerted_db)"
    by (simp add: list_all_iff)
  with alert_update_atomic [OF prod.collapse [symmetric], of "''a1''" close_it alerted_db] n show ?thesis by simp
qed


section \<open>Two living alerts under one key\<close>

text \<open>
  Once two living alerts share a key, every further report under that key fails and
  is lost, until one of the two is deleted, closed or runs out of time.
\<close>

theorem shared_key_blocks_reports:
  assumes "a \<in> set (alerts s)" "b \<in> set (alerts s)" "a \<noteq> b" "mergeable (clock s) a" "mergeable (clock s) b"
    and "alert_key a = params_key p" "alert_key b = params_key p"
  shows "\<exists>e s'. CreateAlert newid p s = (Inl e, s') \<and> alerts s' = alerts s"
proof (cases "CreateAlert newid p s")
  case (Pair r s')
  let ?hits = "filter (\<lambda>a. mergeable (clock s) a \<and> alert_key a = params_key p) (alerts s)"
  have ab: "{a, b} \<subseteq> set ?hits" using assms by simp
  have "2 = card {a, b}" using assms(3) by simp
  also have "\<dots> \<le> card (set ?hits)" by (rule card_mono [OF finite_set ab])
  also have "\<dots> \<le> length ?hits" by (rule card_length)
  finally have two: "\<not> length ?hits \<le> 1" "?hits \<noteq> []" by auto
  have merge: "\<exists>e. alert_merge newid p (s\<lparr>faults := fs\<rparr>) = (Inl e, s\<lparr>faults := fs\<rparr>)" for fs
    using two unfolding alert_merge_def Let_def by (simp split: if_splits)
  show ?thesis
    using Pair merge [of "tl (faults s)"] unfolding CreateAlert_def CreateAlert_query_def
    by (cases rule: stmt_cases [of "alert_merge newid p" s]) auto
qed

text \<open>Closing nothing, an update that changes the event of one alert to that of another leads there.\<close>

definition retitled_db :: "unit db" where
  "retitled_db = snd (UpdateAlertByUuid ''a2'' (close_it\<lparr>ua_Status := None, ua_Event := Some ''leak''\<rparr>)
     (snd (CreateAlert ''a2'' ((empty_report ''minor'')\<lparr>ca_Event := ''drip''\<rparr>) alerted_db)))"

theorem shared_key_blocks_reports_witness:
  "\<exists>e s'. CreateAlert ''a3'' (empty_report ''major'') retitled_db = (Inl e, s') \<and> alerts s' = alerts retitled_db"
proof (rule shared_key_blocks_reports)
  show "alerts retitled_db ! 0 \<in> set (alerts retitled_db)" "alerts retitled_db ! 1 \<in> set (alerts retitled_db)"
    "alerts retitled_db ! 0 \<noteq> alerts retitled_db ! 1"
    "mergeable (clock retitled_db) (alerts retitled_db ! 0)" "mergeable (clock retitled_db) (alerts retitled_db ! 1)"
    "alert_key (alerts retitled_db ! 0) = params_key (empty_report ''major'')"
    "alert_key (alerts retitled_db ! 1) = params_key (empty_report ''major'')" by code_simp+
qed

end
