(* ===== verification/Programs.thy ===== *)
theory Programs
  imports Alerts Storage
begin

text \<open>
  Programs and their code: \<^verbatim>\<open>internal/services/program.go\<close>, \<^verbatim>\<open>programs.sql\<close> with the tables of
  migration 12, and the handlers of \<^verbatim>\<open>api/aapije/program.go\<close>.  The hash \<^verbatim>\<open>sha256\<close>, the parser
  of schedules (package \<^verbatim>\<open>cron\<close>) and the printer of differences (package \<^verbatim>\<open>gotextdiff\<close>) are
  arguments, as are the keys the database draws.
\<close>

section \<open>Queries\<close>

record CreateProgramParams =
  cp_Name :: string
  cp_Type :: string
  cp_State :: string
  cp_Schedule :: string
  cp_Deadline :: int
  cp_Language :: string
  cp_Tags :: "string list option"
  cp_CreatedBy :: uuid

definition new_program :: "uuid \<Rightarrow> CreateProgramParams \<Rightarrow> program_row" where
  "new_program newid p = \<lparr>pg_uuid = newid, pg_name = cp_Name p, pg_type = cp_Type p, pg_state = cp_State p,
     pg_schedule = cp_Schedule p, pg_deadline = cp_Deadline p, pg_language = cp_Language p, pg_tags = the (cp_Tags p)\<rparr>"

text \<open>A nil slice of tags is \<^verbatim>\<open>NULL\<close>, which the column refuses.\<close>

definition CreateProgram :: "uuid \<Rightarrow> uuid list \<Rightarrow> CreateProgramParams \<Rightarrow> ('v, program_row) dbm" where
  "CreateProgram newid pids p = stmt (\<lambda>s.
     if cp_Tags p = None then (Inl not_null_violation, s)
     else if newid \<in> set (map pg_uuid (programs s)) then (Inl unique_violation, s)
     else (case grant_owner ''programs'' newid (Some (cp_CreatedBy p)) pids (s\<lparr>programs := programs s @ [new_program newid p]\<rparr>) of
         (Inl e, _) \<Rightarrow> (Inl e, s)
       | (Inr _, s') \<Rightarrow> (Inr (new_program newid p), s')))"

definition program_revisions :: "'v db \<Rightarrow> uuid \<Rightarrow> revision_row list" where
  "program_revisions s pid = filter (\<lambda>r. rv_program r = pid) (revisions s)"

text \<open>\<^verbatim>\<open>COALESCE(MAX(revision) + 1, 0)\<close>\<close>

definition next_revision :: "'v db \<Rightarrow> uuid \<Rightarrow> int" where
  "next_revision s pid = (case program_revisions s pid of [] \<Rightarrow> 0
     | r # rs \<Rightarrow> Max (set (map rv_revision (r # rs))) + 1)"

definition new_revision :: "(string \<Rightarrow> string) \<Rightarrow> 'v db \<Rightarrow> uuid \<Rightarrow> uuid option \<Rightarrow> string \<Rightarrow> revision_row" where
  "new_revision sha s pid creator code = \<lparr>rv_program = pid, rv_revision = next_revision s pid, rv_created = clock s,
     rv_signed = None, rv_created_by = creator, rv_signed_by = None, rv_code = code, rv_checksum = sha code\<rparr>"

definition CreateCodeRevision :: "(string \<Rightarrow> string) \<Rightarrow> uuid \<Rightarrow> uuid option \<Rightarrow> string \<Rightarrow> ('v, revision_row) dbm" where
  "CreateCodeRevision sha pid creator code = stmt (\<lambda>s.
     if \<not> in_i32 (next_revision s pid) then (Inl out_of_range, s)
     else if pid \<notin> set (map pg_uuid (programs s)) \<or> \<not> creator_ok s creator then (Inl fk_violation, s)
     else (Inr (new_revision sha s pid creator code), s\<lparr>revisions := revisions s @ [new_revision sha s pid creator code]\<rparr>))"

text \<open>The revisions of a deleted program go with it.\<close>

definition DeleteProgram_query :: "uuid \<Rightarrow> ('v, int) dbm" where
  "DeleteProgram_query pid = stmt (\<lambda>s.
     (Inr (int (length (filter (\<lambda>p. pg_uuid p = pid) (programs s)))),
      s\<lparr>programs := filter (\<lambda>p. pg_uuid p \<noteq> pid) (programs s),
        revisions := filter (\<lambda>r. rv_program r \<notin> set (map pg_uuid (filter (\<lambda>p. pg_uuid p = pid) (programs s)))) (revisions s)\<rparr>))"

definition is_revision :: "uuid \<Rightarrow> int \<Rightarrow> revision_row \<Rightarrow> bool" where
  "is_revision pid n r \<longleftrightarrow> rv_program r = pid \<and> rv_revision r = n"

definition DeleteProgramCodeRevision_query :: "uuid \<Rightarrow> int \<Rightarrow> ('v, int) dbm" where
  "DeleteProgramCodeRevision_query pid n = stmt (\<lambda>s.
     (Inr (int (length (filter (is_revision pid n) (revisions s)))),
      s\<lparr>revisions := filter (\<lambda>r. \<not> is_revision pid n r) (revisions s)\<rparr>))"

definition ExistsProgram :: "uuid \<Rightarrow> ('v, int) dbm" where
  "ExistsProgram pid = sel (\<lambda>s. int (length (filter (\<lambda>p. pg_uuid p = pid) (programs s))))"

text \<open>The rows that \<^verbatim>\<open>FindAllModules\<close> and \<^verbatim>\<open>FindAllRoutineRevisions\<close> return: a revision with its program.\<close>

record code_row =
  cr_Name :: string
  cr_ProgramUuid :: uuid
  cr_Type :: string
  cr_Schedule :: string
  cr_Deadline :: int
  cr_Language :: string
  cr_Revision :: int
  cr_Code :: string
  cr_Checksum :: string

definition code_row :: "revision_row \<times> program_row \<Rightarrow> code_row" where
  "code_row = (\<lambda>(r, p). \<lparr>cr_Name = pg_name p, cr_ProgramUuid = rv_program r, cr_Type = pg_type p, cr_Schedule = pg_schedule p,
     cr_Deadline = pg_deadline p, cr_Language = pg_language p, cr_Revision = rv_revision r, cr_Code = rv_code r,
     cr_Checksum = hex_EncodeToString (rv_checksum r)\<rparr>)"

text \<open>Signed revisions joined with their programs, those of the types asked for that are active.\<close>

definition active_code :: "string list \<Rightarrow> 'v db \<Rightarrow> (revision_row \<times> program_row) list" where
  "active_code types s = [(r, p). r \<leftarrow> revisions s, p \<leftarrow> programs s,
     pg_uuid p = rv_program r \<and> rv_signed r \<noteq> None \<and> pg_type p \<in> set types \<and> pg_state p = ''active'']"

definition modules_of :: "'v db \<Rightarrow> code_row list" where
  "modules_of s = map code_row (sort_key (\<lambda>(r, p). (rv_program r, - rv_revision r)) (active_code [''module''] s))"

definition FindAllModules :: "('v, code_row list) dbm" where
  "FindAllModules = sel modules_of"

text \<open>\<^verbatim>\<open>revision_rank = 1\<close>: no selected row of the same program has a higher revision.\<close>

definition top_ranked :: "(revision_row \<times> program_row) list \<Rightarrow> (revision_row \<times> program_row) list" where
  "top_ranked rows = filter (\<lambda>(r, p). \<not> list_ex (\<lambda>(r', p'). rv_program r' = rv_program r \<and> rv_revision r < rv_revision r') rows) rows"

definition routines_of :: "'v db \<Rightarrow> code_row list" where
  "routines_of s = map code_row (top_ranked (active_code [''routine'', ''webhook''] s))"

definition FindAllRoutineRevisions :: "('v, code_row list) dbm" where
  "FindAllRoutineRevisions = sel routines_of"

definition FindProgramByUUID :: "uuid \<Rightarrow> ('v, program_row) dbm" where
  "FindProgramByUUID pid = sel_one (\<lambda>s. filter (\<lambda>p. pg_uuid p = pid) (programs s))"

definition FindProgramCodeRevisions :: "uuid \<Rightarrow> ('v, revision_row list) dbm" where
  "FindProgramCodeRevisions pid = sel (\<lambda>s. sort_key rv_revision (program_revisions s pid))"

definition FindPrograms :: "(string \<Rightarrow> string) \<Rightarrow> string \<Rightarrow> int \<Rightarrow> int \<Rightarrow> ('v, program_row list) dbm" where
  "FindPrograms sha token limit offset = sel_page limit offset (\<lambda>s.
     sort_key pg_name (listed sha token (\<lambda>p. ''programs/'' @ pg_uuid p) s (programs s)))"

definition FindProgramsByTags :: "(string \<Rightarrow> string) \<Rightarrow> string \<Rightarrow> string list \<Rightarrow> int \<Rightarrow> int \<Rightarrow> ('v, program_row list) dbm" where
  "FindProgramsByTags sha token tags limit offset = sel_page limit offset (\<lambda>s.
     sort_key pg_name (listed sha token (\<lambda>p. ''programs/'' @ pg_uuid p) s (filter (\<lambda>p. overlap tags (pg_tags p)) (programs s))))"

definition named_module :: "string \<Rightarrow> string \<Rightarrow> 'v db \<Rightarrow> revision_row list" where
  "named_module name language s =
     map fst (filter (\<lambda>(r, p). pg_name p = name \<and> pg_language p = language) (active_code [''module''] s))"

definition GetNamedModuleCodeAtHead :: "string \<Rightarrow> string \<Rightarrow> ('v, string) dbm" where
  "GetNamedModuleCodeAtHead name language = sel_one (\<lambda>s. map rv_code (sort_desc rv_revision (named_module name language s)))"

definition GetNamedModuleCodeAtRevision :: "string \<Rightarrow> string \<Rightarrow> int \<Rightarrow> ('v, string) dbm" where
  "GetNamedModuleCodeAtRevision name language n =
     sel_one (\<lambda>s. map rv_code (filter (\<lambda>r. rv_revision r = n) (named_module name language s)))"

definition GetProgramCodeAtHead_query :: "uuid \<Rightarrow> ('v, revision_row) dbm" where
  "GetProgramCodeAtHead_query pid = sel_one (\<lambda>s. sort_desc rv_revision (program_revisions s pid))"

definition GetProgramCodeAtRevision :: "uuid \<Rightarrow> int \<Rightarrow> ('v, string) dbm" where
  "GetProgramCodeAtRevision pid n = sel_one (\<lambda>s. map rv_code (filter (is_revision pid n) (revisions s)))"

definition GetSignedProgramCodeAtHead_query :: "uuid \<Rightarrow> ('v, revision_row) dbm" where
  "GetSignedProgramCodeAtHead_query pid =
     sel_one (\<lambda>s. sort_desc rv_revision (filter (\<lambda>r. rv_signed r \<noteq> None) (program_revisions s pid)))"

definition SignProgramCodeRevision :: "uuid option \<Rightarrow> uuid \<Rightarrow> int \<Rightarrow> ('v, int) dbm" where
  "SignProgramCodeRevision signer pid n = stmt (\<lambda>s.
     let hits = filter (is_revision pid n) (revisions s) in
     if hits \<noteq> [] \<and> \<not> creator_ok s signer then (Inl fk_violation, s)
     else (Inr (int (length hits)), s\<lparr>revisions := map (\<lambda>r. if is_revision pid n r
       then r\<lparr>rv_signed_by := signer, rv_signed := Some (clock s)\<rparr> else r) (revisions s)\<rparr>))"

record UpdateProgramByUUIDParams =
  upr_SetName :: bool
  upr_Name :: string
  upr_SetType :: bool
  upr_Type :: string
  upr_SetState :: bool
  upr_State :: string
  upr_SetSchedule :: bool
  upr_Schedule :: string
  upr_SetDeadline :: bool
  upr_Deadline :: int
  upr_SetLanguage :: bool
  upr_Language :: string
  upr_SetTags :: bool
  upr_Tags :: "string list"
  upr_Uuid :: uuid

definition updated_program :: "UpdateProgramByUUIDParams \<Rightarrow> program_row \<Rightarrow> program_row" where
  "updated_program a p = p\<lparr>
     pg_name := (if upr_SetName a then upr_Name a else pg_name p),
     pg_type := (if upr_SetType a then upr_Type a else pg_type p),
     pg_state := (if upr_SetState a then upr_State a else pg_state p),
     pg_schedule := (if upr_SetSchedule a then upr_Schedule a else pg_schedule p),
     pg_deadline := (if upr_SetDeadline a then upr_Deadline a else pg_deadline p),
     pg_language := (if upr_SetLanguage a then upr_Language a else pg_language p),
     pg_tags := (if upr_SetTags a then upr_Tags a else pg_tags p)\<rparr>"

definition UpdateProgramByUUID :: "UpdateProgramByUUIDParams \<Rightarrow> ('v, int) dbm" where
  "UpdateProgramByUUID a = stmt (\<lambda>s.
     (Inr (int (length (filter (\<lambda>p. pg_uuid p = upr_Uuid a) (programs s)))),
      s\<lparr>programs := map (\<lambda>p. if pg_uuid p = upr_Uuid a then updated_program a p else p) (programs s)\<rparr>))"

section \<open>ProgramService\<close>

record rest_Program =
  rp_Uuid :: string
  rp_Name :: string
  rp_Type :: string
  rp_State :: string
  rp_Schedule :: string
  rp_Deadline :: int
  rp_Language :: string
  rp_Tags :: "string list"

definition rest_program :: "program_row \<Rightarrow> rest_Program" where
  "rest_program p = \<lparr>rp_Uuid = pg_uuid p, rp_Name = pg_name p, rp_Type = pg_type p, rp_State = pg_state p,
     rp_Schedule = pg_schedule p, rp_Deadline = pg_deadline p, rp_Language = pg_language p, rp_Tags = pg_tags p\<rparr>"

record AddProgramParams =
  ap_Name :: string
  ap_Type :: string
  ap_State :: string
  ap_Schedule :: string
  ap_Deadline :: int
  ap_Language :: string
  ap_CreatedBy :: uuid
  ap_Tags :: "string list option"

definition AddProgram :: "uuid \<Rightarrow> uuid list \<Rightarrow> AddProgramParams \<Rightarrow> ('v, rest_Program) dbm" where
  "AddProgram newid pids p =
     andthen (CreateProgram newid pids \<lparr>cp_Name = ap_Name p, cp_Type = ap_Type p, cp_State = ap_State p, cp_Schedule = ap_Schedule p,
       cp_Deadline = to_i32 (ap_Deadline p), cp_Language = ap_Language p, cp_Tags = ap_Tags p, cp_CreatedBy = ap_CreatedBy p\<rparr>)
     (\<lambda>program. ret ((rest_program program)\<lparr>rp_Tags := or_default [] (ap_Tags p)\<rparr>))"

record rest_CodeRevision =
  rr_Revision :: int
  rr_Created :: int
  rr_CreatedBy :: string
  rr_Checksum :: string
  rr_Signed :: "int option"
  rr_SignedBy :: "string option"

definition rest_revision :: "revision_row \<Rightarrow> rest_CodeRevision" where
  "rest_revision r = \<lparr>rr_Revision = rv_revision r, rr_Created = rv_created r, rr_CreatedBy = nullableUUIDString (rv_created_by r),
     rr_Checksum = hex_EncodeToString (rv_checksum r), rr_Signed = rv_signed r, rr_SignedBy = rv_signed_by r\<rparr>"

definition AddCodeRevision :: "(string \<Rightarrow> string) \<Rightarrow> uuid \<Rightarrow> uuid \<Rightarrow> string \<Rightarrow> ('v, rest_CodeRevision) dbm" where
  "AddCodeRevision sha pid creator code = andthen (CreateCodeRevision sha pid (Some creator) code) (\<lambda>rev. ret (rest_revision rev))"

definition Program_FindAll :: "(string \<Rightarrow> string) \<Rightarrow> string \<Rightarrow> int \<Rightarrow> int \<Rightarrow> ('v, rest_Program list) dbm" where
  "Program_FindAll sha token limit offset =
     andthen (FindPrograms sha token limit offset) (\<lambda>programsList. ret (map rest_program programsList))"

definition Program_FindByTags :: "(string \<Rightarrow> string) \<Rightarrow> string \<Rightarrow> string list \<Rightarrow> int \<Rightarrow> int \<Rightarrow> ('v, rest_Program list) dbm" where
  "Program_FindByTags sha token tags limit offset =
     andthen (FindProgramsByTags sha token tags limit offset) (\<lambda>progList. ret (map rest_program progList))"

definition FindProgramByUuid :: "uuid \<Rightarrow> ('v, rest_Program) dbm" where
  "FindProgramByUuid pid = andthen (FindProgramByUUID pid) (\<lambda>p. ret (rest_program p))"

definition FindAllCodeRevisions :: "uuid \<Rightarrow> ('v, rest_CodeRevision list) dbm" where
  "FindAllCodeRevisions pid = andthen (FindProgramCodeRevisions pid) (\<lambda>revList. ret (map rest_revision revList))"

text \<open>The code and the number of one side of a difference: \<open>-1\<close> stands for the newest revision.\<close>

definition code_at :: "uuid \<Rightarrow> int \<Rightarrow> ('v, string \<times> int) dbm" where
  "code_at pid n = (if n = -1 then andthen (GetProgramCodeAtHead_query pid) (\<lambda>c. ret (rv_code c, rv_revision c))
     else andthen (GetProgramCodeAtRevision pid (to_i32 n)) (\<lambda>c. ret (c, n)))"

definition DiffProgramCodeAtRevisions ::
  "(string \<Rightarrow> string \<Rightarrow> string \<Rightarrow> string \<Rightarrow> string \<Rightarrow> string) \<Rightarrow> uuid \<Rightarrow> int \<Rightarrow> int \<Rightarrow> ('v, string) dbm" where
  "DiffProgramCodeAtRevisions unified pid revA revB =
     andthen (code_at pid revA) (\<lambda>(codeA, revA).
     andthen (code_at pid revB) (\<lambda>(codeB, revB).
       ret (unified pid (pid @ ''@'' @ Itoa revA) (pid @ ''@'' @ Itoa revB) codeA codeB)))"

definition GetProgramCodeAtHead :: "uuid \<Rightarrow> ('v, string) dbm" where
  "GetProgramCodeAtHead pid = andthen (GetProgramCodeAtHead_query pid) (\<lambda>row. ret (rv_code row))"

definition GetSignedProgramCodeAtHead :: "uuid \<Rightarrow> ('v, string) dbm" where
  "GetSignedProgramCodeAtHead pid = andthen (GetSignedProgramCodeAtHead_query pid) (\<lambda>row. ret (rv_code row))"

record UpdateProgramByUuidParams =
  upp_Name :: "string option"
  upp_Type :: "string option"
  upp_State :: "string option"
  upp_Schedule :: "string option"
  upp_Deadline :: "int option"
  upp_Language :: "string option"
  upp_Tags :: "string list option"

definition update_args :: "uuid \<Rightarrow> UpdateProgramByUuidParams \<Rightarrow> UpdateProgramByUUIDParams" where
  "update_args pid p = \<lparr>
     upr_SetName = (upp_Name p \<noteq> None), upr_Name = or_default [] (upp_Name p),
     upr_SetType = (upp_Type p \<noteq> None), upr_Type = or_default [] (upp_Type p),
     upr_SetState = (upp_State p \<noteq> None), upr_State = or_default [] (upp_State p),
     upr_SetSchedule = (upp_Schedule p \<noteq> None), upr_Schedule = or_default [] (upp_Schedule p),
     upr_SetDeadline = (upp_Deadline p \<noteq> None), upr_Deadline = or_default 0 (map_option to_i32 (upp_Deadline p)),
     upr_SetLanguage = (upp_Language p \<noteq> None), upr_Language = or_default [] (upp_Language p),
     upr_SetTags = (upp_Tags p \<noteq> None), upr_Tags = or_default [] (upp_Tags p), upr_Uuid = pid\<rparr>"

definition nothing_set :: "UpdateProgramByUuidParams \<Rightarrow> bool" where
  "nothing_set p \<longleftrightarrow> \<not> (upp_Name p \<noteq> None \<or> upp_Type p \<noteq> None \<or> upp_State p \<noteq> None \<or> upp_Schedule p \<noteq> None
     \<or> upp_Deadline p \<noteq> None \<or> upp_Language p \<noteq> None \<or> upp_Tags p \<noteq> None)"

definition UpdateProgramByUuid :: "uuid \<Rightarrow> UpdateProgramByUuidParams \<Rightarrow> ('v, int) dbm" where
  "UpdateProgramByUuid pid p =
     (if nothing_set p then andthen (FindProgramByUUID pid) (\<lambda>_. ret 1)
      else andthen (UpdateProgramByUUID (update_args pid p)) (\<lambda>n. if n = 0 then fail ErrorNotFound else ret n))"

definition SignCodeRevision :: "uuid \<Rightarrow> int \<Rightarrow> uuid \<Rightarrow> ('v, int) dbm" where
  "SignCodeRevision pid n signer = SignProgramCodeRevision (Some signer) pid (to_i32 n)"

definition DeleteProgram :: "uuid \<Rightarrow> ('v, int) dbm" where
  "DeleteProgram pid = DeleteProgram_query pid"

definition DeleteProgramCodeRevision :: "uuid \<Rightarrow> int \<Rightarrow> ('v, int) dbm" where
  "DeleteProgramCodeRevision pid n = DeleteProgramCodeRevision_query pid (to_i32 n)"

section \<open>Handlers\<close>

text \<open>\<^verbatim>\<open>specParser.Parse\<close> of the package \<^verbatim>\<open>cron\<close>: \<^const>\<open>None\<close>, or the text of the error.\<close>

definition check_schedule :: "(string \<Rightarrow> string option) \<Rightarrow> string option \<Rightarrow> ('v, 'p) handler \<Rightarrow> ('v, 'p) handler" where
  "check_schedule cron schedule k = (case Option.bind schedule cron of None \<Rightarrow> k
     | Some e \<Rightarrow> answer (Problem (NewInvalidRequestError (''unable to parse schedule: '' @ [CHR 10] @ e))))"

record NewProgram =
  np_Name :: string
  np_Type :: string
  np_State :: string
  np_Schedule :: string
  np_Deadline :: int
  np_Language :: string
  np_Tags :: "string list option"

definition AddProgram_handler ::
  "(string \<Rightarrow> string option) \<Rightarrow> uuid \<Rightarrow> uuid list \<Rightarrow> request_context \<Rightarrow> NewProgram option \<Rightarrow> ('v, rest_Program) handler" where
  "AddProgram_handler cron newid pids cx body =
     decodeJSONBody body (\<lambda>n. GetDB cx (GetUserUUID cx (\<lambda>createdBy.
       check_schedule cron (Some (np_Schedule n))
       (call (AddProgram newid pids \<lparr>ap_Name = np_Name n, ap_Type = np_Type n, ap_State = np_State n, ap_Schedule = np_Schedule n,
          ap_Deadline = np_Deadline n, ap_Language = np_Language n, ap_CreatedBy = createdBy, ap_Tags = np_Tags n\<rparr>)
        (\<lambda>prog. answer (JSON 201 prog))))))"

text \<open>A limit of zero, given or by default, is 20.\<close>

definition page_limit :: "int option \<Rightarrow> int" where
  "page_limit l = (if Pagination_Scan l = 0 then 20 else Pagination_Scan l)"

definition FindPrograms_handler ::
  "(string \<Rightarrow> string) \<Rightarrow> request_context \<Rightarrow> string list option \<Rightarrow> int option \<Rightarrow> int option \<Rightarrow> ('v, rest_Program list) handler" where
  "FindPrograms_handler sha cx tags limit offset = GetDB cx (GetDomainToken cx (\<lambda>dt.
     (case tags of
        Some ts \<Rightarrow> call (Program_FindByTags sha (dt_Token dt) ts (page_limit limit) (Pagination_Scan offset)) (\<lambda>ps. answer (JSON 200 ps))
      | None \<Rightarrow> call (Program_FindAll sha (dt_Token dt) (page_limit limit) (Pagination_Scan offset)) (\<lambda>ps. answer (JSON 200 ps)))))"

definition FindProgramByUuid_handler :: "request_context \<Rightarrow> uuid \<Rightarrow> ('v, rest_Program) handler" where
  "FindProgramByUuid_handler cx pid = GetDB cx (call (FindProgramByUuid pid) (\<lambda>p. answer (JSON 200 p)))"

definition UpdateProgramByUuid_handler ::
  "(string \<Rightarrow> string option) \<Rightarrow> request_context \<Rightarrow> uuid \<Rightarrow> UpdateProgramByUuidParams option \<Rightarrow> ('v, unit) handler" where
  "UpdateProgramByUuid_handler cron cx pid body = GetDB cx (decodeJSONBody body (\<lambda>p.
     check_schedule cron (upp_Schedule p) (call (UpdateProgramByUuid pid p) (\<lambda>_. answer (Empty 204)))))"

definition DeleteProgramByUuid_handler :: "request_context \<Rightarrow> uuid \<Rightarrow> ('v, unit) handler" where
  "DeleteProgramByUuid_handler cx pid = GetDB cx (call (DeleteProgram pid) none_is_404)"

definition maxUploadSize :: int where
  "maxUploadSize = 1048576"

text \<open>
  The length comes from the header as \<^verbatim>\<open>strconv.Atoi\<close> reads it (\<^const>\<open>None\<close>: it does not); the body is what the
  client sent (\<^const>\<open>None\<close>: the connection broke), read through \<^verbatim>\<open>http.MaxBytesReader\<close>.
\<close>

definition AddProgramCodeRevision_handler ::
  "(string \<Rightarrow> string) \<Rightarrow> request_context \<Rightarrow> uuid \<Rightarrow> int option \<Rightarrow> string option \<Rightarrow> ('v, rest_CodeRevision) handler" where
  "AddProgramCodeRevision_handler sha cx pid contentLength body = GetDB cx (GetUserUUID cx (\<lambda>createdBy.
     (case contentLength of None \<Rightarrow> answer (Problem ErrorLengthRequired)
      | Some n \<Rightarrow> if n > maxUploadSize then answer (Problem ErrorRequestEntityTooLarge)
        else (case body of None \<Rightarrow> answer (Problem ErrorUndefined)
          | Some b \<Rightarrow> if int (length b) > maxUploadSize then answer (Problem ErrorUndefined)
            else call (AddCodeRevision sha pid createdBy b) (\<lambda>revision. answer (JSON 201 revision))))))"

definition GetProgramCodeRevisionsDiff_handler ::
  "(string \<Rightarrow> string \<Rightarrow> string \<Rightarrow> string \<Rightarrow> string \<Rightarrow> string) \<Rightarrow> request_context \<Rightarrow> uuid \<Rightarrow> int \<Rightarrow> int \<Rightarrow> ('v, unit) handler" where
  "GetProgramCodeRevisionsDiff_handler unified cx pid revA revB =
     GetDB cx (call (DiffProgramCodeAtRevisions unified pid revA revB) (\<lambda>d. answer (Text 200 d)))"

definition GetCodeFromProgram_handler :: "request_context \<Rightarrow> uuid \<Rightarrow> ('v, unit) handler" where
  "GetCodeFromProgram_handler cx pid = GetDB cx (call (GetSignedProgramCodeAtHead pid) (\<lambda>code. answer (Text 200 code)))"

definition GetProgramCodeRevisions_handler :: "request_context \<Rightarrow> uuid \<Rightarrow> ('v, rest_CodeRevision list) handler" where
  "GetProgramCodeRevisions_handler cx pid = GetDB cx (call (FindAllCodeRevisions pid) (\<lambda>rs. answer (JSON 200 rs)))"

definition ExecuteProgramWebhook_handler :: "('v, unit) handler" where
  "ExecuteProgramWebhook_handler = answer (Empty 501)"

definition SignProgramCodeRevisions_handler :: "request_context \<Rightarrow> uuid \<Rightarrow> int \<Rightarrow> ('v, unit) handler" where
  "SignProgramCodeRevisions_handler cx pid n = GetDB cx (GetUserUUID cx (\<lambda>signedBy.
     call (SignCodeRevision pid n signedBy) none_is_404))"

definition DeleteProgramCodeRevisions_handler :: "request_context \<Rightarrow> uuid \<Rightarrow> int \<Rightarrow> ('v, unit) handler" where
  "DeleteProgramCodeRevisions_handler cx pid n = GetDB cx (call (DeleteProgramCodeRevision pid n) none_is_404)"

section \<open>What is scheduled\<close>

definition programs_ok :: "'v db \<Rightarrow> bool" where
  "programs_ok s \<longleftrightarrow> distinct (map pg_uuid (programs s))
     \<and> distinct (map (\<lambda>r. (rv_program r, rv_revision r)) (revisions s))
     \<and> list_all (\<lambda>r. rv_program r \<in> set (map pg_uuid (programs s)) \<and> 0 \<le> rv_revision r \<and> in_i32 (rv_revision r)) (revisions s)"

lemma sort_desc_hd:
  fixes k :: "'a \<Rightarrow> 'k::linorder"
  assumes "sort_desc k xs = x # ys" "y \<in> set xs"
  shows "k y \<le> k x"
proof -
  have "sorted (map k (rev (sort_desc k xs)))" by (simp add: sort_desc_def)
  with assms(1) have s: "\<forall>z\<in>set ys. k z \<le> k x" by (simp add: sorted_append)
  have "y \<in> set (x # ys)" unfolding assms(1) [symmetric] using assms(2) by simp
  with s show ?thesis by auto
qed

text \<open>Of rows with distinct keys the one that nothing exceeds is the first in descending order.\<close>

lemma maximal_filter:
  fixes k :: "'a \<Rightarrow> 'k::linorder"
  assumes "distinct (map k xs)"
  shows "filter (\<lambda>x. \<not> list_ex (\<lambda>y. k x < k y) xs) xs = (case sort_desc k xs of [] \<Rightarrow> [] | x # _ \<Rightarrow> [x])"
proof (cases "sort_desc k xs")
  case Nil
  then have "set xs = {}" using set_sort_desc [of k xs] by simp
  then show ?thesis by (simp add: sort_desc_def)
next
  case (Cons m ys)
  then have m: "m \<in> set xs" using set_sort_desc [of k xs] by auto
  have le: "y \<in> set xs \<Longrightarrow> k y \<le> k m" for y using Cons by (rule sort_desc_hd)
  have "(\<not> list_ex (\<lambda>y. k x < k y) xs) = (k x = k m)" if "x \<in> set xs" for x
    using that le m by (auto simp: list_ex_iff not_less intro: antisym dest: leD)
  then have "filter (\<lambda>x. \<not> list_ex (\<lambda>y. k x < k y) xs) xs = filter (\<lambda>x. k x = k m) xs"
    by (rule filter_cong [OF refl])
  also have "\<dots> = [m]" using assms m by (rule filter_key_unique) simp
  finally show ?thesis using Cons by simp
qed

lemma filter_join:
  assumes "distinct (map f ps)" "p \<in> set ps" "\<And>r q. C r q \<Longrightarrow> f q = g r" "\<And>r. g r = f p \<Longrightarrow> C r p = D r"
  shows "filter (\<lambda>(r, q). g r = f p) [(r, q). r \<leftarrow> rs, q \<leftarrow> ps, C r q] = map (\<lambda>r. (r, p)) (filter (\<lambda>r. D r \<and> g r = f p) rs)"
proof (induction rs)
  case (Cons r rs)
  have one: "concat (map (\<lambda>q. if C r q then [(r, q)] else []) ps) = map (Pair r) (filter (C r) ps)"
    by (induction ps) auto
  have "filter (C r) ps = (if C r p then [p] else [])" if "g r = f p"
  proof -
    have "filter (C r) ps = filter (C r) (filter (\<lambda>q. f q = f p) ps)" using assms(3) that by (auto intro!: filter_cong)
    also have "filter (\<lambda>q. f q = f p) ps = [p]" using assms(1,2) by (rule filter_key_unique) simp
    finally show ?thesis by simp
  qed
  then have "filter (\<lambda>(r, q). g r = f p) (map (Pair r) (filter (C r) ps)) = (if D r \<and> g r = f p then [(r, p)] else [])"
    using assms(4) [of r] by (auto simp: filter_empty_conv)
  with Cons.IH show ?case by (simp add: one)
qed simp

lemma active_code_program:
  assumes "programs_ok s" "p \<in> set (programs s)" "pg_type p \<in> set types" "pg_state p = ''active''"
  shows "filter (\<lambda>(r, q). rv_program r = pg_uuid p) (active_code types s)
    = map (\<lambda>r. (r, p)) (filter (\<lambda>r. rv_signed r \<noteq> None) (program_revisions s (pg_uuid p)))"
proof -
  have d: "distinct (map pg_uuid (programs s))" using assms(1) by (simp add: programs_ok_def)
  have "filter (\<lambda>(r, q). rv_program r = pg_uuid p) (active_code types s)
      = map (\<lambda>r. (r, p)) (filter (\<lambda>r. rv_signed r \<noteq> None \<and> rv_program r = pg_uuid p) (revisions s))"
    unfolding active_code_def using d assms(2)
    by (rule filter_join) (use assms(3,4) in auto)
  then show ?thesis by (simp add: program_revisions_def conj_commute)
qed

lemma top_ranked_program:
  "filter (\<lambda>(r, q). rv_program r = pid) (top_ranked rows)
    = filter (\<lambda>(r, q). \<not> list_ex (\<lambda>(r', q'). rv_revision r < rv_revision r') (filter (\<lambda>(r, q). rv_program r = pid) rows))
        (filter (\<lambda>(r, q). rv_program r = pid) rows)"
  unfolding top_ranked_def by (auto simp: list_ex_iff intro!: filter_cong)

lemma revisions_distinct:
  assumes "programs_ok s"
  shows "distinct (map rv_revision (filter P (program_revisions s pid)))"
proof -
  have "inj_on (\<lambda>r. (rv_program r, rv_revision r)) (set (revisions s))" "distinct (revisions s)"
    using assms by (simp_all add: programs_ok_def distinct_map)
  then show ?thesis
    by (auto simp: program_revisions_def distinct_map inj_on_def)
qed

lemma cr_filter: "filter (\<lambda>c. cr_ProgramUuid c = pid) (map code_row rows) = map code_row (filter (\<lambda>(r, q). rv_program r = pid) rows)"
  by (induction rows) (auto simp: code_row_def)

text \<open>The rows scheduled for one active program.\<close>

lemma routine_rows:
  assumes "programs_ok s" "p \<in> set (programs s)" "pg_type p \<in> set [''routine'', ''webhook'']" "pg_state p = ''active''"
  shows "filter (\<lambda>c. cr_ProgramUuid c = pg_uuid p) (routines_of s)
    = (case sort_desc rv_revision (filter (\<lambda>r. rv_signed r \<noteq> None) (program_revisions s (pg_uuid p))) of
         [] \<Rightarrow> [] | r # _ \<Rightarrow> [code_row (r, p)])"
proof -
  define rs where "rs = filter (\<lambda>r. rv_signed r \<noteq> None) (program_revisions s (pg_uuid p))"
  have d: "distinct (map rv_revision rs)" unfolding rs_def using assms(1) by (rule revisions_distinct)
  have "filter (\<lambda>(r, q). rv_program r = pg_uuid p) (top_ranked (active_code [''routine'', ''webhook''] s))
      = map (\<lambda>r. (r, p)) (filter (\<lambda>r. \<not> list_ex (\<lambda>r'. rv_revision r < rv_revision r') rs) rs)"
    unfolding top_ranked_program active_code_program [OF assms] rs_def [symmetric]
    by (simp add: filter_map comp_def list_ex_iff)
  also have "\<dots> = (case sort_desc rv_revision rs of [] \<Rightarrow> [] | r # _ \<Rightarrow> [(r, p)])"
    unfolding maximal_filter [OF d] by (simp split: list.splits)
  finally show ?thesis unfolding routines_of_def cr_filter rs_def by (simp split: list.splits)
qed

text \<open>
  C26: What the scheduler is given for an active routine or webhook is what
  \<^verbatim>\<open>GET /programs/{uuid}/code\<close> shows: the newest signed revision, and exactly one row of it;
  nothing is scheduled for a program that has no signed code.
\<close>

theorem scheduled_is_published:
  assumes "programs_ok s" "healthy s" "p \<in> set (programs s)" "pg_type p \<in> set [''routine'', ''webhook'']" "pg_state p = ''active''"
  shows "map cr_Code (filter (\<lambda>c. cr_ProgramUuid c = pg_uuid p) (routines_of s))
    = (case fst (GetSignedProgramCodeAtHead (pg_uuid p) s) of Inr code \<Rightarrow> [code] | Inl _ \<Rightarrow> [])"
proof -
  define rs where "rs = filter (\<lambda>r. rv_signed r \<noteq> None) (program_revisions s (pg_uuid p))"
  have "GetSignedProgramCodeAtHead (pg_uuid p) s =
      (case sort_desc rv_revision rs of [] \<Rightarrow> Inl no_rows | r # _ \<Rightarrow> Inr (rv_code r), s\<lparr>faults := tl (faults s)\<rparr>)"
    using assms(2)
    by (simp add: GetSignedProgramCodeAtHead_def GetSignedProgramCodeAtHead_query_def andthen_def ret_def sel_one_def dbsimps
        program_revisions_def rs_def split: list.splits)
  then show ?thesis
    unfolding routine_rows [OF assms(1,3-5)] rs_def [symmetric] by (auto simp: code_row_def split: list.splits)
qed

definition program_db :: "int db" where
  "program_db = empty_db\<lparr>users := [\<lparr>u_uuid = ''u1'', u_name = ''ann'', u_state = ''active''\<rparr>],
     programs := [\<lparr>pg_uuid = ''p1'', pg_name = ''feed'', pg_type = ''routine'', pg_state = ''active'', pg_schedule = ''@hourly'',
       pg_deadline = 1000, pg_language = ''tengo'', pg_tags = []\<rparr>],
     revisions := map (\<lambda>(n, sig, code). \<lparr>rv_program = ''p1'', rv_revision = n, rv_created = 0, rv_signed = sig, rv_created_by = Some ''u1'',
       rv_signed_by = None, rv_code = code, rv_checksum = code\<rparr>)
       [(0, Some 1, ''a := 0''), (1, Some 2, ''a := 1''), (2, None, ''a := 2'')]\<rparr>"

theorem scheduled_is_published_witness:
  "map cr_Code (filter (\<lambda>c. cr_ProgramUuid c = ''p1'') (routines_of program_db)) = [''a := 1'']"
proof -
  let ?p = "hd (programs program_db)"
  have "programs_ok program_db" by code_simp
  moreover have "healthy program_db" by (simp add: healthy_def program_db_def empty_db_def)
  moreover have "?p \<in> set (programs program_db)" "pg_type ?p \<in> set [''routine'', ''webhook'']" "pg_state ?p = ''active''"
    by (simp_all add: program_db_def)
  moreover have "fst (GetSignedProgramCodeAtHead (pg_uuid ?p) program_db) = Inr ''a := 1''" by code_simp
  ultimately have "map cr_Code (filter (\<lambda>c. cr_ProgramUuid c = pg_uuid ?p) (routines_of program_db)) = [''a := 1'']"
    using scheduled_is_published [of program_db ?p] by simp
  then show ?thesis by (simp add: program_db_def)
qed

section \<open>Writing code and signing it\<close>

lemma next_revision_fresh: "r \<in> set (revisions s) \<Longrightarrow> rv_program r = pid \<Longrightarrow> rv_revision r < next_revision s pid"
proof -
  assume "r \<in> set (revisions s)" "rv_program r = pid"
  then have r: "r \<in> set (program_revisions s pid)" by (simp add: program_revisions_def)
  then obtain x xs where xs: "program_revisions s pid = x # xs" by (cases "program_revisions s pid") auto
  have "rv_revision r \<le> Max (set (map rv_revision (x # xs)))"
    using r unfolding xs by (intro Max_ge) auto
  then show ?thesis by (simp add: next_revision_def xs)
qed

lemma next_revision_nonneg: "programs_ok s \<Longrightarrow> 0 \<le> next_revision s pid"
proof (cases "program_revisions s pid")
  case (Cons r rs)
  then have "r \<in> set (program_revisions s pid)" by simp
  then have r: "r \<in> set (revisions s)" "rv_program r = pid" by (simp_all add: program_revisions_def)
  assume "programs_ok s"
  with r have "0 \<le> rv_revision r" by (auto simp: programs_ok_def list_all_iff)
  with next_revision_fresh [OF r] show ?thesis by linarith
qed (simp add: next_revision_def)

lemma CreateCodeRevision_Inr:
  assumes "CreateCodeRevision sha pid creator code s = (Inr r, s')"
  shows "r = new_revision sha s pid creator code" "s' = s\<lparr>faults := tl (faults s), revisions := revisions s @ [r]\<rparr>"
    "in_i32 (next_revision s pid)" "pid \<in> set (map pg_uuid (programs s))"
proof -
  have n: "next_revision (s\<lparr>faults := fs\<rparr>) pid = next_revision s pid"
    "new_revision sha (s\<lparr>faults := fs\<rparr>) pid creator code = new_revision sha s pid creator code" for fs
    by (simp_all add: next_revision_def new_revision_def program_revisions_def)
  from stmt_Inr [OF assms [unfolded CreateCodeRevision_def]]
  show "r = new_revision sha s pid creator code" "s' = s\<lparr>faults := tl (faults s), revisions := revisions s @ [r]\<rparr>"
    "in_i32 (next_revision s pid)" "pid \<in> set (map pg_uuid (programs s))"
    by (auto simp: n split: if_splits)
qed

text \<open>Code that nobody signed is in neither of the two queries.\<close>

lemma active_code_unsigned:
  "rv_signed r = None \<Longrightarrow> active_code types (s\<lparr>faults := fs, revisions := revisions s @ [r]\<rparr>) = active_code types s"
  by (simp add: active_code_def)

lemma active_code_faults: "active_code types (s\<lparr>faults := fs\<rparr>) = active_code types s"
  by (simp add: active_code_def)

lemma active_code_tables: "tables s = tables t \<Longrightarrow> active_code types s = active_code types t"
  by (metis active_code_faults tables_def)

lemma AddCodeRevision_cases:
  assumes "AddCodeRevision sha pid creator code s = (r, s')"
  obtains (refused) e where "r = Inl e" "tables s' = tables s"
  | (added) "r = Inr (rest_revision (new_revision sha s pid (Some creator) code))"
      "CreateCodeRevision sha pid (Some creator) code s = (Inr (new_revision sha s pid (Some creator) code), s')"
proof (rule andthen_cases [OF assms [unfolded AddCodeRevision_def]])
  fix e assume e: "CreateCodeRevision sha pid (Some creator) code s = (Inl e, s')" "r = Inl e"
  then have "tables s' = tables s"
    unfolding CreateCodeRevision_def by (elim stmt_Inl) (auto split: if_splits)
  with e show thesis by (intro refused)
next
  fix a s1 assume a: "CreateCodeRevision sha pid (Some creator) code s = (Inr a, s1)" "ret (rest_revision a) s1 = (r, s')"
  with CreateCodeRevision_Inr [OF a(1)] show thesis by (intro added) (auto simp: ret_def)
qed

lemma insort_key_last: "\<forall>x\<in>set xs. k x < (k y :: 'k::linorder) \<Longrightarrow> insort_key k y xs = xs @ [y]"
  by (induction xs) (auto simp: not_le)

lemma head_of_new:
  assumes "\<forall>x\<in>set xs. k x < (k y :: 'k::linorder)"
  shows "sort_desc k (xs @ [y]) = y # sort_desc k xs"
  using insort_key_last [of "sort_key k (rev xs)" k y] assms by (simp add: sort_desc_def)

lemma program_revisions_append:
  "program_revisions (s\<lparr>faults := fs, revisions := revisions s @ [r]\<rparr>) pid
    = program_revisions s pid @ (if rv_program r = pid then [r] else [])"
  by (simp add: program_revisions_def)

text \<open>
  C27: Writing code never changes what runs: whatever \<^verbatim>\<open>AddCodeRevision\<close> answers, the routines and
  the modules handed to the scheduler stay as they were.  When it succeeds the new code is the
  head of the program and its number is above every other of the program's.
\<close>

theorem unsigned_code_not_scheduled:
  assumes "programs_ok s" "AddCodeRevision sha pid creator code s = (r, s')"
  shows "routines_of s' = routines_of s \<and> modules_of s' = modules_of s
    \<and> (\<forall>rev. r = Inr rev \<longrightarrow> fst (GetProgramCodeAtHead pid (s'\<lparr>faults := []\<rparr>)) = Inr code
        \<and> list_all (\<lambda>x. rv_revision x < rr_Revision rev) (program_revisions s pid))"
  using assms(2)
proof (cases rule: AddCodeRevision_cases)
  case (refused e)
  then show ?thesis by (simp add: routines_of_def modules_of_def active_code_tables [OF refused(2)])
next
  case added
  define n where "n = new_revision sha s pid (Some creator) code"
  have s': "s' = s\<lparr>faults := tl (faults s), revisions := revisions s @ [n]\<rparr>"
    unfolding n_def using added(2) by (rule CreateCodeRevision_Inr)
  have n: "rv_signed n = None" "rv_program n = pid" "rv_code n = code" "rv_revision n = next_revision s pid"
    by (simp_all add: n_def new_revision_def)
  have less: "\<forall>x\<in>set (program_revisions s pid). rv_revision x < rv_revision n"
    unfolding n(4) using next_revision_fresh by (auto simp: program_revisions_def)
  have "program_revisions (s'\<lparr>faults := []\<rparr>) pid = program_revisions s pid @ [n]"
    using n(2) by (simp add: s' program_revisions_def)
  then have "fst (GetProgramCodeAtHead pid (s'\<lparr>faults := []\<rparr>)) = Inr code"
    using head_of_new [where k = rv_revision, OF less] n(3)
    by (simp add: GetProgramCodeAtHead_def GetProgramCodeAtHead_query_def andthen_def ret_def sel_one_def stmt_def)
  with less added(1) show ?thesis
    by (auto simp: s' routines_of_def modules_of_def active_code_unsigned [OF n(1)] list_all_iff n_def [symmetric] rest_revision_def)
qed

theorem unsigned_code_not_scheduled_witness:
  "map cr_Code (routines_of (snd (AddCodeRevision id ''p1'' ''u1'' ''a := 3'' program_db))) = [''a := 1'']
    \<and> fst (GetProgramCodeAtHead ''p1'' ((snd (AddCodeRevision id ''p1'' ''u1'' ''a := 3'' program_db))\<lparr>faults := []\<rparr>)) = Inr ''a := 3''"
proof -
  let ?x = "AddCodeRevision id ''p1'' ''u1'' ''a := 3'' program_db"
  have ok: "programs_ok program_db" by code_simp
  have "is_ok (fst ?x)" by code_simp
  then obtain rev where "fst ?x = Inr rev" by (auto simp: is_ok_iff)
  moreover have "map cr_Code (routines_of program_db) = [''a := 1'']" by code_simp
  ultimately show ?thesis using unsigned_code_not_scheduled [OF ok prod.collapse [symmetric]] by simp
qed

definition sign_row :: "uuid \<Rightarrow> uuid \<Rightarrow> int \<Rightarrow> int \<Rightarrow> revision_row \<Rightarrow> revision_row" where
  "sign_row signer pid n now r = (if is_revision pid n r then r\<lparr>rv_signed_by := Some signer, rv_signed := Some now\<rparr> else r)"

lemma sign_row_same [simp]: "rv_program (sign_row signer pid n now r) = rv_program r" "rv_revision (sign_row signer pid n now r) = rv_revision r"
  "rv_code (sign_row signer pid n now r) = rv_code r" "rv_checksum (sign_row signer pid n now r) = rv_checksum r"
  by (simp_all add: sign_row_def)

lemma SignCodeRevision_Inr:
  assumes "SignCodeRevision pid n signer s = (Inr c, s')"
  shows "c = int (length (filter (is_revision pid (to_i32 n)) (revisions s)))"
    "s' = s\<lparr>faults := tl (faults s), revisions := map (sign_row signer pid (to_i32 n) (clock s)) (revisions s)\<rparr>"
  using stmt_Inr [OF assms [unfolded SignCodeRevision_def SignProgramCodeRevision_def]]
  by (auto simp: Let_def sign_row_def split: if_splits)

lemma programs_ok_map:
  assumes "programs_ok s" "programs s' = programs s" "revisions s' = map f (revisions s)"
    "\<And>r. rv_program (f r) = rv_program r \<and> rv_revision (f r) = rv_revision r"
  shows "programs_ok s'"
  using assms by (simp add: programs_ok_def comp_def list_all_iff)

lemma SignCodeRevision_ok:
  assumes "programs_ok s" "SignCodeRevision pid n signer s = (Inr c, s')"
  shows "programs_ok s'"
  using assms(1) by (rule programs_ok_map [where f = "sign_row signer pid (to_i32 n) (clock s)"])
    (simp_all add: SignCodeRevision_Inr(2) [OF assms(2)])

lemma routine_row_of:
  assumes "programs_ok s" "p \<in> set (programs s)" "pg_type p \<in> set [''routine'', ''webhook'']" "pg_state p = ''active''"
    and m: "m \<in> set (program_revisions s (pg_uuid p))" "rv_signed m \<noteq> None"
  obtains h where "filter (\<lambda>c. cr_ProgramUuid c = pg_uuid p) (routines_of s) = [code_row (h, p)]"
    "h \<in> set (program_revisions s (pg_uuid p))" "rv_signed h \<noteq> None"
    "\<And>x. x \<in> set (program_revisions s (pg_uuid p)) \<Longrightarrow> rv_signed x \<noteq> None \<Longrightarrow> rv_revision x \<le> rv_revision h"
proof -
  let ?rs = "filter (\<lambda>r. rv_signed r \<noteq> None) (program_revisions s (pg_uuid p))"
  have mem: "set (sort_desc rv_revision ?rs) = set ?rs" by simp
  have "m \<in> set (sort_desc rv_revision ?rs)" unfolding mem using m by simp
  then obtain h ys where h: "sort_desc rv_revision ?rs = h # ys" by (auto simp del: set_sort_desc elim: list.set_cases)
  then have "h \<in> set (sort_desc rv_revision ?rs)" by simp
  then have "h \<in> set ?rs" unfolding mem .
  moreover have "rv_revision x \<le> rv_revision h" if "x \<in> set ?rs" for x using h that by (rule sort_desc_hd)
  ultimately show thesis using routine_rows [OF assms(1-4)] h by (intro that [of h]) auto
qed

lemma same_revision:
  assumes "programs_ok s" "x \<in> set (program_revisions s pid)" "y \<in> set (program_revisions s pid)" "rv_revision x = rv_revision y"
  shows "x = y"
  using distinct_map_unique [OF revisions_distinct [where P = "\<lambda>_. True", OF assms(1)]] assms(2-4) by simp

text \<open>
  C28: Signing schedules: once a revision of an active routine or webhook is signed exactly one
  row of the program is scheduled.  It is that revision, with the code that was written, unless
  a newer revision was signed already, which then stays.
\<close>

theorem signing_schedules:
  assumes ok: "programs_ok s" and sign: "SignCodeRevision (pg_uuid p) n signer s = (Inr c, s')" "c \<noteq> 0"
    and p: "p \<in> set (programs s)" "pg_type p \<in> set [''routine'', ''webhook'']" "pg_state p = ''active''"
  shows "\<exists>row. filter (\<lambda>c. cr_ProgramUuid c = pg_uuid p) (routines_of s') = [row] \<and> to_i32 n \<le> cr_Revision row
    \<and> (if cr_Revision row = to_i32 n then fst (GetProgramCodeAtRevision (pg_uuid p) (to_i32 n) (s\<lparr>faults := []\<rparr>)) = Inr (cr_Code row)
       else row \<in> set (routines_of s))"
proof -
  let ?f = "sign_row signer (pg_uuid p) (to_i32 n) (clock s)"
  let ?hits = "filter (is_revision (pg_uuid p) (to_i32 n)) (revisions s)"
  note s' = SignCodeRevision_Inr(2) [OF sign(1)]
  have "?hits \<noteq> []" using SignCodeRevision_Inr(1) [OF sign(1)] sign(2) by auto
  then obtain r0 hs where hits: "?hits = r0 # hs" by (cases ?hits) auto
  then have "r0 \<in> set ?hits" by simp
  then have r0: "r0 \<in> set (program_revisions s (pg_uuid p))" "rv_revision r0 = to_i32 n" "is_revision (pg_uuid p) (to_i32 n) r0"
    by (auto simp: program_revisions_def is_revision_def)
  have revs: "program_revisions s' (pg_uuid p) = map ?f (program_revisions s (pg_uuid p))"
    by (simp add: s' program_revisions_def filter_map comp_def)
  have "p \<in> set (programs s')" using p(1) by (simp add: s')
  moreover have "?f r0 \<in> set (program_revisions s' (pg_uuid p))" "rv_signed (?f r0) \<noteq> None" using r0 by (auto simp: revs sign_row_def)
  ultimately obtain h where h: "filter (\<lambda>c. cr_ProgramUuid c = pg_uuid p) (routines_of s') = [code_row (h, p)]"
      "h \<in> set (program_revisions s' (pg_uuid p))" "rv_signed h \<noteq> None"
      "\<And>x. x \<in> set (program_revisions s' (pg_uuid p)) \<Longrightarrow> rv_signed x \<noteq> None \<Longrightarrow> rv_revision x \<le> rv_revision h"
    using routine_row_of [OF SignCodeRevision_ok [OF ok sign(1)] _ p(2,3)] by metis
  from h(2) obtain x where x: "x \<in> set (program_revisions s (pg_uuid p))" "h = ?f x" unfolding revs by auto
  have le: "to_i32 n \<le> rv_revision h" using h(4) [of "?f r0"] r0 by (auto simp: revs sign_row_def)
  show ?thesis
  proof (cases "rv_revision h = to_i32 n")
    case True
    with x r0 same_revision [OF ok x(1) r0(1)] have "rv_code h = rv_code r0" by simp
    then have "fst (GetProgramCodeAtRevision (pg_uuid p) (to_i32 n) (s\<lparr>faults := []\<rparr>)) = Inr (rv_code h)"
      using hits by (simp add: GetProgramCodeAtRevision_def sel_one_def stmt_def)
    with h(1) True show ?thesis by (simp add: code_row_def)
  next
    case False
    with x have hx: "h = x" by (auto simp: sign_row_def is_revision_def)
    have hs: "h \<in> set (program_revisions s (pg_uuid p))" using x(1) hx by simp
    obtain g where g: "filter (\<lambda>c. cr_ProgramUuid c = pg_uuid p) (routines_of s) = [code_row (g, p)]"
      "g \<in> set (program_revisions s (pg_uuid p))" "rv_signed g \<noteq> None"
      "\<And>x. x \<in> set (program_revisions s (pg_uuid p)) \<Longrightarrow> rv_signed x \<noteq> None \<Longrightarrow> rv_revision x \<le> rv_revision g"
      by (rule routine_row_of [OF ok p hs h(3)]) (rule that)
    have "?f g \<in> set (program_revisions s' (pg_uuid p))" "rv_signed (?f g) \<noteq> None" using g(2,3) by (auto simp: revs sign_row_def)
    with h(4) have "rv_revision g \<le> rv_revision h" by fastforce
    with g(4) [OF hs h(3)] have "g = h" by (intro same_revision [OF ok g(2) hs]) simp
    then have "code_row (h, p) \<in> set (filter (\<lambda>c. cr_ProgramUuid c = pg_uuid p) (routines_of s))" using g(1) by simp
    then have "code_row (h, p) \<in> set (routines_of s)" by simp
    with h(1) le False show ?thesis by (simp add: code_row_def)
  qed
qed

theorem signing_schedules_witness:
  "map cr_Code (routines_of (snd (SignCodeRevision ''p1'' 2 ''u1'' program_db))) = [''a := 2'']"
proof -
  let ?p = "hd (programs program_db)" and ?x = "SignCodeRevision ''p1'' 2 ''u1'' program_db"
  have ok: "programs_ok program_db" by code_simp
  have "fst ?x = Inr 1" by code_simp
  then have x: "SignCodeRevision (pg_uuid ?p) 2 ''u1'' program_db = (Inr 1, snd ?x)"
    by (simp add: prod_eq_iff) (simp add: program_db_def)
  have p: "?p \<in> set (programs program_db)" "pg_type ?p \<in> set [''routine'', ''webhook'']" "pg_state ?p = ''active''"
    by (simp_all add: program_db_def)
  have rows: "map (\<lambda>c. (cr_ProgramUuid c, cr_Revision c, cr_Code c)) (routines_of (snd ?x)) = [(''p1'', 2, ''a := 2'')]" by code_simp
  from signing_schedules [OF ok x _ p] obtain row where
    "filter (\<lambda>c. cr_ProgramUuid c = pg_uuid ?p) (routines_of (snd ?x)) = [row]" "to_i32 2 \<le> cr_Revision row" by auto
  with rows show ?thesis by auto
qed

section \<open>Every operation keeps the tables in order\<close>

lemma programs_ok_fault_free [simp, intro]: "fault_free programs_ok"
  by (simp add: fault_free_def programs_ok_def)

lemma programs_ok_append_revision:
  assumes "programs_ok s" "rv_program r \<in> set (map pg_uuid (programs s))" "rv_revision r = next_revision s (rv_program r)"
    "in_i32 (rv_revision r)"
  shows "programs_ok (s\<lparr>revisions := revisions s @ [r]\<rparr>)"
proof -
  have "(rv_program r, rv_revision r) \<notin> set (map (\<lambda>r. (rv_program r, rv_revision r)) (revisions s))"
    using next_revision_fresh [of _ s "rv_program r"] assms(3) by fastforce
  moreover have "0 \<le> rv_revision r" using next_revision_nonneg [OF assms(1)] assms(3) by simp
  ultimately show ?thesis using assms by (auto simp: programs_ok_def)
qed

lemma CreateProgram_keeps [keeps]: "preserves programs_ok (CreateProgram newid pids p)"
  unfolding CreateProgram_def
proof (rule preserves_stmt [OF programs_ok_fault_free])
  fix s :: "'a db" and r s'
  assume "(if cp_Tags p = None then (Inl not_null_violation, s)
     else if newid \<in> set (map pg_uuid (programs s)) then (Inl unique_violation, s)
     else (case grant_owner ''programs'' newid (Some (cp_CreatedBy p)) pids (s\<lparr>programs := programs s @ [new_program newid p]\<rparr>) of
         (Inl e, _) \<Rightarrow> (Inl e, s)
       | (Inr _, s') \<Rightarrow> (Inr (new_program newid p), s'))) = (r, s')" "programs_ok s"
  then consider "s' = s" | u where "newid \<notin> set (map pg_uuid (programs s))"
      "grant_owner ''programs'' newid (Some (cp_CreatedBy p)) pids (s\<lparr>programs := programs s @ [new_program newid p]\<rparr>) = (Inr u, s')"
    by (auto split: if_splits prod.splits sum.splits)
  then show "programs_ok s'"
  proof cases
    case 2
    show ?thesis using 2(2)
      by (rule grant_owner_Inr) (use \<open>programs_ok s\<close> 2(1) in \<open>auto simp: programs_ok_def new_program_def list_all_iff\<close>)
  qed (use \<open>programs_ok s\<close> in simp)
qed

lemma CreateCodeRevision_keeps [keeps]: "preserves programs_ok (CreateCodeRevision sha pid creator code)"
  unfolding CreateCodeRevision_def
  by (rule preserves_stmt [OF programs_ok_fault_free])
    (auto split: if_splits simp: new_revision_def intro!: programs_ok_append_revision)

lemma DeleteProgram_keeps [keeps]: "preserves programs_ok (DeleteProgram_query pid)"
  unfolding DeleteProgram_query_def
  by (rule preserves_stmt [OF programs_ok_fault_free]) (auto simp: programs_ok_def distinct_map_filter_key list_all_iff)

lemma DeleteProgramCodeRevision_keeps [keeps]: "preserves programs_ok (DeleteProgramCodeRevision_query pid n)"
  unfolding DeleteProgramCodeRevision_query_def
  by (rule preserves_stmt [OF programs_ok_fault_free]) (auto simp: programs_ok_def distinct_map_filter_key list_all_iff)

lemma SignProgramCodeRevision_keeps [keeps]: "preserves programs_ok (SignProgramCodeRevision signer pid n)"
  unfolding SignProgramCodeRevision_def Let_def
proof (rule preserves_stmt [OF programs_ok_fault_free])
  fix s :: "'a db" and r s'
  assume "(if filter (is_revision pid n) (revisions s) \<noteq> [] \<and> \<not> creator_ok s signer then (Inl fk_violation, s)
     else (Inr (int (length (filter (is_revision pid n) (revisions s)))), s\<lparr>revisions := map (\<lambda>r. if is_revision pid n r
       then r\<lparr>rv_signed_by := signer, rv_signed := Some (clock s)\<rparr> else r) (revisions s)\<rparr>)) = (r, s')" and ok: "programs_ok s"
  then have "s' = s \<or> s' = s\<lparr>revisions := map (\<lambda>r. if is_revision pid n r
       then r\<lparr>rv_signed_by := signer, rv_signed := Some (clock s)\<rparr> else r) (revisions s)\<rparr>" by (auto split: if_splits)
  then show "programs_ok s'"
  proof
    assume "s' = s\<lparr>revisions := map (\<lambda>r. if is_revision pid n r
       then r\<lparr>rv_signed_by := signer, rv_signed := Some (clock s)\<rparr> else r) (revisions s)\<rparr>"
    then show ?thesis by (intro programs_ok_map [OF ok, where f = "\<lambda>r. if is_revision pid n r
       then r\<lparr>rv_signed_by := signer, rv_signed := Some (clock s)\<rparr> else r"]) auto
  qed (use ok in simp)
qed

lemma UpdateProgramByUUID_keeps [keeps]: "preserves programs_ok (UpdateProgramByUUID a)"
  unfolding UpdateProgramByUUID_def
proof (rule preserves_stmt [OF programs_ok_fault_free])
  fix s :: "'a db" and r s'
  let ?f = "\<lambda>p. if pg_uuid p = upr_Uuid a then updated_program a p else p"
  assume "(Inr (int (length (filter (\<lambda>p. pg_uuid p = upr_Uuid a) (programs s)))), s\<lparr>programs := map ?f (programs s)\<rparr>) = (r, s')" "programs_ok s"
  then have s': "s' = s\<lparr>programs := map ?f (programs s)\<rparr>" and ok: "programs_ok s" by auto
  have "pg_uuid (?f p) = pg_uuid p" for p by (simp add: updated_program_def)
  then have keys: "map pg_uuid (map ?f (programs s)) = map pg_uuid (programs s)" by simp
  have "map pg_uuid (programs s') = map pg_uuid (programs s)" unfolding keys [symmetric] by (simp add: s')
  moreover have "revisions s' = revisions s" by (simp add: s')
  ultimately show "programs_ok s'" using ok unfolding programs_ok_def by simp
qed

text \<open>The operations of the service, each with the answer it may give.\<close>

inductive program_step :: "'v db \<Rightarrow> 'v db \<Rightarrow> bool" where
  add: "AddProgram newid pids p s = (r, s') \<Longrightarrow> program_step s s'"
| put: "AddCodeRevision sha pid creator code s = (r, s') \<Longrightarrow> program_step s s'"
| sign: "SignCodeRevision pid n signer s = (r, s') \<Longrightarrow> program_step s s'"
| update: "UpdateProgramByUuid pid a s = (r, s') \<Longrightarrow> program_step s s'"
| remove: "DeleteProgram pid s = (r, s') \<Longrightarrow> program_step s s'"
| unput: "DeleteProgramCodeRevision pid n s = (r, s') \<Longrightarrow> program_step s s'"

lemma program_step_keeps:
  assumes "program_step s s'" "programs_ok s"
  shows "programs_ok s'"
proof -
  have ops: "preserves programs_ok (AddProgram newid pids p)" "preserves programs_ok (AddCodeRevision sha pid creator code)"
    "preserves programs_ok (SignCodeRevision pid n signer)" "preserves programs_ok (UpdateProgramByUuid pid a)"
    "preserves programs_ok (DeleteProgram pid)" "preserves programs_ok (DeleteProgramCodeRevision pid n)"
    for newid pids p sha pid creator code n signer a
    unfolding AddProgram_def AddCodeRevision_def SignCodeRevision_def UpdateProgramByUuid_def DeleteProgram_def DeleteProgramCodeRevision_def
    by (auto intro!: keeps preserves_andthen intro: reads_preserves [OF programs_ok_fault_free] simp: FindProgramByUUID_def)
  from assms(1) show ?thesis
    by cases (erule ops [THEN preservesD, OF _ assms(2)])+
qed


text \<open>
  C39: The tables of programs stay well-formed.  Whatever operations of the service run, and whether or not they
  fail: programs have names of their own, every revision belongs to a program and has a number
  of its own in it, which is not negative and fits into 32 bits.
\<close>

theorem program_tables_wellformed:
  assumes "program_step\<^sup>*\<^sup>* s s'" "programs_ok s"
  shows "distinct (map pg_uuid (programs s')) \<and> distinct (map (\<lambda>r. (rv_program r, rv_revision r)) (revisions s'))
    \<and> list_all (\<lambda>r. rv_program r \<in> set (map pg_uuid (programs s')) \<and> 0 \<le> rv_revision r \<and> rv_revision r < 2 ^ 31) (revisions s')"
proof -
  have "programs_ok s'" using assms by (induction rule: rtranclp_induct) (auto intro: program_step_keeps)
  then show ?thesis by (auto simp: programs_ok_def in_i32_def list_all_iff)
qed

theorem program_tables_wellformed_witness:
  "let s = snd (AddCodeRevision id ''p1'' ''u1'' ''a := 3'' program_db) in
     length (revisions s) = 4 \<and> distinct (map (\<lambda>r. (rv_program r, rv_revision r)) (revisions s))"
proof -
  let ?s = "snd (AddCodeRevision id ''p1'' ''u1'' ''a := 3'' program_db)"
  have "AddCodeRevision id ''p1'' ''u1'' ''a := 3'' program_db = (fst (AddCodeRevision id ''p1'' ''u1'' ''a := 3'' program_db), ?s)" by simp
  then have "program_step program_db ?s" by (rule program_step.put)
  then have "program_step\<^sup>*\<^sup>* program_db ?s" by simp
  moreover have "programs_ok program_db" by code_simp
  moreover have "length (revisions ?s) = 4" by code_simp
  ultimately show ?thesis using program_tables_wellformed by (auto simp: Let_def)
qed

end
