(* ===== verification/Handlers.thy ===== *)
theory Handlers
  imports Middleware Programs
begin

text \<open>
  The handlers of \<^verbatim>\<open>api/aapije\<close> for users, groups, policies and things (\<^verbatim>\<open>user.go\<close>, \<^verbatim>\<open>group.go\<close>,
  \<^verbatim>\<open>policy.go\<close>, \<^verbatim>\<open>thing.go\<close>), made of the steps of theory Rest around the services.  \<open>parse\<close> is
  \<^verbatim>\<open>uuid.Parse\<close> of \<^verbatim>\<open>google/uuid\<close>; keys that the database draws are arguments.
\<close>

section \<open>Users\<close>

definition AddUser_handler :: "uuid \<Rightarrow> uuid \<Rightarrow> uuid list \<Rightarrow> request_context \<Rightarrow> string option \<Rightarrow> ('v, rest_User) handler" where
  "AddUser_handler gid uid pids cx body =
     decodeJSONBody body (\<lambda>name. GetDB cx (call (AddUser gid uid pids name) (\<lambda>user. answer (JSON 201 user))))"

definition AddNewTokenToUser_handler ::
  "(string \<Rightarrow> string) \<Rightarrow> uuid \<Rightarrow> string \<Rightarrow> request_context \<Rightarrow> uuid \<Rightarrow> string option \<Rightarrow> ('v, TokenWithSecret) handler" where
  "AddNewTokenToUser_handler sha newid random cx uid body =
     decodeJSONBody body (\<lambda>name. GetDB cx (call (AddTokenToUser sha newid random uid name) (\<lambda>token. answer (JSON 201 token))))"

definition Whoami_handler :: "(string \<Rightarrow> string) \<Rightarrow> request_context \<Rightarrow> ('v, rest_User) handler" where
  "Whoami_handler sha cx = GetDB cx (GetDomainToken cx (\<lambda>dt.
     call (FindUserByToken sha (dt_Token dt)) (\<lambda>user. answer (JSON 200 user))))"

definition FindUsers_handler :: "(string \<Rightarrow> string) \<Rightarrow> request_context \<Rightarrow> int option \<Rightarrow> int option \<Rightarrow> ('v, rest_User list) handler" where
  "FindUsers_handler sha cx limit offset = GetDB cx (GetDomainToken cx (\<lambda>dt.
     call (User_FindAll sha (dt_Token dt) limit offset) (\<lambda>us. answer (JSON 200 us))))"

definition FindUserByUuid_handler :: "request_context \<Rightarrow> uuid \<Rightarrow> ('v, rest_User) handler" where
  "FindUserByUuid_handler cx uid = GetDB cx (call (FindUserByUuid uid) (\<lambda>user. answer (JSON 200 user)))"

definition FindTokensForUser_handler :: "request_context \<Rightarrow> uuid \<Rightarrow> ('v, token_row list) handler" where
  "FindTokensForUser_handler cx uid = GetDB cx (call (FindTokensForUser uid) (\<lambda>ts. answer (JSON 200 ts)))"

definition FindPoliciesForUser_handler :: "request_context \<Rightarrow> uuid \<Rightarrow> ('v, policy_row list) handler" where
  "FindPoliciesForUser_handler cx uid = GetDB cx (call (Policy_FindByUser uid) (\<lambda>ps. answer (JSON 200 ps)))"

record rest_UpdateUser =
  uu_Groups :: "string list option"
  uu_GroupsAdd :: "string list option"
  uu_GroupsRemove :: "string list option"
  uu_Name :: "string option"

text \<open>What the body asks for; \<^const>\<open>None\<close> where the handler answers that the request is malformed.\<close>

definition update_user_params :: "(string \<Rightarrow> uuid option) \<Rightarrow> rest_UpdateUser \<Rightarrow> UpdateUserParams option" where
  "update_user_params parse u =
     (if uu_Groups u \<noteq> None \<and> (uu_GroupsAdd u \<noteq> None \<or> uu_GroupsRemove u \<noteq> None) then None
      else (case uu_Groups u of
          Some items \<Rightarrow> (case those (map parse items) of None \<Rightarrow> None
            | Some ids \<Rightarrow> Some \<lparr>uup_Name = uu_Name u, uup_Groups = Some ids, uup_GroupsAdd = [], uup_GroupsRemove = []\<rparr>)
        | None \<Rightarrow> (case (those (map parse (or_default [] (uu_GroupsAdd u))), those (map parse (or_default [] (uu_GroupsRemove u)))) of
              (Some adds, Some removes) \<Rightarrow>
                Some \<lparr>uup_Name = uu_Name u, uup_Groups = None, uup_GroupsAdd = adds, uup_GroupsRemove = removes\<rparr>
            | _ \<Rightarrow> None)))"

definition UpdateUserByUuid_handler ::
  "(string \<Rightarrow> uuid option) \<Rightarrow> request_context \<Rightarrow> uuid \<Rightarrow> rest_UpdateUser option \<Rightarrow> ('v, unit) handler" where
  "UpdateUserByUuid_handler parse cx uid body = GetDB cx (decodeJSONBody body (\<lambda>u.
     (case update_user_params parse u of
        None \<Rightarrow> answer (Problem ErrorMalformedRequest)
      | Some p \<Rightarrow> call (UpdateUser uid p) (\<lambda>_. answer (Empty 204)))))"

definition SetRequestRateForUser_handler :: "('v, unit) handler" where
  "SetRequestRateForUser_handler = answer (Empty 501)"

definition DeleteUserByUuid_handler :: "'v fops \<Rightarrow> request_context \<Rightarrow> uuid \<Rightarrow> ('v, unit) handler" where
  "DeleteUserByUuid_handler F cx uid = GetDB cx (call (DeleteUser F uid) (\<lambda>_. answer (Empty 204)))"

definition DeleteTokenForUser_handler :: "request_context \<Rightarrow> uuid \<Rightarrow> uuid \<Rightarrow> ('v, unit) handler" where
  "DeleteTokenForUser_handler cx uid tid = GetDB cx (call (DeleteTokenFromUser uid tid) (\<lambda>_. answer (Empty 204)))"

section \<open>Groups\<close>

definition AddGroup_handler :: "uuid \<Rightarrow> request_context \<Rightarrow> string option \<Rightarrow> ('v, group_row) handler" where
  "AddGroup_handler newid cx body =
     decodeJSONBody body (\<lambda>name. GetDB cx (call (AddGroup newid name) (\<lambda>grp. answer (JSON 201 grp))))"

definition FindGroups_handler :: "(string \<Rightarrow> string) \<Rightarrow> request_context \<Rightarrow> int option \<Rightarrow> int option \<Rightarrow> ('v, group_row list) handler" where
  "FindGroups_handler sha cx limit offset = GetDB cx (GetDomainToken cx (\<lambda>dt.
     call (Group_FindAll sha (dt_Token dt) limit offset) (\<lambda>gs. answer (JSON 200 gs))))"

definition FindGroupByUuid_handler :: "request_context \<Rightarrow> uuid \<Rightarrow> ('v, group_row) handler" where
  "FindGroupByUuid_handler cx gid = GetDB cx (call (Group_FindGroupByUuid gid) (\<lambda>grp. answer (JSON 200 grp)))"

definition FindPoliciesForGroup_handler :: "request_context \<Rightarrow> uuid \<Rightarrow> ('v, policy_row list) handler" where
  "FindPoliciesForGroup_handler cx gid = GetDB cx (call (Policy_FindByGroup gid) (\<lambda>ps. answer (JSON 200 ps)))"

definition UpdateGroupByUuid_handler :: "request_context \<Rightarrow> uuid \<Rightarrow> string option \<Rightarrow> ('v, unit) handler" where
  "UpdateGroupByUuid_handler cx gid body =
     decodeJSONBody body (\<lambda>name. GetDB cx (call (UpdateGroupNameByUuid gid name) none_is_404))"

definition DeleteGroupByUuid_handler :: "request_context \<Rightarrow> uuid \<Rightarrow> ('v, unit) handler" where
  "DeleteGroupByUuid_handler cx gid = GetDB cx (call (DeleteGroup gid) none_is_404)"

section \<open>Policies\<close>

definition authorizePolicyGrant ::
  "(string \<Rightarrow> string) \<Rightarrow> policy_ctx \<Rightarrow> string \<Rightarrow> string \<Rightarrow> string \<Rightarrow> 'v db \<Rightarrow> go_error option \<times> policy_ctx \<times> 'v db" where
  "authorizePolicyGrant sha ctx token action resource s =
     (case UserHasAccessViaToken sha ctx token action resource s of
        (Inl e, ctx', s') \<Rightarrow> (Some e, ctx', s')
      | (Inr canGrant, ctx', s') \<Rightarrow> (if canGrant then None else Some ErrorForbidden, ctx', s'))"

text \<open>\<^verbatim>\<open>if err := authorizePolicyGrant(...); err != nil { ie.SendHTTPError(w, ie.ParseDBError(err)); return }\<close>\<close>

definition authorized :: "(string \<Rightarrow> string) \<Rightarrow> policy_ctx \<Rightarrow> string \<Rightarrow> string \<Rightarrow> string \<Rightarrow> (policy_ctx \<Rightarrow> ('v, 'p) handler)
    \<Rightarrow> ('v, 'p) handler" where
  "authorized sha ctx token action resource k s = (case authorizePolicyGrant sha ctx token action resource s of
       (Some e, ctx', s') \<Rightarrow> (Problem (ParseDBError e), s') | (None, ctx', s') \<Rightarrow> k ctx' s')"

record rest_NewPolicy =
  rn_Action :: string
  rn_Effect :: string
  rn_GroupUuid :: string
  rn_Priority :: int
  rn_Resource :: string

definition AddPolicy_handler :: "(string \<Rightarrow> string) \<Rightarrow> (string \<Rightarrow> uuid option) \<Rightarrow> uuid \<Rightarrow> request_context
    \<Rightarrow> rest_NewPolicy option \<Rightarrow> ('v, policy_row) handler" where
  "AddPolicy_handler sha parse newid cx body = decodeJSONBody body (\<lambda>n.
     (case parse (rn_GroupUuid n) of
        None \<Rightarrow> answer (Problem ErrorMalformedRequest)
      | Some gid \<Rightarrow> GetDB cx (GetDomainToken cx (\<lambda>dt.
          authorized sha (cx_cache cx) (dt_Token dt) (rn_Action n) (rn_Resource n) (\<lambda>_.
          call (Policy_Add newid \<lparr>np_GroupUuid = gid, np_Priority = to_i32 (rn_Priority n), np_Effect = rn_Effect n,
              np_Action = rn_Action n, np_Resource = rn_Resource n\<rparr>)
            (\<lambda>policy. answer (JSON 201 policy)))))))"

definition FindPolicies_handler :: "(string \<Rightarrow> string) \<Rightarrow> request_context \<Rightarrow> int option \<Rightarrow> int option \<Rightarrow> uuid list option
    \<Rightarrow> ('v, policy_row list) handler" where
  "FindPolicies_handler sha cx limit offset groupUuids = GetDB cx (GetDomainToken cx (\<lambda>dt.
     call (Policy_FindAll sha (dt_Token dt) limit offset groupUuids) (\<lambda>ps. answer (JSON 200 ps))))"

definition FindPolicyByUuid_handler :: "request_context \<Rightarrow> uuid \<Rightarrow> ('v, policy_row) handler" where
  "FindPolicyByUuid_handler cx pid = GetDB cx (call (Policy_FindByUuid pid) (\<lambda>policy. answer (JSON 200 policy)))"

definition ExplainPolicyDecision_handler ::
  "(string \<Rightarrow> string) \<Rightarrow> request_context \<Rightarrow> string \<Rightarrow> string \<Rightarrow> ('v, AccessDecision) handler" where
  "ExplainPolicyDecision_handler sha cx action resource = GetDB cx (GetDomainToken cx (\<lambda>dt s.
     (case ExplainUserAccessViaToken sha (cx_cache cx) (dt_Token dt) action resource s of
        (Inl e, _, s') \<Rightarrow> (Problem (ParseDBError e), s')
      | (Inr decision, _, s') \<Rightarrow> (JSON 200 decision, s'))))"

record rest_UpdatePolicy =
  ru_Action :: "string option"
  ru_Effect :: "string option"
  ru_GroupUuid :: "string option"
  ru_Priority :: "int option"
  ru_Resource :: "string option"

definition UpdatePolicyByUuid_handler :: "(string \<Rightarrow> string) \<Rightarrow> (string \<Rightarrow> uuid option) \<Rightarrow> request_context
    \<Rightarrow> uuid \<Rightarrow> rest_UpdatePolicy option \<Rightarrow> ('v, unit) handler" where
  "UpdatePolicyByUuid_handler sha parse cx pid body = decodeJSONBody body (\<lambda>u. GetDB cx (GetDomainToken cx (\<lambda>dt.
     call (Policy_FindByUuid pid) (\<lambda>current.
     authorized sha (cx_cache cx) (dt_Token dt) (action_str (gp_action current)) (gp_resource current) (\<lambda>ctx'.
     authorized sha ctx' (dt_Token dt) (or_default (action_str (gp_action current)) (ru_Action u))
       (or_default (gp_resource current) (ru_Resource u)) (\<lambda>_.
     let update = (\<lambda>gid. call (Policy_Update pid \<lparr>upp_GroupUuid = gid, upp_Priority = ru_Priority u, upp_Effect = ru_Effect u,
           upp_Action = ru_Action u, upp_Resource = ru_Resource u\<rparr>) (\<lambda>_. answer (Empty 204)))
     in (case ru_GroupUuid u of
           None \<Rightarrow> update None
         | Some g \<Rightarrow> (case parse g of None \<Rightarrow> answer (Problem ErrorMalformedRequest) | Some gid \<Rightarrow> update (Some gid)))))))))"

definition DeletePolicyByUuid_handler :: "(string \<Rightarrow> string) \<Rightarrow> request_context \<Rightarrow> uuid \<Rightarrow> ('v, unit) handler" where
  "DeletePolicyByUuid_handler sha cx pid = GetDB cx (GetDomainToken cx (\<lambda>dt.
     call (Policy_FindByUuid pid) (\<lambda>current.
     authorized sha (cx_cache cx) (dt_Token dt) (action_str (gp_action current)) (gp_resource current) (\<lambda>_.
     call (Policy_Delete pid) (\<lambda>_. answer (Empty 204))))))"

section \<open>Things\<close>

record rest_NewThing =
  nh_Name :: string
  nh_Type :: "string option"
  nh_Tags :: "string list option"

definition AddThing_handler :: "uuid \<Rightarrow> uuid list \<Rightarrow> request_context \<Rightarrow> rest_NewThing option \<Rightarrow> ('v, rest_Thing) handler" where
  "AddThing_handler newid pids cx body = decodeJSONBody body (\<lambda>n. GetDB cx (GetUserUUID cx (\<lambda>author.
     call (AddThing newid pids (nh_Name n) (nh_Type n) (Some author) (or_default [] (nh_Tags n)))
       (\<lambda>thing. answer (JSON 201 thing)))))"

definition FindThings_handler ::
  "(string \<Rightarrow> string) \<Rightarrow> request_context \<Rightarrow> string list option \<Rightarrow> int option \<Rightarrow> int option \<Rightarrow> ('v, rest_Thing list) handler" where
  "FindThings_handler sha cx tags limit offset = GetDB cx (GetDomainToken cx (\<lambda>dt.
     (case tags of
        Some ts \<Rightarrow> call (Thing_FindByTags sha (dt_Token dt) ts (Some (page_limit limit)) offset) (\<lambda>xs. answer (JSON 200 xs))
      | None \<Rightarrow> call (Thing_FindAll sha (dt_Token dt) (Some (page_limit limit)) offset) (\<lambda>xs. answer (JSON 200 xs)))))"

definition FindThingByUuid_handler :: "request_context \<Rightarrow> uuid \<Rightarrow> ('v, rest_Thing) handler" where
  "FindThingByUuid_handler cx tid = GetDB cx (call (FindThingByUuid tid) (\<lambda>thing. answer (JSON 200 thing)))"

record rest_UpdateThing =
  uh_Name :: "string option"
  uh_Type :: "string option"
  uh_State :: "string option"
  uh_Tags :: "string list option"

definition UpdateThingByUuid_handler :: "request_context \<Rightarrow> uuid \<Rightarrow> rest_UpdateThing option \<Rightarrow> ('v, unit) handler" where
  "UpdateThingByUuid_handler cx tid body = GetDB cx (decodeJSONBody body (\<lambda>u.
     call (UpdateByUuid \<lparr>utp_Uuid = tid, utp_Name = uh_Name u, utp_Type = uh_Type u, utp_State = uh_State u, utp_Tags = uh_Tags u\<rparr>)
       none_is_404))"

definition DeleteThingByUuid_handler :: "request_context \<Rightarrow> uuid \<Rightarrow> ('v, unit) handler" where
  "DeleteThingByUuid_handler cx tid = GetDB cx (call (DeleteThing tid) none_is_404)"

section \<open>Who may change the rules\<close>

lemma UserHasAccess_single: "UserHasAccessViaToken sha ctx token action r s = UserHasManyAccessViaToken sha ctx token action [r] s"
  unfolding UserHasAccessViaToken_def ExplainUserAccessViaToken_def UserHasManyAccessViaToken_def ExplainUserAccessManyViaToken_def Let_def
  by (auto split: sum.splits prod.splits)

lemma authorized_cases:
  assumes "ctx_ok sha s ctx" "CHR 0x00 \<notin> set token" "authorized sha ctx token action resource k s = (ans, s')"
  obtains (refused) "tables s' = tables s"
  | (granted) ctx' s1 where "k ctx' s1 = (ans, s')" "tables s1 = tables s"
      "CHR 0x00 \<notin> set action \<Longrightarrow> ctx_ok sha s1 ctx' \<and> (\<exists>act uid. parse_action action = Some act
         \<and> token_user sha s token = Some uid \<and> permitted s uid act resource)"
proof -
  obtain r ctx' s1 where u: "UserHasManyAccessViaToken sha ctx token action [resource] s = (r, ctx', s1)" by (metis prod.collapse)
  note t = UserHasMany_tables [OF u]
  consider e where "r = Inl e" | "r = Inr False" | "r = Inr True" by (cases r) auto
  then show thesis
  proof cases
    case 3
    have k: "k ctx' s1 = (ans, s')" using assms(3) u 3 by (simp add: authorized_def authorizePolicyGrant_def UserHasAccess_single)
    show thesis
    proof (rule granted [OF k t])
      assume nul: "CHR 0x00 \<notin> set action"
      obtain act uid where "parse_action action = Some act" "token_user sha s token = Some uid" "permitted s uid act resource" "ctx_ok sha s ctx'"
        by (rule UserHasMany_yes [OF assms(1,2) nul u [unfolded 3]]) simp
      then show "ctx_ok sha s1 ctx' \<and> (\<exists>act uid. parse_action action = Some act
         \<and> token_user sha s token = Some uid \<and> permitted s uid act resource)" using ctx_ok_tables [OF t] by auto
    qed
  qed (use assms(3) u t refused in \<open>auto simp: authorized_def authorizePolicyGrant_def UserHasAccess_single\<close>)
qed

lemma Policy_Update_Inr:
  fixes s :: "'v db"
  assumes "Policy_Update pid P s = (Inr n, s')"
  shows "tables s' = tables (upd_all pid (revise P) s)" "upp_Action P = Some a \<Longrightarrow> parse_action a \<noteq> None"
proof -
  obtain s1 s2 where t: "tables s1 = tables s" "Policy_Update_body pid P s1 = (Inr n, s2)" "tables s' = tables s2"
    using assms by (auto simp: Policy_Update_def elim: with_tx_Inr)
  show "tables s' = tables (upd_all pid (revise P) s)"
    using Policy_Update_body_Inr(1) [OF t(2)] t(3) tables_upd_all [OF t(1)] by simp
  assume a: "upp_Action P = Some a"
  have "\<exists>(s :: 'v db) n s'. SetPolicyAction pid a s = (Inr n, s')"
    using t(2) a unfolding Policy_Update_body_def by (auto elim!: andthen_cases simp: opt_step_def)
  then show "parse_action a \<noteq> None" by (auto simp: SetPolicyAction_def dest!: stmt_Inr split: option.splits)
qed

lemma Policy_Delete_Inr:
  assumes "Policy_Delete pid s = (r, s')"
  shows "tables s' = tables s \<or> tables s' = tables (s\<lparr>group_policies := filter (\<lambda>p. gp_uuid p \<noteq> pid) (group_policies s)\<rparr>)"
  by (rule stmt_cases [of "\<lambda>s. (Inr (int (length (filter (\<lambda>p. gp_uuid p = pid) (group_policies s)))),
      s\<lparr>group_policies := filter (\<lambda>p. gp_uuid p \<noteq> pid) (group_policies s)\<rparr>)" s])
    (use assms in \<open>auto simp: Policy_Delete_def DeletePolicyByUUID_def andthen_def ret_def fail_def tables_def split: if_splits\<close>)

lemma FindPolicy_Inr:
  assumes "Policy_FindByUuid pid s = (Inr p, s')"
  shows "p \<in> set (group_policies s)" "gp_uuid p = pid" "tables s' = tables s"
  using stmt_Inr [OF assms [unfolded Policy_FindByUuid_def FindPolicyByUUID_def sel_one_def]]
  by (auto split: list.splits dest: filter_eq_ConsD)

text \<open>\<open>touched s s'\<close>: the policies of one state and not of the other.  \<open>holder\<close>: the user of the token holds each right they speak of.\<close>

definition touched :: "'v db \<Rightarrow> 'v db \<Rightarrow> policy_row set" where
  "touched s s' = {p. (p \<in> set (group_policies s)) \<noteq> (p \<in> set (group_policies s'))}"

definition holder :: "(string \<Rightarrow> string) \<Rightarrow> 'v db \<Rightarrow> string \<Rightarrow> policy_row set \<Rightarrow> bool" where
  "holder sha s token ps \<longleftrightarrow> (\<exists>uid. token_user sha s token = Some uid \<and> (\<forall>p\<in>ps. permitted s uid (gp_action p) (gp_resource p)))"

lemma call_answer: "call m (\<lambda>a. answer (f a)) s = (ans, s') \<Longrightarrow> \<exists>r. m s = (r, s')"
  by (auto simp: call_def answer_def split: prod.splits sum.splits)

lemma tables_policies: "tables s = tables (t\<lparr>group_policies := ps\<rparr>) \<Longrightarrow> group_policies s = ps"
  by (drule tables_fields(4)) simp

lemma tables_swap: "tables s = tables t \<Longrightarrow> tables (s\<lparr>group_policies := ps\<rparr>) = tables (t\<lparr>group_policies := ps\<rparr>)"
  by (cases s; cases t) (simp add: tables_def)

lemma AddPolicy_holder:
  assumes "AddPolicy_handler sha parse newid cx body s = (ans, s')" "tables s' \<noteq> tables s" "ctx_ok sha s (cx_cache cx)"
    "\<And>dt. cx_domaintoken cx = Some dt \<Longrightarrow> CHR 0x00 \<notin> set (dt_Token dt)"
  obtains dt ps where "cx_domaintoken cx = Some dt" "holder sha s (dt_Token dt) (touched s s')" "tables s' = tables (s\<lparr>group_policies := ps\<rparr>)"
proof -
  obtain n :: rest_NewPolicy and gid dt where dt: "cx_domaintoken cx = Some dt"
    and a: "authorized sha (cx_cache cx) (dt_Token dt) (rn_Action n) (rn_Resource n) (\<lambda>_.
          call (Policy_Add newid \<lparr>np_GroupUuid = gid, np_Priority = to_i32 (rn_Priority n), np_Effect = rn_Effect n,
              np_Action = rn_Action n, np_Resource = rn_Resource n\<rparr>) (\<lambda>policy. answer (JSON 201 policy))) s = (ans, s')"
    using assms(1,2) by (auto simp: AddPolicy_handler_def decodeJSONBody_def GetDB_def GetDomainToken_def answer_def
        split: option.splits if_splits)
  from assms(3) assms(4) [OF dt] a show thesis
  proof (cases rule: authorized_cases)
    case refused
    with assms(2) show thesis by simp
  next
    case (granted ctx' s1)
    then obtain r where "Policy_Add newid \<lparr>np_GroupUuid = gid, np_Priority = to_i32 (rn_Priority n), np_Effect = rn_Effect n,
              np_Action = rn_Action n, np_Resource = rn_Resource n\<rparr> s1 = (r, s')" using call_answer by blast
    note add = policy_add_find [OF this]
    then obtain q where q: "r = Inr q" using assms(2) granted(2) by (cases r) auto
    with add have t: "tables s' = tables (s1\<lparr>group_policies := group_policies s1 @ [q]\<rparr>)" and n: "rn_Action n = action_str (gp_action q)"
      "rn_Resource n = gp_resource q" by auto
    have "CHR 0x00 \<notin> set (rn_Action n)" unfolding n by (rule action_no_NUL) simp
    from granted(3) [OF this] obtain uid where u: "token_user sha s (dt_Token dt) = Some uid" "permitted s uid (gp_action q) (gp_resource q)"
      unfolding n by auto
    have t': "tables s' = tables (s\<lparr>group_policies := group_policies s @ [q]\<rparr>)"
      using t tables_swap [OF granted(2)] tables_fields(4) [OF granted(2)] by simp
    have "touched s s' \<subseteq> {q}" using tables_policies [OF t'] by (auto simp: touched_def)
    with u have "holder sha s (dt_Token dt) (touched s s')" by (auto simp: holder_def)
    with dt show thesis using t' by (rule that)
  qed
qed

text \<open>The two handlers on an existing policy begin alike.\<close>

lemma found_and_authorized:
  assumes "call (Policy_FindByUuid pid) (\<lambda>current. authorized sha ctx token (action_str (gp_action current)) (gp_resource current) (k current)) s
      = (ans, s')" "tables s' \<noteq> tables s" "ctx_ok sha s ctx" "CHR 0x00 \<notin> set token"
  obtains current uid ctx' s1 where "current \<in> set (group_policies s)" "gp_uuid current = pid" "token_user sha s token = Some uid"
    "permitted s uid (gp_action current) (gp_resource current)" "k current ctx' s1 = (ans, s')" "tables s1 = tables s" "ctx_ok sha s1 ctx'"
proof -
  obtain r s0 where f: "Policy_FindByUuid pid s = (r, s0)" by force
  have t0: "tables s0 = tables s" using f unfolding Policy_FindByUuid_def by (rule readsD [OF reads_FindPolicies(2)])
  then obtain current where c: "r = Inr current"
    and a: "authorized sha ctx token (action_str (gp_action current)) (gp_resource current) (k current) s0 = (ans, s')"
    using assms(1,2) f by (cases r) (auto simp: call_def)
  have "ctx_ok sha s0 ctx" using assms(3) ctx_ok_tables [OF t0] by simp
  from this assms(4) a show thesis
  proof (cases rule: authorized_cases)
    case refused
    with assms(2) t0 show thesis by simp
  next
    case (granted ctx' s1)
    have "CHR 0x00 \<notin> set (action_str (gp_action current))" by (rule action_no_NUL) simp
    from granted(3) [OF this] obtain uid where "token_user sha s token = Some uid" "permitted s uid (gp_action current) (gp_resource current)"
      "ctx_ok sha s1 ctx'" using token_user_tables [OF t0, of sha] permitted_tables [OF t0] by auto
    with FindPolicy_Inr [OF f [unfolded c]] granted(1,2) t0 show thesis by (intro that) auto
  qed
qed

lemma DeletePolicy_holder:
  assumes "DeletePolicyByUuid_handler sha cx pid s = (ans, s')" "tables s' \<noteq> tables s" "ctx_ok sha s (cx_cache cx)" "policies_ok s"
    "\<And>dt. cx_domaintoken cx = Some dt \<Longrightarrow> CHR 0x00 \<notin> set (dt_Token dt)"
  obtains dt ps where "cx_domaintoken cx = Some dt" "holder sha s (dt_Token dt) (touched s s')" "tables s' = tables (s\<lparr>group_policies := ps\<rparr>)"
proof -
  obtain dt where dt: "cx_domaintoken cx = Some dt"
    and c: "call (Policy_FindByUuid pid) (\<lambda>current. authorized sha (cx_cache cx) (dt_Token dt) (action_str (gp_action current)) (gp_resource current)
      (\<lambda>_. call (Policy_Delete pid) (\<lambda>_. answer (Empty 204)))) s = (ans, s')"
    using assms(1,2) by (auto simp: DeletePolicyByUuid_handler_def GetDB_def GetDomainToken_def split: option.splits if_splits)
  obtain current uid ctx' s1 where u: "current \<in> set (group_policies s)" "gp_uuid current = pid" "token_user sha s (dt_Token dt) = Some uid"
    "permitted s uid (gp_action current) (gp_resource current)" "tables s1 = tables s"
    and d: "call (Policy_Delete pid) (\<lambda>_. answer (Empty 204)) s1 = (ans, s')"
    by (rule found_and_authorized [OF c assms(2,3) assms(5) [OF dt]])
  obtain r where "Policy_Delete pid s1 = (r, s')" using call_answer [OF d] by blast
  from Policy_Delete_Inr [OF this] assms(2) u(5)
  have t: "tables s' = tables (s\<lparr>group_policies := filter (\<lambda>p. gp_uuid p \<noteq> pid) (group_policies s)\<rparr>)"
    using tables_swap [OF u(5)] tables_fields(4) [OF u(5)] by simp
  have "p = current" if "p \<in> touched s s'" for p
    using that u(1,2) assms(4) unfolding touched_def tables_policies [OF t] by (auto simp: policies_ok_def dest: eq_key_imp_eq_value inj_onD [of gp_uuid] simp: distinct_map)
  with u(3,4) have "holder sha s (dt_Token dt) (touched s s')" by (auto simp: holder_def)
  with dt show thesis using t by (rule that)
qed

lemma UpdatePolicy_holder:
  assumes "UpdatePolicyByUuid_handler sha parse cx pid body s = (ans, s')" "tables s' \<noteq> tables s" "ctx_ok sha s (cx_cache cx)" "policies_ok s"
    "\<And>dt. cx_domaintoken cx = Some dt \<Longrightarrow> CHR 0x00 \<notin> set (dt_Token dt)"
  obtains dt ps where "cx_domaintoken cx = Some dt" "holder sha s (dt_Token dt) (touched s s')" "tables s' = tables (s\<lparr>group_policies := ps\<rparr>)"
proof -
  define update :: "rest_UpdatePolicy \<Rightarrow> uuid option \<Rightarrow> ('a, unit) handler" where
    "update = (\<lambda>u gid. call (Policy_Update pid \<lparr>upp_GroupUuid = gid, upp_Priority = ru_Priority u, upp_Effect = ru_Effect u,
           upp_Action = ru_Action u, upp_Resource = ru_Resource u\<rparr>) (\<lambda>_. answer (Empty 204)))"
  obtain u dt where b: "body = Some u" "cx_db cx" and dt: "cx_domaintoken cx = Some dt" using assms(1,2)
    by (cases body; cases "cx_domaintoken cx"; cases "cx_db cx")
      (auto simp: UpdatePolicyByUuid_handler_def decodeJSONBody_def GetDB_def GetDomainToken_def)
  have c: "call (Policy_FindByUuid pid) (\<lambda>current. authorized sha (cx_cache cx) (dt_Token dt) (action_str (gp_action current)) (gp_resource current)
      (\<lambda>ctx'. authorized sha ctx' (dt_Token dt) (or_default (action_str (gp_action current)) (ru_Action u))
         (or_default (gp_resource current) (ru_Resource u)) (\<lambda>_. case ru_GroupUuid u of None \<Rightarrow> update u None
         | Some g \<Rightarrow> (case parse g of None \<Rightarrow> answer (Problem ErrorMalformedRequest) | Some gid \<Rightarrow> update u (Some gid))))) s = (ans, s')"
    using assms(1) unfolding UpdatePolicyByUuid_handler_def Let_def update_def
    by (simp add: b dt decodeJSONBody_def GetDB_def GetDomainToken_def)
  obtain current uid ctx' s1 where f: "current \<in> set (group_policies s)" "gp_uuid current = pid" "token_user sha s (dt_Token dt) = Some uid"
    "permitted s uid (gp_action current) (gp_resource current)" "tables s1 = tables s" "ctx_ok sha s1 ctx'"
    and a: "authorized sha ctx' (dt_Token dt) (or_default (action_str (gp_action current)) (ru_Action u))
         (or_default (gp_resource current) (ru_Resource u)) (\<lambda>_. case ru_GroupUuid u of None \<Rightarrow> update u None
         | Some g \<Rightarrow> (case parse g of None \<Rightarrow> answer (Problem ErrorMalformedRequest) | Some gid \<Rightarrow> update u (Some gid))) s1 = (ans, s')"
    by (rule found_and_authorized [OF c assms(2,3) assms(5) [OF dt]])
  from f(6) assms(5) [OF dt] a show thesis
  proof (cases rule: authorized_cases)
    case refused
    with assms(2) f(5) show thesis by simp
  next
    case (granted ctx2 s2)
    have t2: "tables s2 = tables s" using granted(2) f(5) by simp
    obtain gid where "update u gid s2 = (ans, s')"
      using granted(1) assms(2) t2 by (auto simp: answer_def split: option.splits)
    then have "call (Policy_Update pid \<lparr>upp_GroupUuid = gid, upp_Priority = ru_Priority u, upp_Effect = ru_Effect u,
           upp_Action = ru_Action u, upp_Resource = ru_Resource u\<rparr>) (\<lambda>_. answer (Empty 204)) s2 = (ans, s')"
      (is "call (Policy_Update pid ?P) _ _ = _") by (simp add: update_def)
    then obtain r where r: "Policy_Update pid ?P s2 = (r, s')" using call_answer [where f = "\<lambda>_. Empty 204"] by blast
    then obtain n where n: "r = Inr n"
      using assms(2) t2 by (cases r) (auto simp: Policy_Update_def dest: with_tx_Inl)
    note up = Policy_Update_Inr [OF r [unfolded n]]
    let ?new = "revise ?P current"
    have t: "tables s' = tables (s\<lparr>group_policies := map (\<lambda>q. if gp_uuid q = pid then revise ?P q else q) (group_policies s)\<rparr>)"
      using up(1) tables_upd_all [OF t2] by (simp add: upd_all_def)
    have act: "or_default (action_str (gp_action current)) (ru_Action u) = action_str (gp_action ?new)"
      using up(2) by (auto simp: revise_def or_default_def parse_action_Some split: option.splits)
    have "CHR 0x00 \<notin> set (action_str (gp_action ?new))" by (rule action_no_NUL) simp
    with granted(3) act have "permitted s uid (gp_action ?new) (or_default (gp_resource current) (ru_Resource u))"
      using token_user_tables [OF f(5), of sha] permitted_tables [OF f(5)] f(3) by auto
    moreover have "or_default (gp_resource current) (ru_Resource u) = gp_resource ?new" by (simp add: revise_def)
    moreover have "p = current \<or> p = ?new" if "p \<in> touched s s'" for p
      using that f(1,2) assms(4) unfolding touched_def tables_policies [OF t]
      by (auto simp: policies_ok_def distinct_map dest: inj_onD split: if_splits)
    ultimately have "holder sha s (dt_Token dt) (touched s s')" using f(3,4) by (auto simp: holder_def)
    with dt show thesis using t by (rule that)
  qed
qed


text \<open>A user who may read everything below \<open>ts\<close>, one series excepted, and may grant policies to the group it is in.\<close>

definition grant_db :: "unit db" where
  "grant_db = empty_db\<lparr>
     users := [\<lparr>u_uuid = ''u1'', u_name = ''ann'', u_state = ''active''\<rparr>], groups := [\<lparr>g_uuid = ''g1'', g_name = ''ann''\<rparr>],
     user_tokens := [\<lparr>tk_uuid = ''t1'', tk_user = ''u1'', tk_name = ''default'', tk_hash = ''secret'', tk_created = 0\<rparr>],
     user_groups := [(''u1'', ''g1'')],
     group_policies := [
       \<lparr>gp_uuid = ''p1'', gp_group = ''g1'', gp_priority = 5, gp_effect = Allow, gp_action = Read, gp_resource = ''ts/%''\<rparr>,
       \<lparr>gp_uuid = ''p2'', gp_group = ''g1'', gp_priority = 3, gp_effect = Deny, gp_action = Read, gp_resource = ''ts/secret''\<rparr>]\<rparr>"

definition grant_cx :: request_context where
  "grant_cx = \<lparr>cx_db = True, cx_user = None, cx_domaintoken = Some \<lparr>dt_Domain = ''home'', dt_Token = ''secret''\<rparr>, cx_cache = None\<rparr>"

definition grant_all :: rest_NewPolicy where
  "grant_all = \<lparr>rn_Action = ''read'', rn_Effect = ''allow'', rn_GroupUuid = ''g1'', rn_Priority = 1, rn_Resource = ''ts/%''\<rparr>"

abbreviation granted_db :: "unit db" where
  "granted_db \<equiv> snd (AddPolicy_handler id Some ''p3'' grant_cx (Some grant_all) grant_db)"

lemma granted_db_policies: "map gp_uuid (group_policies granted_db) = [''p1'', ''p2'', ''p3'']"
  by code_simp


text \<open>
  The check reads the pattern of the new policy as if it were the name of one resource.  The pattern \<open>ts/%\<close> is
  not denied, though a resource it covers is; so the user of \<^const>\<open>grant_db\<close> can lift the denial that
  was put on it, with a policy in front of it.
\<close>

lemma grant_lifts_denial:
  "\<not> permitted grant_db ''u1'' Read ''ts/secret'' \<and> \<not> is_Problem (fst (AddPolicy_handler id Some ''p3'' grant_cx (Some grant_all) grant_db))
   \<and> permitted granted_db ''u1'' Read ''ts/secret''"
  by code_simp

end
