(* ===== verification/SeriesHandlers.thy ===== *)
theory SeriesHandlers
  imports TsMultiFacts Handlers
begin

text \<open>
  The handlers of \<^verbatim>\<open>api/aapije\<close> for time series (\<^verbatim>\<open>timeseries.go\<close>, \<^verbatim>\<open>tsquery.go\<close>) and for what
  belongs to a thing.  The configured limits (\<^verbatim>\<open>viper\<close>) are a record; floating point
  numbers, units and time zones are arguments as in the services.
\<close>

record query_config =
  qc_rollups :: bool
  qc_max_points :: int
  qc_max_total :: int
  qc_max_series :: int

text \<open>\<^verbatim>\<open>31622401*time.Second\<close>: a leap year and a second.\<close>

definition max_range :: int where
  "max_range = 31622401 * second"

definition call_undefined :: "('v, 'a) dbm \<Rightarrow> ('a \<Rightarrow> ('v, 'p) handler) \<Rightarrow> ('v, 'p) handler" where
  "call_undefined m k s = (case m s of (Inl e, s') \<Rightarrow> (Problem ErrorUndefined, s') | (Inr a, s') \<Rightarrow> k a s')"

text \<open>An optional UUID in a body: \<open>Inl\<close> where it does not parse.\<close>

definition parse_optional :: "(string \<Rightarrow> uuid option) \<Rightarrow> string option \<Rightarrow> unit + uuid option" where
  "parse_optional parse x = (case x of None \<Rightarrow> Inr None | Some t \<Rightarrow> (case parse t of None \<Rightarrow> Inl () | Some u \<Rightarrow> Inr (Some u)))"

section \<open>Series\<close>

record 'v rest_NewTimeseries =
  nw_LowerBound :: "'v option"
  nw_Name :: string
  nw_SiUnit :: string
  nw_Tags :: "string list option"
  nw_ThingUuid :: "string option"
  nw_UpperBound :: "'v option"

definition AddTimeSeries_handler :: "(string \<Rightarrow> uuid option) \<Rightarrow> uuid \<Rightarrow> uuid list \<Rightarrow> request_context \<Rightarrow> 'v rest_NewTimeseries option
    \<Rightarrow> ('v, 'v rest_Timeseries) handler" where
  "AddTimeSeries_handler parse newid pids cx body = decodeJSONBody body (\<lambda>n. GetDB cx (GetUserUUID cx (\<lambda>createdBy.
     (case parse_optional parse (nw_ThingUuid n) of
        Inl _ \<Rightarrow> answer (Problem ErrorInvalidUUID)
      | Inr thing \<Rightarrow> call (AddTimeseries newid pids \<lparr>nt_CreatedBy = createdBy, nt_ThingUuid = or_default NilUUID thing, nt_Name = nw_Name n,
            nt_SiUnit = nw_SiUnit n, nt_Tags = or_default [] (nw_Tags n), nt_LowerBound = nw_LowerBound n, nt_UpperBound = nw_UpperBound n\<rparr>)
          (\<lambda>ts. answer (JSON 201 ts))))))"

definition FindTimeSeries_handler ::
  "(string \<Rightarrow> string) \<Rightarrow> request_context \<Rightarrow> string list option \<Rightarrow> int option \<Rightarrow> int option \<Rightarrow> ('v, 'v rest_Timeseries list) handler" where
  "FindTimeSeries_handler sha cx tags limit offset = GetDB cx (GetDomainToken cx (\<lambda>dt.
     (case tags of
        Some ts \<Rightarrow> call (Timeseries_FindByTags sha (dt_Token dt) ts (Some (page_limit limit)) offset) (\<lambda>xs. answer (JSON 200 xs))
      | None \<Rightarrow> call (Timeseries_FindAll sha (dt_Token dt) (Some (page_limit limit)) offset) (\<lambda>xs. answer (JSON 200 xs)))))"

definition FindTimeSeriesByUuid_handler :: "request_context \<Rightarrow> uuid \<Rightarrow> ('v, 'v rest_Timeseries) handler" where
  "FindTimeSeriesByUuid_handler cx tid = GetDB cx (call (Timeseries_FindByUuid tid) (\<lambda>ts. answer (JSON 200 ts)))"

definition FindTimeSeriesForThing_handler :: "request_context \<Rightarrow> uuid \<Rightarrow> ('v, 'v rest_Timeseries list) handler" where
  "FindTimeSeriesForThing_handler cx thing = GetDB cx (call (FindByThing thing) (\<lambda>xs. answer (JSON 200 xs)))"

record 'v rest_UpdateTimeseries =
  uw_LowerBound :: "'v option"
  uw_Name :: "string option"
  uw_SiUnit :: "string option"
  uw_Tags :: "string list option"
  uw_ThingUuid :: "string option"
  uw_UpperBound :: "'v option"

definition UpdateTimeseriesByUuid_handler :: "(string \<Rightarrow> uuid option) \<Rightarrow> request_context \<Rightarrow> uuid \<Rightarrow> 'v rest_UpdateTimeseries option
    \<Rightarrow> ('v, unit) handler" where
  "UpdateTimeseriesByUuid_handler parse cx tid body = GetDB cx (decodeJSONBody body (\<lambda>u.
     (case parse_optional parse (uw_ThingUuid u) of
        Inl _ \<Rightarrow> answer (Problem ErrorMalformedRequest)
      | Inr thing \<Rightarrow> call (UpdateTimeseries \<lparr>ut_Uuid = tid, ut_ThingUuid = thing, ut_LowerBound = map_option Some (uw_LowerBound u),
            ut_UpperBound = map_option Some (uw_UpperBound u), ut_Name = uw_Name u, ut_SiUnit = uw_SiUnit u, ut_Tags = uw_Tags u\<rparr>)
          none_is_404)))"

definition DeleteTimeSeriesByUuid_handler :: "request_context \<Rightarrow> uuid \<Rightarrow> ('v, unit) handler" where
  "DeleteTimeSeriesByUuid_handler cx tid = GetDB cx (call_undefined (DeleteTimeseries tid) none_is_404)"

section \<open>Data\<close>

definition AddDataToTimeseries_handler :: "'v fops \<Rightarrow> 'v units_api \<Rightarrow> request_context \<Rightarrow> uuid \<Rightarrow> string option \<Rightarrow> 'v TsRow list option
    \<Rightarrow> ('v, unit) handler" where
  "AddDataToTimeseries_handler F U cx tid unit body = GetDB cx (GetUserUUID cx (\<lambda>createdBy. decodeJSONBody body (\<lambda>obj.
     if obj = [] then answer (Problem ErrorMalformedRequest)
     else call (AddDataToTimeseries F U \<lparr>ad_Uuid = tid,
            ad_Points = map (\<lambda>element. \<lparr>dp_Value = tr_V element, dp_Timestamp = tr_Ts element\<rparr>) obj, ad_CreatedBy = createdBy, ad_Unit = unit\<rparr>)
          (\<lambda>count. answer (Empty (if count = 0 then 204 else 201))))))"

record 'v rest_QueryParams =
  qp_Start :: int
  qp_End :: int
  qp_Unit :: "string option"
  qp_Ge :: "'v option"
  qp_Le :: "'v option"
  qp_Precision :: "string option"
  qp_Aggregate :: "string option"
  qp_Timezone :: "string option"

definition QueryTimeseriesForData_handler :: "'v fops \<Rightarrow> 'v units_api \<Rightarrow> (string \<Rightarrow> zone res) \<Rightarrow> query_config \<Rightarrow> request_context \<Rightarrow> uuid
    \<Rightarrow> 'v rest_QueryParams \<Rightarrow> ('v, 'v TsRow list) handler" where
  "QueryTimeseriesForData_handler F U loc cfg cx tid p = GetDB cx (
     if qp_End p - qp_Start p > max_range then answer (Problem ErrorMalformedRequest)
     else call (QuerySingleSourceData F U loc \<lparr>qs_Uuid = tid, qs_Start = qp_Start p, qs_End = qp_End p, qs_GreaterOrEq = qp_Ge p,
            qs_LessOrEq = qp_Le p, qs_Unit = qp_Unit p, qs_Aggregate = or_default [] (qp_Aggregate p), qs_Precision = or_default [] (qp_Precision p),
            qs_Timezone = or_default ''UTC'' (qp_Timezone p), qs_UseRollups = qc_rollups cfg, qs_MaxPoints = qc_max_points cfg\<rparr>)
          (\<lambda>rows. answer (JSON 200 rows)))"

definition DeleteDataFromTimeSeries_handler :: "'v fops \<Rightarrow> request_context \<Rightarrow> uuid \<Rightarrow> int \<Rightarrow> int \<Rightarrow> 'v option \<Rightarrow> 'v option
    \<Rightarrow> ('v, unit) handler" where
  "DeleteDataFromTimeSeries_handler F cx tid start stop ge le = GetDB cx (
     if stop - start > max_range then answer (Problem ErrorMalformedRequest)
     else call_undefined (DeleteTsData F \<lparr>dd_Uuid = tid, dd_Start = start, dd_End = stop, dd_GreaterOrEq = ge, dd_LessOrEq = le\<rparr>)
       (\<lambda>_. answer (Empty 204)))"

section \<open>Queries over several series\<close>

definition uniqueUUIDs :: "uuid list \<Rightarrow> uuid list" where
  "uniqueUUIDs ids = dedup [] ids"

definition uniqueUUIDCount :: "uuid list \<Rightarrow> int" where
  "uniqueUUIDCount ids = int (card (set ids))"

definition FindTsdataByQuery_handler :: "'v fops \<Rightarrow> (string \<Rightarrow> zone res) \<Rightarrow> (uuid list \<Rightarrow> uuid list) \<Rightarrow> query_config \<Rightarrow> (string \<Rightarrow> string)
    \<Rightarrow> request_context \<Rightarrow> uuid list \<Rightarrow> 'v rest_QueryParams \<Rightarrow> ('v, 'v TsResults list) handler" where
  "FindTsdataByQuery_handler F loc ord cfg sha cx ids p =
     (if qp_End p - qp_Start p > max_range then answer (Problem (NewBadRequestError ''start to end range exceeds limit''))
      else GetDB cx (GetDomainToken cx (\<lambda>dt s.
        let uuids = uniqueUUIDs ids; n = int (length uuids) in
        if qc_max_series cfg > 0 \<and> n > qc_max_series cfg
        then (Problem (NewBadRequestError (''requested '' @ Itoa n @ '' timeseries, limit is '' @ Itoa (qc_max_series cfg))), s)
        else (case UserHasManyAccessViaToken sha (cx_cache cx) (dt_Token dt) ''read'' (map (\<lambda>u. ''timeseries/'' @ u @ ''/data'') uuids) s of
            (Inl e, _, s1) \<Rightarrow> (Problem (ParseDBError e), s1)
          | (Inr ok, _, s1) \<Rightarrow>
              if \<not> ok then (Problem ErrorForbidden, s1)
              else call (QueryMultiSourceData F loc ord \<lparr>qm_Uuids = uuids, qm_Start = qp_Start p, qm_End = qp_End p, qm_GreaterOrEq = qp_Ge p,
                  qm_LessOrEq = qp_Le p, qm_Aggregate = or_default [] (qp_Aggregate p), qm_Precision = or_default [] (qp_Precision p),
                  qm_Timezone = or_default ''UTC'' (qp_Timezone p), qm_UseRollups = qc_rollups cfg,
                  qm_MaxPointsPerSeries = qc_max_points cfg, qm_MaxTotalPoints = qc_max_total cfg\<rparr>)
                (\<lambda>rows. if int (length rows) < uniqueUUIDCount uuids
                   then call (ExistAll uuids) (\<lambda>ok. answer (if ok then JSON 200 rows else Problem ErrorNotFound))
                   else answer (JSON 200 rows)) s1))))"

section \<open>What a query over several series gives away\<close>

lemma reads_lift_res [simp, intro]: "reads (lift_res r)"
  by (simp add: lift_res_def split: sum.splits)

lemma reads_GetTsData [simp, intro]:
  "reads (GetTsDataRange ids a b)" "reads (GetTsDataRangeLimited F q)" "reads (GetTsHourlyRollupRange ids a b)" "reads (GetTsDailyRollupRange ids a b)"
  by (simp_all add: GetTsDataRange_def GetTsDataRangeLimited_def GetTsHourlyRollupRange_def GetTsDailyRollupRange_def)

lemma reads_load_raw [simp, intro]: "reads (load_raw ids rs)"
  by (induction rs) (auto intro!: reads_andthen)

lemma reads_loadAggregateSources [simp, intro]: "reads (loadAggregateSources ids a b precision)"
  unfolding loadAggregateSources_def Let_def by (auto intro!: reads_andthen split: prod.splits option.splits)

lemma reads_QueryMultiSourceData [simp, intro]: "reads (QueryMultiSourceData F loc ord q)"
  unfolding QueryMultiSourceData_def queryMultiSourceAggregatedData_def by (auto intro!: reads_andthen)

lemma reads_ExistAll [simp, intro]: "reads (ExistAll ids)"
  unfolding ExistAll_def CountExistingTimeseries_def by (auto intro!: reads_andthen)

lemma results_of_uuids: "set (map tr_Uuid (results_of ids m)) \<subseteq> set ids" "distinct (map tr_Uuid (results_of ids m))"
proof -
  have "set (map tr_Uuid (concat (map (\<lambda>key. case m key of None \<Rightarrow> [] | Some rows \<Rightarrow> [\<lparr>tr_Uuid = key, tr_Data = rows\<rparr>]) ks))) \<subseteq> set ks" for ks
    by (auto split: option.splits)
  moreover from this have "distinct ks \<Longrightarrow> distinct (map tr_Uuid (concat (map (\<lambda>key. case m key of None \<Rightarrow> [] | Some rows \<Rightarrow> [\<lparr>tr_Uuid = key, tr_Data = rows\<rparr>]) ks)))" for ks
    by (induction ks) (auto split: option.splits)
  ultimately show "set (map tr_Uuid (results_of ids m)) \<subseteq> set ids" "distinct (map tr_Uuid (results_of ids m))"
    using set_dedup_Nil [of ids] distinct_dedup [of "[]" ids] unfolding results_of_def by blast+
qed

lemma counted_all:
  assumes "distinct (map k xs)" "distinct ids" "length (filter (\<lambda>x. k x \<in> set ids) xs) = length ids"
  shows "set ids \<subseteq> set (map k xs)"
proof -
  let ?ys = "map k (filter (\<lambda>x. k x \<in> set ids) xs)"
  have "card (set ?ys) = card (set ids)"
    using assms by (metis distinct_card distinct_map_filter length_map)
  moreover have "set ?ys \<subseteq> set ids" by auto
  ultimately have "set ?ys = set ids" by (intro card_subset_eq) auto
  then show ?thesis by auto
qed

lemma ExistAll_yes:
  assumes "ExistAll ids s = (Inr True, s')" "distinct ids" "distinct (map ts_uuid (timeseries s))"
  shows "set ids \<subseteq> set (map ts_uuid (timeseries s))"
proof (cases "ids = []")
  case False
  with assms(1) obtain s1 n where "CountExistingTimeseries ids s = (Inr n, s1)" "n = int (length ids)"
    by (auto simp: ExistAll_def ret_def elim!: andthen_cases)
  then have "length (filter (\<lambda>t. ts_uuid t \<in> set ids) (timeseries s)) = length ids"
    by (auto simp: CountExistingTimeseries_def sel_def dest!: stmt_Inr)
  with assms(2,3) show ?thesis by (intro counted_all)
qed simp

lemma call_JSON:
  assumes "call m k s = (JSON c rows, s')"
  obtains a s1 where "m s = (Inr a, s1)" "k a s1 = (JSON c rows, s')"
  using assms by (cases "fst (m s)"; cases "m s") (auto simp: call_def)

lemma query_passed:
  assumes "FindTsdataByQuery_handler F loc ord cfg sha cx ids p s = (JSON c rows, s')"
  obtains dt ctx' s1 s2 q where "cx_domaintoken cx = Some dt" "qp_End p - qp_Start p \<le> max_range"
    "qc_max_series cfg > 0 \<longrightarrow> int (length (uniqueUUIDs ids)) \<le> qc_max_series cfg"
    "UserHasManyAccessViaToken sha (cx_cache cx) (dt_Token dt) ''read'' (map (\<lambda>u. ''timeseries/'' @ u @ ''/data'') (uniqueUUIDs ids)) s = (Inr True, ctx', s1)"
    "QueryMultiSourceData F loc ord q s1 = (Inr rows, s2)" "qm_Uuids q = uniqueUUIDs ids" "c = 200"
    "int (length rows) < uniqueUUIDCount (uniqueUUIDs ids) \<and> ExistAll (uniqueUUIDs ids) s2 = (Inr True, s')
      \<or> uniqueUUIDCount (uniqueUUIDs ids) \<le> int (length rows) \<and> s' = s2"
proof -
  obtain dt where dt: "cx_db cx" "cx_domaintoken cx = Some dt" "qp_End p - qp_Start p \<le> max_range"
    "qc_max_series cfg > 0 \<longrightarrow> int (length (uniqueUUIDs ids)) \<le> qc_max_series cfg"
    using assms by (auto simp: FindTsdataByQuery_handler_def GetDB_def GetDomainToken_def answer_def Let_def split: if_splits option.splits)
  obtain r ctx' s1 where u: "UserHasManyAccessViaToken sha (cx_cache cx) (dt_Token dt) ''read''
      (map (\<lambda>u. ''timeseries/'' @ u @ ''/data'') (uniqueUUIDs ids)) s = (r, ctx', s1)" by (metis prod.collapse)
  have range: "\<not> qp_End p - qp_Start p > max_range" "\<not> (qc_max_series cfg > 0 \<and> int (length (uniqueUUIDs ids)) > qc_max_series cfg)"
    using dt(3,4) by auto
  define q where "q = \<lparr>qm_Uuids = uniqueUUIDs ids, qm_Start = qp_Start p, qm_End = qp_End p, qm_GreaterOrEq = qp_Ge p,
                  qm_LessOrEq = qp_Le p, qm_Aggregate = or_default [] (qp_Aggregate p), qm_Precision = or_default [] (qp_Precision p),
                  qm_Timezone = or_default ''UTC'' (qp_Timezone p), qm_UseRollups = qc_rollups cfg,
                  qm_MaxPointsPerSeries = qc_max_points cfg, qm_MaxTotalPoints = qc_max_total cfg\<rparr>"
  have r: "r = Inr True" and k: "call (QueryMultiSourceData F loc ord q)
        (\<lambda>rows. if int (length rows) < uniqueUUIDCount (uniqueUUIDs ids)
           then call (ExistAll (uniqueUUIDs ids)) (\<lambda>ok. answer (if ok then JSON 200 rows else Problem ErrorNotFound))
           else answer (JSON 200 rows)) s1 = (JSON c rows, s')"
    using assms u dt(1,2) range unfolding FindTsdataByQuery_handler_def q_def
    by (auto simp: GetDB_def GetDomainToken_def Let_def split: sum.splits if_splits)
  from k obtain rows' s2 where q: "QueryMultiSourceData F loc ord q s1 = (Inr rows', s2)"
    and k': "(if int (length rows') < uniqueUUIDCount (uniqueUUIDs ids)
           then call (ExistAll (uniqueUUIDs ids)) (\<lambda>ok. answer (if ok then JSON 200 rows' else Problem ErrorNotFound))
           else answer (JSON 200 rows')) s2 = (JSON c rows, s')" by (rule call_JSON)
  have "rows' = rows" "c = 200" and last: "int (length rows') < uniqueUUIDCount (uniqueUUIDs ids) \<and> ExistAll (uniqueUUIDs ids) s2 = (Inr True, s')
      \<or> uniqueUUIDCount (uniqueUUIDs ids) \<le> int (length rows') \<and> s' = s2"
    using k' by (auto simp: answer_def split: if_splits elim!: call_JSON)
  then show thesis using dt u q unfolding r by (intro that [of dt ctx' s1 q s2]) (auto simp: q_def)
qed

text \<open>
  C20: A query over several series gives nothing away and leaves nothing out unsaid.  When it answers
  with data, the access rules permit the user of the token to read the data of every series asked for, no other series is
  in the answer, each series asked for is in the answer or at least exists, the limits on the period and
  on the number of series are kept, and nothing has changed in the database.
\<close>

theorem query_gives_permitted_series:
  assumes "FindTsdataByQuery_handler F loc ord cfg sha cx ids p s = (JSON c rows, s')" and "ctx_ok sha s (cx_cache cx)"
    and "\<And>dt. cx_domaintoken cx = Some dt \<Longrightarrow> CHR 0x00 \<notin> set (dt_Token dt)" and "distinct (map ts_uuid (timeseries s))"
  shows "\<exists>dt uid. cx_domaintoken cx = Some dt \<and> token_user sha s (dt_Token dt) = Some uid
    \<and> (\<forall>u\<in>set ids. permitted s uid Read (''timeseries/'' @ u @ ''/data'')
         \<and> (u \<in> set (map tr_Uuid rows) \<or> u \<in> set (map ts_uuid (timeseries s))))
    \<and> set (map tr_Uuid rows) \<subseteq> set ids \<and> c = 200 \<and> tables s' = tables s
    \<and> qp_End p - qp_Start p \<le> max_range \<and> (qc_max_series cfg > 0 \<longrightarrow> int (card (set ids)) \<le> qc_max_series cfg)"
proof -
  let ?us = "uniqueUUIDs ids"
  have us: "set ?us = set ids" "distinct ?us" by (simp_all add: uniqueUUIDs_def)
  obtain dt ctx' s1 s2 q where dt: "cx_domaintoken cx = Some dt" "qp_End p - qp_Start p \<le> max_range"
    "qc_max_series cfg > 0 \<longrightarrow> int (length ?us) \<le> qc_max_series cfg"
    and u: "UserHasManyAccessViaToken sha (cx_cache cx) (dt_Token dt) ''read'' (map (\<lambda>u. ''timeseries/'' @ u @ ''/data'') ?us) s = (Inr True, ctx', s1)"
    and q: "QueryMultiSourceData F loc ord q s1 = (Inr rows, s2)" "qm_Uuids q = ?us" and c: "c = 200"
    and l: "int (length rows) < uniqueUUIDCount ?us \<and> ExistAll ?us s2 = (Inr True, s')
      \<or> uniqueUUIDCount ?us \<le> int (length rows) \<and> s' = s2"
    by (rule query_passed [OF assms(1)])
  have "CHR 0x00 \<notin> set ''read''" by simp
  note yes = UserHasMany_yes [OF assms(2) assms(3) [OF dt(1)] this u]
  obtain act uid where r: "parse_action ''read'' = Some act" "token_user sha s (dt_Token dt) = Some uid"
    "\<And>r. r \<in> set (map (\<lambda>u. ''timeseries/'' @ u @ ''/data'') ?us) \<Longrightarrow> permitted s uid act r" "tables s1 = tables s"
    by (rule yes) (rule that)
  have act: "act = Read" using r(1) parse_action_str [of Read] by simp
  have t2: "tables s2 = tables s" using readsD [OF reads_QueryMultiSourceData q(1)] r(4) by simp
  have ts: "timeseries s2 = timeseries s" using t2 by (cases s; cases s2) (simp add: tables_def)
  obtain m where m: "rows = results_of ?us m" using q by (auto elim: QueryMulti_Inr)
  have known: "u \<in> set (map tr_Uuid rows) \<or> u \<in> set (map ts_uuid (timeseries s))" if "u \<in> set ids" for u
  proof (cases "int (length rows) < uniqueUUIDCount ?us")
    case True
    with l have "ExistAll ?us s2 = (Inr True, s')" by simp
    from ExistAll_yes [OF this us(2)] assms(4) that us(1) ts show ?thesis by auto
  next
    case False
    have "set (map tr_Uuid rows) = set ?us"
    proof (rule card_subset_eq)
      show "set (map tr_Uuid rows) \<subseteq> set ?us" unfolding m by (rule results_of_uuids(1))
      have "card (set (map tr_Uuid rows)) = length rows" unfolding m using results_of_uuids(2) [of ?us m] distinct_card length_map by metis
      moreover have "card (set (map tr_Uuid rows)) \<le> card (set ?us)" unfolding m by (rule card_mono [OF _ results_of_uuids(1)]) simp
      ultimately show "card (set (map tr_Uuid rows)) = card (set ?us)" using False by (simp add: uniqueUUIDCount_def)
    qed simp
    with that us(1) show ?thesis by simp
  qed
  have "tables s' = tables s" using l t2 readsD [OF reads_ExistAll, of ?us s2] by auto
  moreover have "set (map tr_Uuid rows) \<subseteq> set ids" using results_of_uuids(1) [of ?us m] us(1) m by simp
  moreover have "length ?us = card (set ids)" using us distinct_card by metis
  ultimately show ?thesis using dt r(2,3) us(1) known c unfolding act by auto
qed

definition reader_db :: "int db" where
  "reader_db = sample_data\<lparr>
     user_tokens := [\<lparr>tk_uuid = ''t1'', tk_user = ''u1'', tk_name = ''default'', tk_hash = ''secret'', tk_created = 0\<rparr>],
     user_groups := [(''u1'', ''g1'')],
     group_policies := [\<lparr>gp_uuid = ''p1'', gp_group = ''g1'', gp_priority = 5, gp_effect = Allow, gp_action = Read, gp_resource = ''timeseries/%''\<rparr>]\<rparr>"

definition reader_query :: "int rest_QueryParams" where
  "reader_query = \<lparr>qp_Start = 0, qp_End = 3 * hour, qp_Unit = None, qp_Ge = Some 2, qp_Le = None, qp_Precision = None, qp_Aggregate = None, qp_Timezone = None\<rparr>"

definition reader_limits :: query_config where
  "reader_limits = \<lparr>qc_rollups = True, qc_max_points = 10, qc_max_total = 0, qc_max_series = 1\<rparr>"

abbreviation reader_answer :: "int TsResults list answer \<times> int db" where
  "reader_answer \<equiv> FindTsdataByQuery_handler int_ops utc_only rev reader_limits id grant_cx [''a'', ''a''] reader_query reader_db"

theorem query_gives_permitted_series_witness:
  "\<exists>rows s'. reader_answer = (JSON 200 rows, s') \<and> map tr_Uuid rows = [''a''] \<and> permitted reader_db ''u1'' Read ''timeseries/a/data''"
proof -
  have "answer_status (fst reader_answer) = 200 \<and> (case fst reader_answer of JSON _ rows \<Rightarrow> map tr_Uuid rows = [''a''] | _ \<Rightarrow> False)" by code_simp
  then obtain rows s' where a: "reader_answer = (JSON 200 rows, s')" "map tr_Uuid rows = [''a'']"
    by (cases reader_answer) (auto split: answer.splits)
  have d: "distinct (map ts_uuid (timeseries reader_db))" by code_simp
  have "CHR 0x00 \<notin> set (dt_Token dt)" if "cx_domaintoken grant_cx = Some dt" for dt using that by (auto simp: grant_cx_def)
  moreover have "ctx_ok id reader_db (cx_cache grant_cx)" by (simp add: grant_cx_def)
  ultimately obtain dt uid where u: "cx_domaintoken grant_cx = Some dt" "token_user id reader_db (dt_Token dt) = Some uid"
    "permitted reader_db uid Read (''timeseries/'' @ ''a'' @ ''/data'')"
    using query_gives_permitted_series [OF a(1) _ _ d] by auto
  have "token_user id reader_db ''secret'' = Some ''u1''" by code_simp
  then have "uid = ''u1''" using u(1,2) by (auto simp: grant_cx_def)
  with a u(3) show ?thesis by simp
qed

end
