(* ===== verification/DatasetHandlers.thy ===== *)
theory DatasetHandlers
  imports UploadAssembly SeriesHandlers
begin

text \<open>
  The handlers of \<^verbatim>\<open>api/aapije/dataset.go\<close>: datasets, their content, and uploads in parts.  They
  work on the world of the services (database, store, files).  The configuration (\<^verbatim>\<open>viper\<close>) is a record;
  the client of the store and the digests are arguments, and so are fresh names.
\<close>

type_synonym ('v, 'o, 'p) whandler = "(('v, 'o) world, 'p) server"

definition wcall :: "('v, 'o, 'a) wm \<Rightarrow> ('a \<Rightarrow> ('v, 'o, 'p) whandler) \<Rightarrow> ('v, 'o, 'p) whandler" where
  "wcall m k w = (case m w of (Inl e, w') \<Rightarrow> (Problem (ParseDBError e), w') | (Inr a, w') \<Rightarrow> k a w')"

record dataset_config =
  dc_backend :: string
  dc_s3 :: DatasetS3Options
  dc_root_dir :: string
  dc_max_part_size :: int
  dc_max_total_size :: int

section \<open>Making the services\<close>

definition datasetStorageOptions :: "(DatasetS3Options \<Rightarrow> go_error option) \<Rightarrow> dataset_config \<Rightarrow> string \<Rightarrow> DatasetStorageOptions res" where
  "datasetStorageOptions load cfg domain =
     (let opt = \<lparr>so_Backend = dc_backend cfg, so_Domain = domain, so_S3 = None\<rparr> in
      if dc_backend cfg \<noteq> DatasetStorageBackendS3 then Inr opt
      else let opt = opt\<lparr>so_S3 := Some (dc_s3 cfg)\<rparr> in
        (case NewDatasetObjectStore load opt of Inl e \<Rightarrow> Inl e | Inr _ \<Rightarrow> Inr opt))"

text \<open>Whatever goes wrong is answered as \<^const>\<open>ErrorUndefined\<close>.\<close>

definition newDatasetService :: "(DatasetS3Options \<Rightarrow> go_error option) \<Rightarrow> 'o s3_client \<Rightarrow> dataset_config \<Rightarrow> request_context
    \<Rightarrow> ('o DatasetService \<Rightarrow> ('v, 'o, 'p) whandler) \<Rightarrow> ('v, 'o, 'p) whandler" where
  "newDatasetService load C cfg cx k = GetDomainToken cx (\<lambda>dt.
     (case datasetStorageOptions load cfg (dt_Domain dt) of
        Inl e \<Rightarrow> answer (Problem ErrorUndefined)
      | Inr opt \<Rightarrow> (case NewDatasetService load C opt of Inl e \<Rightarrow> answer (Problem ErrorUndefined) | Inr svc \<Rightarrow> k svc)))"

definition newDatasetUploadService :: "(DatasetS3Options \<Rightarrow> go_error option) \<Rightarrow> 'o s3_client \<Rightarrow> dataset_config \<Rightarrow> request_context
    \<Rightarrow> ('o DatasetUploadOptions \<Rightarrow> ('v, 'o, 'p) whandler) \<Rightarrow> ('v, 'o, 'p) whandler" where
  "newDatasetUploadService load C cfg cx k = GetDomainToken cx (\<lambda>dt.
     (case datasetStorageOptions load cfg (dt_Domain dt) of
        Inl e \<Rightarrow> answer (Problem ErrorUndefined)
      | Inr opt \<Rightarrow> (case NewDatasetObjectStore load opt of
            Inl e \<Rightarrow> answer (Problem ErrorUndefined)
          | Inr store \<Rightarrow> k \<lparr>uo_Domain = dt_Domain dt, uo_RootDir = dc_root_dir cfg, uo_MaxPartSize = dc_max_part_size cfg,
              uo_MaxTotalSize = dc_max_total_size cfg, uo_Storage = opt, uo_Store = map_option (\<lambda>_. C) store\<rparr>)))"

section \<open>Datasets\<close>

record rest_NewDataset =
  nd_Content :: "string option"
  nd_Format :: string
  nd_Name :: string
  nd_Tags :: "string list option"
  nd_ThingUuid :: "string option"

definition AddDatasets_handler where
  "AddDatasets_handler load C cfg D parse newid pids cx body =
     decodeJSONBody body (\<lambda>n. GetDB cx (GetUserUUID cx (\<lambda>createdBy. newDatasetService load C cfg cx (\<lambda>svc.
       (case parse_optional parse (nd_ThingUuid n) of
          Inl _ \<Rightarrow> answer (Problem ErrorMalformedRequest)
        | Inr thing \<Rightarrow> wcall (AddDataset D svc newid pids \<lparr>ad_Name = nd_Name n, ad_Format = nd_Format n, ad_Content = nd_Content n,
              ad_CreatedBy = createdBy, ad_ThingUuid = or_default NilUUID thing, ad_Tags = nd_Tags n\<rparr>)
            (\<lambda>dataset. answer (JSON 201 dataset)))))))"

definition FindDatasets_handler where
  "FindDatasets_handler load C cfg sha cx tags limit offset = GetDB cx (GetDomainToken cx (\<lambda>dt. newDatasetService load C cfg cx (\<lambda>svc.
     (case tags of
        Some ts \<Rightarrow> wcall (Dataset_FindByTags sha (dt_Token dt) ts (Some (page_limit limit)) offset) (\<lambda>ds. answer (JSON 200 ds))
      | None \<Rightarrow> wcall (Dataset_FindAll sha (dt_Token dt) (Some (page_limit limit)) offset) (\<lambda>ds. answer (JSON 200 ds))))))"

definition FindDatasetByUuid_handler where
  "FindDatasetByUuid_handler load C cfg cx dsid = GetDB cx (newDatasetService load C cfg cx (\<lambda>svc.
     wcall (Datasets.FindDatasetByUuid dsid) (\<lambda>ds. answer (JSON 200 ds))))"

text \<open>Without options the service has no store; listing needs none.\<close>

definition FindDatasetsForThing_handler where
  "FindDatasetsForThing_handler load C cx thing = GetDB cx
     (case NewDatasetService load C \<lparr>so_Backend = [], so_Domain = [], so_S3 = None\<rparr> of
        Inl e \<Rightarrow> answer (Problem ErrorUndefined)
      | Inr svc \<Rightarrow> wcall (Dataset_FindByThing thing) (\<lambda>ds. answer (JSON 200 ds)))"

record rest_UpdateDataset =
  ue_Content :: "string option"
  ue_Format :: "string option"
  ue_Name :: "string option"
  ue_Tags :: "string list option"
  ue_ThingUuid :: "string option"

definition UpdateDatasetByUuid_handler where
  "UpdateDatasetByUuid_handler load C cfg D parse cx dsid body = GetDB cx (decodeJSONBody body (\<lambda>u. newDatasetService load C cfg cx (\<lambda>svc.
     (case parse_optional parse (ue_ThingUuid u) of
        Inl _ \<Rightarrow> answer (Problem ErrorMalformedRequest)
      | Inr thing \<Rightarrow> wcall (UpdateDatasetByUuid D svc dsid \<lparr>dp_Content = ue_Content u, dp_Format = ue_Format u, dp_Name = ue_Name u,
            dp_Tags = ue_Tags u, dp_ThingUuid = thing\<rparr>) (\<lambda>_. answer (Empty 204))))))"

text \<open>A raw dataset goes out as headers and bytes; \<^const>\<open>None\<close> for bytes whose transfer broke off after the status was sent.\<close>

record raw_reply =
  rr_ContentType :: string
  rr_ETag :: string
  rr_Body :: "string option"

definition raw_type :: "string \<Rightarrow> string" where
  "raw_type format =
     (if format = ''csv'' then ''text/csv'' else if format = ''ini'' then ''text/plain; charset=utf-8''
      else if format = ''json'' then ''application/json'' else if format = ''toml'' then ''application/toml''
      else if format = ''xml'' then ''application/xml'' else if format = ''yaml'' then ''application/yaml''
      else ''application/octet-stream'')"

definition raw_answer :: "string option \<Rightarrow> DatasetFile \<Rightarrow> raw_reply answer" where
  "raw_answer ifNoneMatch f =
     (let reply = \<lparr>rr_ContentType = raw_type (df_Format f), rr_ETag = df_Checksum f, rr_Body = Some []\<rparr> in
      if ifNoneMatch = Some (df_Checksum f) then JSON 304 reply
      else (case df_Body f of
          None \<Rightarrow> if df_Content f = [] then JSON 204 reply else JSON 200 (reply\<lparr>rr_Body := Some (df_Content f)\<rparr>)
        | Some (Inr bytes) \<Rightarrow> JSON 200 (reply\<lparr>rr_Body := Some bytes\<rparr>)
        | Some (Inl e) \<Rightarrow> JSON 200 (reply\<lparr>rr_Body := None\<rparr>)))"

definition GetRawDatasetByUuid_handler where
  "GetRawDatasetByUuid_handler load C cfg cx dsid ifNoneMatch = GetDB cx (newDatasetService load C cfg cx (\<lambda>svc.
     wcall (GetDatasetContentByUuid svc dsid) (\<lambda>f. answer (raw_answer ifNoneMatch f))))"

definition DeleteDatasetByUuid_handler where
  "DeleteDatasetByUuid_handler load C cfg cx dsid = GetDB cx (newDatasetService load C cfg cx (\<lambda>svc. wcall (DeleteDataset svc dsid) none_is_404))"

section \<open>Uploads\<close>

definition InitializeDatasetUploadByUuid_handler where
  "InitializeDatasetUploadByUuid_handler load C cfg uploadID cx dsid = GetDB cx (GetUserUUID cx (\<lambda>user.
     newDatasetUploadService load C cfg cx (\<lambda>opt. wcall (CreateUpload opt uploadID dsid user) (\<lambda>session. answer (JSON 200 (se_UploadID session))))))"

definition DeleteDatasetUploadByKey_handler where
  "DeleteDatasetUploadByKey_handler load C cfg cx dsid uploadID = GetDB cx (newDatasetUploadService load C cfg cx (\<lambda>opt.
     wcall (CancelUpload opt dsid uploadID) (\<lambda>_. answer (Empty 204))))"

definition ListDatasetPartsByKey_handler where
  "ListDatasetPartsByKey_handler load C cfg cx dsid uploadID = GetDB cx (newDatasetUploadService load C cfg cx (\<lambda>opt.
     wcall (ListParts dsid uploadID) (\<lambda>parts. answer (JSON 200 (uploadID, parts)))))"

definition nullableStringParam :: "string option \<Rightarrow> string" where
  "nullableStringParam v = (case v of None \<Rightarrow> [] | Some x \<Rightarrow> x)"

definition AssembleDatasetPartsByKey_handler where
  "AssembleDatasetPartsByKey_handler load C cfg D tmp cx dsid uploadID md5 = GetDB cx (newDatasetUploadService load C cfg cx (\<lambda>opt.
     wcall (AssembleUpload D opt tmp dsid uploadID (nullableStringParam md5)) (\<lambda>_. answer (Empty 204))))"

text \<open>\<^verbatim>\<open>http.MaxBytesReader\<close>: at most so many bytes, then an error.\<close>

definition MaxBytesReader :: "int \<Rightarrow> reader \<Rightarrow> reader" where
  "MaxBytesReader n r = (if int (length (fst r)) > n then (take (nat n) (fst r), Some (Plain ''http: request body too large'')) else r)"

definition UploadDatasetContentByKey_handler where
  "UploadDatasetContentByKey_handler load C cfg D cx dsid uploadID partNumber md5 body = GetDB cx (newDatasetUploadService load C cfg cx (\<lambda>opt.
     wcall (UploadPart D opt dsid uploadID partNumber (nullableStringParam md5)
        (if dc_max_part_size cfg > 0 then MaxBytesReader (dc_max_part_size cfg) body else body))
       (\<lambda>_. answer (JSON 200 ''uploaded''))))"

section \<open>What clients see\<close>

text \<open>A client that sends back the tag of an answer is told that it has the content already, as long as the file is the same.\<close>

lemma raw_revalidated:
  assumes "raw_answer x f = JSON c r"
  shows "raw_answer (Some (rr_ETag r)) f = JSON 304 (r\<lparr>rr_Body := Some []\<rparr>)"
  using assms by (auto simp: raw_answer_def Let_def split: if_splits option.splits sum.splits)

text \<open>
  The service would refuse a part above the limit as too large; the handler cuts the body at the same limit, so that reading
  it fails first, and that failure is reported as an unknown error of the database.
\<close>

lemma oversized_part:
  assumes "0 < uo_MaxPartSize opt" "uo_MaxPartSize opt < int (length (fst body))"
  shows "readUploadBody D opt (fst body, None) md5 = Inl (NewBadRequestError ''PartTooLarge'')"
    "readUploadBody D opt (MaxBytesReader (uo_MaxPartSize opt) body) md5 = Inl (Plain ''http: request body too large'')"
    "ParseDBError (Plain ''http: request body too large'') = ErrorDBUndefined"
proof -
  show "readUploadBody D opt (fst body, None) md5 = Inl (NewBadRequestError ''PartTooLarge'')"
    using assms by (auto simp: readUploadBody_def LimitReader_def ReadAll_def)
  show "readUploadBody D opt (MaxBytesReader (uo_MaxPartSize opt) body) md5 = Inl (Plain ''http: request body too large'')"
    using assms by (simp add: readUploadBody_def LimitReader_def ReadAll_def MaxBytesReader_def)
  show "ParseDBError (Plain ''http: request body too large'') = ErrorDBUndefined" by code_simp
qed

end
