(* ===== verification/Refusals.thy ===== *)
theory Refusals
  imports SeriesHandlers
begin

text \<open>
  Requests that are refused change nothing: the laws of operations that count the rows they changed
  (locale \<open>counted_operation\<close>), interpreted on the services, and the handlers of \<^verbatim>\<open>api/aapije\<close> that are
  \<open>clean\<close> because of them.
\<close>

section \<open>Operations that count\<close>

text \<open>
  \<open>tallies n m\<close>: the count that \<open>m\<close> gives is at least \<open>n\<close>, and when it is \<open>n\<close> no table has changed.
  The updates of several columns start at 0 and hand their count on from statement to statement.
\<close>

definition tallies :: "int \<Rightarrow> ('v, int) dbm \<Rightarrow> bool" where
  "tallies n m \<longleftrightarrow> (\<forall>s k s'. m s = (Inr k, s') \<longrightarrow> n \<le> k \<and> (k = n \<longrightarrow> tables s' = tables s))"

lemma talliesI: "(\<And>s k s'. m s = (Inr k, s') \<Longrightarrow> n \<le> k \<and> (k = n \<longrightarrow> tables s' = tables s)) \<Longrightarrow> tallies n m"
  by (simp add: tallies_def)

lemma talliesD: "tallies n m \<Longrightarrow> m s = (Inr k, s') \<Longrightarrow> n \<le> k" "tallies n m \<Longrightarrow> m s = (Inr n, s') \<Longrightarrow> tables s' = tables s"
  by (auto simp: tallies_def)

lemma tallies_stmt:
  assumes "\<And>s k s'. f s = (Inr k, s') \<Longrightarrow> 0 \<le> k \<and> (k = 0 \<longrightarrow> s' = s)"
  shows "tallies 0 (stmt f)"
  using assms by (fastforce intro!: talliesI dest!: stmt_Inr)

lemma tallies_ret [simp, intro]: "tallies n (ret n)"
  by (auto simp: tallies_def ret_def)

lemma tallies_andthen [intro]:
  assumes "tallies n m" "\<And>k. n \<le> k \<Longrightarrow> tallies k (g k)"
  shows "tallies n (andthen m g)"
proof (rule talliesI)
  fix s k s'
  assume "andthen m g s = (Inr k, s')"
  then obtain j s1 where j: "m s = (Inr j, s1)" "g j s1 = (Inr k, s')" by (auto elim: andthen_cases)
  have n: "n \<le> j" using talliesD(1) [OF assms(1) j(1)] .
  have k: "j \<le> k" using talliesD(1) [OF assms(2) [OF n] j(2)] .
  moreover have "tables s' = tables s" if "k = n"
  proof -
    have "j = n" "k = j" using n k that by auto
    with j talliesD(2) [OF assms(1)] talliesD(2) [OF assms(2) [OF n]] show ?thesis by metis
  qed
  ultimately show "n \<le> k \<and> (k = n \<longrightarrow> tables s' = tables s)" using n by auto
qed

lemma tallies_opt_step [intro]:
  assumes "\<And>v. x = Some v \<Longrightarrow> tallies 0 (f v)"
  shows "tallies n (opt_step x f n)"
proof (rule talliesI)
  fix s k s'
  assume o: "opt_step x f n s = (Inr k, s')"
  show "n \<le> k \<and> (k = n \<longrightarrow> tables s' = tables s)"
  proof (cases x)
    case None
    with o show ?thesis by (simp add: opt_step_def ret_def)
  next
    case (Some v)
    with o obtain c where c: "f v s = (Inr c, s')" "k = n + c" by (auto simp: opt_step_def ret_def elim!: andthen_cases)
    with talliesD [OF assms [OF Some]] show ?thesis by fastforce
  qed
qed

lemma tallies_with_tx [intro]: "tallies n m \<Longrightarrow> tallies n (with_tx m)"
  by (auto simp: tallies_def elim!: with_tx_Inr)

locale counted_operation =
  fixes m :: "('v, int) dbm"
  assumes failing: "atomic m" and counting: "tallies 0 m"
begin

lemma idle: "idle_when (\<lambda>c. c = 0) m"
  using talliesD(2) [OF counting] by (auto simp: idle_when_def)

lemma answered_clean [intro]: "clean (call m none_is_404)"
  using failing idle by (rule clean_call_count)

lemma not_found_clean: "atomic (andthen m (\<lambda>n. if n = 0 then fail ErrorNotFound else ret n))"
  unfolding atomic_def
proof (intro allI impI)
  fix s e s'
  assume "andthen m (\<lambda>n. if n = 0 then fail ErrorNotFound else ret n) s = (Inl e, s')"
  then show "tables s' = tables s"
    using atomicD [OF failing] talliesD(2) [OF counting] by (auto elim!: andthen_cases simp: fail_def ret_def split: if_splits)
qed

end

section \<open>The services\<close>

lemma atomic_stmt: "(\<And>s e s'. f s = (Inl e, s') \<Longrightarrow> s' = s) \<Longrightarrow> atomic (stmt f)"
  unfolding atomic_def by (metis stmt_Inl)

lemma update_none: "filter P xs = [] \<Longrightarrow> map (\<lambda>x. if P x then f x else x) xs = xs"
  by (auto simp: filter_empty_conv intro: map_idI)

lemma filter_none: "filter P xs = [] \<Longrightarrow> filter (\<lambda>x. \<not> P x) xs = xs"
  by (auto simp: filter_empty_conv intro: filter_True)

lemma update_alert_counts: "update_alert aid f s = (Inr k, s') \<Longrightarrow> 0 \<le> k \<and> (k = 0 \<longrightarrow> s' = s)" "update_alert aid f s \<noteq> (Inl e, s')"
  by (auto simp: update_alert_def update_none)

lemma update_thing_counts: "update_thing tid f s = (Inr k, s') \<Longrightarrow> 0 \<le> k \<and> (k = 0 \<longrightarrow> s' = s)" "update_thing tid f s \<noteq> (Inl e, s')"
  by (auto simp: update_thing_def update_none)

lemma update_series_counts: "update_series tid f s = (Inr k, s') \<Longrightarrow> 0 \<le> k \<and> (k = 0 \<longrightarrow> s' = s)" "update_series tid f s \<noteq> (Inl e, s')"
  by (auto simp: update_series_def update_none)

lemmas update_counts = update_alert_counts(1) update_thing_counts(1) update_series_counts(1)

lemma tallies_alert_columns:
  "tallies 0 (UpdateAlertSetResource aid v)" "tallies 0 (UpdateAlertSetEnvironment aid v)" "tallies 0 (UpdateAlertSetEvent aid v)"
  "tallies 0 (UpdateAlertSetOrigin aid v)" "tallies 0 (UpdateAlertSetSeverity aid v)" "tallies 0 (UpdateAlertSetStatus aid v)"
  "tallies 0 (UpdateAlertSetService aid w)" "tallies 0 (UpdateAlertSetValue aid v)" "tallies 0 (UpdateAlertSetDescription aid v)"
  "tallies 0 (UpdateAlertSetTags aid w)" "tallies 0 (UpdateAlertSetTimeout aid i)" "tallies 0 (UpdateAlertSetRawdata aid v)"
  unfolding UpdateAlertSetResource_def UpdateAlertSetEnvironment_def UpdateAlertSetEvent_def UpdateAlertSetOrigin_def UpdateAlertSetSeverity_def
    UpdateAlertSetStatus_def UpdateAlertSetService_def UpdateAlertSetValue_def UpdateAlertSetDescription_def UpdateAlertSetTags_def
    UpdateAlertSetTimeout_def UpdateAlertSetRawdata_def
  by (rule tallies_stmt, (erule update_counts | (auto split: if_splits dest: update_counts)))+

lemma tallies_thing_columns:
  "tallies 0 (SetThingNameByUUID tid v)" "tallies 0 (SetThingTypeByUUID tid t)" "tallies 0 (SetThingStateByUUID tid v)" "tallies 0 (SetThingTags tid w)"
  unfolding SetThingNameByUUID_def SetThingTypeByUUID_def SetThingStateByUUID_def SetThingTags_def
  by (rule tallies_stmt, (erule update_counts | (auto split: if_splits dest: update_counts)))+

lemma tallies_series_columns:
  "tallies 0 (SetTimeseriesName tid v)" "tallies 0 (SetTimeseriesSiUnit tid v)" "tallies 0 (SetTimeseriesThing tid t)"
  "tallies 0 (SetTimeseriesLowerBound tid b)" "tallies 0 (SetTimeseriesUpperBound tid b)" "tallies 0 (SetTimeseriesTags tid w)"
  unfolding SetTimeseriesName_def SetTimeseriesSiUnit_def SetTimeseriesThing_def SetTimeseriesLowerBound_def SetTimeseriesUpperBound_def
    SetTimeseriesTags_def
  by (rule tallies_stmt, (erule update_counts | (auto split: if_splits dest: update_counts)))+

interpretation rename_group: counted_operation "UpdateGroupNameByUuid gid name" for gid name
  unfolding UpdateGroupNameByUuid_def SetGroupNameByUUID_def Let_def
  by unfold_locales (auto intro!: atomic_stmt tallies_stmt simp: update_none split: if_splits)

lemma drop_groups_none: "filter P (groups s) = [] \<Longrightarrow> drop_groups P s = s"
  by (simp add: drop_groups_def Let_def filter_none)

interpretation delete_group: counted_operation "DeleteGroup gid" for gid
  unfolding DeleteGroup_def DeleteGroup_query_def
  by unfold_locales (auto intro!: atomic_stmt tallies_stmt simp: drop_groups_none)

interpretation update_things: counted_operation "UpdateByUuid p" for p
  unfolding UpdateByUuid_def by unfold_locales (auto intro!: tallies_with_tx tallies_andthen tallies_opt_step tallies_thing_columns)

interpretation update_timeseries: counted_operation "UpdateTimeseries p" for p
  unfolding UpdateTimeseries_def by unfold_locales (auto intro!: tallies_with_tx tallies_andthen tallies_opt_step tallies_series_columns)

interpretation update_alerts: counted_operation "UpdateAlertByUuid aid p" for aid p
  unfolding UpdateAlertByUuid_def by unfold_locales (auto intro!: tallies_with_tx tallies_andthen tallies_opt_step tallies_alert_columns)

interpretation delete_alert: counted_operation "DeleteAlert aid" for aid
  unfolding DeleteAlert_def DeleteAlert_query_def
  by unfold_locales (auto intro!: atomic_stmt tallies_stmt simp: filter_none)

interpretation sign_revision: counted_operation "SignCodeRevision pid n signer" for pid n signer
  unfolding SignCodeRevision_def SignProgramCodeRevision_def Let_def
  by unfold_locales (auto intro!: atomic_stmt tallies_stmt simp: update_none split: if_splits)

interpretation delete_revision: counted_operation "DeleteProgramCodeRevision pid n" for pid n
  unfolding DeleteProgramCodeRevision_def DeleteProgramCodeRevision_query_def
  by unfold_locales (auto intro!: atomic_stmt tallies_stmt simp: filter_none)

interpretation delete_program: counted_operation "DeleteProgram pid" for pid
  unfolding DeleteProgram_def DeleteProgram_query_def
  by unfold_locales (auto intro!: atomic_stmt tallies_stmt simp: filter_none simp del: set_map)

interpretation update_program: counted_operation "UpdateProgramByUUID a" for a
  unfolding UpdateProgramByUUID_def
  by unfold_locales (auto intro!: atomic_stmt tallies_stmt simp: update_none)

section \<open>The handlers\<close>

lemma atomic_then_ret: "atomic m \<Longrightarrow> atomic (andthen m (\<lambda>a. ret (f a)))"
  unfolding atomic_def by (auto elim!: andthen_cases simp: ret_def)

lemma atomic_reads_then:
  assumes "reads m" "\<And>a. atomic (k a)"
  shows "atomic (andthen m k)"
  unfolding atomic_def
proof (intro allI impI)
  fix s e s'
  assume "andthen m k s = (Inl e, s')"
  then show "tables s' = tables s" using assms by (elim andthen_cases) (metis readsD atomicD)+
qed

lemma clean_authorized [intro]:
  assumes "\<And>ctx. clean (k ctx)"
  shows "clean (authorized sha ctx token action resource k)"
  unfolding clean_def
proof (intro allI impI)
  fix s e s'
  assume a: "authorized sha ctx token action resource k s = (Problem e, s')"
  obtain r ctx' s1 where u: "UserHasManyAccessViaToken sha ctx token action [resource] s = (r, ctx', s1)" by (metis prod.collapse)
  have t: "tables s1 = tables s" by (rule UserHasMany_tables [OF u])
  have "s' = s1 \<or> k ctx' s1 = (Problem e, s')"
    using a u by (auto simp: authorized_def authorizePolicyGrant_def UserHasAccess_single split: sum.splits if_splits)
  with assms [of ctx'] t show "tables s' = tables s" unfolding clean_def by metis
qed

interpretation delete_token: counted_operation "DeleteTokenFromUser_query uid tid" for uid tid
  unfolding DeleteTokenFromUser_query_def
  by unfold_locales (auto intro!: atomic_stmt tallies_stmt filter_True simp: filter_empty_conv)

interpretation delete_policy: counted_operation "DeletePolicyByUUID pid" for pid
  unfolding DeletePolicyByUUID_def
  by unfold_locales (auto intro!: atomic_stmt tallies_stmt simp: filter_none)

lemma alert_merge_Inl: "alert_merge newid p s = (Inl e, s') \<Longrightarrow> s' = s"
  by (auto simp: alert_merge_def Let_def split: if_splits option.splits list.splits)

lemma insert_policy_Inl: "insert_policy p s = (Inl e, s') \<Longrightarrow> s' = s"
  by (auto simp: insert_policy_def Let_def split: if_splits)

lemma atomic_changes:
  "atomic (AddGroup newid name)" "atomic (UpdateUser uid up)" "atomic (AddTokenToUser sha newid random uid name)"
  "atomic (DeleteTokenFromUser uid tid)" "atomic (Policy_Add newid np)" "atomic (Policy_Update pid pu)" "atomic (Policy_Delete pid)"
  "atomic (AddThing newid pids name typ creator tags)" "atomic (AddTimeseries newid pids opt)" "atomic (CreateAlert newid ca)"
  "atomic (AddProgram newid pids ap)" "atomic (UpdateProgramByUuid pid uq)" "atomic (AddCodeRevision sha pid author code)"
  subgoal by (simp add: AddGroup_def)
  subgoal by (simp add: UpdateUser_def)
  subgoal by (auto simp: AddTokenToUser_def AddTokenToUser_query_def Let_def intro!: atomic_then_ret atomic_stmt split: if_splits)
  subgoal by (simp add: DeleteTokenFromUser_def or_not_found_def delete_token.not_found_clean)
  subgoal by (auto simp: Policy_Add_def CreatePolicy_def intro!: atomic_reads_then atomic_stmt dest: insert_policy_Inl split: option.splits)
  subgoal by (simp add: Policy_Update_def)
  subgoal by (simp add: Policy_Delete_def delete_policy.not_found_clean)
  subgoal by (simp add: AddThing_def atomic_then_ret)
  subgoal by (simp add: AddTimeseries_def atomic_then_ret)
  subgoal by (auto simp: CreateAlert_def CreateAlert_query_def intro!: atomic_stmt dest: alert_merge_Inl)
  subgoal by (auto simp: AddProgram_def CreateProgram_def intro!: atomic_then_ret atomic_stmt split: if_splits prod.splits sum.splits)
  subgoal by (auto simp: UpdateProgramByUuid_def FindProgramByUUID_def update_program.not_found_clean intro!: reads_atomic)
  subgoal by (auto simp: AddCodeRevision_def CreateCodeRevision_def intro!: atomic_then_ret atomic_stmt split: if_splits)
  done

lemma clean_created: "atomic m \<Longrightarrow> clean (call m (\<lambda>x. answer (JSON n x)))"
  by (rule clean_call_answer) auto

lemma clean_emptied: "atomic m \<Longrightarrow> clean (call m (\<lambda>x. answer (Empty n)))"
  by (rule clean_call_answer) auto



lemmas clean_steps = clean_GetDB clean_GetUserUUID clean_GetDomainToken clean_decodeJSONBody clean_authorized clean_answer
  clean_created clean_emptied atomic_changes

lemma clean_account_handlers:
  "clean (AddNewTokenToUser_handler sha newid random cx uid body1)" "clean (UpdateUserByUuid_handler parse cx uid body2)"
  "clean (DeleteTokenForUser_handler cx uid tid)" "clean (AddGroup_handler newid cx body3)"
  "clean (UpdateGroupByUuid_handler cx gid body3)" "clean (DeleteGroupByUuid_handler cx gid)"
  unfolding AddNewTokenToUser_handler_def UpdateUserByUuid_handler_def DeleteTokenForUser_handler_def AddGroup_handler_def
    UpdateGroupByUuid_handler_def DeleteGroupByUuid_handler_def
  by (auto intro!: clean_steps rename_group.answered_clean delete_group.answered_clean split: option.splits)

lemma clean_policy_handlers:
  "clean (AddPolicy_handler sha parse newid cx body1)" "clean (UpdatePolicyByUuid_handler sha parse cx pid body2)"
  "clean (DeletePolicyByUuid_handler sha cx pid)"
  unfolding AddPolicy_handler_def UpdatePolicyByUuid_handler_def DeletePolicyByUuid_handler_def Let_def Policy_FindByUuid_def
  by (auto intro!: clean_steps clean_call_read [OF reads_FindPolicies(2)] split: option.splits)

lemma clean_object_handlers:
  "clean (AddThing_handler newid pids cx body1)" "clean (UpdateThingByUuid_handler cx tid body2)"
  "clean (AddTimeSeries_handler parse newid pids cx body3)" "clean (UpdateTimeseriesByUuid_handler parse cx tid body4)"
  "clean (CreateAlert_handler newid cx body5)" "clean (UpdateAlertByUuid_handler cx aid body6)" "clean (DeleteAlertByUuid_handler cx aid)"
  unfolding AddThing_handler_def UpdateThingByUuid_handler_def AddTimeSeries_handler_def UpdateTimeseriesByUuid_handler_def
    CreateAlert_handler_def UpdateAlertByUuid_handler_def DeleteAlertByUuid_handler_def
  by (auto intro!: clean_steps update_things.answered_clean update_timeseries.answered_clean
      update_alerts.answered_clean delete_alert.answered_clean split: sum.splits)

lemma clean_check_schedule [intro]: "clean k \<Longrightarrow> clean (check_schedule cron schedule k)"
  by (auto simp: check_schedule_def split: option.splits)

lemma clean_program_handlers:
  "clean (AddProgram_handler cron newid pids cx body1)" "clean (UpdateProgramByUuid_handler cron cx pid body2)"
  "clean (DeleteProgramByUuid_handler cx pid)" "clean (AddProgramCodeRevision_handler sha cx pid contentLength body3)"
  "clean (SignProgramCodeRevisions_handler cx pid n)" "clean (DeleteProgramCodeRevisions_handler cx pid n)"
  unfolding AddProgram_handler_def UpdateProgramByUuid_handler_def DeleteProgramByUuid_handler_def AddProgramCodeRevision_handler_def
    SignProgramCodeRevisions_handler_def DeleteProgramCodeRevisions_handler_def
  by (auto intro!: clean_steps clean_check_schedule delete_program.answered_clean sign_revision.answered_clean
      delete_revision.answered_clean split: option.splits)

section \<open>What a refusal leaves behind\<close>

text \<open>
  A new user is committed before the handler reads the user's groups for its answer: when the connection
  breaks between the two, the answer is a problem and the user exists.
\<close>

definition served :: request_context where
  "served = \<lparr>cx_db = True, cx_user = None, cx_domaintoken = None, cx_cache = None\<rparr>"

definition late_fault :: "int db" where
  "late_fault = seed_user\<lparr>faults := [None, None, None, Some ErrorUndefined]\<rparr>"

lemma AddUser_not_clean: "\<not> clean (AddUser_handler ''d1'' ''e1'' ten_ids served (Some ''alice'') :: (int, rest_User) handler)"
proof -
  let ?r = "AddUser_handler ''d1'' ''e1'' ten_ids served (Some ''alice'') late_fault"
  have "is_Problem (fst ?r)" "length (users (snd ?r)) = 2" "length (users late_fault) = 1" by code_simp+
  then obtain e where "?r = (Problem e, snd ?r)" by (metis answer.collapse(4) prod.collapse)
  moreover have "tables (snd ?r) \<noteq> tables late_fault"
    using \<open>length (users (snd ?r)) = 2\<close> \<open>length (users late_fault) = 1\<close> tables_fields(1) by fastforce
  ultimately show ?thesis unfolding clean_def by metis
qed

text \<open>
  C23: A refused request changes nothing.  Whenever one of these handlers answers with a problem, be it for the
  body, the caller's rights, a missing row, a constraint, or a connection that breaks before any of its
  statements, every table is as it was: those that create or change tokens, memberships, groups, policies, things,
  time series, alerts, programs and code revisions, and those that delete them, things and time series aside.  The handler that creates a user is an exception: it may
  report a failure for a user that exists from then on.
\<close>

theorem refused_requests_change_nothing:
  "clean (AddNewTokenToUser_handler sha newid random cx uid token_body)
   \<and> clean (UpdateUserByUuid_handler parse cx uid user_body)
   \<and> clean (DeleteTokenForUser_handler cx uid tid)
   \<and> clean (AddGroup_handler newid cx name_body)
   \<and> clean (UpdateGroupByUuid_handler cx gid name_body)
   \<and> clean (DeleteGroupByUuid_handler cx gid)
   \<and> clean (AddPolicy_handler sha parse newid cx policy_body)
   \<and> clean (UpdatePolicyByUuid_handler sha parse cx pid policy_update)
   \<and> clean (DeletePolicyByUuid_handler sha cx pid)
   \<and> clean (AddThing_handler newid pids cx thing_body)
   \<and> clean (UpdateThingByUuid_handler cx tid thing_update)
   \<and> clean (AddTimeSeries_handler parse newid pids cx series_body)
   \<and> clean (UpdateTimeseriesByUuid_handler parse cx tid series_update)
   \<and> clean (CreateAlert_handler newid cx alert_body)
   \<and> clean (UpdateAlertByUuid_handler cx aid alert_update)
   \<and> clean (DeleteAlertByUuid_handler cx aid)
   \<and> clean (AddProgram_handler cron newid pids cx program_body)
   \<and> clean (UpdateProgramByUuid_handler cron cx pid program_update)
   \<and> clean (DeleteProgramByUuid_handler cx pid)
   \<and> clean (AddProgramCodeRevision_handler sha cx pid contentLength code_body)
   \<and> clean (SignProgramCodeRevisions_handler cx pid n)
   \<and> clean (DeleteProgramCodeRevisions_handler cx pid n)
   \<and> \<not> clean (AddUser_handler ''d1'' ''e1'' ten_ids served (Some ''alice'') :: (int, rest_User) handler)"
  by (intro conjI clean_account_handlers clean_policy_handlers clean_object_handlers clean_program_handlers AddUser_not_clean)

end
