(* ===== verification/Routes.thy ===== *)
theory Routes
  imports Middleware Programs GoNumbers
begin

text \<open>
  The generated routes in front of the handlers (\<^verbatim>\<open>api/aapije/rest/server.gen.go\<close>), for programs and
  alerts: a route reads its path parameters, puts the scopes of the operation into the context and runs
  the handler behind the policy validator.  How a parameter is read (\<^verbatim>\<open>oapi-codegen/runtime\<close>,
  \<^verbatim>\<open>google/uuid\<close>) is an argument: \<open>bind\<close> gives the value or the text of an error.  The rate control
  and the optional OpenAPI validator, which run between the two, are left out.
\<close>

type_synonym order = "(string \<times> string list) list \<Rightarrow> (string \<times> string list) list"

definition InvalidParamFormat :: "string \<Rightarrow> string \<Rightarrow> 'p answer" where
  "InvalidParamFormat name err = Text 400 (''Invalid format for parameter '' @ name @ '': '' @ err)"

definition scoped :: "(string \<Rightarrow> string) \<Rightarrow> order \<Rightarrow> string \<Rightarrow> http_request \<Rightarrow> (request_context \<Rightarrow> ('v, 'p) handler)
    \<Rightarrow> 'v db registry \<Rightarrow> 'p answer \<times> 'v db registry" where
  "scoped sha order scope rq = PolicyValidator sha order (rq\<lparr>rq_Scopes := Some [scope]\<rparr>)"

definition uuid_route :: "(string \<Rightarrow> string + uuid) \<Rightarrow> (string \<Rightarrow> string) \<Rightarrow> order \<Rightarrow> string \<Rightarrow> http_request
    \<Rightarrow> (uuid \<Rightarrow> request_context \<Rightarrow> ('v, 'p) handler) \<Rightarrow> 'v db registry \<Rightarrow> 'p answer \<times> 'v db registry" where
  "uuid_route bind sha order scope rq h reg = (case bind (rq_URLParam rq ''uuid'') of
       Inl err \<Rightarrow> (InvalidParamFormat ''uuid'' err, reg)
     | Inr oid \<Rightarrow> scoped sha order scope rq (h oid) reg)"

text \<open>Routes on one revision of a program.\<close>

definition revision_route :: "(string \<Rightarrow> string + uuid) \<Rightarrow> (string \<Rightarrow> string + int) \<Rightarrow> (string \<Rightarrow> string) \<Rightarrow> order \<Rightarrow> string \<Rightarrow> http_request
    \<Rightarrow> (uuid \<Rightarrow> int \<Rightarrow> request_context \<Rightarrow> ('v, 'p) handler) \<Rightarrow> 'v db registry \<Rightarrow> 'p answer \<times> 'v db registry" where
  "revision_route bind bindi sha order scope rq h reg = (case bind (rq_URLParam rq ''uuid'') of
       Inl err \<Rightarrow> (InvalidParamFormat ''uuid'' err, reg)
     | Inr oid \<Rightarrow> (case bindi (rq_URLParam rq ''revision_id'') of
           Inl err \<Rightarrow> (InvalidParamFormat ''revision_id'' err, reg)
         | Inr n \<Rightarrow> scoped sha order scope rq (h oid n) reg))"

definition AddProgram_route where
  "AddProgram_route cron newid pids sha order rq body =
     scoped sha order ''create:programs'' rq (\<lambda>cx. AddProgram_handler cron newid pids cx body)"

definition DeleteProgramByUuid_route where
  "DeleteProgramByUuid_route bind sha order rq =
     uuid_route bind sha order ''delete:programs/{uuid}'' rq (\<lambda>pid cx. DeleteProgramByUuid_handler cx pid)"

definition FindProgramByUuid_route where
  "FindProgramByUuid_route bind sha order rq =
     uuid_route bind sha order ''read:programs/{uuid}'' rq (\<lambda>pid cx. FindProgramByUuid_handler cx pid)"

definition UpdateProgramByUuid_route where
  "UpdateProgramByUuid_route cron bind sha order rq body =
     uuid_route bind sha order ''update:programs/{uuid}'' rq (\<lambda>pid cx. UpdateProgramByUuid_handler cron cx pid body)"

definition GetCodeFromProgram_route where
  "GetCodeFromProgram_route bind sha order rq =
     uuid_route bind sha order ''read:programs/{uuid}/code'' rq (\<lambda>pid cx. GetCodeFromProgram_handler cx pid)"

definition AddProgramCodeRevision_route where
  "AddProgramCodeRevision_route hash bind sha order rq len body =
     uuid_route bind sha order ''create:programs/{uuid}/code'' rq (\<lambda>pid cx. AddProgramCodeRevision_handler hash cx pid len body)"

definition GetProgramCodeRevisions_route where
  "GetProgramCodeRevisions_route bind sha order rq =
     uuid_route bind sha order ''read:programs/{uuid}/revisions'' rq (\<lambda>pid cx. GetProgramCodeRevisions_handler cx pid)"

definition DeleteProgramCodeRevisions_route where
  "DeleteProgramCodeRevisions_route bind bindi sha order rq =
     revision_route bind bindi sha order ''delete:programs/{uuid}/revisions/{revision_id}'' rq
       (\<lambda>pid n cx. DeleteProgramCodeRevisions_handler cx pid n)"

definition SignProgramCodeRevisions_route where
  "SignProgramCodeRevisions_route bind bindi sha order rq =
     revision_route bind bindi sha order ''update:programs/{uuid}/revisions/{revision_id}'' rq
       (\<lambda>pid n cx. SignProgramCodeRevisions_handler cx pid n)"

definition ExecuteProgramWebhook_route where
  "ExecuteProgramWebhook_route bind sha order rq =
     uuid_route bind sha order ''create:programs/{uuid}/webhook'' rq (\<lambda>pid cx. ExecuteProgramWebhook_handler)"

definition CreateAlert_route where
  "CreateAlert_route newid sha order rq body = scoped sha order ''create:alerts'' rq (\<lambda>cx. CreateAlert_handler newid cx body)"

definition FindAlertByUuid_route where
  "FindAlertByUuid_route bind sha order rq =
     uuid_route bind sha order ''read:alerts/{uuid}'' rq (\<lambda>aid cx. FindAlertByUuid_handler cx aid)"

definition UpdateAlertByUuid_route where
  "UpdateAlertByUuid_route bind sha order rq body =
     uuid_route bind sha order ''update:alerts/{uuid}'' rq (\<lambda>aid cx. UpdateAlertByUuid_handler cx aid body)"

definition DeleteAlertByUuid_route where
  "DeleteAlertByUuid_route bind sha order rq =
     uuid_route bind sha order ''delete:alerts/{uuid}'' rq (\<lambda>aid cx. DeleteAlertByUuid_handler cx aid)"

section \<open>Who can have code scheduled\<close>

lemma scope_split: "CHR '':'' \<notin> set action \<Longrightarrow> CHR '':'' \<notin> set resource \<Longrightarrow>
  scope_request P (action @ '':'' @ resource) = Some (action, scope_resource P resource)"
proof -
  assume a: "CHR '':'' \<notin> set action" "CHR '':'' \<notin> set resource"
  have "split_on (CHR '':'') (action @ CHR '':'' # resource) = [action, resource]"
    using split_on_append_sep [OF a(1), of resource] split_on_absent [OF a(2)] by simp
  then show ?thesis by (simp add: scope_request_def)
qed


lemma sign_handler_effect:
  assumes "SignProgramCodeRevisions_handler cx pid n s = (ans, s')"
  shows "tables s' = tables s \<or> (\<exists>uid. cx_user cx = Some uid
    \<and> tables s' = tables (s\<lparr>revisions := map (sign_row uid pid (to_i32 n) (clock s)) (revisions s)\<rparr>))"
proof (cases "\<exists>uid. cx_db cx \<and> cx_user cx = Some uid")
  case False
  with assms show ?thesis
    by (auto simp: SignProgramCodeRevisions_handler_def GetDB_def GetUserUUID_def split: if_splits option.splits)
next
  case True
  then obtain uid where u: "cx_db cx" "cx_user cx = Some uid" by blast
  obtain r s1 where m: "SignCodeRevision pid n uid s = (r, s1)" by force
  have "s' = s1" using assms u m
    by (cases r) (auto simp: SignProgramCodeRevisions_handler_def GetDB_def GetUserUUID_def call_def none_is_404_def answer_def)
  moreover have "tables s1 = tables s" if "r = Inl e" for e
    by (rule stmt_Inl [OF m [unfolded that SignCodeRevision_def SignProgramCodeRevision_def]]) (auto simp: Let_def split: if_splits)
  moreover have "tables s1 = tables (s\<lparr>revisions := map (sign_row uid pid (to_i32 n) (clock s)) (revisions s)\<rparr>)" if "r = Inr c" for c
    using SignCodeRevision_Inr(2) [OF m [unfolded that]] by (simp add: tables_def)
  ultimately show ?thesis using u by (cases r) auto
qed

lemma sign_scope:
  assumes "open_brace \<notin> set (P ''uuid'')" "open_brace \<notin> set (P ''revision_id'')"
  shows "scope_request P ''update:programs/{uuid}/revisions/{revision_id}''
    = Some (action_str Update, ''programs/'' @ P ''uuid'' @ ''/revisions/'' @ P ''revision_id'')"
proof -
  have "scope_request P (''update'' @ '':'' @ ''programs/{uuid}/revisions/{revision_id}'')
      = Some (''update'', scope_resource P ''programs/{uuid}/revisions/{revision_id}'')"
    by (rule scope_split) simp_all
  moreover have "scope_resource P (template [(''programs/'', ''uuid''), (''/revisions/'', ''revision_id'')] [])
      = filled P [(''programs/'', ''uuid''), (''/revisions/'', ''revision_id'')] []"
    using assms by (intro scope_resource_template) simp_all
  ultimately show ?thesis by simp
qed



text \<open>A user who may update programs, except one; its name in two spellings, both read as that program.\<close>

abbreviation program_id :: string where
  "program_id \<equiv> ''0000000a-0000-4000-8000-000000000001''"

abbreviation program_id_upper :: string where
  "program_id_upper \<equiv> ''0000000A-0000-4000-8000-000000000001''"

definition sign_db :: "bool \<Rightarrow> unit db" where
  "sign_db protected = empty_db\<lparr>
     users := [\<lparr>u_uuid = ''u1'', u_name = ''ann'', u_state = ''active''\<rparr>],
     user_tokens := [\<lparr>tk_uuid = ''t1'', tk_user = ''u1'', tk_name = ''default'', tk_hash = ''secret'', tk_created = 0\<rparr>],
     user_groups := [(''u1'', ''g1'')],
     group_policies := [\<lparr>gp_uuid = ''p1'', gp_group = ''g1'', gp_priority = 5, gp_effect = Allow, gp_action = Update, gp_resource = ''programs/%''\<rparr>]
       @ (if protected then [\<lparr>gp_uuid = ''p2'', gp_group = ''g1'', gp_priority = 1, gp_effect = Deny, gp_action = Update,
            gp_resource = ''programs/'' @ program_id @ ''/%''\<rparr>] else []),
     revisions := [\<lparr>rv_program = program_id, rv_revision = 2, rv_created = 0, rv_signed = None, rv_created_by = Some ''u1'',
       rv_signed_by = None, rv_code = ''a := 2'', rv_checksum = ''''\<rparr>]\<rparr>"

definition sign_registry :: "bool \<Rightarrow> unit db registry" where
  "sign_registry protected =
     [(''home'', \<lparr>dc_C = Some (sign_db protected), dc_Domain = ''home'', dc_ConnectionString = ''pg'', dc_quit = True\<rparr>)]"

definition sign_request :: "string \<Rightarrow> http_request" where
  "sign_request x = \<lparr>rq_BasicAuth = Some (''home'', ''secret''), rq_Scopes = None,
     rq_URLParam = (\<lambda>name. if name = ''uuid'' then x else ''2'')\<rparr>"

definition signers :: "unit db registry \<Rightarrow> uuid option list" where
  "signers reg = (case stored reg ''home'' of None \<Rightarrow> [] | Some s \<Rightarrow> map rv_signed_by (revisions s))"

lemma signers_stored: "signers reg \<noteq> signers reg' \<Longrightarrow> stored reg' \<noteq> stored reg"
  by (auto simp: signers_def)


text \<open>
  C34: The check looks at the spelling of a name, the handler at what it names.  The UUID of a
  program may be written in upper case; a rule that denies signing the code of that program, which
  refuses the request in the usual spelling, does not refuse it in the other one, and the same
  revision is signed.
\<close>

theorem deny_evaded_by_spelling:
  assumes "bind program_id = Inr program_id" "bind program_id_upper = Inr program_id" "bindi ''2'' = Inr 2"
  shows "\<not> permitted (sign_db True) ''u1'' Update (''programs/'' @ program_id @ ''/revisions/2'')
    \<and> fst (SignProgramCodeRevisions_route bind bindi id id (sign_request program_id) (sign_registry True)) = Problem ErrorForbidden
    \<and> fst (SignProgramCodeRevisions_route bind bindi id id (sign_request program_id_upper) (sign_registry True)) = Empty 204
    \<and> signers (snd (SignProgramCodeRevisions_route bind bindi id id (sign_request program_id_upper) (sign_registry True))) = [Some ''u1'']"
proof -
  let ?v = "\<lambda>x. scoped id id ''update:programs/{uuid}/revisions/{revision_id}'' (sign_request x)
     (\<lambda>cx. SignProgramCodeRevisions_handler cx program_id 2) (sign_registry True)"
  have route: "SignProgramCodeRevisions_route bind bindi id id (sign_request x) (sign_registry True) = ?v x" if "bind x = Inr program_id" for x
    using that assms(3) by (simp add: SignProgramCodeRevisions_route_def revision_route_def sign_request_def)
  have "\<not> permitted (sign_db True) ''u1'' Update (''programs/'' @ program_id @ ''/revisions/2'')" by code_simp
  moreover have "fst (?v program_id) = Problem ErrorForbidden" by code_simp
  moreover have "fst (?v program_id_upper) = Empty 204" "signers (snd (?v program_id_upper)) = [Some ''u1'']" by code_simp+
  ultimately show ?thesis unfolding route [OF assms(1)] route [OF assms(2)] by blast
qed

theorem deny_evaded_by_spelling_witness:
  "fst (SignProgramCodeRevisions_route (\<lambda>x. if x = program_id_upper then Inr program_id else Inr x) (\<lambda>_. Inr 2) id id
     (sign_request program_id_upper) (sign_registry True)) = Empty 204"
  using deny_evaded_by_spelling [of "\<lambda>x. if x = program_id_upper then Inr program_id else Inr x" "\<lambda>_. Inr 2"] by simp

end
