(* ===== verification/ApiRoutes.thy ===== *)
theory ApiRoutes
  imports Routes SeriesHandlers
begin

text \<open>
  The generated routes (\<^verbatim>\<open>api/aapije/rest/server.gen.go\<close>) for users, groups, policies, things and
  time series, and those of alerts and programs that read query parameters.  What
  \<^verbatim>\<open>oapi-codegen/runtime\<close> makes of a query parameter is an argument, a record of readers by name: \<open>Inl\<close>
  the text of an error, or the value, \<^const>\<open>None\<close> where an optional parameter is absent.
\<close>

record 'v query =
  qr_Get :: "string \<Rightarrow> string"
  qr_int :: "string \<Rightarrow> string + int option"
  qr_text :: "string \<Rightarrow> string + string option"
  qr_list :: "string \<Rightarrow> string + string list option"
  qr_uuids :: "string \<Rightarrow> string + uuid list option"
  qr_number :: "string \<Rightarrow> string + 'v option"
  qr_required_uuids :: "string \<Rightarrow> string + uuid list"
  qr_required_text :: "string \<Rightarrow> string + string"
  qr_required_int :: "string \<Rightarrow> string + int"
  qr_required_instant :: "string \<Rightarrow> string + int"

definition RequiredParam :: "string \<Rightarrow> 'p answer" where
  "RequiredParam name = Text 400 (''Query argument '' @ name @ '' is required, but not found'')"

definition bound :: "(string \<Rightarrow> string + 'a) \<Rightarrow> string \<Rightarrow> ('a \<Rightarrow> ('s, 'p) server) \<Rightarrow> ('s, 'p) server" where
  "bound read name k reg = (case read name of Inl err \<Rightarrow> (InvalidParamFormat name err, reg) | Inr a \<Rightarrow> k a reg)"

definition needed :: "'v query \<Rightarrow> (string \<Rightarrow> string + 'a) \<Rightarrow> string \<Rightarrow> ('a \<Rightarrow> ('s, 'p) server) \<Rightarrow> ('s, 'p) server" where
  "needed Q read name k reg = (if qr_Get Q name = [] then (RequiredParam name, reg) else bound read name k reg)"

text \<open>A route with a UUID in its path and parameters in its query.\<close>

definition with_uuid :: "(string \<Rightarrow> string + uuid) \<Rightarrow> http_request \<Rightarrow> (uuid \<Rightarrow> ('s, 'p) server) \<Rightarrow> ('s, 'p) server" where
  "with_uuid bind rq = bound (\<lambda>name. bind (rq_URLParam rq name)) ''uuid''"

section \<open>Users\<close>

definition AddUser_route where
  "AddUser_route gid uid pids sha order rq body = scoped sha order ''create:users'' rq (\<lambda>cx. AddUser_handler gid uid pids cx body)"

definition FindUsers_route where
  "FindUsers_route Q sha order rq = bound (qr_int Q) ''limit'' (\<lambda>limit. bound (qr_int Q) ''offset'' (\<lambda>offset.
     scoped sha order ''read:users'' rq (\<lambda>cx. FindUsers_handler sha cx limit offset)))"

definition Whoami_route where
  "Whoami_route sha order rq = scoped sha order ''read:users/me'' rq (Whoami_handler sha)"

definition DeleteUserByUuid_route where
  "DeleteUserByUuid_route F bind sha order rq =
     uuid_route bind sha order ''delete:users/{uuid}'' rq (\<lambda>uid cx. DeleteUserByUuid_handler F cx uid)"

definition FindUserByUuid_route where
  "FindUserByUuid_route bind sha order rq =
     uuid_route bind sha order ''read:users/{uuid}'' rq (\<lambda>uid cx. FindUserByUuid_handler cx uid)"

definition UpdateUserByUuid_route where
  "UpdateUserByUuid_route parse bind sha order rq body =
     uuid_route bind sha order ''update:users/{uuid}'' rq (\<lambda>uid cx. UpdateUserByUuid_handler parse cx uid body)"

definition FindPoliciesForUser_route where
  "FindPoliciesForUser_route bind sha order rq =
     uuid_route bind sha order ''read:users/{uuid}/policies'' rq (\<lambda>uid cx. FindPoliciesForUser_handler cx uid)"

definition SetRequestRateForUser_route where
  "SetRequestRateForUser_route bind sha order rq =
     uuid_route bind sha order ''update:users/{uuid}/rate'' rq (\<lambda>uid cx. SetRequestRateForUser_handler)"

definition FindTokensForUser_route where
  "FindTokensForUser_route bind sha order rq =
     uuid_route bind sha order ''read:users/{uuid}/tokens'' rq (\<lambda>uid cx. FindTokensForUser_handler cx uid)"

definition AddNewTokenToUser_route where
  "AddNewTokenToUser_route newid random bind sha order rq body =
     uuid_route bind sha order ''create:users/{uuid}/tokens'' rq (\<lambda>uid cx. AddNewTokenToUser_handler sha newid random cx uid body)"

definition DeleteTokenForUser_route where
  "DeleteTokenForUser_route bind sha order rq = with_uuid bind rq (\<lambda>uid.
     bound (\<lambda>name. bind (rq_URLParam rq name)) ''token_uuid'' (\<lambda>tid.
     scoped sha order ''delete:users/{uuid}/tokens/{token_uuid}'' rq (\<lambda>cx. DeleteTokenForUser_handler cx uid tid)))"

section \<open>Groups\<close>

definition FindGroups_route where
  "FindGroups_route Q sha order rq = bound (qr_int Q) ''limit'' (\<lambda>limit. bound (qr_int Q) ''offset'' (\<lambda>offset.
     scoped sha order ''read:groups'' rq (\<lambda>cx. FindGroups_handler sha cx limit offset)))"

definition AddGroup_route where
  "AddGroup_route newid sha order rq body = scoped sha order ''create:groups'' rq (\<lambda>cx. AddGroup_handler newid cx body)"

definition DeleteGroupByUuid_route where
  "DeleteGroupByUuid_route bind sha order rq =
     uuid_route bind sha order ''delete:groups/{uuid}'' rq (\<lambda>gid cx. DeleteGroupByUuid_handler cx gid)"

definition FindGroupByUuid_route where
  "FindGroupByUuid_route bind sha order rq =
     uuid_route bind sha order ''read:groups/{uuid}'' rq (\<lambda>gid cx. FindGroupByUuid_handler cx gid)"

definition UpdateGroupByUuid_route where
  "UpdateGroupByUuid_route bind sha order rq body =
     uuid_route bind sha order ''update:groups/{uuid}'' rq (\<lambda>gid cx. UpdateGroupByUuid_handler cx gid body)"

definition FindPoliciesForGroup_route where
  "FindPoliciesForGroup_route bind sha order rq =
     uuid_route bind sha order ''read:groups/{uuid}'' rq (\<lambda>gid cx. FindPoliciesForGroup_handler cx gid)"

section \<open>Policies\<close>

definition FindPolicies_route where
  "FindPolicies_route Q sha order rq = bound (qr_int Q) ''offset'' (\<lambda>offset. bound (qr_int Q) ''limit'' (\<lambda>limit.
     bound (qr_uuids Q) ''group_uuids'' (\<lambda>gids. scoped sha order ''read:policies'' rq (\<lambda>cx. FindPolicies_handler sha cx limit offset gids))))"

definition AddPolicy_route where
  "AddPolicy_route parse newid sha order rq body =
     scoped sha order ''create:policies'' rq (\<lambda>cx. AddPolicy_handler sha parse newid cx body)"

definition ExplainPolicyDecision_route where
  "ExplainPolicyDecision_route Q sha order rq = needed Q (qr_required_text Q) ''action'' (\<lambda>action. needed Q (qr_required_text Q) ''resource'' (\<lambda>resource.
     scoped sha order ''read:policies'' rq (\<lambda>cx. ExplainPolicyDecision_handler sha cx action resource)))"

definition DeletePolicyByUuid_route where
  "DeletePolicyByUuid_route bind sha order rq =
     uuid_route bind sha order ''delete:policies/{uuid}'' rq (\<lambda>pid cx. DeletePolicyByUuid_handler sha cx pid)"

definition FindPolicyByUuid_route where
  "FindPolicyByUuid_route bind sha order rq =
     uuid_route bind sha order ''read:policies/{uuid}'' rq (\<lambda>pid cx. FindPolicyByUuid_handler cx pid)"

definition UpdatePolicyByUuid_route where
  "UpdatePolicyByUuid_route parse bind sha order rq body =
     uuid_route bind sha order ''update:policies/{uuid}'' rq (\<lambda>pid cx. UpdatePolicyByUuid_handler sha parse cx pid body)"

section \<open>Things\<close>

definition FindThings_route where
  "FindThings_route Q sha order rq = bound (qr_int Q) ''limit'' (\<lambda>limit. bound (qr_int Q) ''offset'' (\<lambda>offset. bound (qr_list Q) ''tags'' (\<lambda>tags.
     scoped sha order ''read:things'' rq (\<lambda>cx. FindThings_handler sha cx tags limit offset))))"

definition AddThing_route where
  "AddThing_route newid pids sha order rq body = scoped sha order ''create:things'' rq (\<lambda>cx. AddThing_handler newid pids cx body)"

definition DeleteThingByUuid_route where
  "DeleteThingByUuid_route bind sha order rq =
     uuid_route bind sha order ''delete:things/{uuid}'' rq (\<lambda>tid cx. DeleteThingByUuid_handler cx tid)"

definition FindThingByUuid_route where
  "FindThingByUuid_route bind sha order rq =
     uuid_route bind sha order ''read:things/{uuid}'' rq (\<lambda>tid cx. FindThingByUuid_handler cx tid)"

definition UpdateThingByUuid_route where
  "UpdateThingByUuid_route bind sha order rq body =
     uuid_route bind sha order ''update:things/{uuid}'' rq (\<lambda>tid cx. UpdateThingByUuid_handler cx tid body)"

definition FindTimeSeriesForThing_route where
  "FindTimeSeriesForThing_route bind sha order rq =
     uuid_route bind sha order ''read:things/{uuid}'' rq (\<lambda>tid cx. FindTimeSeriesForThing_handler cx tid)"

section \<open>Time series\<close>

definition FindTimeSeries_route where
  "FindTimeSeries_route Q sha order rq = bound (qr_int Q) ''limit'' (\<lambda>limit. bound (qr_int Q) ''offset'' (\<lambda>offset. bound (qr_list Q) ''tags'' (\<lambda>tags.
     scoped sha order ''read:timeseries'' rq (\<lambda>cx. FindTimeSeries_handler sha cx tags limit offset))))"

definition AddTimeSeries_route where
  "AddTimeSeries_route parse newid pids sha order rq body =
     scoped sha order ''create:timeseries'' rq (\<lambda>cx. AddTimeSeries_handler parse newid pids cx body)"

definition DeleteTimeSeriesByUuid_route where
  "DeleteTimeSeriesByUuid_route bind sha order rq =
     uuid_route bind sha order ''delete:timeseries/{uuid}'' rq (\<lambda>tid cx. DeleteTimeSeriesByUuid_handler cx tid)"

definition FindTimeSeriesByUuid_route where
  "FindTimeSeriesByUuid_route bind sha order rq =
     uuid_route bind sha order ''read:timeseries/{uuid}'' rq (\<lambda>tid cx. FindTimeSeriesByUuid_handler cx tid)"

definition UpdateTimeseriesByUuid_route where
  "UpdateTimeseriesByUuid_route parse bind sha order rq body =
     uuid_route bind sha order ''update:timeseries/{uuid}'' rq (\<lambda>tid cx. UpdateTimeseriesByUuid_handler parse cx tid body)"

definition DeleteDataFromTimeSeries_route where
  "DeleteDataFromTimeSeries_route F Q bind sha order rq = with_uuid bind rq (\<lambda>tid.
     needed Q (qr_required_instant Q) ''start'' (\<lambda>start. needed Q (qr_required_instant Q) ''end'' (\<lambda>stop.
     bound (qr_number Q) ''ge'' (\<lambda>ge. bound (qr_number Q) ''le'' (\<lambda>le.
     scoped sha order ''delete:timeseries/{uuid}/data'' rq (\<lambda>cx. DeleteDataFromTimeSeries_handler F cx tid start stop ge le))))))"

text \<open>The parameters that both queries end with, in the order in which they are read.\<close>

definition query_tail where
  "query_tail Q start stop unit k = bound (qr_number Q) ''ge'' (\<lambda>ge. bound (qr_number Q) ''le'' (\<lambda>le.
     bound (qr_text Q) ''precision'' (\<lambda>precision. bound (qr_text Q) ''aggregate'' (\<lambda>aggregate. bound (qr_text Q) ''timezone'' (\<lambda>timezone.
     k \<lparr>qp_Start = start, qp_End = stop, qp_Unit = unit, qp_Ge = ge, qp_Le = le, qp_Precision = precision, qp_Aggregate = aggregate,
        qp_Timezone = timezone\<rparr>)))))"

definition QueryTimeseriesForData_route where
  "QueryTimeseriesForData_route F U loc cfg Q bind sha order rq = with_uuid bind rq (\<lambda>tid.
     needed Q (qr_required_instant Q) ''start'' (\<lambda>start. needed Q (qr_required_instant Q) ''end'' (\<lambda>stop. bound (qr_text Q) ''unit'' (\<lambda>unit.
     query_tail Q start stop unit (\<lambda>p.
     scoped sha order ''read:timeseries/{uuid}/data'' rq (\<lambda>cx. QueryTimeseriesForData_handler F U loc cfg cx tid p))))))"

definition AddDataToTimeseries_route where
  "AddDataToTimeseries_route F U Q bind sha order rq body = with_uuid bind rq (\<lambda>tid. bound (qr_text Q) ''unit'' (\<lambda>unit.
     scoped sha order ''create:timeseries/{uuid}/data'' rq (\<lambda>cx. AddDataToTimeseries_handler F U cx tid unit body)))"

definition FindTsdataByQuery_route where
  "FindTsdataByQuery_route F loc ord cfg Q sha order rq = needed Q (qr_required_uuids Q) ''uuids'' (\<lambda>ids.
     needed Q (qr_required_instant Q) ''start'' (\<lambda>start. needed Q (qr_required_instant Q) ''end'' (\<lambda>stop. query_tail Q start stop None (\<lambda>p.
     scoped sha order ''read:tsquery'' rq (\<lambda>cx. FindTsdataByQuery_handler F loc ord cfg sha cx ids p)))))"

section \<open>Alerts and programs\<close>

definition FindAlerts_route where
  "FindAlerts_route Q sha order rq = bound (qr_int Q) ''offset'' (\<lambda>offset. bound (qr_int Q) ''limit'' (\<lambda>limit.
     bound (qr_text Q) ''resource'' (\<lambda>resource. bound (qr_text Q) ''environment'' (\<lambda>environment. bound (qr_text Q) ''event'' (\<lambda>event.
     bound (qr_text Q) ''origin'' (\<lambda>origin. bound (qr_text Q) ''status'' (\<lambda>status. bound (qr_text Q) ''severity_le'' (\<lambda>le.
     bound (qr_text Q) ''severity_ge'' (\<lambda>ge. bound (qr_text Q) ''severity'' (\<lambda>severity. bound (qr_list Q) ''tags'' (\<lambda>tags.
     bound (qr_list Q) ''service'' (\<lambda>service. scoped sha order ''read:alerts'' rq (\<lambda>cx. FindAlerts_handler cx
       \<lparr>rf_Status = status, rf_SeverityLe = le, rf_SeverityGe = ge, rf_Severity = severity, rf_Limit = limit, rf_Offset = offset,
        rf_Resource = resource, rf_Environment = environment, rf_Event = event, rf_Origin = origin, rf_Service = service, rf_Tags = tags\<rparr>)))))))))))))"

definition FindPrograms_route where
  "FindPrograms_route Q sha order rq = bound (qr_int Q) ''offset'' (\<lambda>offset. bound (qr_int Q) ''limit'' (\<lambda>limit. bound (qr_list Q) ''tags'' (\<lambda>tags.
     scoped sha order ''read:programs'' rq (\<lambda>cx. FindPrograms_handler sha cx tags limit offset))))"

definition GetProgramCodeRevisionsDiff_route where
  "GetProgramCodeRevisionsDiff_route unified Q bind sha order rq = with_uuid bind rq (\<lambda>pid.
     needed Q (qr_required_int Q) ''rev_a'' (\<lambda>a. needed Q (qr_required_int Q) ''rev_b'' (\<lambda>b.
     scoped sha order ''read:programs/{uuid}/revisions/diff'' rq (\<lambda>cx. GetProgramCodeRevisionsDiff_handler unified cx pid a b))))"

section \<open>Who can join which group\<close>

definition join :: "string \<Rightarrow> rest_UpdateUser" where
  "join g = \<lparr>uu_Groups = None, uu_GroupsAdd = Some [g], uu_GroupsRemove = None, uu_Name = None\<rparr>"

lemma healthy_members [simp]: "healthy (s\<lparr>user_groups := ms\<rparr>) = healthy s" "healthy (s\<lparr>faults := fs, user_groups := ms\<rparr>) = healthy (s\<lparr>faults := fs\<rparr>)"
  by (simp_all add: healthy_def)

lemma UpdateUser_joins:
  assumes "healthy s" "uid \<in> set (map u_uuid (users s))" "g \<in> set (map g_uuid (groups s))" "(uid, g) \<notin> set (user_groups s)"
  obtains s' where "UpdateUser uid \<lparr>uup_Name = None, uup_Groups = None, uup_GroupsAdd = [g], uup_GroupsRemove = []\<rparr> s = (Inr 1, s')"
    "tables s' = tables (s\<lparr>user_groups := user_groups s @ [(uid, g)]\<rparr>)"
proof -
  define fs where "fs = tl (tl (tl (faults s)))"
  have h: "healthy (s\<lparr>faults := tl (faults s)\<rparr>)" "healthy (s\<lparr>faults := tl (tl (faults s))\<rparr>)"
    using healthy_tl [OF assms(1)] healthy_tl [OF healthy_tl [OF assms(1)]] by simp_all
  have "UpdateUser uid \<lparr>uup_Name = None, uup_Groups = None, uup_GroupsAdd = [g], uup_GroupsRemove = []\<rparr> s
      = (Inr 1, s\<lparr>faults := fs, user_groups := user_groups s @ [(uid, g)]\<rparr>)"
    using assms h by (simp add: UpdateUser_def with_tx_def dbsimps opt_step_def long_name_def if_any_def andthen_def ret_def
        AddUserToGroups_query_def known_if_idle_def Let_def fs_def)
  then show thesis by (rule that) (simp add: tables_def)
qed

lemma own_scope:
  assumes "open_brace \<notin> set (P ''uuid'')"
  shows "scope_request P ''update:users/{uuid}'' = Some (action_str Update, ''users/'' @ P ''uuid'')"
proof -
  have "scope_request P (''update'' @ '':'' @ ''users/{uuid}'') = Some (''update'', scope_resource P ''users/{uuid}'')"
    by (rule scope_split) simp_all
  moreover have "scope_resource P (template [(''users/'', ''uuid'')] []) = filled P [(''users/'', ''uuid'')] []"
    using assms by (intro scope_resource_template) simp_all
  ultimately show ?thesis by simp
qed

text \<open>
  C31: Whoever may update his own account can join any group.  The right to update \<^verbatim>\<open>users/<id>\<close>, which every
  user has for its own account from the moment it is created, covers the list of its groups: the request to add
  oneself to a group, whatever its policies, passes the access check and is carried out.
\<close>

theorem users_join_any_group:
  assumes "rq_BasicAuth rq = Some (domain, apiKey)" and "Domain_GetDB domain reg = Inr db" and "healthy db"
    and "CHR 0x00 \<notin> set apiKey" and "\<And>m. set (order m) = set m" and "token_user sha db apiKey = Some uid"
    and "permitted db uid Update (''users/'' @ uid)" and "rq_URLParam rq ''uuid'' = uid" and "open_brace \<notin> set uid" and "bind uid = Inr uid"
    and "uid \<in> set (map u_uuid (users db))" and "parse name = Some g" and "g \<in> set (map g_uuid (groups db))" and "(uid, g) \<notin> set (user_groups db)"
  shows "\<exists>reg'. UpdateUserByUuid_route parse bind sha order rq (Some (join name)) reg = (Empty 204, reg')
    \<and> Middleware.stored reg' = (Middleware.stored reg)(domain \<mapsto> tables (db\<lparr>user_groups := user_groups db @ [(uid, g)]\<rparr>))"
proof -
  let ?scope = "''update:users/{uuid}''"
  let ?rq = "rq\<lparr>rq_Scopes := Some [?scope]\<rparr>"
  let ?h = "\<lambda>cx. UpdateUserByUuid_handler parse cx uid (Some (join name))"
  obtain ans reg' where v: "PolicyValidator sha order ?rq ?h reg = (ans, reg')" by force
  have route: "UpdateUserByUuid_route parse bind sha order rq (Some (join name)) reg = (ans, reg')"
    using v assms(8,10) by (simp add: UpdateUserByUuid_route_def uuid_route_def scoped_def)
  have "rq_BasicAuth ?rq = Some (domain, apiKey)" "rq_Scopes ?rq = Some [?scope]" using assms(1) by simp_all
  then obtain s2 where s2: "validated sha order (rq_URLParam ?rq) [?scope] domain apiKey ?h db = (ans, s2)"
    "Middleware.stored reg' = (Middleware.stored reg)(domain \<mapsto> tables s2)" by (rule PolicyValidator_db [OF v _ _ assms(2)])
  have "scope_allowed sha (rq_URLParam ?rq) db apiKey ?scope"
    using own_scope [of "rq_URLParam ?rq"] assms(6-9) by (auto simp: scope_allowed_def simp del: action_str.simps)
  then have "list_all (scope_allowed sha (rq_URLParam ?rq) db apiKey) [?scope]" by simp
  then obtain cx s1 where
    g: "validated sha order (rq_URLParam ?rq) [?scope] domain apiKey ?h db = ?h cx s1" "tables s1 = tables db" "cx_db cx" "healthy s1"
    by (rule validated_granted [OF assms(3,4,5)])
  note f = tables_fields [OF g(2)]
  obtain s' where u: "UpdateUser uid \<lparr>uup_Name = None, uup_Groups = None, uup_GroupsAdd = [g], uup_GroupsRemove = []\<rparr> s1 = (Inr 1, s')"
    "tables s' = tables (s1\<lparr>user_groups := user_groups s1 @ [(uid, g)]\<rparr>)"
    by (rule UpdateUser_joins [OF g(4), of uid g]) (use assms(11,13,14) f in auto)
  have "?h cx s1 = (Empty 204, s')"
    using u(1) g(3) assms(12) by (simp add: UpdateUserByUuid_handler_def GetDB_def decodeJSONBody_def join_def update_user_params_def call_def answer_def or_default_def)
  with s2(1) g(1) have "ans = Empty 204" "s2 = s'" by auto
  moreover have "tables s' = tables (db\<lparr>user_groups := user_groups db @ [(uid, g)]\<rparr>)"
    using u(2) f(2) g(2) by (cases s1; cases db) (simp add: tables_def)
  ultimately show ?thesis using route s2(2) by auto
qed

text \<open>A user just made by \<^verbatim>\<open>AddUser\<close>, with a token; the group \<open>1\<close> is that of the administrators.\<close>

definition newcomer_db :: "int db" where
  "newcomer_db = snd (AddTokenToUser id ''t9'' ''x'' ''e1'' ''main'' (snd (AddUser ''d1'' ''e1'' ten_ids ''alice'' seed_user)))"

definition newcomer_registry :: "int db registry" where
  "newcomer_registry = [(''home'', \<lparr>dc_C = Some newcomer_db, dc_Domain = ''home'', dc_ConnectionString = ''pg'', dc_quit = True\<rparr>)]"

definition newcomer_request :: http_request where
  "newcomer_request = \<lparr>rq_BasicAuth = Some (''home'', ''secret-token.x''), rq_Scopes = None, rq_URLParam = (\<lambda>_. ''e1'')\<rparr>"

theorem users_join_any_group_witness:
  "\<exists>reg'. UpdateUserByUuid_route Some Inr id id newcomer_request (Some (join ''1'')) newcomer_registry = (Empty 204, reg')
     \<and> Middleware.stored reg' ''home'' = Some (tables (newcomer_db\<lparr>user_groups := user_groups newcomer_db @ [(''e1'', ''1'')]\<rparr>))"
proof -
  have rq: "rq_BasicAuth newcomer_request = Some (''home'', ''secret-token.x'')" "rq_URLParam newcomer_request ''uuid'' = ''e1''"
    by (simp_all add: newcomer_request_def)
  have db: "Domain_GetDB ''home'' newcomer_registry = Inr newcomer_db" by (simp add: newcomer_registry_def Domain_GetDB_def)
  have h: "healthy newcomer_db" by code_simp
  have tok: "token_user id newcomer_db ''secret-token.x'' = Some ''e1''" by code_simp
  have own: "permitted newcomer_db ''e1'' Update (''users/'' @ ''e1'')" by code_simp
  have known: "''e1'' \<in> set (map u_uuid (users newcomer_db))" by code_simp
  have grp: "''1'' \<in> set (map g_uuid (groups newcomer_db))" by code_simp
  have out: "(''e1'', ''1'') \<notin> set (user_groups newcomer_db)" by code_simp
  have "CHR 0x00 \<notin> set ''secret-token.x''" "open_brace \<notin> set ''e1''" by code_simp+
  from users_join_any_group [where parse = Some and bind = Inr and order = id and name = "''1''", OF rq(1) db h this(1) _ tok own rq(2) this(2) _ known _ grp out]
  show ?thesis by auto
qed

end
