(* ===== verification/Topics.thy ===== *)
theory Topics
  imports GoNumbers Schema
begin

text \<open>
  Routes of the MQTT ingestion (\<^verbatim>\<open>internal/insamlare\<close>): their configuration and its checks
  (\<^verbatim>\<open>config.go\<close>), the matching of topics and the templates filled from what was captured
  (\<^verbatim>\<open>route.go\<close>).  An error made by \<^verbatim>\<open>fmt.Errorf\<close> is kept as its format and arguments; what
  a library call reports is \<open>LibError\<close>.  \<^verbatim>\<open>regexp.Compile\<close> for expressions from the configuration
  and \<^verbatim>\<open>uuid.Parse\<close> are arguments.
\<close>

datatype ingest_error =
    Errorf string "string list"
  | Wrapf string "string list" ingest_error
  | LibError string

type_synonym 'a ires = "ingest_error + 'a"

section \<open>Templates\<close>

text \<open>The matches of \<^verbatim>\<open>\\([0-9]+)|\$([0-9]+)\<close> replaced, from the left.\<close>

definition capture_mark :: "char \<Rightarrow> bool" where
  "capture_mark c \<longleftrightarrow> c = backslash \<or> c = CHR ''$''"

definition capture_value :: "string list \<Rightarrow> char \<Rightarrow> string \<Rightarrow> string" where
  "capture_value captures c ds = (case Atoi ds of
       None \<Rightarrow> c # ds
     | Some idx \<Rightarrow> if idx \<le> 0 \<or> idx > int (length captures) then c # ds else captures ! nat (idx - 1))"

function expand_marks :: "string list \<Rightarrow> string \<Rightarrow> string" where
  "expand_marks captures [] = []"
| "expand_marks captures (c # cs) =
     (if capture_mark c \<and> takeWhile is_digit cs \<noteq> []
      then capture_value captures c (takeWhile is_digit cs) @ expand_marks captures (dropWhile is_digit cs)
      else c # expand_marks captures cs)"
  by pat_completeness auto
termination
  by (relation "measure (\<lambda>(captures, s). length s)") (auto simp: length_dropWhile_le less_Suc_eq_le)

definition expandCaptureTemplate :: "string \<Rightarrow> string list \<Rightarrow> string" where
  "expandCaptureTemplate template captures = (if template = [] \<or> captures = [] then template else expand_marks captures template)"

fun containsCaptureTemplate :: "string \<Rightarrow> bool" where
  "containsCaptureTemplate (c # d # cs) = (capture_mark c \<and> is_digit d \<or> containsCaptureTemplate (d # cs))"
| "containsCaptureTemplate _ = False"

section \<open>Configuration of a route\<close>

record RouteConfig =
  rc_Name :: string
  rc_Topic :: string
  rc_TopicRegex :: string
  rc_Subscription :: string
  rc_TimeseriesUUID :: string
  rc_ScriptPath :: string
  rc_PayloadFormat :: string
  rc_ValueKey :: string
  rc_TimestampKey :: string
  rc_TimestampFormat :: string

definition validateSubscriptionTopic :: "string \<Rightarrow> ingest_error option" where
  "validateSubscriptionTopic topic =
     (if TrimSpace topic = [] then Some (Errorf ''must not be empty'' [])
      else if Contains topic ''#'' \<and> \<not> HasSuffix topic ''#'' then Some (Errorf ''wildcard '#' must be the final segment'' [])
      else if Count topic (CHR ''#'') > 1 then Some (Errorf ''can contain at most one '#' wildcard'' [])
      else None)"

text \<open>The loop of \<^verbatim>\<open>splitRegexPath\<close>: finished segments, the current one, and the two flags.\<close>

fun split_regex :: "string list \<Rightarrow> string \<Rightarrow> bool \<Rightarrow> bool \<Rightarrow> string \<Rightarrow> string list ires" where
  "split_regex segments current inClass escaped [] =
     (if escaped then Inl (Errorf ''topic_regex ends with dangling escape'' [])
      else if inClass then Inl (Errorf ''topic_regex has unterminated character class'' [])
      else Inr (segments @ [current]))"
| "split_regex segments current inClass escaped (r # rs) =
     (if escaped then split_regex segments (current @ [r]) inClass False rs
      else if r = backslash then split_regex segments (current @ [r]) inClass True rs
      else if r = CHR ''['' then split_regex segments (current @ [r]) True escaped rs
      else if r = CHR '']'' then split_regex segments (current @ [r]) False escaped rs
      else if r = slash \<and> \<not> inClass then split_regex (segments @ [current]) [] inClass escaped rs
      else split_regex segments (current @ [r]) inClass escaped rs)"

definition splitRegexPath :: "string \<Rightarrow> string list ires" where
  "splitRegexPath expr = split_regex [] [] False False expr"

definition containsRegexMeta :: "string \<Rightarrow> bool" where
  "containsRegexMeta segment = list_ex (\<lambda>c. c \<in> set (''.^$*+?()[]{}|'' @ [backslash])) segment"

definition singleLevelCaptureRegex :: "string \<Rightarrow> bool" where
  "singleLevelCaptureRegex segment \<longleftrightarrow> segment \<in> set [''[^/]+'', ''[^/]*'', ''([^/]+)'', ''([^/]*)'', ''(?:[^/]+)'', ''(?:[^/]*)'']"

fun subscription_segments :: "string \<Rightarrow> string list \<Rightarrow> string list ires" where
  "subscription_segments expr [] = Inr []"
| "subscription_segments expr (segment # segments) =
     (case (if segment = [] then Some [] else if \<not> containsRegexMeta segment then Some segment
            else if singleLevelCaptureRegex segment then Some ''+'' else None) of
        None \<Rightarrow> Inl (Errorf ''topic_regex %q can not be mapped safely to an MQTT subscription; set subscription_topic explicitly'' [expr])
      | Some out \<Rightarrow> (case subscription_segments expr segments of Inl e \<Rightarrow> Inl e | Inr outs \<Rightarrow> Inr (out # outs)))"

definition deriveSubscriptionTopicFromRegex :: "string \<Rightarrow> string ires" where
  "deriveSubscriptionTopicFromRegex expr =
     (let trimmed = TrimSuffix (TrimPrefix (TrimSpace expr) ''^'') ''$'' in
      if trimmed = [] then Inl (Errorf ''topic_regex can not be empty'' [])
      else case splitRegexPath trimmed of
        Inl e \<Rightarrow> Inl e
      | Inr segments \<Rightarrow>
          (case subscription_segments expr segments of
             Inl e \<Rightarrow> Inl e
           | Inr out \<Rightarrow>
               let subscription = join_with ''/'' out in
               case validateSubscriptionTopic subscription of Some e \<Rightarrow> Inl e | None \<Rightarrow> Inr subscription))"

definition ResolveSubscriptionTopic :: "RouteConfig \<Rightarrow> string ires" where
  "ResolveSubscriptionTopic r =
     (if TrimSpace (rc_Subscription r) \<noteq> [] then Inr (rc_Subscription r)
      else if TrimSpace (rc_Topic r) \<noteq> [] then Inr (rc_Topic r)
      else if TrimSpace (rc_TopicRegex r) = [] then Inl (Errorf ''either topic or topic_regex is required'' [])
      else deriveSubscriptionTopicFromRegex (rc_TopicRegex r))"

definition payloadFormatOrDefault :: "RouteConfig \<Rightarrow> string" where
  "payloadFormatOrDefault r = (if TrimSpace (rc_PayloadFormat r) = [] then ''auto'' else TrimSpace (ToLower (rc_PayloadFormat r)))"

definition Mode :: "RouteConfig \<Rightarrow> string" where
  "Mode r = (if TrimSpace (rc_ScriptPath r) \<noteq> [] then ''script'' else ''fixed'')"

definition prefixed :: "string \<Rightarrow> ingest_error option \<Rightarrow> ingest_error option" where
  "prefixed fmt e = map_option (Wrapf fmt []) e"

fun first_failed :: "ingest_error option list \<Rightarrow> ingest_error option" where
  "first_failed [] = None"
| "first_failed (None # es) = first_failed es"
| "first_failed (Some e # es) = Some e"

definition require :: "bool \<Rightarrow> string \<Rightarrow> ingest_error option" where
  "require ok msg = (if ok then None else Some (Errorf msg []))"

lemma first_failed_None: "first_failed es = None \<longleftrightarrow> list_all (\<lambda>e. e = None) es"
  by (induction es rule: first_failed.induct) auto

lemma require_None [simp]: "require ok msg = None \<longleftrightarrow> ok"
  by (simp add: require_def)

definition uuid_error :: "(string \<Rightarrow> string + uuid) \<Rightarrow> string \<Rightarrow> ingest_error option" where
  "uuid_error uuid_Parse s = (case uuid_Parse s of Inl e \<Rightarrow> Some (LibError e) | Inr _ \<Rightarrow> None)"

text \<open>\<^verbatim>\<open>RouteConfig.Validate\<close>: the first check that fails.\<close>

definition Route_Validate :: "(string \<Rightarrow> string + uuid) \<Rightarrow> RouteConfig \<Rightarrow> ingest_error option" where
  "Route_Validate uuid_Parse r =
     (let hasTopic = TrimSpace (rc_Topic r) \<noteq> [];
          hasTopicRegex = TrimSpace (rc_TopicRegex r) \<noteq> [];
          hasUUID = TrimSpace (rc_TimeseriesUUID r) \<noteq> [];
          hasScript = TrimSpace (rc_ScriptPath r) \<noteq> [] in
      first_failed [
        require (TrimSpace (rc_Name r) \<noteq> []) ''name is required'',
        require (hasTopic \<or> hasTopicRegex) ''either topic or topic_regex is required'',
        require (\<not> (hasTopic \<and> hasTopicRegex)) ''topic and topic_regex are mutually exclusive'',
        (if hasTopic then prefixed ''topic: %w'' (validateSubscriptionTopic (rc_Topic r)) else None),
        (if TrimSpace (rc_Subscription r) \<noteq> []
         then prefixed ''subscription_topic: %w'' (validateSubscriptionTopic (rc_Subscription r)) else None),
        (case ResolveSubscriptionTopic r of Inl e \<Rightarrow> Some e | Inr _ \<Rightarrow> None),
        require (hasUUID \<or> hasScript) ''either timeseries_uuid or script_path is required'',
        (if hasUUID \<and> \<not> containsCaptureTemplate (rc_TimeseriesUUID r)
         then prefixed ''timeseries_uuid: %w'' (uuid_error uuid_Parse (rc_TimeseriesUUID r)) else None),
        require (\<not> (hasScript \<and> TrimSpace (rc_ScriptPath r) = [])) ''script_path must not be empty'',
        require (payloadFormatOrDefault r \<in> set [''auto'', ''number'', ''json'']) ''payload_format must be one of auto, number, json'',
        require (TrimSpace (rc_TimestampFormat r) \<in> set ['''', ''rfc3339'', ''unix'', ''unix_ms''])
          ''timestamp_format must be one of rfc3339, unix, unix_ms''])"

section \<open>Configuration of the service\<close>

record MQTTConfig =
  mq_Broker :: string
  mq_ClientID :: string
  mq_Username :: string
  mq_Password :: string
  mq_CleanSession :: bool
  mq_QOS :: int

record PostgresConfig =
  pc_DSN :: string
  pc_CreatedByUUID :: string

record IngestConfig =
  ic_BatchSize :: int
  ic_FlushInterval :: int
  ic_Workers :: int
  ic_QueueSize :: int

record Config =
  cf_MQTT :: MQTTConfig
  cf_Postgres :: PostgresConfig
  cf_Ingest :: IngestConfig
  cf_LoadLog_Interval :: int
  cf_Transform_Timeout :: int
  cf_Routes :: "RouteConfig list"

fun validate_routes_from :: "(string \<Rightarrow> string + uuid) \<Rightarrow> nat \<Rightarrow> RouteConfig list \<Rightarrow> ingest_error option" where
  "validate_routes_from uuid_Parse i [] = None"
| "validate_routes_from uuid_Parse i (route # routes) = (case Route_Validate uuid_Parse route of
       Some e \<Rightarrow> Some (Wrapf ''routes[%d]: %w'' [utoa i] e)
     | None \<Rightarrow> validate_routes_from uuid_Parse (Suc i) routes)"

definition Config_Validate :: "(string \<Rightarrow> string + uuid) \<Rightarrow> Config \<Rightarrow> ingest_error option" where
  "Config_Validate uuid_Parse c = first_failed [
     require (TrimSpace (mq_Broker (cf_MQTT c)) \<noteq> []) ''mqtt.broker is required'',
     require (TrimSpace (pc_DSN (cf_Postgres c)) \<noteq> []) ''postgres.dsn is required'',
     prefixed ''postgres.created_by_uuid: %w'' (uuid_error uuid_Parse (pc_CreatedByUUID (cf_Postgres c))),
     require (ic_BatchSize (cf_Ingest c) > 0) ''ingest.batch_size must be greater than zero'',
     require (ic_FlushInterval (cf_Ingest c) > 0) ''ingest.flush_interval must be greater than zero'',
     require (ic_Workers (cf_Ingest c) > 0) ''ingest.workers must be greater than zero'',
     require (ic_QueueSize (cf_Ingest c) > 0) ''ingest.queue_size must be greater than zero'',
     require (cf_LoadLog_Interval c \<ge> 0) ''load_log.interval must be zero or greater'',
     require (cf_Transform_Timeout c > 0) ''transform.timeout must be greater than zero'',
     require (cf_Routes c \<noteq> []) ''at least one route is required'',
     validate_routes_from uuid_Parse 0 (cf_Routes c)]"

section \<open>Matching\<close>

datatype matcher =
    wildcardMatcher "string list"
  | regexMatcher "string \<Rightarrow> string list option"

fun check_segments :: "string list \<Rightarrow> ingest_error option" where
  "check_segments [] = None"
| "check_segments (part # parts) =
     (if part = ''#'' then (if parts \<noteq> [] then Some (Errorf ''topic wildcard '#' must be the final segment'' []) else check_segments parts)
      else if Contains part ''#'' then Some (Errorf (''topic segment %q contains invalid '#'' @ [CHR 0x27]) [part])
      else if Contains part ''+'' \<and> part \<noteq> ''+'' then Some (Errorf (''topic segment %q contains invalid '+'' @ [CHR 0x27]) [part])
      else check_segments parts)"

definition newWildcardMatcher :: "string \<Rightarrow> matcher ires" where
  "newWildcardMatcher topic = (let parts = split_on slash topic in
     case check_segments parts of Some e \<Rightarrow> Inl e | None \<Rightarrow> Inr (wildcardMatcher parts))"

fun match_levels :: "string list \<Rightarrow> string list \<Rightarrow> string list \<Rightarrow> string list option" where
  "match_levels [] parts captures = (if parts \<noteq> [] then None else Some captures)"
| "match_levels (part # pattern) parts captures =
     (if part = ''#'' then Some captures
      else case parts of
        [] \<Rightarrow> None
      | level # levels \<Rightarrow>
          if part = ''+'' then match_levels pattern levels (captures @ [level])
          else if part \<noteq> level then None
          else match_levels pattern levels captures)"

fun Match :: "matcher \<Rightarrow> string \<Rightarrow> string list option" where
  "Match (wildcardMatcher pattern) topic = match_levels pattern (split_on slash topic) []"
| "Match (regexMatcher re) topic = re topic"

definition newRegexMatcher :: "(string \<Rightarrow> string + (string \<Rightarrow> string list option)) \<Rightarrow> string \<Rightarrow> matcher ires" where
  "newRegexMatcher regexp_Compile expr = (case regexp_Compile expr of
       Inl e \<Rightarrow> Inl (Wrapf ''compile topic_regex: %w'' [] (LibError e)) | Inr re \<Rightarrow> Inr (regexMatcher re))"

definition newRouteMatcher :: "(string \<Rightarrow> string + (string \<Rightarrow> string list option)) \<Rightarrow> RouteConfig \<Rightarrow> matcher ires" where
  "newRouteMatcher regexp_Compile cfg =
     (if TrimSpace (rc_TopicRegex cfg) \<noteq> [] then newRegexMatcher regexp_Compile (rc_TopicRegex cfg)
      else newWildcardMatcher (rc_Topic cfg))"


section \<open>What a pattern means\<close>

text \<open>
  Topic filters as MQTT defines them, level by level: \<^verbatim>\<open>+\<close> stands for one level, which is captured,
  and a final \<^verbatim>\<open>#\<close> for any number of levels.
\<close>

inductive topic_filter :: "string list \<Rightarrow> string list \<Rightarrow> string list \<Rightarrow> bool" where
  same_end: "topic_filter [] [] []"
| rest: "topic_filter [''#''] levels []"
| one_level: "topic_filter fs levels captures \<Longrightarrow> topic_filter (''+'' # fs) (l # levels) (l # captures)"
| same: "f \<noteq> ''#'' \<Longrightarrow> f \<noteq> ''+'' \<Longrightarrow> topic_filter fs levels captures \<Longrightarrow> topic_filter (f # fs) (f # levels) captures"

inductive_cases filter_hash: "topic_filter (''#'' # fs) levels captures"
inductive_cases filter_plus: "topic_filter (''+'' # fs) levels captures"
inductive_cases filter_Nil: "topic_filter [] levels captures"
inductive_cases filter_Cons: "topic_filter (f # fs) levels captures"

lemma topic_filter_plus_iff: "topic_filter (''+'' # fs) levels captures
    \<longleftrightarrow> (\<exists>l ls cs. levels = l # ls \<and> captures = l # cs \<and> topic_filter fs ls cs)"
  by (auto intro: one_level elim: filter_plus)

lemma topic_filter_same_iff: "f \<noteq> ''#'' \<Longrightarrow> f \<noteq> ''+'' \<Longrightarrow>
    topic_filter (f # fs) levels captures \<longleftrightarrow> (\<exists>ls. levels = f # ls \<and> topic_filter fs ls captures)"
  by (auto intro: same elim: filter_Cons)

lemma check_segments_tl: "check_segments (f # fs) = None \<Longrightarrow> check_segments fs = None"
  by (auto split: if_splits)

lemma match_levels_filter:
  "check_segments pattern = None \<Longrightarrow>
   match_levels pattern levels captures = Some cs \<longleftrightarrow> (\<exists>new. cs = captures @ new \<and> topic_filter pattern levels new)"
proof (induction pattern levels captures rule: match_levels.induct)
  case (1 parts captures)
  show ?case by (auto intro: same_end elim: filter_Nil)
next
  case (2 part pattern parts captures)
  note tl = check_segments_tl [OF "2.prems"]
  consider (hash) "part = ''#''" | (plus) "part = ''+''" | (other) "part \<noteq> ''#''" "part \<noteq> ''+''" by blast
  then show ?case
  proof cases
    case hash
    with "2.prems" have "pattern = []" by (auto split: if_splits)
    with hash show ?thesis by (auto intro: topic_filter.rest elim: filter_hash)
  next
    case plus
    with 2 tl show ?thesis by (cases parts) (auto simp: topic_filter_plus_iff)
  next
    case other
    with 2 tl show ?thesis by (cases parts) (auto simp: topic_filter_same_iff)
  qed
qed




section \<open>Subscriptions derived from expressions\<close>

text \<open>
  What the package \<^verbatim>\<open>regexp\<close> documents for the expressions that
  \<^verbatim>\<open>deriveSubscriptionTopicFromRegex\<close> lets through: anchored at both ends, made of levels that
  are plain text or one of the six forms of \<^verbatim>\<open>[^/]\<close>.
\<close>

definition level_regex :: "string \<Rightarrow> string \<Rightarrow> bool" where
  "level_regex segment level \<longleftrightarrow> slash \<notin> set level \<and>
     (if \<not> containsRegexMeta segment then level = segment
      else segment \<in> set [''[^/]*'', ''([^/]*)'', ''(?:[^/]*)''] \<or> level \<noteq> [])"

definition regexp_levels :: "(string \<Rightarrow> string + (string \<Rightarrow> string list option)) \<Rightarrow> bool" where
  "regexp_levels regexp_Compile \<longleftrightarrow> (\<forall>segments re t.
     segments \<noteq> [] \<longrightarrow> list_all (\<lambda>g. \<not> containsRegexMeta g \<and> slash \<notin> set g \<or> singleLevelCaptureRegex g) segments \<longrightarrow>
     regexp_Compile (''^'' @ join_with ''/'' segments @ ''$'') = Inr re \<longrightarrow>
     (re t \<noteq> None \<longleftrightarrow> list_all2 level_regex segments (split_on slash t)))"

lemma join_with_snoc: "xs \<noteq> [] \<Longrightarrow> join_with sep (xs @ [y]) = join_with sep xs @ sep @ y"
  by (induction sep xs rule: join_with.induct) auto

lemma join_with_extend: "join_with sep (xs @ [y @ z]) = join_with sep (xs @ [y]) @ z"
  by (cases "xs = []") (simp_all add: join_with_snoc)

lemma join_with_open: "join_with sep (xs @ [y, []]) = join_with sep (xs @ [y]) @ sep"
  using join_with_snoc [of "xs @ [y]" sep "[]"] by simp

lemma split_regex_join:
  "split_regex segments current inClass escaped rs = Inr out \<Longrightarrow> join_with ''/'' out = join_with ''/'' (segments @ [current]) @ rs"
proof (induction segments current inClass escaped rs rule: split_regex.induct)
  case (2 segments current inClass escaped r rs)
  have c: "join_with ''/'' (segments @ [current @ [r]]) @ rs = join_with ''/'' (segments @ [current]) @ r # rs"
    using join_with_extend [of "''/''" segments current "[r]"] by simp
  show ?case
  proof (cases "\<not> escaped \<and> r = slash \<and> \<not> inClass")
    case True
    with 2 show ?thesis by (simp add: join_with_open)
  next
    case False
    with 2 c show ?thesis by (auto split: if_splits)
  qed
qed (auto split: if_splits)

definition guarded_slash :: "string \<Rightarrow> bool" where
  "guarded_slash g \<longleftrightarrow> (slash \<in> set g \<longrightarrow> containsRegexMeta g)"

lemma meta_append [simp]: "containsRegexMeta (x @ y) \<longleftrightarrow> containsRegexMeta x \<or> containsRegexMeta y"
  by (simp add: containsRegexMeta_def)

lemma meta_chars [simp]: "containsRegexMeta [backslash]" "containsRegexMeta ''[''" "containsRegexMeta '']''"
  by (simp_all add: containsRegexMeta_def)

lemma split_regex_guarded:
  "split_regex segments current inClass escaped rs = Inr out \<Longrightarrow> list_all guarded_slash segments \<Longrightarrow> guarded_slash current \<Longrightarrow>
   (inClass \<or> escaped \<longrightarrow> containsRegexMeta current) \<Longrightarrow> list_all guarded_slash out"
proof (induction segments current inClass escaped rs rule: split_regex.induct)
  case (2 segments current inClass escaped r rs)
  then show ?case by (auto simp: guarded_slash_def split: if_splits)
qed (auto split: if_splits)

definition hash_last :: "string list \<Rightarrow> bool" where
  "hash_last gs \<longleftrightarrow> ''#'' \<notin> set (butlast gs)"

lemma derived_levels:
  "subscription_segments expr segments = Inr out \<Longrightarrow> list_all2 level_regex segments levels \<Longrightarrow> hash_last out \<Longrightarrow>
   \<exists>captures. topic_filter out levels captures"
proof (induction segments arbitrary: out levels)
  case Nil
  then show ?case by (auto intro: same_end)
next
  case (Cons g gs)
  then obtain o1 os where out: "out = o1 # os" "subscription_segments expr gs = Inr os"
    "o1 = (if \<not> containsRegexMeta g then g else ''+'')"
    by (auto simp: containsRegexMeta_def split: if_splits option.splits sum.splits)
  from Cons.prems obtain l ls where l: "levels = l # ls" "level_regex g l" "list_all2 level_regex gs ls" by (cases levels) auto
  have "hash_last os" using Cons.prems(3) out(1) by (cases os) (auto simp: hash_last_def)
  from Cons.IH [OF out(2) l(3) this] obtain cs where cs: "topic_filter os ls cs" by blast
  show ?case
  proof (cases "containsRegexMeta g")
    case True
    with cs out l show ?thesis by (auto intro: one_level)
  next
    case False
    with l(2) have lg: "l = g" by (simp add: level_regex_def)
    have "g \<noteq> ''+''" using False by (auto simp: containsRegexMeta_def)
    moreover have "os = []" if "g = ''#''" using Cons.prems(3) out False that by (cases os) (auto simp: hash_last_def)
    moreover have "ls = []" if "os = []" using that out(2) l(3) by (cases gs) (auto split: option.splits sum.splits)
    ultimately show ?thesis using cs out l lg False by (auto intro: same topic_filter.rest)
  qed
qed


lemma join_with_append: "xs \<noteq> [] \<Longrightarrow> ys \<noteq> [] \<Longrightarrow> join_with sep (xs @ ys) = join_with sep xs @ sep @ join_with sep ys"
  by (induction sep xs rule: join_with.induct) (auto simp: neq_Nil_conv)

lemma Count_append [simp]: "Count (x @ y) c = Count x c + Count y c"
  by (simp add: Count_def)

lemma valid_hash_last:
  assumes "validateSubscriptionTopic (join_with ''/'' out) = None"
  shows "hash_last out"
proof (rule ccontr)
  assume "\<not> hash_last out"
  then have in_front: "''#'' \<in> set (butlast out)" by (simp add: hash_last_def)
  then have "out \<noteq> []" by auto
  from in_front obtain xs zs where "butlast out = xs @ ''#'' # zs" by (auto simp: in_set_conv_decomp)
  with \<open>out \<noteq> []\<close> have out: "out = (xs @ [''#'']) @ (zs @ [last out])" by (metis append_butlast_last_id append_assoc append_Cons append_Nil)
  let ?pre = "join_with ''/'' (xs @ [''#''])" and ?post = "join_with ''/'' (zs @ [last out])"
  have j: "join_with ''/'' out = ?pre @ ''/'' @ ?post" by (subst out, rule join_with_append) simp_all
  have "CHR ''#'' \<in> set ?pre" by (cases "xs = []") (simp_all add: join_with_snoc)
  then have one: "Count ?pre (CHR ''#'') \<ge> 1" "CHR ''#'' \<in> set (join_with ''/'' out)" using j by (auto simp: Suc_le_eq simp del: neq0_conv simp flip: neq0_conv)
  then have "HasSuffix (join_with ''/'' out) ''#''" "Count (join_with ''/'' out) (CHR ''#'') \<le> 1"
    using assms by (auto simp: validateSubscriptionTopic_def Contains_iff split: if_splits)
  with one(1) have "last (''/'' @ ?post) = CHR ''#''" "Count ?post (CHR ''#'') = 0" unfolding j by (auto simp: HasSuffix_single Count_def)
  moreover from this(1) have "?post \<noteq> []" "last ?post = CHR ''#''" by (auto split: if_splits)
  ultimately show False using Count_0 last_in_set by metis
qed

lemma split_regex_nonempty: "split_regex segments current inClass escaped rs = Inr out \<Longrightarrow> out \<noteq> []"
  by (induction segments current inClass escaped rs rule: split_regex.induct) (auto split: if_splits)

lemma subscription_segments_kinds:
  "subscription_segments expr segments = Inr out \<Longrightarrow> list_all guarded_slash segments \<Longrightarrow>
   list_all (\<lambda>g. \<not> containsRegexMeta g \<and> slash \<notin> set g \<or> singleLevelCaptureRegex g) segments
   \<and> list_all (\<lambda>g. slash \<notin> set g) out \<and> length out = length segments"
proof (induction segments arbitrary: out)
  case (Cons g gs)
  then obtain o1 os where out: "out = o1 # os" "subscription_segments expr gs = Inr os"
    "o1 = (if \<not> containsRegexMeta g then g else ''+'')" "\<not> containsRegexMeta g \<or> singleLevelCaptureRegex g"
    by (auto simp: containsRegexMeta_def split: if_splits option.splits sum.splits)
  with Cons show ?case by (auto simp: guarded_slash_def)
qed simp

text \<open>
  A subscription derived from an expression that is anchored at both ends covers it: every topic
  the expression matches is one the broker delivers for the subscription.
\<close>

theorem derived_subscription_covers:
  assumes "regexp_levels regexp_Compile" "expr = ''^'' @ body @ ''$''" "TrimSpace expr = expr"
    "deriveSubscriptionTopicFromRegex expr = Inr sub" "newRegexMatcher regexp_Compile expr = Inr m" "Match m t = Some captures"
  shows "\<exists>cs. topic_filter (split_on slash sub) (split_on slash t) cs"
proof -
  have trim: "TrimSuffix (TrimPrefix (TrimSpace expr) ''^'') ''$'' = body"
    unfolding assms(3) using TrimSuffix_single by (simp add: assms(2) TrimPrefix_def)
  obtain segments out where s: "splitRegexPath body = Inr segments" "subscription_segments expr segments = Inr out"
    "sub = join_with ''/'' out" "validateSubscriptionTopic sub = None"
    using assms(4) unfolding deriveSubscriptionTopicFromRegex_def trim by (auto simp: Let_def split: if_splits sum.splits option.splits)
  have body: "body = join_with ''/'' segments" "segments \<noteq> []"
    using split_regex_join [OF s(1) [unfolded splitRegexPath_def]] split_regex_nonempty [OF s(1) [unfolded splitRegexPath_def]] by simp_all
  have "list_all guarded_slash segments"
    by (rule split_regex_guarded [OF s(1) [unfolded splitRegexPath_def]]) (simp_all add: guarded_slash_def)
  note kinds = subscription_segments_kinds [OF s(2) this]
  obtain re where re: "regexp_Compile expr = Inr re" "m = regexMatcher re"
    using assms(5) by (auto simp: newRegexMatcher_def split: sum.splits)
  with assms(6) have "re t \<noteq> None" by simp
  then have "list_all2 level_regex segments (split_on slash t)"
    using assms(1) body kinds re(1) unfolding regexp_levels_def assms(2) by blast
  moreover have "split_on slash sub = out" unfolding s(3)
    using kinds body(2) by (intro split_on_join) (auto simp: list_all_iff)
  moreover have "hash_last out" using s(3,4) valid_hash_last by simp
  ultimately show ?thesis using derived_levels [OF s(2)] by simp
qed

definition sample_compile :: "string \<Rightarrow> string + (string \<Rightarrow> string list option)" where
  "sample_compile expr = (case splitRegexPath (TrimSuffix (TrimPrefix expr ''^'') ''$'') of
       Inl _ \<Rightarrow> Inl ''error parsing regexp''
     | Inr segments \<Rightarrow> Inr (\<lambda>t. if list_all2 level_regex segments (split_on slash t) then Some [] else None))"


lemma split_regex_level:
  assumes "\<not> containsRegexMeta g \<and> slash \<notin> set g \<or> singleLevelCaptureRegex g"
  shows "split_regex segments current False False (g @ rs) = split_regex segments (current @ g) False False rs"
proof (cases "singleLevelCaptureRegex g")
  case True
  then show ?thesis by (auto simp: singleLevelCaptureRegex_def)
next
  case False
  with assms have "\<not> containsRegexMeta g" "slash \<notin> set g" by auto
  then show ?thesis by (induction g arbitrary: current) (auto simp: containsRegexMeta_def)
qed

lemma split_regex_levels:
  "list_all (\<lambda>g. \<not> containsRegexMeta g \<and> slash \<notin> set g \<or> singleLevelCaptureRegex g) gs \<Longrightarrow> gs \<noteq> [] \<Longrightarrow>
   split_regex segments [] False False (join_with ''/'' gs) = Inr (segments @ gs)"
proof (induction "''/''" gs arbitrary: segments rule: join_with.induct)
  case (2 g)
  then show ?case using split_regex_level [of g segments "[]" "[]"] by simp
next
  case (3 g h gs)
  then show ?case using split_regex_level [of g segments "[]" "''/'' @ join_with ''/'' (h # gs)"] by simp
qed simp

lemma sample_compile_levels: "regexp_levels sample_compile"
  unfolding regexp_levels_def
proof (intro allI impI)
  fix segments re t
  assume a: "segments \<noteq> []" "list_all (\<lambda>g. \<not> containsRegexMeta g \<and> slash \<notin> set g \<or> singleLevelCaptureRegex g) segments"
    "sample_compile (''^'' @ join_with ''/'' segments @ ''$'') = Inr re"
  have "TrimSuffix (TrimPrefix (''^'' @ join_with ''/'' segments @ ''$'') ''^'') ''$'' = join_with ''/'' segments"
    using TrimSuffix_single by (simp add: TrimPrefix_def)
  moreover have "splitRegexPath (join_with ''/'' segments) = Inr segments"
    using split_regex_levels [OF a(2,1)] by (simp add: splitRegexPath_def)
  ultimately have "re = (\<lambda>t. if list_all2 level_regex segments (split_on slash t) then Some [] else None)"
    using a(3) unfolding sample_compile_def by (auto simp del: append.simps)
  then show "(re t \<noteq> None) = list_all2 level_regex segments (split_on slash t)" by simp
qed

theorem derived_subscription_covers_witness:
  "\<exists>cs. topic_filter (split_on slash ''home/+/temp'') (split_on slash ''home/hall/temp'') cs"
proof -
  let ?expr = "''^home/([^/]+)/temp$''"
  let ?segments = "[''home'', ''([^/]+)'', ''temp'']"
  let ?re = "\<lambda>t. if list_all2 level_regex ?segments (split_on slash t) then Some [] else None"
  have "splitRegexPath (TrimSuffix (TrimPrefix ?expr ''^'') ''$'') = Inr ?segments" by code_simp
  then have c: "sample_compile ?expr = Inr ?re" by (simp only: sample_compile_def sum.case)
  have "list_all2 level_regex ?segments (split_on slash ''home/hall/temp'')" by code_simp
  then have m: "?re ''home/hall/temp'' = Some []" by (simp only: if_True)
  have d: "deriveSubscriptionTopicFromRegex ?expr = Inr ''home/+/temp''" by code_simp
  have t: "TrimSpace ?expr = ?expr" by code_simp
  have n: "newRegexMatcher sample_compile ?expr = Inr (regexMatcher ?re)" by (simp only: newRegexMatcher_def c sum.case)
  have "?expr = ''^'' @ ''home/([^/]+)/temp'' @ ''$''" by simp
  from derived_subscription_covers [OF sample_compile_levels this t d n, of "''home/hall/temp''" "[]"] m show ?thesis
    by (simp only: Match.simps simp_thms)
qed

end
