(* ===== verification/Ingest.thy ===== *)
theory Ingest
  imports Topics TsData
begin

text \<open>
  From a message to data points (\<^verbatim>\<open>internal/insamlare\<close>): compiled routes (\<^verbatim>\<open>route.go\<close>), the fixed
  transformation (\<^verbatim>\<open>fixed_transform.go\<close>) and the one by a script (\<^verbatim>\<open>tengo_transform.go\<close>).  Instants count
  nanoseconds.  Arguments are \<^verbatim>\<open>uuid.Parse\<close>, \<^verbatim>\<open>regexp.Compile\<close>, the readers of numbers, instants and
  JSON, and the script interpreter, which gives the script's \<^verbatim>\<open>points\<close> for a message.
\<close>

record 'v fixed_value =
  fv_Value :: 'v
  fv_Timestamp :: int

record 'v Point =
  pt_TimeseriesUUID :: uuid
  pt_Timestamp :: int
  pt_Value :: 'v

record Message =
  mg_Topic :: string
  mg_Payload :: string
  mg_ReceivedAt :: int
  mg_TopicCaptures :: "string list"

text \<open>Go's \<^verbatim>\<open>any\<close>, as JSON and the scripts produce it.\<close>

datatype 'v dyn =
    Nil_value
  | Bool_value bool
  | Float_value 'v
  | Int64_value int
  | Int32_value int
  | String_value string
  | Slice_value "'v dyn list"
  | Map_value "(string \<times> 'v dyn) list"

fun type_name :: "'v dyn \<Rightarrow> string" where
  "type_name Nil_value = ''<nil>''"
| "type_name (Bool_value _) = ''bool''"
| "type_name (Float_value _) = ''float64''"
| "type_name (Int64_value _) = ''int64''"
| "type_name (Int32_value _) = ''int32''"
| "type_name (String_value _) = ''string''"
| "type_name (Slice_value _) = ''[]interface {}''"
| "type_name (Map_value _) = ''map[string]interface {}''"

record 'v ingest_lib =
  il_uuid_Parse :: "string \<Rightarrow> string + uuid"
  il_regexp_Compile :: "string \<Rightarrow> string + (string \<Rightarrow> string list option)"
  il_ParseFloat :: "string \<Rightarrow> string + 'v"
  il_float64 :: "int \<Rightarrow> 'v"
  il_int64 :: "'v \<Rightarrow> int"
  il_RFC3339 :: "string \<Rightarrow> string + int"
  il_Unmarshal :: "string \<Rightarrow> string + 'v dyn"
  il_ReadFile :: "string \<Rightarrow> string + string"
  il_Tengo :: "string \<Rightarrow> string + (Message \<Rightarrow> string + 'v dyn list)"

definition lib :: "string + 'a \<Rightarrow> 'a ires" where
  "lib r = map_sum LibError id r"

definition wrapped :: "string \<Rightarrow> string list \<Rightarrow> 'a ires \<Rightarrow> 'a ires" where
  "wrapped fmt args r = map_sum (Wrapf fmt args) id r"

section \<open>Numbers and instants\<close>

definition parseNumericPayload :: "'v ingest_lib \<Rightarrow> string \<Rightarrow> 'v ires" where
  "parseNumericPayload L payload = lib (il_ParseFloat L (TrimSpace payload))"

fun parseNumericAny :: "'v ingest_lib \<Rightarrow> 'v dyn \<Rightarrow> 'v ires" where
  "parseNumericAny L (Float_value x) = Inr x"
| "parseNumericAny L (Int64_value x) = Inr (il_float64 L x)"
| "parseNumericAny L (Int32_value x) = Inr (il_float64 L x)"
| "parseNumericAny L (String_value x) = lib (il_ParseFloat L (TrimSpace x))"
| "parseNumericAny L v = Inl (Errorf ''unsupported numeric type %T'' [type_name v])"

definition parseTimestampAny :: "'v ingest_lib \<Rightarrow> 'v dyn \<Rightarrow> string \<Rightarrow> int ires" where
  "parseTimestampAny L v format =
     (if format = '''' \<or> format = ''rfc3339'' then
        (case v of String_value s \<Rightarrow> lib (il_RFC3339 L s)
         | _ \<Rightarrow> Inl (Errorf ''expected rfc3339 string, got %T'' [type_name v]))
      else if format = ''unix'' then map_sum id (\<lambda>n. il_int64 L n * 1000000000) (parseNumericAny L v)
      else if format = ''unix_ms'' then map_sum id (\<lambda>n. il_int64 L n * 1000000) (parseNumericAny L v)
      else Inl (Errorf ''unsupported timestamp format %q'' [format]))"

section \<open>The fixed transformation\<close>

record fixedTransformer =
  ft_seriesUUID :: string
  ft_payloadFormat :: string
  ft_valueKey :: string
  ft_timestampKey :: string
  ft_timestampFormat :: string

definition newFixedTransformer :: "'v ingest_lib \<Rightarrow> RouteConfig \<Rightarrow> fixedTransformer ires" where
  "newFixedTransformer L cfg =
     (case (if \<not> containsCaptureTemplate (rc_TimeseriesUUID cfg) then uuid_error (il_uuid_Parse L) (rc_TimeseriesUUID cfg) else None) of
        Some e \<Rightarrow> Inl e
      | None \<Rightarrow> Inr \<lparr>ft_seriesUUID = TrimSpace (rc_TimeseriesUUID cfg), ft_payloadFormat = payloadFormatOrDefault cfg,
          ft_valueKey = TrimSpace (rc_ValueKey cfg), ft_timestampKey = TrimSpace (rc_TimestampKey cfg),
          ft_timestampFormat = TrimSpace (rc_TimestampFormat cfg)\<rparr>)"

definition extractJSONObject :: "'v ingest_lib \<Rightarrow> fixedTransformer \<Rightarrow> (string \<times> 'v dyn) list \<Rightarrow> Message \<Rightarrow> 'v fixed_value ires" where
  "extractJSONObject L t raw msg =
     (let valueField = (if ft_valueKey t \<noteq> [] then expandCaptureTemplate (ft_valueKey t) (mg_TopicCaptures msg) else ''value'') in
      case map_of raw valueField of
        None \<Rightarrow> Inl (Errorf ''missing value key %q'' [valueField])
      | Some rawValue \<Rightarrow>
          (case wrapped ''value key %q: %w'' [valueField] (parseNumericAny L rawValue) of
             Inl e \<Rightarrow> Inl e
           | Inr v \<Rightarrow>
               (let timestampKey = expandCaptureTemplate (ft_timestampKey t) (mg_TopicCaptures msg) in
                if timestampKey = [] then Inr \<lparr>fv_Value = v, fv_Timestamp = mg_ReceivedAt msg\<rparr>
                else case map_of raw timestampKey of
                  None \<Rightarrow> Inl (Errorf ''missing timestamp key %q'' [timestampKey])
                | Some rawTimestamp \<Rightarrow>
                    map_sum id (\<lambda>ts. \<lparr>fv_Value = v, fv_Timestamp = ts\<rparr>)
                      (wrapped ''timestamp key %q: %w'' [timestampKey] (parseTimestampAny L rawTimestamp (ft_timestampFormat t))))))"

fun extract_items :: "'v ingest_lib \<Rightarrow> fixedTransformer \<Rightarrow> Message \<Rightarrow> nat \<Rightarrow> 'v dyn list \<Rightarrow> 'v fixed_value list ires" where
  "extract_items L t msg i [] = Inr []"
| "extract_items L t msg i (item # items) = (case item of
       Map_value obj \<Rightarrow>
         (case wrapped ''points[%d]: %w'' [utoa i] (extractJSONObject L t obj msg) of
            Inl e \<Rightarrow> Inl e
          | Inr pt \<Rightarrow> map_sum id (\<lambda>points. pt # points) (extract_items L t msg (Suc i) items))
     | _ \<Rightarrow> Inl (Errorf ''points[%d] must be an object, got %T'' [utoa i, type_name item]))"

definition extractJSON :: "'v ingest_lib \<Rightarrow> fixedTransformer \<Rightarrow> Message \<Rightarrow> 'v fixed_value list ires" where
  "extractJSON L t msg = (case il_Unmarshal L (mg_Payload msg) of
       Inl e \<Rightarrow> Inl (LibError e)
     | Inr raw \<Rightarrow>
         (case raw of
            Map_value obj \<Rightarrow> map_sum id (\<lambda>pt. [pt]) (extractJSONObject L t obj msg)
          | Slice_value items \<Rightarrow> extract_items L t msg 0 items
          | _ \<Rightarrow> Inl (Errorf ''expected json object or array, got %T'' [type_name raw])))"

definition extract_values :: "'v ingest_lib \<Rightarrow> fixedTransformer \<Rightarrow> Message \<Rightarrow> 'v fixed_value list ires" where
  "extract_values L t msg =
     (let number = map_sum id (\<lambda>v. [\<lparr>fv_Value = v, fv_Timestamp = mg_ReceivedAt msg\<rparr>]) (parseNumericPayload L (mg_Payload msg)) in
      if ft_payloadFormat t = ''number'' then number
      else if ft_payloadFormat t = ''json'' then extractJSON L t msg
      else if ft_payloadFormat t = ''auto'' then (if is_ok number then number else extractJSON L t msg)
      else Inl (Errorf ''unsupported payload format %q'' [ft_payloadFormat t]))"

definition fixed_Transform :: "'v ingest_lib \<Rightarrow> fixedTransformer \<Rightarrow> Message \<Rightarrow> 'v Point list ires" where
  "fixed_Transform L t msg = (case extract_values L t msg of
       Inl e \<Rightarrow> Inl e
     | Inr values \<Rightarrow>
         (case il_uuid_Parse L (expandCaptureTemplate (ft_seriesUUID t) (mg_TopicCaptures msg)) of
            Inl e \<Rightarrow> Inl (Wrapf ''resolve timeseries_uuid: %w'' [] (LibError e))
          | Inr seriesUUID \<Rightarrow>
              Inr (map (\<lambda>sample. \<lparr>pt_TimeseriesUUID = seriesUUID, pt_Timestamp = fv_Timestamp sample, pt_Value = fv_Value sample\<rparr>) values)))"

section \<open>Scripts\<close>

definition allowedTengoModules :: "string list" where
  "allowedTengoModules = [''base64'', ''enum'', ''hex'', ''json'', ''math'', ''rand'', ''text'', ''times'']"

text \<open>The submatches of \<^verbatim>\<open>import\("([^"]+)"\)\<close>, from the left.\<close>

abbreviation quote :: char where
  "quote \<equiv> CHR 0x22"

definition import_at :: "string \<Rightarrow> (string \<times> string) option" where
  "import_at s = (if HasPrefix s (''import('' @ [quote]) then
       (let name = takeWhile (\<lambda>c. c \<noteq> quote) (drop 8 s); after = dropWhile (\<lambda>c. c \<noteq> quote) (drop 8 s) in
        if name \<noteq> [] \<and> HasPrefix after (quote # '')'') then Some (name, drop 2 after) else None)
     else None)"

lemma import_at_shorter: "import_at s = Some (name, rest) \<Longrightarrow> length rest < length s"
proof -
  assume "import_at s = Some (name, rest)"
  then have "rest = drop 2 (dropWhile (\<lambda>c. c \<noteq> quote) (drop 8 s))" "s \<noteq> []"
    by (auto simp: import_at_def HasPrefix_def Let_def split: if_splits)
  moreover have "length (dropWhile (\<lambda>c. c \<noteq> quote) (drop 8 s)) \<le> length (drop 8 s)" by (rule length_dropWhile_le)
  ultimately show ?thesis by (cases s) auto
qed

function tengo_imports :: "string \<Rightarrow> string list" where
  "tengo_imports [] = []"
| "tengo_imports (c # cs) = (case import_at (c # cs) of
       Some (name, rest) \<Rightarrow> name # tengo_imports rest
     | None \<Rightarrow> tengo_imports cs)"
  by pat_completeness auto
termination
  by (relation "measure length") (auto dest: import_at_shorter)

definition validateTengoImports :: "string \<Rightarrow> ingest_error option" where
  "validateTengoImports sourceCode =
     (let disallowed = filter (\<lambda>name. name \<notin> set allowedTengoModules) (tengo_imports sourceCode) in
      if disallowed = [] then None else Some (Errorf ''disallowed tengo imports: %v'' (sort disallowed)))"

definition newTengoTransformer :: "'v ingest_lib \<Rightarrow> RouteConfig \<Rightarrow> (Message \<Rightarrow> string + 'v dyn list) ires" where
  "newTengoTransformer L cfg = (case il_ReadFile L (rc_ScriptPath cfg) of
       Inl e \<Rightarrow> Inl (LibError e)
     | Inr sourceCode \<Rightarrow>
         (case validateTengoImports sourceCode of
            Some e \<Rightarrow> Inl e
          | None \<Rightarrow> lib (il_Tengo L sourceCode)))"

definition convert_point :: "'v ingest_lib \<Rightarrow> int \<Rightarrow> string \<Rightarrow> 'v dyn \<Rightarrow> 'v Point ires" where
  "convert_point L now i item = (case item of
       Map_value m \<Rightarrow>
         (case map_of m ''ts_uuid'' of
            Some (String_value rawUUID) \<Rightarrow>
              (case il_uuid_Parse L rawUUID of
                 Inl e \<Rightarrow> Inl (Wrapf ''points[%d].ts_uuid: %w'' [i] (LibError e))
               | Inr tid \<Rightarrow>
                   (case map_of m ''value'' of
                      None \<Rightarrow> Inl (Errorf ''points[%d].value is required'' [i])
                    | Some rawValue \<Rightarrow>
                        (case wrapped ''points[%d].value: %w'' [i] (parseNumericAny L rawValue) of
                           Inl e \<Rightarrow> Inl e
                         | Inr v \<Rightarrow>
                             map_sum id (\<lambda>ts. \<lparr>pt_TimeseriesUUID = tid, pt_Timestamp = ts, pt_Value = v\<rparr>)
                               (case map_of m ''ts'' of
                                  None \<Rightarrow> Inr now
                                | Some rawTimestamp \<Rightarrow>
                                    (case parseTimestampAny L rawTimestamp ''rfc3339'' of
                                       Inr ts \<Rightarrow> Inr ts
                                     | Inl e \<Rightarrow>
                                         (case parseNumericAny L rawTimestamp of
                                            Inr n \<Rightarrow> Inr (il_int64 L n * 1000000)
                                          | Inl _ \<Rightarrow> Inl (Wrapf ''points[%d].ts: %w'' [i] e)))))))
          | _ \<Rightarrow> Inl (Errorf ''points[%d].ts_uuid must be a string'' [i]))
     | _ \<Rightarrow> Inl (Errorf ''points[%d] must be a map, got %T'' [i, type_name item]))"

text \<open>\<open>now\<close> is what \<^verbatim>\<open>time.Now\<close> answers for each item.\<close>

fun convertTengoPoints :: "'v ingest_lib \<Rightarrow> (nat \<Rightarrow> int) \<Rightarrow> nat \<Rightarrow> 'v dyn list \<Rightarrow> 'v Point list ires" where
  "convertTengoPoints L now i [] = Inr []"
| "convertTengoPoints L now i (item # items) = (case convert_point L (now i) (utoa i) item of
       Inl e \<Rightarrow> Inl e
     | Inr pt \<Rightarrow> map_sum id (\<lambda>points. pt # points) (convertTengoPoints L now (Suc i) items))"

definition tengo_Transform :: "'v ingest_lib \<Rightarrow> (nat \<Rightarrow> int) \<Rightarrow> (Message \<Rightarrow> string + 'v dyn list) \<Rightarrow> Message \<Rightarrow> 'v Point list ires" where
  "tengo_Transform L now program msg = (case program msg of
       Inl e \<Rightarrow> Inl (LibError e)
     | Inr items \<Rightarrow> convertTengoPoints L now 0 items)"

section \<open>Routes\<close>

datatype 'v transformer =
    Fixed fixedTransformer
  | Script "Message \<Rightarrow> string + 'v dyn list"

record 'v CompiledRoute =
  cr_Config :: RouteConfig
  cr_matcher :: matcher
  cr_transformer :: "'v transformer"
  cr_subscriptionTopic :: string

definition CompileRoute :: "'v ingest_lib \<Rightarrow> RouteConfig \<Rightarrow> 'v CompiledRoute ires" where
  "CompileRoute L cfg = (case newRouteMatcher (il_regexp_Compile L) cfg of
       Inl e \<Rightarrow> Inl e
     | Inr m \<Rightarrow>
         (case ResolveSubscriptionTopic cfg of
            Inl e \<Rightarrow> Inl e
          | Inr subscriptionTopic \<Rightarrow>
              map_sum id (\<lambda>transformer. \<lparr>cr_Config = cfg, cr_matcher = m, cr_transformer = transformer,
                 cr_subscriptionTopic = subscriptionTopic\<rparr>)
                (if TrimSpace (rc_ScriptPath cfg) \<noteq> [] then map_sum id Script (newTengoTransformer L cfg)
                 else map_sum id Fixed (newFixedTransformer L cfg))))"

definition Matches :: "'v CompiledRoute \<Rightarrow> string \<Rightarrow> bool" where
  "Matches r topic \<longleftrightarrow> Match (cr_matcher r) topic \<noteq> None"

definition Route_Transform :: "'v ingest_lib \<Rightarrow> (nat \<Rightarrow> int) \<Rightarrow> 'v CompiledRoute \<Rightarrow> Message \<Rightarrow> 'v Point list ires" where
  "Route_Transform L now r msg = (case Match (cr_matcher r) (mg_Topic msg) of
       None \<Rightarrow> Inl (Errorf ''topic %q does not match route %q'' [mg_Topic msg, rc_Name (cr_Config r)])
     | Some captures \<Rightarrow>
         (let msg' = msg\<lparr>mg_TopicCaptures := captures\<rparr> in
          case cr_transformer r of
            Fixed t \<Rightarrow> fixed_Transform L t msg'
          | Script program \<Rightarrow> tengo_Transform L now program msg'))"

text \<open>\<^verbatim>\<open>uuid.MustParse\<close> panics on a text that is none, the outer \<^const>\<open>None\<close>.\<close>

definition FixedTimeseriesUUID :: "'v ingest_lib \<Rightarrow> 'v CompiledRoute \<Rightarrow> uuid option option" where
  "FixedTimeseriesUUID L r =
     (let cfg = cr_Config r in
      if TrimSpace (rc_ScriptPath cfg) \<noteq> [] \<or> TrimSpace (rc_TimeseriesUUID cfg) = [] then Some None
      else if containsCaptureTemplate (rc_TimeseriesUUID cfg) then Some None
      else (case il_uuid_Parse L (rc_TimeseriesUUID cfg) of Inl _ \<Rightarrow> None | Inr tid \<Rightarrow> Some (Some tid)))"

end
