(* ===== verification/Writer.thy ===== *)
theory Writer
  imports Ingest Domains
begin

text \<open>
  The writer of the MQTT ingestion (\<^verbatim>\<open>internal/insamlare/writer.go\<close>) and the runtime around it
  (\<^verbatim>\<open>runtime.go\<close>).  Goroutines are interleaved: a run is a sequence of events, each of
  them one iteration of a loop.  Channels are lists with a capacity; an event that would block is
  not enabled.  The order in which a Go map is walked comes with the event.  Counters are natural
  numbers, which stay far below \<open>2 ^ 64\<close>.

  Arguments: which values \<^verbatim>\<open>encoding/json\<close> can write (the finite ones), and the instant
  that PostgreSQL reads from the text of a timestamp.
\<close>

record 'v writer_lib =
  wl_finite :: "'v \<Rightarrow> bool"
  wl_timestamptz :: "int \<Rightarrow> int"

record 'v writerPoint =
  wp_Value :: 'v
  wp_TS :: int

type_synonym 'v grouped = "(uuid \<times> 'v writerPoint list) list"

record WriterConfig =
  wc_CreatedByUUID :: string
  wc_BatchSize :: int
  wc_FlushInterval :: int
  wc_QueueSize :: int

record 'v Writer =
  wr_createdByUUID :: uuid
  wr_batchSize :: int
  wr_flushInterval :: int
  wr_queueSize :: int
  wr_queue :: "'v Point list"
  wr_enqueued :: nat
  wr_inserted :: nat
  wr_flushes :: nat
  wr_failedPoints :: nat
  wr_failedFlushes :: nat

definition NewWriter :: "(string \<Rightarrow> string + uuid) \<Rightarrow> WriterConfig \<Rightarrow> 'v Writer ires" where
  "NewWriter uuid_Parse cfg = (case uuid_Parse (wc_CreatedByUUID cfg) of
       Inl e \<Rightarrow> Inl (Wrapf ''parse created_by_uuid: %w'' [] (LibError e))
     | Inr createdByUUID \<Rightarrow> Inr \<lparr>wr_createdByUUID = createdByUUID, wr_batchSize = wc_BatchSize cfg,
         wr_flushInterval = wc_FlushInterval cfg, wr_queueSize = wc_QueueSize cfg, wr_queue = [],
         wr_enqueued = 0, wr_inserted = 0, wr_flushes = 0, wr_failedPoints = 0, wr_failedFlushes = 0\<rparr>)"

section \<open>The statement\<close>

text \<open>
  \<^verbatim>\<open>INSERT INTO tsdata ... SELECT ... FROM json_to_recordset ... ON CONFLICT (ts_uuid, ts) DO NOTHING\<close>: of
  the rows with one key only the first goes in, and none when the table has the key.
\<close>

definition row_key :: "'v tsdata_row \<Rightarrow> uuid \<times> int" where
  "row_key d = (td_uuid d, td_ts d)"

fun new_rows :: "(uuid \<times> int) set \<Rightarrow> 'v tsdata_row list \<Rightarrow> 'v tsdata_row list" where
  "new_rows known [] = []"
| "new_rows known (d # ds) = (if row_key d \<in> known then new_rows known ds else d # new_rows (insert (row_key d) known) ds)"

definition insertTsDataJSONSQL :: "'v fops \<Rightarrow> 'v writer_lib \<Rightarrow> uuid \<Rightarrow> uuid \<Rightarrow> 'v writerPoint list \<Rightarrow> ('v, int) dbm" where
  "insertTsDataJSONSQL F W seriesID createdByUUID points = stmt (\<lambda>s.
     let rows = new_rows (set (map row_key (tsdata s)))
           (map (\<lambda>p. \<lparr>td_uuid = seriesID, td_value = wp_Value p, td_ts = wl_timestamptz W (wp_TS p), td_created_by = Some createdByUUID\<rparr>) points) in
     if rows \<noteq> [] \<and> (seriesID \<notin> set (map ts_uuid (timeseries s)) \<or> createdByUUID \<notin> set (map u_uuid (users s)))
     then (Inl fk_violation, s)
     else (Inr (int (length rows)), tsdata_after_insert F rows (s\<lparr>tsdata := tsdata s @ rows\<rparr>)))"

text \<open>\<^verbatim>\<open>json.Marshal\<close> refuses what JSON has no text for.\<close>

definition marshals :: "'v writer_lib \<Rightarrow> 'v writerPoint \<Rightarrow> bool" where
  "marshals W p \<longleftrightarrow> wl_finite W (wp_Value p) \<and> 0 \<le> Year UTC (wp_TS p) \<and> Year UTC (wp_TS p) \<le> 9999"

section \<open>The loop\<close>

text \<open>The groups in the order of the map, and whether the context is cancelled.\<close>

fun flush_groups :: "'v fops \<Rightarrow> 'v writer_lib \<Rightarrow> bool \<Rightarrow> 'v grouped \<Rightarrow> 'v Writer \<Rightarrow> 'v db \<Rightarrow> ingest_error option \<times> 'v Writer \<times> 'v db" where
  "flush_groups F W cancelled [] w s = (None, w\<lparr>wr_flushes := wr_flushes w + 1\<rparr>, s)"
| "flush_groups F W cancelled ((seriesID, points) # gs) w s =
     (let failed = w\<lparr>wr_failedPoints := wr_failedPoints w + length points, wr_failedFlushes := wr_failedFlushes w + 1\<rparr> in
      if points = [] then flush_groups F W cancelled gs w s
      else if \<not> list_all (marshals W) points then (Some (Wrapf ''marshal points for %s: %w'' [seriesID] (LibError ''json'')), failed, s)
      else if cancelled then (Some (Wrapf ''insert tsdata for %s: %w'' [seriesID] (LibError ''context canceled'')), failed, s)
      else case insertTsDataJSONSQL F W seriesID (wr_createdByUUID w) points s of
        (Inl e, s') \<Rightarrow> (Some (Wrapf ''insert tsdata for %s: %w'' [seriesID] (LibError (error_string e))), failed, s')
      | (Inr inserted, s') \<Rightarrow> flush_groups F W cancelled gs (w\<lparr>wr_inserted := wr_inserted w + nat inserted\<rparr>) s')"

text \<open>The writer with the variables of \<^verbatim>\<open>Run\<close>; \<open>ws_reported\<close> counts the calls of \<^verbatim>\<open>onError\<close>.\<close>

record 'v wstate =
  ws_writer :: "'v Writer"
  ws_buffer :: "'v grouped"
  ws_total :: nat
  ws_reported :: nat
  ws_db :: "'v db"

definition flush :: "'v fops \<Rightarrow> 'v writer_lib \<Rightarrow> bool \<Rightarrow> ('v grouped \<Rightarrow> 'v grouped) \<Rightarrow> 'v wstate \<Rightarrow> 'v wstate" where
  "flush F W cancelled order st =
     (if ws_total st = 0 then st
      else let (err, w, s) = flush_groups F W cancelled (order (ws_buffer st)) (ws_writer st) (ws_db st) in
        st\<lparr>ws_writer := w, ws_db := s, ws_buffer := [], ws_total := 0,
           ws_reported := (case err of None \<Rightarrow> ws_reported st | Some _ \<Rightarrow> ws_reported st + 1)\<rparr>)"

definition buffered :: "'v Point \<Rightarrow> 'v grouped \<Rightarrow> 'v grouped" where
  "buffered p buffer = put (pt_TimeseriesUUID p)
     ((case map_of buffer (pt_TimeseriesUUID p) of None \<Rightarrow> [] | Some ps \<Rightarrow> ps) @ [\<lparr>wp_Value = pt_Value p, wp_TS = pt_Timestamp p\<rparr>]) buffer"

text \<open>One point put into the queue by \<^verbatim>\<open>Enqueue\<close>; one iteration of \<^verbatim>\<open>Run\<close> that takes a point.\<close>

definition Enqueue1 :: "'v Point \<Rightarrow> 'v wstate \<Rightarrow> 'v wstate option" where
  "Enqueue1 p st = (let w = ws_writer st in
     if int (length (wr_queue w)) < wr_queueSize w
     then Some (st\<lparr>ws_writer := w\<lparr>wr_queue := wr_queue w @ [p], wr_enqueued := wr_enqueued w + 1\<rparr>\<rparr>) else None)"

definition take_point :: "'v fops \<Rightarrow> 'v writer_lib \<Rightarrow> bool \<Rightarrow> ('v grouped \<Rightarrow> 'v grouped) \<Rightarrow> 'v wstate \<Rightarrow> 'v wstate option" where
  "take_point F W cancelled order st = (case wr_queue (ws_writer st) of
       [] \<Rightarrow> None
     | p # ps \<Rightarrow>
         (let st1 = st\<lparr>ws_writer := (ws_writer st)\<lparr>wr_queue := ps\<rparr>, ws_buffer := buffered p (ws_buffer st), ws_total := ws_total st + 1\<rparr> in
          Some (if int (ws_total st1) \<ge> wr_batchSize (ws_writer st1) then flush F W cancelled order st1 else st1)))"

datatype 'v wevent =
    Push "'v Point"
  | Take "'v grouped \<Rightarrow> 'v grouped"
  | Tick "'v grouped \<Rightarrow> 'v grouped"

fun writer_event :: "'v fops \<Rightarrow> 'v writer_lib \<Rightarrow> bool \<Rightarrow> 'v wevent \<Rightarrow> 'v wstate \<Rightarrow> 'v wstate option" where
  "writer_event F W cancelled (Push p) st = Enqueue1 p st"
| "writer_event F W cancelled (Take order) st = take_point F W cancelled order st"
| "writer_event F W cancelled (Tick order) st = Some (flush F W cancelled order st)"

fun writer_events :: "'v fops \<Rightarrow> 'v writer_lib \<Rightarrow> 'v wevent list \<Rightarrow> 'v wstate \<Rightarrow> 'v wstate option" where
  "writer_events F W [] st = Some st"
| "writer_events F W (e # es) st = (case writer_event F W False e st of None \<Rightarrow> None | Some st' \<Rightarrow> writer_events F W es st')"

definition Run_start :: "'v Writer \<Rightarrow> 'v db \<Rightarrow> 'v wstate" where
  "Run_start w s = \<lparr>ws_writer = w, ws_buffer = [], ws_total = 0, ws_reported = 0, ws_db = s\<rparr>"

text \<open>\<^verbatim>\<open>case <-ctx.Done(): return flush()\<close>\<close>

definition Run_done :: "'v fops \<Rightarrow> 'v writer_lib \<Rightarrow> ('v grouped \<Rightarrow> 'v grouped) \<Rightarrow> 'v wstate \<Rightarrow> 'v wstate" where
  "Run_done F W order st = flush F W True order st"

record WriterStats =
  wt_QueueLen :: nat
  wt_QueueCap :: int
  wt_EnqueuedPoints :: nat
  wt_InsertedPoints :: nat
  wt_Flushes :: nat
  wt_FailedPoints :: nat
  wt_FailedFlushes :: nat

definition Stats :: "'v Writer \<Rightarrow> WriterStats" where
  "Stats w = \<lparr>wt_QueueLen = length (wr_queue w), wt_QueueCap = wr_queueSize w, wt_EnqueuedPoints = wr_enqueued w,
     wt_InsertedPoints = wr_inserted w, wt_Flushes = wr_flushes w, wt_FailedPoints = wr_failedPoints w,
     wt_FailedFlushes = wr_failedFlushes w\<rparr>"


section \<open>First writes\<close>

text \<open>
  The series as a map from the series and the instant to the value.  The abstract writer keeps the
  first value it is given for a key.
\<close>

definition content :: "'v db \<Rightarrow> uuid \<times> int \<Rightarrow> 'v option" where
  "content s = map_of (map (\<lambda>d. (row_key d, td_value d)) (tsdata s))"

definition point_key :: "'v writer_lib \<Rightarrow> 'v Point \<Rightarrow> uuid \<times> int" where
  "point_key W p = (pt_TimeseriesUUID p, wl_timestamptz W (pt_Timestamp p))"

definition first_writes :: "'v writer_lib \<Rightarrow> 'v Point list \<Rightarrow> (uuid \<times> int \<Rightarrow> 'v option) \<Rightarrow> uuid \<times> int \<Rightarrow> 'v option" where
  "first_writes W ps m k = (case m k of Some v \<Rightarrow> Some v | None \<Rightarrow> map_option pt_Value (List.find (\<lambda>p. point_key W p = k) ps))"

fun pushed :: "'v wevent list \<Rightarrow> 'v Point list" where
  "pushed [] = []"
| "pushed (Push p # es) = p # pushed es"
| "pushed (_ # es) = pushed es"

lemma find_append: "List.find P (xs @ ys) = (case List.find P xs of Some x \<Rightarrow> Some x | None \<Rightarrow> List.find P ys)"
  by (induction xs) auto

lemma map_of_new_rows:
  "map_of (map (\<lambda>d. (row_key d, td_value d)) (new_rows known ds)) k
   = (if k \<in> known then None else map_option td_value (List.find (\<lambda>d. row_key d = k) ds))"
  by (induction known ds rule: new_rows.induct) auto

lemma content_new_rows:
  "content (s\<lparr>tsdata := tsdata s @ new_rows (set (map row_key (tsdata s))) ds\<rparr>) k
   = (case content s k of Some v \<Rightarrow> Some v | None \<Rightarrow> map_option td_value (List.find (\<lambda>d. row_key d = k) ds))"
proof -
  have "content s k = None \<longleftrightarrow> k \<notin> set (map row_key (tsdata s))"
    by (simp add: content_def map_of_eq_None_iff image_image)
  then show ?thesis using map_of_new_rows [of "set (map row_key (tsdata s))" ds k]
    by (auto simp: content_def map_add_def split: option.splits)
qed

lemma after_insert_keeps [simp]:
  "tsdata (tsdata_after_insert F rows s) = tsdata s" "timeseries (tsdata_after_insert F rows s) = timeseries s"
  "users (tsdata_after_insert F rows s) = users s" "faults (tsdata_after_insert F rows s) = faults s"
  by (simp_all add: tsdata_after_insert_def refresh_days_def hourly_after_insert_def Let_def)

text \<open>What the buffer holds of one series, as points.\<close>

definition as_point :: "uuid \<Rightarrow> 'v writerPoint \<Rightarrow> 'v Point" where
  "as_point tid q = \<lparr>pt_TimeseriesUUID = tid, pt_Timestamp = wp_TS q, pt_Value = wp_Value q\<rparr>"

definition series_points :: "uuid \<Rightarrow> 'v grouped \<Rightarrow> 'v Point list" where
  "series_points tid buffer = map (as_point tid) (case map_of buffer tid of None \<Rightarrow> [] | Some ps \<Rightarrow> ps)"

lemma series_points_buffered:
  "series_points tid (buffered p buffer) = series_points tid buffer @ (if tid = pt_TimeseriesUUID p then [p] else [])"
  by (auto simp: series_points_def buffered_def as_point_def split: option.splits)

definition accepts :: "'v writer_lib \<Rightarrow> uuid \<Rightarrow> 'v db \<Rightarrow> uuid \<Rightarrow> 'v writerPoint \<Rightarrow> bool" where
  "accepts W createdBy s tid q \<longleftrightarrow> marshals W q \<and> tid \<in> set (map ts_uuid (timeseries s)) \<and> createdBy \<in> set (map u_uuid (users s))"

lemma find_as_point: "List.find (\<lambda>p. point_key W p = k) (map (as_point tid) qs)
    = map_option (as_point tid) (List.find (\<lambda>q. (tid, wl_timestamptz W (wp_TS q)) = k) qs)"
  by (induction qs) (auto simp: point_key_def as_point_def)

lemma insert_first_writes:
  assumes "healthy s" "list_all (accepts W cb s tid) qs" "qs \<noteq> []"
  obtains n s' where "insertTsDataJSONSQL F W tid cb qs s = (Inr n, s')" "healthy s'" "timeseries s' = timeseries s" "users s' = users s"
    "content s' = first_writes W (map (as_point tid) qs) (content s)"
proof -
  let ?f = "\<lambda>p. \<lparr>td_uuid = tid, td_value = wp_Value p, td_ts = wl_timestamptz W (wp_TS p), td_created_by = Some cb\<rparr>"
  let ?t = "s\<lparr>faults := tl (faults s)\<rparr>"
  let ?rows = "new_rows (set (map row_key (tsdata s))) (map ?f qs)"
  let ?s' = "tsdata_after_insert F ?rows (?t\<lparr>tsdata := tsdata s @ ?rows\<rparr>)"
  from assms(2,3) have "tid \<in> set (map ts_uuid (timeseries s))" "cb \<in> set (map u_uuid (users s))"
    by (cases qs, simp_all add: accepts_def)+
  then have "insertTsDataJSONSQL F W tid cb qs s = (Inr (int (length ?rows)), ?s')"
    unfolding insertTsDataJSONSQL_def healthy_stmt [OF assms(1)] by (simp add: Let_def)
  moreover have "healthy ?s'" using healthy_tl [OF assms(1)] by (simp add: healthy_def)
  moreover have "content ?s' k = first_writes W (map (as_point tid) qs) (content s) k" for k
  proof -
    have "content ?s' k = content (s\<lparr>tsdata := tsdata s @ ?rows\<rparr>) k" by (simp add: content_def)
    moreover have "List.find (\<lambda>d. row_key d = k) (map ?f qs) = map_option ?f (List.find (\<lambda>q. (tid, wl_timestamptz W (wp_TS q)) = k) qs)"
      by (induction qs) (auto simp: row_key_def)
    ultimately show ?thesis unfolding content_new_rows
      by (auto simp: first_writes_def find_as_point option.map_comp comp_def as_point_def split: option.splits)
  qed
  ultimately show thesis by (intro that [of "int (length ?rows)" ?s']) auto
qed


lemma first_writes_other: "fst k \<noteq> tid \<Longrightarrow> first_writes W (map (as_point tid) qs) m k = m k"
proof -
  assume "fst k \<noteq> tid"
  then have "List.find (\<lambda>p. point_key W p = k) (map (as_point tid) qs) = None"
    by (auto simp: find_None_iff point_key_def as_point_def)
  then show ?thesis by (simp add: first_writes_def split: option.splits)
qed

lemma first_writes_cong: "m k = m' k \<Longrightarrow> first_writes W ps m k = first_writes W ps m' k"
  by (simp add: first_writes_def)

lemma first_writes_Nil [simp]: "first_writes W [] m = m"
  by (auto simp: first_writes_def split: option.splits)

definition ready :: "'v writer_lib \<Rightarrow> uuid \<Rightarrow> 'v db \<Rightarrow> 'v grouped \<Rightarrow> bool" where
  "ready W cb s buffer \<longleftrightarrow> distinct (map fst buffer) \<and> list_all (\<lambda>(tid, qs). list_all (accepts W cb s tid) qs) buffer"

lemma accepts_cong: "timeseries s' = timeseries s \<Longrightarrow> users s' = users s \<Longrightarrow> accepts W cb s' = accepts W cb s"
  by (intro ext) (simp add: accepts_def)

lemma flush_groups_ok:
  "healthy s \<Longrightarrow> ready W (wr_createdByUUID w) s gs \<Longrightarrow>
   \<exists>n f s'. flush_groups F W False gs w s = (None, w\<lparr>wr_inserted := n, wr_flushes := f\<rparr>, s')
     \<and> healthy s' \<and> timeseries s' = timeseries s \<and> users s' = users s
     \<and> (\<forall>k. content s' k = first_writes W (series_points (fst k) gs) (content s) k)"
proof (induction gs arbitrary: w s)
  case Nil
  then show ?case by (intro exI [of _ "wr_inserted w"] exI [of _ "wr_flushes w + 1"] exI [of _ s])
      (auto simp: first_writes_def series_points_def split: option.splits)
next
  case (Cons g gs)
  obtain tid qs where g: "g = (tid, qs)" by force
  with Cons.prems(2) have r: "list_all (accepts W (wr_createdByUUID w) s tid) qs" "ready W (wr_createdByUUID w) s gs" "tid \<notin> fst ` set gs"
    by (auto simp: ready_def)
  then have none: "map_of gs tid = None" by (simp add: map_of_eq_None_iff)
  show ?case
  proof (cases "qs = []")
    case True
    have "series_points (fst k) (g # gs) = series_points (fst k) gs" for k :: "uuid \<times> int"
      using none True by (auto simp: g series_points_def)
    with Cons.IH [OF Cons.prems(1) r(2)] True show ?thesis by (simp add: g)
  next
    case False
    obtain n s1 where i: "insertTsDataJSONSQL F W tid (wr_createdByUUID w) qs s = (Inr n, s1)" "healthy s1" "timeseries s1 = timeseries s"
      "users s1 = users s" "content s1 = first_writes W (map (as_point tid) qs) (content s)"
      by (rule insert_first_writes [OF Cons.prems(1) r(1) False]) (rule that)
    let ?w = "w\<lparr>wr_inserted := wr_inserted w + nat n\<rparr>"
    have "ready W (wr_createdByUUID ?w) s1 gs" using r(2) accepts_cong [OF i(3,4)] by (simp add: ready_def)
    from Cons.IH [OF i(2) this] obtain n' f' s' where h: "flush_groups F W False gs ?w s1 = (None, w\<lparr>wr_inserted := n', wr_flushes := f'\<rparr>, s')"
      "healthy s'" "timeseries s' = timeseries s1" "users s' = users s1"
      "\<forall>k. content s' k = first_writes W (series_points (fst k) gs) (content s1) k" by auto
    have m: "list_all (marshals W) qs" using r(1) by (auto simp: list_all_iff accepts_def)
    have "content s' k = first_writes W (series_points (fst k) (g # gs)) (content s) k" for k
    proof (cases "fst k = tid")
      case True
      with none have "series_points (fst k) gs = []" "series_points (fst k) (g # gs) = map (as_point tid) qs"
        by (simp_all add: g series_points_def)
      then show ?thesis unfolding h(5) [rule_format, of k] i(5) by simp
    next
      case False
      then have "series_points (fst k) (g # gs) = series_points (fst k) gs" by (simp add: g series_points_def)
      then show ?thesis unfolding h(5) [rule_format, of k] i(5) 
        by (auto intro!: first_writes_cong simp: first_writes_other [OF False])
    qed
    with h i m False show ?thesis by (auto simp: g)
  qed
qed


definition accepted :: "'v writer_lib \<Rightarrow> uuid \<Rightarrow> 'v db \<Rightarrow> 'v Point \<Rightarrow> bool" where
  "accepted W cb s p \<longleftrightarrow> accepts W cb s (pt_TimeseriesUUID p) \<lparr>wp_Value = pt_Value p, wp_TS = pt_Timestamp p\<rparr>"

text \<open>What is stored, buffered and queued is together what the abstract writer has after the points pushed.\<close>

definition on_track :: "'v writer_lib \<Rightarrow> 'v Writer \<Rightarrow> 'v db \<Rightarrow> 'v Point list \<Rightarrow> 'v wstate \<Rightarrow> bool" where
  "on_track W w0 s0 ps st \<longleftrightarrow> wr_createdByUUID (ws_writer st) = wr_createdByUUID w0 \<and> healthy (ws_db st)
     \<and> timeseries (ws_db st) = timeseries s0 \<and> users (ws_db st) = users s0
     \<and> ready W (wr_createdByUUID w0) s0 (ws_buffer st) \<and> (ws_total st = 0 \<longrightarrow> ws_buffer st = [])
     \<and> list_all (accepted W (wr_createdByUUID w0) s0) (wr_queue (ws_writer st))
     \<and> (\<forall>k. first_writes W (series_points (fst k) (ws_buffer st) @ wr_queue (ws_writer st)) (content (ws_db st)) k
            = first_writes W ps (content s0) k)"

definition fair_order :: "('v grouped \<Rightarrow> 'v grouped) \<Rightarrow> bool" where
  "fair_order order \<longleftrightarrow> (\<forall>m. distinct (map fst m) \<longrightarrow> distinct (map fst (order m)) \<and> set (order m) = set m)"

lemma first_writes_append: "first_writes W (xs @ ys) m k = first_writes W ys (first_writes W xs m) k"
  by (auto simp: first_writes_def find_append split: option.splits)

lemma flush_on_track:
  assumes "on_track W w0 s0 ps st" "fair_order order"
  shows "on_track W w0 s0 ps (flush F W False order st) \<and> ws_buffer (flush F W False order st) = []
    \<and> wr_queue (ws_writer (flush F W False order st)) = wr_queue (ws_writer st) \<and> ws_total (flush F W False order st) = 0"
proof (cases "ws_total st = 0")
  case True
  moreover from this assms(1) have "ws_buffer st = []" by (simp add: on_track_def)
  ultimately show ?thesis using assms(1) by (simp add: flush_def)
next
  case False
  let ?gs = "order (ws_buffer st)" and ?cb = "wr_createdByUUID w0"
  note a = assms(1) [unfolded on_track_def]
  have d: "distinct (map fst (ws_buffer st))" using a by (simp add: ready_def)
  with assms(2) have o: "distinct (map fst ?gs)" "set ?gs = set (ws_buffer st)" by (auto simp: fair_order_def)
  then have same: "map_of ?gs = map_of (ws_buffer st)" using d by (intro map_of_eqI) (auto simp: map_of_is_SomeI dest: map_of_SomeD)
  have "ready W (wr_createdByUUID (ws_writer st)) (ws_db st) ?gs"
    using a o accepts_cong [of "ws_db st" s0 W ?cb] by (auto simp: ready_def list_all_iff)
  from flush_groups_ok [OF _ this] a obtain n f s' where
    f: "flush_groups F W False ?gs (ws_writer st) (ws_db st) = (None, (ws_writer st)\<lparr>wr_inserted := n, wr_flushes := f\<rparr>, s')"
      "healthy s'" "timeseries s' = timeseries (ws_db st)" "users s' = users (ws_db st)"
      "\<forall>k. content s' k = first_writes W (series_points (fst k) ?gs) (content (ws_db st)) k" by blast
  have "first_writes W (wr_queue (ws_writer st)) (content s') k = first_writes W ps (content s0) k" for k
  proof -
    have "first_writes W (wr_queue (ws_writer st)) (content s') k
        = first_writes W (series_points (fst k) (ws_buffer st) @ wr_queue (ws_writer st)) (content (ws_db st)) k"
      unfolding first_writes_append using f(5) [rule_format, of k] by (intro first_writes_cong) (simp add: series_points_def same)
    also have "\<dots> = first_writes W ps (content s0) k" using a by blast
    finally show ?thesis .
  qed
  with f a False show ?thesis by (simp add: flush_def on_track_def ready_def series_points_def)
qed

lemma take_on_track:
  assumes "on_track W w0 s0 ps st" "wr_queue (ws_writer st) = p # q"
  shows "on_track W w0 s0 ps (st\<lparr>ws_writer := (ws_writer st)\<lparr>wr_queue := q\<rparr>, ws_buffer := buffered p (ws_buffer st), ws_total := ws_total st + 1\<rparr>)"
proof -
  note a = assms(1) [unfolded on_track_def]
  then have "accepted W (wr_createdByUUID w0) s0 p" using assms(2) by simp
  then have "ready W (wr_createdByUUID w0) s0 (buffered p (ws_buffer st))"
    using a by (auto simp: ready_def buffered_def accepted_def list_all_iff split: option.splits dest!: set_put map_of_SomeD) fastforce
  moreover have "first_writes W (series_points (fst k) (buffered p (ws_buffer st)) @ q) (content (ws_db st)) k
      = first_writes W (series_points (fst k) (ws_buffer st) @ p # q) (content (ws_db st)) k" for k
    by (auto simp: series_points_buffered first_writes_append) (auto simp: first_writes_def point_key_def split: option.splits)
  ultimately show ?thesis using a assms(2) by (simp add: on_track_def)
qed


lemma first_writes_snoc_cong:
  assumes "\<And>k. first_writes W (xs k) m k = first_writes W ys m' k"
  shows "first_writes W (xs k @ [p]) m k = first_writes W (ys @ [p]) m' k"
  unfolding first_writes_append by (rule first_writes_cong) (rule assms)

lemma push_on_track:
  assumes "on_track W w0 s0 ps st" "Enqueue1 p st = Some st'" "accepted W (wr_createdByUUID w0) s0 p"
  shows "on_track W w0 s0 (ps @ [p]) st'"
proof -
  note a = assms(1) [unfolded on_track_def]
  have st': "st' = st\<lparr>ws_writer := (ws_writer st)\<lparr>wr_queue := wr_queue (ws_writer st) @ [p], wr_enqueued := wr_enqueued (ws_writer st) + 1\<rparr>\<rparr>"
    using assms(2) by (auto simp: Enqueue1_def Let_def split: if_splits)
  have "first_writes W (series_points (fst k) (ws_buffer st) @ wr_queue (ws_writer st) @ [p]) (content (ws_db st)) k
      = first_writes W (ps @ [p]) (content s0) k" for k
    using first_writes_snoc_cong [of W "\<lambda>k. series_points (fst k) (ws_buffer st) @ wr_queue (ws_writer st)" "content (ws_db st)" ps "content s0" k p] a
    by simp
  with a assms(3) show ?thesis by (simp add: on_track_def st')
qed

fun fair_event :: "'v writer_lib \<Rightarrow> uuid \<Rightarrow> 'v db \<Rightarrow> 'v wevent \<Rightarrow> bool" where
  "fair_event W cb s (Push p) \<longleftrightarrow> accepted W cb s p"
| "fair_event W cb s (Take order) \<longleftrightarrow> fair_order order"
| "fair_event W cb s (Tick order) \<longleftrightarrow> fair_order order"

lemma event_on_track:
  assumes "on_track W w0 s0 ps st" "writer_event F W False e st = Some st'" "fair_event W (wr_createdByUUID w0) s0 e"
  shows "on_track W w0 s0 (ps @ pushed [e]) st'"
proof (cases e)
  case (Push p)
  with assms push_on_track show ?thesis by fastforce
next
  case (Tick order)
  with assms show ?thesis using flush_on_track [OF assms(1)] by auto
next
  case (Take order)
  with assms(2) obtain p q where q: "wr_queue (ws_writer st) = p # q" by (auto simp: take_point_def split: list.splits)
  note t = take_on_track [OF assms(1) q]
  from assms(3) Take have "fair_order order" by simp
  note f = flush_on_track [OF t this]
  from assms(2) Take q t f show ?thesis by (auto simp: take_point_def Let_def split: if_splits)
qed

lemma events_on_track:
  "writer_events F W es st = Some st' \<Longrightarrow> on_track W w0 s0 ps st \<Longrightarrow> list_all (fair_event W (wr_createdByUUID w0) s0) es \<Longrightarrow>
   on_track W w0 s0 (ps @ pushed es) st'"
proof (induction es arbitrary: st ps)
  case (Cons e es)
  then obtain st1 where st1: "writer_event F W False e st = Some st1" "writer_events F W es st1 = Some st'"
    by (auto split: option.splits)
  from Cons.prems have "on_track W w0 s0 (ps @ pushed [e]) st1" using event_on_track [OF _ st1(1)] by simp
  from Cons.IH [OF st1(2) this] Cons.prems(3) have "on_track W w0 s0 ((ps @ pushed [e]) @ pushed es) st'" by simp
  then show ?case by (cases e) simp_all
qed simp


lemma flush_queue [simp]: "wr_queue (ws_writer (flush F W c order st)) = wr_queue (ws_writer st)"
proof -
  have "wr_queue (fst (snd (flush_groups F W c gs w s))) = wr_queue w" for gs w s
    by (induction F W c gs w s rule: flush_groups.induct) (auto simp: Let_def split: sum.splits prod.splits)
  from this [of "order (ws_buffer st)" "ws_writer st" "ws_db st"] show ?thesis
    by (auto simp: flush_def split: prod.splits)
qed

lemma take_all:
  "\<exists>st'. writer_events F W (replicate (length (wr_queue (ws_writer st))) (Take order)) st = Some st' \<and> wr_queue (ws_writer st') = []"
proof (induction "length (wr_queue (ws_writer st))" arbitrary: st)
  case (Suc n)
  then obtain p q where q: "wr_queue (ws_writer st) = p # q" by (cases "wr_queue (ws_writer st)") auto
  then obtain st1 where st1: "take_point F W False order st = Some st1" "wr_queue (ws_writer st1) = q"
    by (auto simp: take_point_def Let_def)
  with Suc q show ?case using Suc.hyps(1) [of st1] by simp
qed simp

lemma events_append: "writer_events F W (xs @ ys) st = (case writer_events F W xs st of None \<Rightarrow> None | Some st' \<Rightarrow> writer_events F W ys st')"
  by (induction xs arbitrary: st) (auto split: option.splits)

lemma pushed_append [simp]: "pushed (xs @ ys) = pushed xs @ pushed ys"
  by (induction xs rule: pushed.induct) auto

lemma pushed_takes [simp]: "pushed (replicate n (Take order)) = []"
  by (induction n) auto

text \<open>
  However pushes, the taking of points and ticks interleave, and in whatever order the map of series
  is walked: once the points still queued are taken, the next tick leaves in the database
  exactly what a writer has that handles one point at a time and keeps the first value for
  every series and instant.  Batching loses nothing, while the database answers and knows the series.
\<close>

theorem batching_exact:
  assumes "writer_events F W es (Run_start w s) = Some st" "wr_queue w = []" "healthy s"
    "list_all (fair_event W (wr_createdByUUID w) s) es" "fair_order order"
  shows "\<exists>st'. writer_events F W (replicate (length (wr_queue (ws_writer st))) (Take order) @ [Tick order]) st = Some st'
    \<and> content (ws_db st') = first_writes W (pushed es) (content s)"
proof -
  let ?ds = "replicate (length (wr_queue (ws_writer st))) (Take order)"
  have "on_track W w s [] (Run_start w s)"
    using assms(2,3) by (simp add: on_track_def Run_start_def ready_def series_points_def)
  from events_on_track [OF assms(1) this assms(4)] have on: "on_track W w s (pushed es) st" by simp
  obtain st1 where st1: "writer_events F W ?ds st = Some st1" "wr_queue (ws_writer st1) = []" using take_all by blast
  have "list_all (fair_event W (wr_createdByUUID w) s) ?ds" using assms(5) by (simp add: list_all_iff)
  from events_on_track [OF st1(1) on this] have "on_track W w s (pushed es) st1" by simp
  note fl = flush_on_track [OF this assms(5), of F]
  let ?st' = "flush F W False order st1"
  have "content (ws_db ?st') k = first_writes W (pushed es) (content s) k" for k
  proof -
    have "first_writes W (series_points (fst k) (ws_buffer ?st') @ wr_queue (ws_writer ?st')) (content (ws_db ?st')) k
        = first_writes W (pushed es) (content s) k" using fl unfolding on_track_def by blast
    with fl st1(2) show ?thesis by (simp add: series_points_def)
  qed
  with st1 show ?thesis by (intro exI [of _ ?st']) (auto simp: events_append)
qed


definition two_series :: "int db" where
  "two_series = empty_db\<lparr>users := [\<lparr>u_uuid = ''u1'', u_name = ''ann'', u_state = ''active''\<rparr>],
     timeseries := map (\<lambda>x. \<lparr>ts_uuid = x, ts_thing = None, ts_name = ''t'', ts_si_unit = ''C'',
       ts_lower = None, ts_upper = None, ts_created_by = None, ts_tags = []\<rparr>) [''a'', ''b'']\<rparr>"

definition int_writer :: "int writer_lib" where
  "int_writer = \<lparr>wl_finite = (\<lambda>_. True), wl_timestamptz = (\<lambda>t. Truncate microsecond t)\<rparr>"

definition small_writer :: "int Writer" where
  "small_writer = \<lparr>wr_createdByUUID = ''u1'', wr_batchSize = 3, wr_flushInterval = second, wr_queueSize = 2, wr_queue = [],
     wr_enqueued = 0, wr_inserted = 0, wr_flushes = 0, wr_failedPoints = 0, wr_failedFlushes = 0\<rparr>"

abbreviation pt :: "uuid \<Rightarrow> int \<Rightarrow> int \<Rightarrow> int Point" where
  "pt tid t v \<equiv> \<lparr>pt_TimeseriesUUID = tid, pt_Timestamp = t, pt_Value = v\<rparr>"

definition some_events :: "int wevent list" where
  "some_events = [Push (pt ''a'' 0 1), Push (pt ''b'' 0 2), Take id, Push (pt ''a'' 0 9), Take rev]"

lemma fair_id [simp]: "fair_order id"
  by (simp add: fair_order_def)

lemma fair_rev [simp]: "fair_order rev"
  by (simp add: fair_order_def rev_map [symmetric])

theorem batching_exact_witness:
  "\<exists>st st'. writer_events int_ops int_writer some_events (Run_start small_writer two_series) = Some st
     \<and> writer_events int_ops int_writer [Take id, Tick id] st = Some st'
     \<and> content (ws_db st') (''a'', 0) = Some 1 \<and> content (ws_db st') (''b'', 0) = Some 2"
proof -
  let ?run = "writer_events int_ops int_writer some_events (Run_start small_writer two_series)"
  have "?run \<noteq> None \<and> map_option (\<lambda>st. length (wr_queue (ws_writer st))) ?run = Some 1" by code_simp
  then obtain st where st: "?run = Some st" "length (wr_queue (ws_writer st)) = 1" by auto
  have "list_all (fair_event int_writer (wr_createdByUUID small_writer) two_series) some_events"
    unfolding some_events_def by (simp, intro conjI) code_simp+
  moreover have "wr_queue small_writer = []" "healthy two_series" by (simp_all add: small_writer_def two_series_def empty_db_def healthy_def)
  ultimately obtain st' where st': "writer_events int_ops int_writer (replicate (length (wr_queue (ws_writer st))) (Take id) @ [Tick id]) st = Some st'"
      "content (ws_db st') = first_writes int_writer (pushed some_events) (content two_series)"
    using batching_exact [OF st(1) _ _ _ fair_id] by blast
  moreover have "first_writes int_writer (pushed some_events) (content two_series) (''a'', 0) = Some 1"
    "first_writes int_writer (pushed some_events) (content two_series) (''b'', 0) = Some 2" by code_simp+
  ultimately show ?thesis using st by auto
qed

section \<open>Failures\<close>

definition filled_groups :: "'v wstate \<Rightarrow> bool" where
  "filled_groups st \<longleftrightarrow> list_all (\<lambda>g. snd g \<noteq> []) (ws_buffer st) \<and> (ws_total st \<noteq> 0 \<longrightarrow> ws_buffer st \<noteq> []) \<and> distinct (map fst (ws_buffer st))"

lemma filled_flush: "filled_groups st \<Longrightarrow> filled_groups (flush F W c order st)"
  by (auto simp: filled_groups_def flush_def split: prod.splits)

lemma filled_take:
  "filled_groups st \<Longrightarrow> filled_groups (st\<lparr>ws_writer := w, ws_buffer := buffered p (ws_buffer st), ws_total := n\<rparr>)"
  by (auto simp: filled_groups_def buffered_def list_all_iff dest!: set_put) (auto simp: put_def split: if_splits)

lemma filled_event: "writer_event F W c e st = Some st' \<Longrightarrow> filled_groups st \<Longrightarrow> filled_groups st'"
proof (cases e)
  case (Push p)
  assume "writer_event F W c e st = Some st'" "filled_groups st"
  with Push show ?thesis by (auto simp: Enqueue1_def Let_def filled_groups_def split: if_splits)
next
  case (Take order)
  assume "writer_event F W c e st = Some st'" "filled_groups st"
  with Take show ?thesis by (auto simp: take_point_def Let_def split: list.splits if_splits intro!: filled_flush filled_take)
next
  case (Tick order)
  assume "writer_event F W c e st = Some st'" "filled_groups st"
  with Tick show ?thesis by (auto intro: filled_flush)
qed

lemma filled_events: "writer_events F W es st = Some st' \<Longrightarrow> filled_groups st \<Longrightarrow> filled_groups st'"
  by (induction es arbitrary: st) (auto split: option.splits dest: filled_event)

text \<open>
  C38: A shutdown discards what is buffered.  The last flush runs on the context whose end stopped the
  loop, so that its first statement fails: nothing is stored, the buffer is emptied, and only the points
  of one series are counted as failed.
\<close>

theorem shutdown_discards_buffer:
  assumes "writer_events F W es (Run_start w s) = Some st" "ws_total st \<noteq> 0" "fair_order order"
  shows "\<exists>tid qs. (tid, qs) \<in> set (ws_buffer st) \<and> ws_db (Run_done F W order st) = ws_db st
    \<and> ws_buffer (Run_done F W order st) = [] \<and> ws_total (Run_done F W order st) = 0
    \<and> wr_inserted (ws_writer (Run_done F W order st)) = wr_inserted (ws_writer st)
    \<and> wr_failedPoints (ws_writer (Run_done F W order st)) = wr_failedPoints (ws_writer st) + length qs"
proof -
  have "filled_groups (Run_start w s)" by (simp add: filled_groups_def Run_start_def)
  with assms(1) have f: "filled_groups st" by (rule filled_events)
  with assms(2,3) have "order (ws_buffer st) \<noteq> []" "set (order (ws_buffer st)) = set (ws_buffer st)"
    by (auto simp: filled_groups_def fair_order_def)
  then obtain tid qs gs where o: "order (ws_buffer st) = (tid, qs) # gs" "(tid, qs) \<in> set (ws_buffer st)"
    by (cases "order (ws_buffer st)") auto
  with f have "qs \<noteq> []" by (auto simp: filled_groups_def list_all_iff)
  with assms(2) o show ?thesis by (intro exI [of _ tid] exI [of _ qs]) (simp add: Run_done_def flush_def Let_def)
qed

theorem shutdown_discards_buffer_witness:
  "\<exists>st. writer_events int_ops int_writer (some_events @ [Take id, Push (pt ''a'' 1000 3), Take id, Push (pt ''b'' 1000 4), Take id]) (Run_start small_writer two_series) = Some st
     \<and> wr_enqueued (ws_writer st) = 5 \<and> tsdata (ws_db (Run_done int_ops int_writer id st)) = tsdata (ws_db st)
     \<and> wr_inserted (ws_writer (Run_done int_ops int_writer id st)) + wr_failedPoints (ws_writer (Run_done int_ops int_writer id st)) = 3"
proof -
  let ?es = "some_events @ [Take id, Push (pt ''a'' 1000 3), Take id, Push (pt ''b'' 1000 4), Take id]"
  let ?run = "writer_events int_ops int_writer ?es (Run_start small_writer two_series)"
  have "map_option (\<lambda>st. (ws_total st, wr_enqueued (ws_writer st), wr_inserted (ws_writer st), wr_failedPoints (ws_writer st),
      map (\<lambda>g. length (snd g)) (ws_buffer st))) ?run = Some (2, 5, 2, 0, [1, 1])" by code_simp
  then obtain st where st: "?run = Some st" "ws_total st = 2" "wr_enqueued (ws_writer st) = 5" "wr_inserted (ws_writer st) = 2"
    "wr_failedPoints (ws_writer st) = 0" "map (\<lambda>g. length (snd g)) (ws_buffer st) = [1, 1]" by auto
  then have "\<And>g. g \<in> set (ws_buffer st) \<Longrightarrow> length (snd g) = 1" by auto
  with shutdown_discards_buffer [OF st(1) _ fair_id] st show ?thesis by fastforce
qed

end
