(* ===== verification/IngestRuntime.thy ===== *)
theory IngestRuntime
  imports Writer
begin

text \<open>
  The runtime of the MQTT ingestion (\<^verbatim>\<open>internal/insamlare/runtime.go\<close>): start-up, the check of the routes
  against the database, and the goroutines as interleaved events.  Connecting and subscribing are the MQTT
  client's; a subscription's callback is the event \<open>Arrive\<close>.
\<close>

record 'v Runtime =
  rt_cfg :: Config
  rt_routes :: "'v CompiledRoute list"
  rt_writer :: "'v wstate"
  rt_msgCh :: "('v CompiledRoute \<times> Message) list"
  rt_workers :: "'v Point list list"
  rt_receivedMessages :: nat
  rt_transformedPoints :: nat
  rt_transformErrors :: nat

fun compile_routes :: "'v ingest_lib \<Rightarrow> RouteConfig list \<Rightarrow> 'v CompiledRoute list ires" where
  "compile_routes L [] = Inr []"
| "compile_routes L (route # routes) = (case CompileRoute L route of
       Inl e \<Rightarrow> Inl (Wrapf ''compile route %q: %w'' [rc_Name route] e)
     | Inr compiled \<Rightarrow> map_sum id (\<lambda>rs. compiled # rs) (compile_routes L routes))"

text \<open>\<open>s\<close> is the database the data source name leads to.\<close>

definition NewRuntime :: "'v ingest_lib \<Rightarrow> Config \<Rightarrow> 'v db \<Rightarrow> 'v Runtime ires" where
  "NewRuntime L cfg s = (case Config_Validate (il_uuid_Parse L) cfg of
       Some e \<Rightarrow> Inl e
     | None \<Rightarrow>
         (case compile_routes L (cf_Routes cfg) of
            Inl e \<Rightarrow> Inl e
          | Inr routes \<Rightarrow>
              (case NewWriter (il_uuid_Parse L) \<lparr>wc_CreatedByUUID = pc_CreatedByUUID (cf_Postgres cfg), wc_BatchSize = ic_BatchSize (cf_Ingest cfg),
                      wc_FlushInterval = ic_FlushInterval (cf_Ingest cfg), wc_QueueSize = ic_QueueSize (cf_Ingest cfg)\<rparr> of
                 Inl e \<Rightarrow> Inl e
               | Inr w \<Rightarrow> Inr \<lparr>rt_cfg = cfg, rt_routes = routes, rt_writer = Run_start w s, rt_msgCh = [],
                   rt_workers = replicate (nat (ic_Workers (cf_Ingest cfg))) [], rt_receivedMessages = 0,
                   rt_transformedPoints = 0, rt_transformErrors = 0\<rparr>)))"

text \<open>The routes with a fixed series; the outer \<^const>\<open>None\<close> is a panic of \<^verbatim>\<open>uuid.MustParse\<close>.\<close>

fun validateRoutes :: "'v ingest_lib \<Rightarrow> 'v CompiledRoute list \<Rightarrow> 'v db \<Rightarrow> (ingest_error option \<times> 'v db) option" where
  "validateRoutes L [] s = Some (None, s)"
| "validateRoutes L (route # routes) s = (case FixedTimeseriesUUID L route of
       None \<Rightarrow> None
     | Some None \<Rightarrow> validateRoutes L routes s
     | Some (Some seriesID) \<Rightarrow>
         (case sel (\<lambda>s. seriesID \<in> set (map ts_uuid (timeseries s))) s of
            (Inl e, s') \<Rightarrow> Some (Some (Wrapf ''validate route %q timeseries %s: %w'' [rc_Name (cr_Config route), seriesID] (LibError (error_string e))), s')
          | (Inr False, s') \<Rightarrow> Some (Some (Errorf ''route %q references unknown timeseries_uuid %s'' [rc_Name (cr_Config route), seriesID]), s')
          | (Inr True, s') \<Rightarrow> validateRoutes L routes s'))"

section \<open>Events\<close>

text \<open>
  A message arrives on a route; worker \<open>i\<close> takes a message and transforms it, \<open>now\<close> being the clock
  its script's points see; worker \<open>i\<close> puts its next point into the writer's queue; the writer works.
  The events before the context ends.
\<close>

datatype 'v revent =
    Arrive nat Message
  | Work nat "nat \<Rightarrow> int"
  | Send nat
  | Write_take "'v grouped \<Rightarrow> 'v grouped"
  | Write_tick "'v grouped \<Rightarrow> 'v grouped"

definition arrive :: "nat \<Rightarrow> Message \<Rightarrow> 'v Runtime \<Rightarrow> 'v Runtime option" where
  "arrive r msg rt =
     (if r < length (rt_routes rt) \<and> int (length (rt_msgCh rt)) < ic_QueueSize (cf_Ingest (rt_cfg rt))
      then Some (rt\<lparr>rt_receivedMessages := rt_receivedMessages rt + 1, rt_msgCh := rt_msgCh rt @ [(rt_routes rt ! r, msg)]\<rparr>) else None)"

definition work :: "'v ingest_lib \<Rightarrow> nat \<Rightarrow> (nat \<Rightarrow> int) \<Rightarrow> 'v Runtime \<Rightarrow> 'v Runtime option" where
  "work L i now rt = (case rt_msgCh rt of
       [] \<Rightarrow> None
     | (route, msg) # items \<Rightarrow>
         if i < length (rt_workers rt) \<and> rt_workers rt ! i = [] then
           (let rt1 = rt\<lparr>rt_msgCh := items\<rparr> in
            case Route_Transform L now route msg of
              Inl e \<Rightarrow> Some (rt1\<lparr>rt_transformErrors := rt_transformErrors rt + 1\<rparr>)
            | Inr points \<Rightarrow> Some (if points = [] then rt1
                else rt1\<lparr>rt_transformedPoints := rt_transformedPoints rt + length points, rt_workers := (rt_workers rt)[i := points]\<rparr>))
         else None)"

definition send :: "nat \<Rightarrow> 'v Runtime \<Rightarrow> 'v Runtime option" where
  "send i rt =
     (if i < length (rt_workers rt) then
        (case rt_workers rt ! i of
           [] \<Rightarrow> None
         | p # ps \<Rightarrow> map_option (\<lambda>w. rt\<lparr>rt_writer := w, rt_workers := (rt_workers rt)[i := ps]\<rparr>) (Enqueue1 p (rt_writer rt)))
      else None)"

fun runtime_event :: "'v ingest_lib \<Rightarrow> 'v fops \<Rightarrow> 'v writer_lib \<Rightarrow> 'v revent \<Rightarrow> 'v Runtime \<Rightarrow> 'v Runtime option" where
  "runtime_event L F W (Arrive r msg) rt = arrive r msg rt"
| "runtime_event L F W (Work i now) rt = work L i now rt"
| "runtime_event L F W (Send i) rt = send i rt"
| "runtime_event L F W (Write_take order) rt = map_option (\<lambda>w. rt\<lparr>rt_writer := w\<rparr>) (take_point F W False order (rt_writer rt))"
| "runtime_event L F W (Write_tick order) rt = Some (rt\<lparr>rt_writer := flush F W False order (rt_writer rt)\<rparr>)"

fun fair_walk :: "'v revent \<Rightarrow> bool" where
  "fair_walk (Write_take order) = fair_order order"
| "fair_walk (Write_tick order) = fair_order order"
| "fair_walk _ = True"

inductive runs :: "'v ingest_lib \<Rightarrow> 'v fops \<Rightarrow> 'v writer_lib \<Rightarrow> 'v Runtime \<Rightarrow> 'v Runtime \<Rightarrow> bool" for L F W where
  runs_start: "runs L F W rt rt"
| runs_event: "runs L F W rt rt1 \<Longrightarrow> fair_walk e \<Longrightarrow> runtime_event L F W e rt1 = Some rt2 \<Longrightarrow> runs L F W rt rt2"

record LoadSnapshot =
  ls_MessageQueueLen :: nat
  ls_MessageQueueCap :: int
  ls_ReceivedMessages :: nat
  ls_TransformedPoints :: nat
  ls_TransformErrors :: nat
  ls_RuntimeErrors :: nat
  ls_Writer :: WriterStats

definition LoadSnapshot_of :: "'v Runtime \<Rightarrow> LoadSnapshot" where
  "LoadSnapshot_of r = \<lparr>ls_MessageQueueLen = length (rt_msgCh r), ls_MessageQueueCap = ic_QueueSize (cf_Ingest (rt_cfg r)),
     ls_ReceivedMessages = rt_receivedMessages r, ls_TransformedPoints = rt_transformedPoints r, ls_TransformErrors = rt_transformErrors r,
     ls_RuntimeErrors = ws_reported (rt_writer r), ls_Writer = Stats (ws_writer (rt_writer r))\<rparr>"

section \<open>No panic\<close>

lemma map_sum_Inr [simp]: "map_sum f g x = Inr b \<longleftrightarrow> (\<exists>a. x = Inr a \<and> b = g a)"
  by (cases x) auto

lemma compiled_fixed_uuid:
  assumes "CompileRoute L cfg = Inr r"
  shows "FixedTimeseriesUUID L r \<noteq> None"
proof -
  have cfg: "cr_Config r = cfg" using assms by (auto simp: CompileRoute_def split: sum.splits if_splits)
  show ?thesis
  proof (cases "TrimSpace (rc_ScriptPath cfg) \<noteq> [] \<or> containsCaptureTemplate (rc_TimeseriesUUID cfg)")
    case True
    then show ?thesis by (auto simp: FixedTimeseriesUUID_def Let_def cfg)
  next
    case False
    then obtain t where "newFixedTransformer L cfg = Inr t"
      using assms by (cases "newFixedTransformer L cfg") (auto simp: CompileRoute_def split: sum.splits)
    with False show ?thesis
      by (auto simp: newFixedTransformer_def uuid_error_def FixedTimeseriesUUID_def Let_def cfg split: sum.splits option.splits if_splits)
  qed
qed


section \<open>Bounds and accounts\<close>

definition pending :: "'v Runtime \<Rightarrow> nat" where
  "pending rt = sum_list (map length (rt_workers rt))"

definition within_bounds :: "Config \<Rightarrow> 'v Runtime \<Rightarrow> bool" where
  "within_bounds cfg rt \<longleftrightarrow> rt_cfg rt = cfg \<and> wr_queueSize (ws_writer (rt_writer rt)) = ic_QueueSize (cf_Ingest cfg)
     \<and> wr_batchSize (ws_writer (rt_writer rt)) = ic_BatchSize (cf_Ingest cfg) \<and> 0 < ic_BatchSize (cf_Ingest cfg)
     \<and> int (length (rt_msgCh rt)) \<le> ic_QueueSize (cf_Ingest cfg)
     \<and> int (length (wr_queue (ws_writer (rt_writer rt)))) \<le> ic_QueueSize (cf_Ingest cfg)
     \<and> int (ws_total (rt_writer rt)) < ic_BatchSize (cf_Ingest cfg)
     \<and> rt_transformedPoints rt = wr_enqueued (ws_writer (rt_writer rt)) + pending rt
     \<and> length (rt_workers rt) = nat (ic_Workers (cf_Ingest cfg))"

lemma pending_update: "i < length (rt_workers rt) \<Longrightarrow>
    sum_list (map length ((rt_workers rt)[i := ps])) + length (rt_workers rt ! i) = pending rt + length ps"
proof -
  assume i: "i < length (rt_workers rt)"
  then have "length (rt_workers rt ! i) \<le> sum_list (map length (rt_workers rt))" using elem_le_sum_list [of i "map length (rt_workers rt)"] by simp
  with i show ?thesis by (simp add: map_update sum_list_update pending_def)
qed

lemma flush_groups_static:
  "wr_queueSize (fst (snd (flush_groups F W c gs w s))) = wr_queueSize w"
  "wr_batchSize (fst (snd (flush_groups F W c gs w s))) = wr_batchSize w"
  "wr_enqueued (fst (snd (flush_groups F W c gs w s))) = wr_enqueued w"
  by (induction F W c gs w s rule: flush_groups.induct) (auto simp: Let_def split: sum.splits prod.splits)

lemma flush_static:
  "wr_queueSize (ws_writer (flush F W c order st)) = wr_queueSize (ws_writer st)"
  "wr_batchSize (ws_writer (flush F W c order st)) = wr_batchSize (ws_writer st)"
  "wr_enqueued (ws_writer (flush F W c order st)) = wr_enqueued (ws_writer st)"
  "ws_total (flush F W c order st) = 0"
  using flush_groups_static [of F W c "order (ws_buffer st)" "ws_writer st" "ws_db st"]
  by (auto simp: flush_def split: prod.splits)

lemma event_bounds:
  assumes "within_bounds cfg rt" "runtime_event L F W e rt = Some rt'"
  shows "within_bounds cfg rt'"
proof (cases e)
  case (Arrive r msg)
  with assms show ?thesis by (auto simp: arrive_def within_bounds_def pending_def split: if_splits)
next
  case (Work i now)
  then obtain route msg items where m: "rt_msgCh rt = (route, msg) # items" and i: "i < length (rt_workers rt)" "rt_workers rt ! i = []"
    using assms(2) by (auto simp: work_def split: list.splits if_splits)
  with assms Work pending_update [OF i(1)] show ?thesis
    by (auto simp: work_def within_bounds_def Let_def pending_def split: sum.splits if_splits)
next
  case (Send i)
  then obtain p ps w where p: "i < length (rt_workers rt)" "rt_workers rt ! i = p # ps" "Enqueue1 p (rt_writer rt) = Some w"
    "rt' = rt\<lparr>rt_writer := w, rt_workers := (rt_workers rt)[i := ps]\<rparr>"
    using assms(2) by (auto simp: send_def split: if_splits list.splits)
  with assms(1) pending_update [OF p(1), of ps] show ?thesis
    by (auto simp: Enqueue1_def within_bounds_def Let_def pending_def split: if_splits)
next
  case (Write_take order)
  with assms show ?thesis
    by (auto simp: take_point_def within_bounds_def Let_def flush_static pending_def split: list.splits if_splits)
next
  case (Write_tick order)
  with assms show ?thesis by (auto simp: within_bounds_def flush_static pending_def)
qed

lemma runs_bounds:
  assumes "NewRuntime L cfg s = Inr rt0" "runs L F W rt0 rt"
  shows "within_bounds cfg rt"
proof -
  have start: "within_bounds cfg rt0"
  proof -
    have none: "Config_Validate (il_uuid_Parse L) cfg = None" using assms(1) by (auto simp: NewRuntime_def split: option.splits)
    then have "0 < ic_BatchSize (cf_Ingest cfg)" "0 < ic_QueueSize (cf_Ingest cfg)"
      by (simp_all add: Config_Validate_def first_failed_None)
    then show ?thesis using assms(1)
      by (auto simp: NewRuntime_def NewWriter_def within_bounds_def Run_start_def pending_def sum_list_replicate split: option.splits sum.splits)
  qed
  from assms(2) show "within_bounds cfg rt"
    using start by (induction rule: runs.induct) (auto intro: event_bounds)
qed



lemma events_enqueued:
  "writer_events F W es st = Some st' \<Longrightarrow> wr_enqueued (ws_writer st') = wr_enqueued (ws_writer st) + length (pushed es)"
proof (induction es arbitrary: st)
  case (Cons e es)
  then obtain st1 where e: "writer_event F W False e st = Some st1" "writer_events F W es st1 = Some st'" by (auto split: option.splits)
  have "wr_enqueued (ws_writer st1) = wr_enqueued (ws_writer st) + length (pushed [e])"
    using e(1) by (cases e) (auto simp: Enqueue1_def take_point_def Let_def flush_static split: if_splits list.splits)
  with Cons.IH [OF e(2)] show ?case by (cases e) simp_all
qed simp

definition sample_lib :: "int ingest_lib" where
  "sample_lib = \<lparr>il_uuid_Parse = Inr, il_regexp_Compile = (\<lambda>_. Inl ''none''),
     il_ParseFloat = (\<lambda>x. case Atoi x of None \<Rightarrow> Inl ''invalid syntax'' | Some n \<Rightarrow> Inr n), il_float64 = id, il_int64 = id,
     il_RFC3339 = (\<lambda>_. Inl ''none''), il_Unmarshal = (\<lambda>_. Inl ''none''), il_ReadFile = (\<lambda>_. Inl ''none''), il_Tengo = (\<lambda>_. Inl ''none'')\<rparr>"

definition sample_route :: RouteConfig where
  "sample_route = \<lparr>rc_Name = ''temperature'', rc_Topic = ''home/+/temp'', rc_TopicRegex = [], rc_Subscription = [], rc_TimeseriesUUID = ''$1'',
     rc_ScriptPath = [], rc_PayloadFormat = [], rc_ValueKey = [], rc_TimestampKey = [], rc_TimestampFormat = []\<rparr>"

definition sample_config :: Config where
  "sample_config = \<lparr>cf_MQTT = \<lparr>mq_Broker = ''tcp://b'', mq_ClientID = '''', mq_Username = '''', mq_Password = '''', mq_CleanSession = True, mq_QOS = 1\<rparr>,
     cf_Postgres = \<lparr>pc_DSN = ''pg'', pc_CreatedByUUID = ''u1''\<rparr>,
     cf_Ingest = \<lparr>ic_BatchSize = 2, ic_FlushInterval = second, ic_Workers = 1, ic_QueueSize = 1\<rparr>,
     cf_LoadLog_Interval = 0, cf_Transform_Timeout = second, cf_Routes = [sample_route]\<rparr>"

definition sample_message :: Message where
  "sample_message = \<lparr>mg_Topic = ''home/a/temp'', mg_Payload = '' 21 '', mg_ReceivedAt = 5000, mg_TopicCaptures = []\<rparr>"

fun follow :: "'v ingest_lib \<Rightarrow> 'v fops \<Rightarrow> 'v writer_lib \<Rightarrow> 'v revent list \<Rightarrow> 'v Runtime \<Rightarrow> 'v Runtime option" where
  "follow L F W [] rt = Some rt"
| "follow L F W (e # es) rt = (case runtime_event L F W e rt of None \<Rightarrow> None | Some rt' \<Rightarrow> follow L F W es rt')"

lemma follow_runs: "follow L F W es rt = Some rt' \<Longrightarrow> list_all fair_walk es \<Longrightarrow> runs L F W rt0 rt \<Longrightarrow> runs L F W rt0 rt'"
  by (induction es arbitrary: rt) (auto split: option.splits intro: runs_event)

definition sample_events :: "int revent list" where
  "sample_events = [Arrive 0 sample_message, Work 0 (\<lambda>_. 0), Arrive 0 (sample_message\<lparr>mg_ReceivedAt := 6000\<rparr>), Send 0]"

lemma sample_run: "\<exists>rt0 rt. NewRuntime sample_lib sample_config two_series = Inr rt0 \<and> runs sample_lib int_ops int_writer rt0 rt
   \<and> rt_transformedPoints rt = 1 \<and> length (rt_msgCh rt) = 1 \<and> wr_queue (ws_writer (rt_writer rt)) = [pt ''a'' 5000 21]"
proof -
  let ?n = "NewRuntime sample_lib sample_config two_series"
  let ?f = "follow sample_lib int_ops int_writer sample_events"
  have "is_ok ?n" by code_simp
  then obtain rt0 where rt0: "?n = Inr rt0" by (auto simp: is_ok_iff)
  have "(case ?n of Inl _ \<Rightarrow> None | Inr rt0 \<Rightarrow> map_option (\<lambda>rt. (rt_transformedPoints rt, length (rt_msgCh rt), wr_queue (ws_writer (rt_writer rt)))) (?f rt0))
      = Some (1, 1, [pt ''a'' 5000 21])" by code_simp
  then obtain rt where rt: "?f rt0 = Some rt" "rt_transformedPoints rt = 1" "length (rt_msgCh rt) = 1"
    "wr_queue (ws_writer (rt_writer rt)) = [pt ''a'' 5000 21]" unfolding rt0 by auto
  have "runs sample_lib int_ops int_writer rt0 rt"
    by (rule follow_runs [OF rt(1) _ runs_start]) (simp add: sample_events_def)
  with rt0 rt show ?thesis by blast
qed


section \<open>From messages to rows\<close>

text \<open>The points that a route makes of a message that arrived on it.\<close>

definition made :: "'v ingest_lib \<Rightarrow> ('v CompiledRoute \<times> Message) set \<Rightarrow> 'v Point \<Rightarrow> bool" where
  "made L arrived p \<longleftrightarrow> (\<exists>(r, msg)\<in>arrived. \<exists>now points. Route_Transform L now r msg = Inr points \<and> p \<in> set points)"

fun arrivals :: "'v CompiledRoute list \<Rightarrow> 'v revent list \<Rightarrow> ('v CompiledRoute \<times> Message) set" where
  "arrivals routes [] = {}"
| "arrivals routes (Arrive r msg # es) = insert (routes ! r, msg) (arrivals routes es)"
| "arrivals routes (_ # es) = arrivals routes es"

fun made_event :: "'v ingest_lib \<Rightarrow> ('v CompiledRoute \<times> Message) set \<Rightarrow> 'v wevent \<Rightarrow> bool" where
  "made_event L A (Push p) = made L A p"
| "made_event L A (Take order) = fair_order order"
| "made_event L A (Tick order) = fair_order order"

definition sound :: "'v ingest_lib \<Rightarrow> 'v CompiledRoute list \<Rightarrow> ('v CompiledRoute \<times> Message) set \<Rightarrow> 'v Runtime \<Rightarrow> bool" where
  "sound L routes A rt \<longleftrightarrow> rt_routes rt = routes \<and> (\<forall>x\<in>set (rt_msgCh rt). x \<in> A)
     \<and> (\<forall>ps\<in>set (rt_workers rt). \<forall>p\<in>set ps. made L A p)"

lemma sound_event:
  assumes "sound L routes A rt" "runtime_event L F W e rt = Some rt'" "fair_walk e" "arrivals routes [e] \<subseteq> A"
  shows "sound L routes A rt' \<and> (\<exists>wes. list_all (made_event L A) wes \<and> writer_events F W wes (rt_writer rt) = Some (rt_writer rt'))"
proof (cases e)
  case (Arrive r msg)
  with assms show ?thesis by (auto simp: arrive_def sound_def split: if_splits intro!: exI [of _ "[]"])
next
  case (Work i now)
  then obtain route msg items where m: "rt_msgCh rt = (route, msg) # items" and i: "i < length (rt_workers rt)"
    using assms(2) by (auto simp: work_def split: list.splits if_splits)
  have "rt_writer rt' = rt_writer rt" using assms(2) Work m by (auto simp: work_def Let_def split: if_splits sum.splits)
  moreover have "sound L routes A rt'"
  proof -
    have "made L A p" if "Route_Transform L now route msg = Inr points" "p \<in> set points" for p points
      using assms(1) m that by (auto simp: sound_def made_def)
    then show ?thesis using assms(1,2) Work m
      by (auto simp: work_def sound_def Let_def split: if_splits sum.splits dest!: set_update_subset_insert [THEN subsetD])
  qed
  ultimately show ?thesis by (auto intro: exI [of _ "[]"])
next
  case (Send i)
  then obtain p ps w where p: "i < length (rt_workers rt)" "rt_workers rt ! i = p # ps" "Enqueue1 p (rt_writer rt) = Some w"
    "rt' = rt\<lparr>rt_writer := w, rt_workers := (rt_workers rt)[i := ps]\<rparr>"
    using assms(2) by (auto simp: send_def split: if_splits list.splits)
  have "p # ps \<in> set (rt_workers rt)" using p(1,2) by (metis nth_mem)
  then have "made L A p" "\<forall>q\<in>set ps. made L A q" using assms(1) by (auto simp: sound_def)
  with assms(1) p show ?thesis
    by (auto simp: sound_def dest!: set_update_subset_insert [THEN subsetD] intro!: exI [of _ "[Push p]"])
next
  case (Write_take order)
  with assms show ?thesis by (auto simp: sound_def split: option.splits intro!: exI [of _ "[Take order]"])
next
  case (Write_tick order)
  with assms show ?thesis by (auto simp: sound_def intro!: exI [of _ "[Tick order]"])
qed

lemma follow_sound:
  "follow L F W es rt = Some rt' \<Longrightarrow> sound L routes A rt \<Longrightarrow> list_all fair_walk es \<Longrightarrow> arrivals routes es \<subseteq> A \<Longrightarrow>
   sound L routes A rt' \<and> (\<exists>wes. list_all (made_event L A) wes \<and> writer_events F W wes (rt_writer rt) = Some (rt_writer rt'))"
proof (induction es arbitrary: rt)
  case Nil
  then show ?case by (auto intro: exI [of _ "[]"])
next
  case (Cons e es)
  then obtain rt1 where e: "runtime_event L F W e rt = Some rt1" "follow L F W es rt1 = Some rt'" by (auto split: option.splits)
  have A: "arrivals routes [e] \<subseteq> A" "arrivals routes es \<subseteq> A" using Cons.prems(4) by (cases e; simp)+
  from sound_event [OF Cons.prems(2) e(1) _ A(1)] Cons.prems(3) obtain vs where v: "sound L routes A rt1" "list_all (made_event L A) vs"
    "writer_events F W vs (rt_writer rt) = Some (rt_writer rt1)" by auto
  from Cons.IH [OF e(2) v(1) _ A(2)] Cons.prems(3) obtain wes where "sound L routes A rt'" "list_all (made_event L A) wes"
    "writer_events F W wes (rt_writer rt1) = Some (rt_writer rt')" by auto
  with v show ?case by (auto simp: events_append intro!: exI [of _ "vs @ wes"])
qed



lemma fixed_no_clock: "cr_transformer r = Fixed t \<Longrightarrow> Route_Transform L now r msg = Route_Transform L now' r msg"
  by (simp add: Route_Transform_def Let_def split: option.splits)

lemma sample_made:
  assumes "NewRuntime sample_lib sample_config two_series = Inr rt0" "made sample_lib (arrivals (rt_routes rt0) sample_events) p"
  shows "p = pt ''a'' 5000 21 \<or> p = pt ''a'' 6000 21"
proof -
  let ?m' = "sample_message\<lparr>mg_ReceivedAt := 6000\<rparr>"
  obtain r where r: "CompileRoute sample_lib sample_route = Inr r" "rt_routes rt0 = [r]"
    using assms(1) by (auto simp: NewRuntime_def sample_config_def split: option.splits sum.splits)
  have "(case CompileRoute sample_lib sample_route of Inl _ \<Rightarrow> False | Inr r \<Rightarrow> case cr_transformer r of Fixed _ \<Rightarrow> True | Script _ \<Rightarrow> False)"
    by code_simp
  then obtain t where t: "cr_transformer r = Fixed t" using r(1) by (auto split: transformer.splits)
  have "(case CompileRoute sample_lib sample_route of Inl _ \<Rightarrow> False | Inr r \<Rightarrow>
      Route_Transform sample_lib (\<lambda>_. 0) r sample_message = Inr [pt ''a'' 5000 21]
      \<and> Route_Transform sample_lib (\<lambda>_. 0) r ?m' = Inr [pt ''a'' 6000 21])" by code_simp
  with r(1) have "Route_Transform sample_lib now r sample_message = Inr [pt ''a'' 5000 21]"
    "Route_Transform sample_lib now r ?m' = Inr [pt ''a'' 6000 21]" for now
    using fixed_no_clock [OF t, of sample_lib now _ "\<lambda>_. 0"] by auto
  with assms(2) show ?thesis by (auto simp: made_def r(2) sample_events_def)
qed


end
