(* ===== verification/Scheduler.thy ===== *)
theory Scheduler
  imports Programs Domains GoNumbers
begin

text \<open>
  The scheduler (\<^verbatim>\<open>juvuln\<close>): the cache of program revisions with their \<^verbatim>\<open>cron\<close> entries
  (\<^verbatim>\<open>api/juvuln/program_cache.go\<close>, \<^verbatim>\<open>program_revisions.go\<close>), its refresh from the databases of all
  domains (\<^verbatim>\<open>UpdateProgramCache\<close>), the workers that run the programs (\<^verbatim>\<open>pkg/workforce\<close>,
  \<^verbatim>\<open>worker.go\<close>) and the handlers of \<^verbatim>\<open>api/juvuln/api.go\<close>.  The package \<^verbatim>\<open>cron\<close> is an argument.
\<close>

section \<open>Program revisions\<close>

record ProgramRevision =
  pr_Domain :: string
  pr_Name :: string
  pr_ProgramUuid :: uuid
  pr_Type :: string
  pr_Schedule :: string
  pr_Deadline :: int
  pr_Language :: string
  pr_Revision :: int
  pr_Code :: string
  pr_Checksum :: string
  pr_eid :: int

definition NewProgramRevision :: "string \<Rightarrow> code_row \<Rightarrow> ProgramRevision" where
  "NewProgramRevision domain p = \<lparr>pr_Domain = domain, pr_Name = cr_Name p, pr_ProgramUuid = cr_ProgramUuid p, pr_Type = cr_Type p,
     pr_Schedule = cr_Schedule p, pr_Deadline = cr_Deadline p, pr_Language = cr_Language p, pr_Revision = cr_Revision p,
     pr_Code = cr_Code p, pr_Checksum = cr_Checksum p, pr_eid = 0\<rparr>"

definition ProgramRevision_Equals :: "ProgramRevision \<Rightarrow> ProgramRevision \<Rightarrow> bool" where
  "ProgramRevision_Equals p b \<longleftrightarrow> pr_Domain p = pr_Domain b \<and> pr_Name p = pr_Name b \<and> pr_ProgramUuid p = pr_ProgramUuid b
     \<and> pr_Type p = pr_Type b \<and> pr_Schedule p = pr_Schedule b \<and> pr_Deadline p = pr_Deadline b \<and> pr_Language p = pr_Language b
     \<and> pr_Code p = pr_Code b \<and> pr_Checksum p = pr_Checksum b"

definition GetId :: "ProgramRevision \<Rightarrow> string" where
  "GetId p = pr_Domain p @ ''/'' @ pr_ProgramUuid p @ ''@'' @ Itoa (pr_Revision p)"

text \<open>
  The package \<^verbatim>\<open>cron\<close>: \<^verbatim>\<open>AddFunc\<close> answers with the number of the new entry, or with 0 and an error;
  the function of an entry is the \<^verbatim>\<open>Run\<close> of a revision, here the revision.
\<close>

record 'c cron_lib =
  cl_AddFunc :: "string \<Rightarrow> ProgramRevision \<Rightarrow> 'c \<Rightarrow> (int \<times> string option) \<times> 'c"
  cl_Remove :: "int \<Rightarrow> 'c \<Rightarrow> 'c"

definition Start :: "'c cron_lib \<Rightarrow> ProgramRevision \<Rightarrow> 'c \<Rightarrow> ProgramRevision \<times> 'c" where
  "Start C p watch = (if pr_Type p \<noteq> ''routine'' then (p, watch)
     else let ((eid, err), watch') = cl_AddFunc C (pr_Schedule p) p watch in (p\<lparr>pr_eid := eid\<rparr>, watch'))"

definition Stop :: "'c cron_lib \<Rightarrow> ProgramRevision \<Rightarrow> 'c \<Rightarrow> 'c" where
  "Stop C p watch = (if pr_Type p \<noteq> ''routine'' then watch else cl_Remove C (pr_eid p) watch)"

section \<open>The cache\<close>

record 'c ProgramCache =
  pc_m :: "(string \<times> ProgramRevision) list"
  pc_deletes :: "string list"
  pc_watch :: 'c

definition cache_start :: "'c cron_lib \<Rightarrow> ProgramRevision \<Rightarrow> 'c ProgramCache \<Rightarrow> 'c ProgramCache" where
  "cache_start C obj c = (let (obj', watch) = Start C obj (pc_watch c) in c\<lparr>pc_m := put (GetId obj) obj' (pc_m c), pc_watch := watch\<rparr>)"

definition cache_stop :: "'c cron_lib \<Rightarrow> string \<Rightarrow> 'c ProgramCache \<Rightarrow> 'c ProgramCache" where
  "cache_stop C k c = (case map_of (pc_m c) k of
       Some a \<Rightarrow> c\<lparr>pc_m := cut k (pc_m c), pc_watch := Stop C a (pc_watch c)\<rparr>
     | None \<Rightarrow> c\<lparr>pc_m := cut k (pc_m c)\<rparr>)"

definition ProgramCache_Add :: "'c cron_lib \<Rightarrow> ProgramRevision \<Rightarrow> 'c ProgramCache \<Rightarrow> 'c ProgramCache" where
  "ProgramCache_Add C obj c =
     (let k = GetId obj; c1 = c\<lparr>pc_deletes := filter (\<lambda>x. x \<noteq> k) (pc_deletes c)\<rparr> in
      case map_of (pc_m c1) k of
        Some a \<Rightarrow> if ProgramRevision_Equals a obj then c1 else cache_start C obj (cache_stop C k c1)
      | None \<Rightarrow> cache_start C obj c1)"

definition ProgramCache_Begin :: "'c ProgramCache \<Rightarrow> 'c ProgramCache" where
  "ProgramCache_Begin c = c\<lparr>pc_deletes := map fst (pc_m c)\<rparr>"

definition ProgramCache_Commit :: "'c cron_lib \<Rightarrow> 'c ProgramCache \<Rightarrow> 'c ProgramCache" where
  "ProgramCache_Commit C c = (foldl (\<lambda>c k. cache_stop C k c) c (pc_deletes c))\<lparr>pc_deletes := []\<rparr>"

text \<open>
  The loop of \<^verbatim>\<open>GetModule\<close> over the items, in the order they are walked: with revision -1 a later item
  replaces the one found when its revision is lower.
\<close>

fun module_loop :: "string \<Rightarrow> string \<Rightarrow> int \<Rightarrow> ProgramRevision option \<Rightarrow> ProgramRevision list \<Rightarrow> ProgramRevision option" where
  "module_loop domain name revision pr [] = pr"
| "module_loop domain name revision pr (item # items) =
     (if revision = -1 \<and> pr_Domain item = domain \<and> pr_Name item = name
        \<and> (case pr of None \<Rightarrow> True | Some p \<Rightarrow> pr_Revision p > pr_Revision item)
      then module_loop domain name revision (Some item) items
      else if pr_Domain item = domain \<and> pr_Name item = name \<and> pr_Revision item = revision \<and> revision \<ge> 0
      then Some item
      else module_loop domain name revision pr items)"

definition GetModule :: "string \<Rightarrow> string \<Rightarrow> int \<Rightarrow> 'c ProgramCache \<Rightarrow> ProgramRevision res" where
  "GetModule domain name revision c = (case module_loop domain name revision None (map snd (pc_m c)) of
       None \<Rightarrow> Inl (Plain ''no such module'') | Some p \<Rightarrow> Inr p)"

section \<open>The refresh\<close>

text \<open>The loop over the domains.  A query that fails ends the whole function, with what was added so far.\<close>

fun update_domains :: "'c cron_lib \<Rightarrow> (string \<times> 'v db option) list \<Rightarrow> 'c ProgramCache \<Rightarrow> bool \<times> 'c ProgramCache" where
  "update_domains C [] c = (True, c)"
| "update_domains C ((domain, None) # dbs) c = update_domains C dbs c"
| "update_domains C ((domain, Some db) # dbs) c = (case fst (FindAllRoutineRevisions db) of
       Inl e \<Rightarrow> (False, c)
     | Inr routines \<Rightarrow> update_domains C dbs (foldl (\<lambda>c p. ProgramCache_Add C (NewProgramRevision domain p) c) c routines))"

definition UpdateProgramCache :: "'c cron_lib \<Rightarrow> (string \<times> 'v db option) list \<Rightarrow> 'c ProgramCache \<Rightarrow> 'c ProgramCache" where
  "UpdateProgramCache C dbs c = (let (ok, c') = update_domains C dbs (ProgramCache_Begin c) in
     if ok then ProgramCache_Commit C c' else c')"

section \<open>What is in the cache and what runs\<close>

text \<open>
  The documented behaviour of \<^verbatim>\<open>cron\<close>: \<open>jobs\<close> are the entries by number.  A schedule that parses is
  entered under a fresh positive number; one that does not is refused with number 0, under
  which nothing is ever entered.
\<close>

definition cron_jobs :: "'c cron_lib \<Rightarrow> ('c \<Rightarrow> int \<Rightarrow> ProgramRevision option) \<Rightarrow> (string \<Rightarrow> bool) \<Rightarrow> bool" where
  "cron_jobs C jobs parses \<longleftrightarrow>
     (\<forall>sch p w i e w'. cl_AddFunc C sch p w = ((i, e), w') \<longrightarrow>
        (if parses sch then e = None \<and> i > 0 \<and> jobs w i = None \<and> jobs w' = (jobs w)(i \<mapsto> p)
         else e \<noteq> None \<and> i = 0 \<and> jobs w' = jobs w))
     \<and> (\<forall>i w. jobs (cl_Remove C i w) = (jobs w)(i := None)) \<and> (\<forall>w. jobs w 0 = None)"

definition unstarted :: "ProgramRevision \<Rightarrow> ProgramRevision" where
  "unstarted p = p\<lparr>pr_eid := 0\<rparr>"

definition runs :: "(string \<Rightarrow> bool) \<Rightarrow> ProgramRevision \<Rightarrow> bool" where
  "runs parses p \<longleftrightarrow> pr_Type p = ''routine'' \<and> parses (pr_Schedule p)"

definition has_job :: "(string \<Rightarrow> ProgramRevision option) \<Rightarrow> int \<Rightarrow> ProgramRevision \<Rightarrow> bool" where
  "has_job m i q \<longleftrightarrow> (\<exists>k p. m k = Some p \<and> pr_eid p = i \<and> q = unstarted p)"

lemma has_job_put: "m x = None \<Longrightarrow> has_job (m(x \<mapsto> p')) i q \<longleftrightarrow> has_job m i q \<or> pr_eid p' = i \<and> q = unstarted p'"
proof
  assume "m x = None"
  then show "has_job m i q \<or> pr_eid p' = i \<and> q = unstarted p' \<Longrightarrow> has_job (m(x \<mapsto> p')) i q"
    unfolding has_job_def by (metis fun_upd_other fun_upd_same option.distinct(1))
qed (auto simp: has_job_def split: if_splits)

lemma has_job_cut:
  assumes "m k = Some a" "\<And>k' p'. m k' = Some p' \<Longrightarrow> pr_eid p' = pr_eid a \<Longrightarrow> pr_eid a \<noteq> 0 \<Longrightarrow> k' = k" "i \<noteq> 0"
  shows "has_job (m(k := None)) i q \<longleftrightarrow> has_job m i q \<and> i \<noteq> pr_eid a"
  unfolding has_job_def using assms by (metis fun_upd_apply option.inject option.distinct(1))

text \<open>
  The invariant: every item is kept under its key, has an entry of its own exactly when it is a
  routine with a proper schedule, and there are no other entries.
\<close>

definition cache_ok :: "('c \<Rightarrow> int \<Rightarrow> ProgramRevision option) \<Rightarrow> (string \<Rightarrow> bool) \<Rightarrow> 'c ProgramCache \<Rightarrow> bool" where
  "cache_ok jobs parses c \<longleftrightarrow> distinct (map fst (pc_m c))
     \<and> (\<forall>k p. map_of (pc_m c) k = Some p \<longrightarrow> k = GetId p \<and> (pr_eid p \<noteq> 0 \<longleftrightarrow> runs parses p))
     \<and> (\<forall>k p k' p'. map_of (pc_m c) k = Some p \<and> map_of (pc_m c) k' = Some p' \<and> pr_eid p = pr_eid p' \<and> pr_eid p \<noteq> 0 \<longrightarrow> k = k')
     \<and> (\<forall>i q. jobs (pc_watch c) i = Some q \<longleftrightarrow> i \<noteq> 0 \<and> has_job (map_of (pc_m c)) i q)"

lemma GetId_unstarted [simp]: "GetId (unstarted p) = GetId p" "runs parses (unstarted p) = runs parses p"
  "pr_eid (unstarted p) = 0" "unstarted (p\<lparr>pr_eid := i\<rparr>) = unstarted p" "GetId (p\<lparr>pr_eid := i\<rparr>) = GetId p"
  "runs parses (p\<lparr>pr_eid := i\<rparr>) = runs parses p" "unstarted (unstarted p) = unstarted p"
  by (simp_all add: unstarted_def GetId_def runs_def)

lemma unstarted_new [simp]: "pr_eid p = 0 \<Longrightarrow> unstarted p = p"
  by (cases p) (simp add: unstarted_def)

lemma cron_add:
  assumes "cron_jobs C jobs parses" "cl_AddFunc C sch p w = ((i, e), w')"
  shows "parses sch \<Longrightarrow> i > 0 \<and> jobs w i = None \<and> jobs w' = (jobs w)(i \<mapsto> p)" "\<not> parses sch \<Longrightarrow> i = 0 \<and> jobs w' = jobs w"
  using assms unfolding cron_jobs_def by presburger+

lemma cron_remove: "cron_jobs C jobs parses \<Longrightarrow> jobs (cl_Remove C i w) = (jobs w)(i := None)"
  by (simp add: cron_jobs_def)

lemma cron_zero: "cron_jobs C jobs parses \<Longrightarrow> jobs w 0 = None"
  by (simp add: cron_jobs_def)

lemma Start_effect:
  assumes "cron_jobs C jobs parses" "pr_eid p = 0" "Start C p w = (p', w')"
  obtains (runs) i where "runs parses p" "i > 0" "jobs w i = None" "p' = p\<lparr>pr_eid := i\<rparr>" "jobs w' = (jobs w)(i \<mapsto> p)"
  | (idle) "\<not> runs parses p" "p' = p" "jobs w' = jobs w"
proof -
  obtain i e v where a: "cl_AddFunc C (pr_Schedule p) p w = ((i, e), v)" by (metis prod.collapse)
  note l = cron_add [OF assms(1) a]
  show thesis
  proof (cases "pr_Type p = ''routine''")
    case True
    with assms(3) a have s: "p' = p\<lparr>pr_eid := i\<rparr>" "w' = v" by (simp_all add: Start_def)
    show thesis
    proof (cases "parses (pr_Schedule p)")
      case p: True
      with l(1) s True show thesis by (intro runs [of i]) (auto simp: runs_def)
    next
      case False
      with l(2) s True assms(2) show thesis by (intro idle) (auto simp: runs_def)
    qed
  next
    case False
    with assms(3) show thesis by (intro idle) (auto simp: runs_def Start_def)
  qed
qed

lemma Stop_effect:
  assumes "cron_jobs C jobs parses" "pr_eid p \<noteq> 0 \<longleftrightarrow> runs parses p"
  shows "jobs (Stop C p w) = (if pr_eid p = 0 then jobs w else (jobs w)(pr_eid p := None))"
proof (cases "pr_Type p = ''routine''")
  case True
  have "(jobs w)(0 := None) = jobs w" using cron_zero [OF assms(1)] by auto
  with True show ?thesis by (simp add: Stop_def cron_remove [OF assms(1)])
next
  case False
  with assms(2) show ?thesis by (simp add: Stop_def runs_def)
qed

text \<open>The abstract cache: a map from keys to revisions.\<close>

definition content :: "'c ProgramCache \<Rightarrow> string \<Rightarrow> ProgramRevision option" where
  "content c k = map_option unstarted (map_of (pc_m c) k)"

lemma cache_okD:
  assumes "cache_ok jobs parses c" "map_of (pc_m c) k = Some p"
  shows "k = GetId p" "pr_eid p \<noteq> 0 \<longleftrightarrow> runs parses p" "map_of (pc_m c) k' = Some p' \<Longrightarrow> pr_eid p' = pr_eid p \<Longrightarrow> pr_eid p \<noteq> 0 \<Longrightarrow> k' = k"
proof -
  note ok = assms(1) [unfolded cache_ok_def, THEN conjunct2]
  show "k = GetId p" "pr_eid p \<noteq> 0 \<longleftrightarrow> runs parses p" using ok [THEN conjunct1] assms(2) by blast+
  show "map_of (pc_m c) k' = Some p' \<Longrightarrow> pr_eid p' = pr_eid p \<Longrightarrow> pr_eid p \<noteq> 0 \<Longrightarrow> k' = k"
    using ok [THEN conjunct2, THEN conjunct1, rule_format, of k' p' k p] assms(2) by simp
qed

lemma cache_ok_jobs: "cache_ok jobs parses c \<Longrightarrow>
  jobs (pc_watch c) i = Some q \<longleftrightarrow> i \<noteq> 0 \<and> has_job (map_of (pc_m c)) i q"
  by (drule cache_ok_def [THEN iffD1]) (elim conjE, drule spec, erule spec)

lemma cache_okI:
  assumes "distinct (map fst (pc_m c))"
    "\<And>k p. map_of (pc_m c) k = Some p \<Longrightarrow> k = GetId p \<and> (pr_eid p \<noteq> 0 \<longleftrightarrow> runs parses p)"
    "\<And>k p k' p'. map_of (pc_m c) k = Some p \<Longrightarrow> map_of (pc_m c) k' = Some p' \<Longrightarrow> pr_eid p = pr_eid p' \<Longrightarrow> pr_eid p \<noteq> 0 \<Longrightarrow> k = k'"
    "\<And>i q. jobs (pc_watch c) i = Some q \<longleftrightarrow> i \<noteq> 0 \<and> has_job (map_of (pc_m c)) i q"
  shows "cache_ok jobs parses c"
  unfolding cache_ok_def by (intro conjI allI impI; (elim conjE)?) (use assms in \<open>simp_all\<close>)

lemma cache_ok_distinct: "cache_ok jobs parses c \<Longrightarrow> distinct (map fst (pc_m c))"
  by (simp add: cache_ok_def)

lemma cache_ok_deletes [simp]: "cache_ok jobs parses (c\<lparr>pc_deletes := ks\<rparr>) = cache_ok jobs parses c"
  by (simp add: cache_ok_def)

lemma content_deletes [simp]: "content (c\<lparr>pc_deletes := ks\<rparr>) = content c"
  by (rule ext) (simp add: content_def)

lemma cache_stop_fields [simp]: "pc_m (cache_stop C k c) = cut k (pc_m c)" "pc_deletes (cache_stop C k c) = pc_deletes c"
  "content (cache_stop C k c) = (content c)(k := None)"
  by (auto simp: cache_stop_def content_def split: option.splits)

lemma cache_stop_keeps:
  assumes C: "cron_jobs C jobs parses" and ok: "cache_ok jobs parses c"
  shows "cache_ok jobs parses (cache_stop C k c)"
proof (cases "map_of (pc_m c) k")
  case None
  then have m: "map_of (cut k (pc_m c)) = map_of (pc_m c)" by auto
  have w: "pc_watch (cache_stop C k c) = pc_watch c" using None by (simp add: cache_stop_def)
  have "distinct (map fst (cut k (pc_m c)))" using cache_ok_distinct [OF ok] by (rule distinct_cut)
  moreover note ok [unfolded cache_ok_def, THEN conjunct2]
  ultimately show ?thesis unfolding cache_ok_def w cache_stop_fields m by (rule conjI)
next
  case (Some a)
  note a = cache_okD [OF ok Some]
  have w: "jobs (pc_watch (cache_stop C k c)) = (if pr_eid a = 0 then jobs (pc_watch c) else (jobs (pc_watch c))(pr_eid a := None))"
    using Some by (simp add: cache_stop_def Stop_effect [OF C a(2)])
  show ?thesis
  proof (rule cache_okI)
    fix i q
    show "jobs (pc_watch (cache_stop C k c)) i = Some q \<longleftrightarrow> i \<noteq> 0 \<and> has_job (map_of (pc_m (cache_stop C k c))) i q"
      unfolding w cache_stop_fields map_of_cut
      using cache_ok_jobs [OF ok, of i q] has_job_cut [where m = "map_of (pc_m c)" and i = i and q = q, OF Some a(3)] by (cases "i = 0") auto
  qed (use cache_ok_distinct [OF ok] cache_okD [OF ok] in \<open>auto split: if_splits\<close>)
qed

lemma cache_start_keeps:
  assumes C: "cron_jobs C jobs parses" and ok: "cache_ok jobs parses c" and new: "map_of (pc_m c) (GetId p) = None" "pr_eid p = 0"
  shows "cache_ok jobs parses (cache_start C p c) \<and> content (cache_start C p c) = (content c)(GetId p \<mapsto> p)
    \<and> pc_deletes (cache_start C p c) = pc_deletes c"
proof -
  obtain p' w' where s: "Start C p (pc_watch c) = (p', w')" by force
  have c: "cache_start C p c = c\<lparr>pc_m := put (GetId p) p' (pc_m c), pc_watch := w'\<rparr>" using s by (simp add: cache_start_def)
  from C new(2) s have "unstarted p' = p \<and> GetId p' = GetId p \<and> (pr_eid p' \<noteq> 0 \<longleftrightarrow> runs parses p') \<and>
      (pr_eid p' \<noteq> 0 \<longrightarrow> jobs (pc_watch c) (pr_eid p') = None) \<and>
      jobs w' = (if pr_eid p' = 0 then jobs (pc_watch c) else (jobs (pc_watch c))(pr_eid p' \<mapsto> p))"
    by (cases rule: Start_effect) (use new(2) in auto)
  then have p': "unstarted p' = p" "GetId p' = GetId p" "pr_eid p' \<noteq> 0 \<longleftrightarrow> runs parses p'"
      "pr_eid p' \<noteq> 0 \<Longrightarrow> jobs (pc_watch c) (pr_eid p') = None"
      "jobs w' = (if pr_eid p' = 0 then jobs (pc_watch c) else (jobs (pc_watch c))(pr_eid p' \<mapsto> p))" by blast+
  have fresh: "pr_eid q \<noteq> pr_eid p'" if "map_of (pc_m c) k = Some q" "pr_eid p' \<noteq> 0" for k q
    using p'(4) cache_ok_jobs [OF ok, of "pr_eid p'" "unstarted q"] that unfolding has_job_def by auto
  have "cache_ok jobs parses (cache_start C p c)"
  proof (rule cache_okI)
    show "k = GetId q \<and> (pr_eid q \<noteq> 0 \<longleftrightarrow> runs parses q)" if "map_of (pc_m (cache_start C p c)) k = Some q" for k q
      using that p'(2,3) cache_okD [OF ok, of k q] by (auto simp: c split: if_splits)
    show "k = k'" if "map_of (pc_m (cache_start C p c)) k = Some q" "map_of (pc_m (cache_start C p c)) k' = Some q'"
        "pr_eid q = pr_eid q'" "pr_eid q \<noteq> 0" for k q k' q'
    proof (cases "k = GetId p \<or> k' = GetId p")
      case True
      with that fresh show ?thesis by (auto simp: c split: if_splits)
    next
      case False
      with that have "map_of (pc_m c) k = Some q" "map_of (pc_m c) k' = Some q'" by (simp_all add: c)
      with cache_okD(3) [OF ok] that(3,4) show ?thesis by metis
    qed
    fix i q
    have "jobs (pc_watch (cache_start C p c)) i = Some q \<longleftrightarrow>
        jobs (pc_watch c) i = Some q \<or> i \<noteq> 0 \<and> pr_eid p' = i \<and> q = p"
      using p'(4) by (cases "pr_eid p' = 0") (auto simp: c p'(5))
    then show "jobs (pc_watch (cache_start C p c)) i = Some q \<longleftrightarrow> i \<noteq> 0 \<and> has_job (map_of (pc_m (cache_start C p c))) i q"
      using cache_ok_jobs [OF ok, of i q] p'(1) by (simp add: c has_job_put [where m = "map_of (pc_m c)", OF new(1)]) blast
  qed (use cache_ok_distinct [OF ok] in \<open>auto simp: c\<close>)
  moreover have "content (cache_start C p c) = (content c)(GetId p \<mapsto> p)" by (rule ext) (simp add: content_def c p'(1))
  ultimately show ?thesis by (simp add: c)
qed

section \<open>The refresh implements replacement\<close>

lemma Equals_same:
  assumes "ProgramRevision_Equals a p" "GetId a = GetId p" "pr_eid p = 0"
  shows "unstarted a = p"
proof -
  have "Itoa (pr_Revision a) = Itoa (pr_Revision p)" using assms(1,2) by (simp add: GetId_def ProgramRevision_Equals_def)
  then have "pr_Revision a = pr_Revision p" by (rule Itoa_inj)
  with assms show ?thesis by (cases a; cases p) (simp add: unstarted_def ProgramRevision_Equals_def)
qed

lemma Add_effect:
  assumes C: "cron_jobs C jobs parses" and ok: "cache_ok jobs parses c" and new: "pr_eid p = 0"
  shows "cache_ok jobs parses (ProgramCache_Add C p c) \<and> content (ProgramCache_Add C p c) = (content c)(GetId p \<mapsto> p)
    \<and> pc_deletes (ProgramCache_Add C p c) = filter (\<lambda>x. x \<noteq> GetId p) (pc_deletes c)"
proof -
  define c1 where "c1 = c\<lparr>pc_deletes := filter (\<lambda>x. x \<noteq> GetId p) (pc_deletes c)\<rparr>"
  have ok1: "cache_ok jobs parses c1" and c1: "content c1 = content c" "pc_deletes c1 = filter (\<lambda>x. x \<noteq> GetId p) (pc_deletes c)" "pc_m c1 = pc_m c"
    using ok by (simp_all add: c1_def)
  have add: "ProgramCache_Add C p c = (case map_of (pc_m c) (GetId p) of
        Some a \<Rightarrow> if ProgramRevision_Equals a p then c1 else cache_start C p (cache_stop C (GetId p) c1)
      | None \<Rightarrow> cache_start C p c1)"
    unfolding ProgramCache_Add_def Let_def c1_def by simp
  show ?thesis
  proof (cases "map_of (pc_m c) (GetId p)")
    case None
    with cache_start_keeps [OF C ok1 _ new] c1 show ?thesis by (simp add: add)
  next
    case (Some a)
    show ?thesis
    proof (cases "ProgramRevision_Equals a p")
      case True
      have "GetId a = GetId p" using cache_okD(1) [OF ok Some] by simp
      with True new have "unstarted a = p" by (intro Equals_same)
      then have "content c (GetId p) = Some p" using Some by (simp add: content_def)
      then have "(content c)(GetId p \<mapsto> p) = content c" by auto
      with True Some ok1 c1 show ?thesis by (simp add: add)
    next
      case False
      have "cache_ok jobs parses (cache_stop C (GetId p) c1)" using C ok1 by (rule cache_stop_keeps)
      from cache_start_keeps [OF C this _ new] False Some c1 show ?thesis by (simp add: add)
    qed
  qed
qed

lemma adds_effect:
  assumes C: "cron_jobs C jobs parses"
  shows "cache_ok jobs parses c \<Longrightarrow> list_all (\<lambda>p. pr_eid p = 0) ps \<Longrightarrow>
    cache_ok jobs parses (foldl (\<lambda>c p. ProgramCache_Add C p c) c ps)
    \<and> content (foldl (\<lambda>c p. ProgramCache_Add C p c) c ps) = content c ++ map_of (rev (map (\<lambda>p. (GetId p, p)) ps))
    \<and> set (pc_deletes (foldl (\<lambda>c p. ProgramCache_Add C p c) c ps)) = set (pc_deletes c) - GetId ` set ps"
proof (induction ps arbitrary: c)
  case (Cons p ps)
  then have *: "cache_ok jobs parses (ProgramCache_Add C p c)" "content (ProgramCache_Add C p c) = (content c)(GetId p \<mapsto> p)"
    "pc_deletes (ProgramCache_Add C p c) = filter (\<lambda>x. x \<noteq> GetId p) (pc_deletes c)"
    using Add_effect [OF C Cons.prems(1)] by auto
  have "list_all (\<lambda>p. pr_eid p = 0) ps" using Cons.prems(2) by simp
  from Cons.IH [OF *(1) this] *(2,3) show ?case by (auto simp: map_add_def fun_eq_iff split: option.splits)
qed simp

lemma Commit_effect:
  assumes C: "cron_jobs C jobs parses" and ok: "cache_ok jobs parses c"
  shows "cache_ok jobs parses (ProgramCache_Commit C c) \<and> content (ProgramCache_Commit C c) = content c |` (- set (pc_deletes c))"
proof -
  have "cache_ok jobs parses (foldl (\<lambda>c k. cache_stop C k c) c ks) \<and> content (foldl (\<lambda>c k. cache_stop C k c) c ks) = content c |` (- set ks)"
    if "cache_ok jobs parses c" for ks and c :: "'a ProgramCache"
    using that
  proof (induction ks arbitrary: c)
    case (Cons k ks)
    have "cache_ok jobs parses (cache_stop C k c)" using C Cons.prems by (rule cache_stop_keeps)
    from Cons.IH [OF this] show ?case by (auto simp: restrict_map_def fun_eq_iff)
  qed (simp add: restrict_map_def)
  from this [OF ok] show ?thesis by (simp add: ProgramCache_Commit_def)
qed

text \<open>What the databases want to run: the routine rows of every domain that has a connection.\<close>

fun wanted :: "(string \<times> 'v db option) list \<Rightarrow> ProgramRevision list" where
  "wanted [] = []"
| "wanted ((domain, None) # dbs) = wanted dbs"
| "wanted ((domain, Some db) # dbs) = map (NewProgramRevision domain) (routines_of db) @ wanted dbs"

lemma wanted_new: "list_all (\<lambda>p. pr_eid p = 0) (wanted dbs)"
  by (induction dbs rule: wanted.induct) (auto simp: list_all_iff NewProgramRevision_def)

lemma foldl_map_add: "foldl (\<lambda>c p. ProgramCache_Add C (f p) c) c ps = foldl (\<lambda>c p. ProgramCache_Add C p c) c (map f ps)"
  by (induction ps arbitrary: c) simp_all

lemma FindAll_rows: "fst (FindAllRoutineRevisions db) = Inr rows \<Longrightarrow> rows = routines_of db"
  by (rule_tac stmt_cases [of "\<lambda>s. (Inr (routines_of s), s)" db])
    (auto simp: FindAllRoutineRevisions_def sel_def routines_of_def active_code_faults)

lemma update_domains_all:
  "list_all (\<lambda>(domain, db). case db of None \<Rightarrow> True | Some s \<Rightarrow> healthy s) dbs \<Longrightarrow>
    update_domains C dbs c = (True, foldl (\<lambda>c p. ProgramCache_Add C p c) c (wanted dbs))"
proof (induction dbs arbitrary: c rule: wanted.induct)
  case (3 domain db dbs)
  have "routines_of (db\<lparr>faults := fs\<rparr>) = routines_of db" for fs by (simp add: routines_of_def active_code_faults)
  then have "fst (FindAllRoutineRevisions db) = Inr (routines_of db)"
    using 3(2) by (simp add: FindAllRoutineRevisions_def sel_def dbsimps)
  with 3 show ?case by (simp add: foldl_map_add [of C "NewProgramRevision domain"])
qed simp_all

lemma update_domains_done:
  "fst (update_domains C dbs c) \<Longrightarrow> snd (update_domains C dbs c) = foldl (\<lambda>c p. ProgramCache_Add C p c) c (wanted dbs)"
proof (induction dbs arbitrary: c rule: wanted.induct)
  case (3 domain db dbs)
  show ?case
  proof (cases "fst (FindAllRoutineRevisions db)")
    case (Inl e)
    with 3(2) show ?thesis by simp
  next
    case (Inr rows)
    with 3 show ?thesis by (simp add: FindAll_rows [OF Inr, symmetric] foldl_map_add [of C "NewProgramRevision domain"])
  qed
qed simp_all

lemma update_domains_some:
  "\<exists>ps. snd (update_domains C dbs c) = foldl (\<lambda>c p. ProgramCache_Add C p c) c ps \<and> set ps \<subseteq> set (wanted dbs)"
proof (induction dbs arbitrary: c rule: wanted.induct)
  case (3 domain db dbs)
  show ?case
  proof (cases "fst (FindAllRoutineRevisions db)")
    case (Inl e)
    then show ?thesis by (intro exI [of _ "[]"]) simp
  next
    case (Inr rows)
    from Inr have "rows = routines_of db" by (rule FindAll_rows)
    moreover obtain ps where "snd (update_domains C dbs (foldl (\<lambda>c p. ProgramCache_Add C p c) c (map (NewProgramRevision domain) rows)))
        = foldl (\<lambda>c p. ProgramCache_Add C p c) (foldl (\<lambda>c p. ProgramCache_Add C p c) c (map (NewProgramRevision domain) rows)) ps"
        "set ps \<subseteq> set (wanted dbs)" using 3 by blast
    ultimately show ?thesis
      by (intro exI [of _ "map (NewProgramRevision domain) rows @ ps"]) (auto simp: Inr foldl_map_add [of C "NewProgramRevision domain"])
  qed
qed (auto intro: exI [of _ "[]"])

text \<open>Keys tell revisions apart.\<close>

lemma last_split:
  assumes "xs @ c # ys = xs' @ c # ys'" "c \<notin> set ys" "c \<notin> set ys'"
  shows "xs = xs' \<and> ys = ys'"
proof -
  have "takeWhile (\<lambda>x. x \<noteq> c) (rev (zs @ c # us)) = rev us" if "c \<notin> set us" for zs us
    using that by (simp add: takeWhile_append)
  from this [OF assms(2), of xs] this [OF assms(3), of xs'] assms(1) have "ys = ys'" by simp
  with assms(1) show ?thesis by simp
qed

lemma GetId_inj:
  assumes "GetId p = GetId q" "plain_id (pr_ProgramUuid p)" "plain_id (pr_ProgramUuid q)"
  shows "pr_Domain p = pr_Domain q \<and> pr_ProgramUuid p = pr_ProgramUuid q \<and> pr_Revision p = pr_Revision q"
proof -
  let ?rest = "\<lambda>p. pr_ProgramUuid p @ CHR ''@'' # Itoa (pr_Revision p)"
  have no_slash: "slash \<notin> set (?rest r)" if "plain_id (pr_ProgramUuid r)" for r
    using plain_id_chars(2) [OF that] Itoa_chars [of slash] by auto
  have "pr_Domain p @ slash # ?rest p = pr_Domain q @ slash # ?rest q" using assms(1) by (simp add: GetId_def)
  from last_split [OF this no_slash [OF assms(2)] no_slash [OF assms(3)]]
  have d: "pr_Domain p = pr_Domain q" and r: "?rest p = ?rest q" by auto
  have "CHR ''@'' \<notin> set (Itoa n)" for n using Itoa_chars [of "CHR ''@''" n] by blast
  from last_split [OF r this this] have "pr_ProgramUuid p = pr_ProgramUuid q" "Itoa (pr_Revision p) = Itoa (pr_Revision q)" by auto
  with d Itoa_inj show ?thesis by blast
qed

definition plain_programs :: "'v db \<Rightarrow> bool" where
  "plain_programs s \<longleftrightarrow> list_all (\<lambda>p. plain_id (pg_uuid p)) (programs s)"

lemma routines_source:
  assumes "c \<in> set (routines_of s)"
  obtains r p where "r \<in> set (revisions s)" "p \<in> set (programs s)" "pg_uuid p = rv_program r" "c = code_row (r, p)"
  using assms by (auto simp: routines_of_def top_ranked_def active_code_def split: if_splits)

lemma routines_keyed:
  assumes "programs_ok s" "c \<in> set (routines_of s)" "c' \<in> set (routines_of s)"
    "cr_ProgramUuid c = cr_ProgramUuid c'" "cr_Revision c = cr_Revision c'"
  shows "c = c'"
proof -
  obtain r p where c: "r \<in> set (revisions s)" "p \<in> set (programs s)" "pg_uuid p = rv_program r" "c = code_row (r, p)"
    using assms(2) by (rule routines_source)
  obtain r' p' where c': "r' \<in> set (revisions s)" "p' \<in> set (programs s)" "pg_uuid p' = rv_program r'" "c' = code_row (r', p')"
    using assms(3) by (rule routines_source)
  have k: "rv_program r = rv_program r'" "rv_revision r = rv_revision r'" using assms(4,5) c(4) c'(4) by (simp_all add: code_row_def)
  have d: "distinct (map pg_uuid (programs s))" "distinct (map (\<lambda>r. (rv_program r, rv_revision r)) (revisions s))"
    using assms(1) by (simp_all add: programs_ok_def)
  have "r = r'" using d(2) c(1) c'(1) by (rule distinct_map_unique) (simp add: k)
  moreover have "p = p'" using d(1) c(2) c'(2) by (rule distinct_map_unique) (simp add: c(3) c'(3) k(1))
  ultimately show ?thesis by (simp add: c(4) c'(4))
qed

lemma wanted_source:
  "p \<in> set (wanted dbs) \<longleftrightarrow> (\<exists>domain s c. (domain, Some s) \<in> set dbs \<and> c \<in> set (routines_of s) \<and> p = NewProgramRevision domain c)"
  by (induction dbs rule: wanted.induct) auto

definition domains_ok :: "(string \<times> 'v db option) list \<Rightarrow> bool" where
  "domains_ok dbs \<longleftrightarrow> distinct (map fst dbs)
     \<and> list_all (\<lambda>(domain, db). case db of None \<Rightarrow> True | Some s \<Rightarrow> programs_ok s \<and> plain_programs s) dbs"

lemma wanted_keyed:
  assumes ok: "domains_ok dbs" and p: "p \<in> set (wanted dbs)" "q \<in> set (wanted dbs)" "GetId p = GetId q"
  shows "p = q"
proof -
  obtain d s c where p': "(d, Some s) \<in> set dbs" "c \<in> set (routines_of s)" "p = NewProgramRevision d c" using p(1) by (auto simp: wanted_source)
  obtain d' s' c' where q': "(d', Some s') \<in> set dbs" "c' \<in> set (routines_of s')" "q = NewProgramRevision d' c'" using p(2) by (auto simp: wanted_source)
  have s: "programs_ok t \<and> plain_programs t" if "(e, Some t) \<in> set dbs" for e t
    using ok that by (auto simp: domains_ok_def list_all_iff)
  have plain: "plain_id (cr_ProgramUuid x)" if "x \<in> set (routines_of t)" "plain_programs t" for x t
    using that(1) by (rule routines_source) (use that(2) in \<open>auto simp: plain_programs_def list_all_iff code_row_def\<close>)
  have k: "d = d'" "cr_ProgramUuid c = cr_ProgramUuid c'" "cr_Revision c = cr_Revision c'"
    using GetId_inj [OF p(3)] plain [OF p'(2)] plain [OF q'(2)] s p'(1,3) q'(1,3) by (auto simp: NewProgramRevision_def)
  have "distinct (map fst dbs)" using ok by (simp add: domains_ok_def)
  from eq_key_imp_eq_value [OF this] p'(1) q'(1) k(1) have "s = s'" by blast
  with routines_keyed [of s c c'] s [OF p'(1)] p'(2) q'(2) k(2,3) have "c = c'" by blast
  with p'(3) q'(3) k(1) show ?thesis by simp
qed

lemma map_of_keyed:
  assumes "\<And>p q. p \<in> set ps \<Longrightarrow> q \<in> set ps \<Longrightarrow> f p = f q \<Longrightarrow> p = q"
  shows "map_of (rev (map (\<lambda>p. (f p, p)) ps)) k = Some p \<longleftrightarrow> p \<in> set ps \<and> k = f p"
proof
  assume "map_of (rev (map (\<lambda>p. (f p, p)) ps)) k = Some p"
  then show "p \<in> set ps \<and> k = f p" by (auto dest: map_of_SomeD)
next
  assume p: "p \<in> set ps \<and> k = f p"
  then have "k \<in> fst ` set (rev (map (\<lambda>p. (f p, p)) ps))" by force
  then obtain q where q: "map_of (rev (map (\<lambda>p. (f p, p)) ps)) k = Some q" by (metis map_of_eq_None_iff not_None_eq)
  then have "q \<in> set ps" "k = f q" by (auto dest: map_of_SomeD)
  with assms p q show "map_of (rev (map (\<lambda>p. (f p, p)) ps)) k = Some p" by metis
qed

section \<open>Reachable states of the scheduler\<close>

text \<open>The process starts with an empty cache and refreshes it, whatever the databases hold and answer.\<close>

inductive reached :: "'c cron_lib \<Rightarrow> 'c \<Rightarrow> 'v itself \<Rightarrow> 'c ProgramCache \<Rightarrow> bool" for C w0 V where
  init: "reached C w0 V \<lparr>pc_m = [], pc_deletes = [], pc_watch = w0\<rparr>"
| refresh: "reached C w0 V c \<Longrightarrow> reached C w0 V (UpdateProgramCache C (dbs :: (string \<times> 'v db option) list) c)"

lemma replace_map: "dom m = K \<Longrightarrow> (f ++ m) |` (- (dom f - K)) = m"
  by (rule ext) (auto simp: restrict_map_def map_add_def dom_def split: option.splits)

lemma refresh_effect:
  assumes C: "cron_jobs C jobs parses" and ok: "cache_ok jobs parses c"
  obtains (answered) "fst (update_domains C dbs (ProgramCache_Begin c))"
      "content (UpdateProgramCache C dbs c) = map_of (rev (map (\<lambda>p. (GetId p, p)) (wanted dbs)))"
      "cache_ok jobs parses (UpdateProgramCache C dbs c)"
  | (broken) ps where "\<not> fst (update_domains C dbs (ProgramCache_Begin c))" "set ps \<subseteq> set (wanted dbs)"
      "content (UpdateProgramCache C dbs c) = content c ++ map_of (rev (map (\<lambda>p. (GetId p, p)) ps))"
      "cache_ok jobs parses (UpdateProgramCache C dbs c)"
proof -
  let ?b = "ProgramCache_Begin c"
  have "dom (content c) = dom (map_of (pc_m c))" by (auto simp: content_def)
  then have b: "cache_ok jobs parses ?b" "content ?b = content c" "set (pc_deletes ?b) = dom (content c)"
    using ok by (simp_all add: ProgramCache_Begin_def dom_map_of_conv_image_fst)
  obtain fin c' where u: "update_domains C dbs ?b = (fin, c')" by force
  obtain ps where ps: "c' = foldl (\<lambda>c p. ProgramCache_Add C p c) ?b ps" "set ps \<subseteq> set (wanted dbs)" "fin \<Longrightarrow> ps = wanted dbs"
    using update_domains_some [of C dbs ?b] update_domains_done [of C dbs ?b] u by auto
  have "list_all (\<lambda>p. pr_eid p = 0) ps" using wanted_new [of dbs] ps(2) by (auto simp: list_all_iff)
  note eff = adds_effect [OF C b(1) this, folded ps(1), unfolded b(2,3)]
  show thesis
  proof (cases fin)
    case True
    have "dom (map_of (rev (map (\<lambda>p. (GetId p, p)) ps))) = GetId ` set ps"
      by (simp add: dom_map_of_conv_image_fst image_image)
    then have "(content c ++ map_of (rev (map (\<lambda>p. (GetId p, p)) ps))) |` (- (dom (content c) - GetId ` set ps))
        = map_of (rev (map (\<lambda>p. (GetId p, p)) ps))" by (rule replace_map)
    with Commit_effect [OF C, of c'] eff show thesis
      using u True ps(3) by (intro answered) (auto simp: UpdateProgramCache_def)
  next
    case False
    with u eff ps(2) show thesis by (intro broken) (auto simp: UpdateProgramCache_def)
  qed
qed

lemma reached_ok:
  assumes "cron_jobs C jobs parses" "jobs w0 = (\<lambda>_. None)"
  shows "reached C w0 V c \<Longrightarrow> cache_ok jobs parses c"
proof (induction rule: reached.induct)
  case init
  then show ?case using assms(2) by (simp add: cache_ok_def has_job_def)
next
  case (refresh c dbs)
  show ?case using refresh_effect [OF assms(1) refresh.IH, of dbs] by blast
qed

text \<open>
  C30: The scheduler runs what the databases say: from every reachable state, a refresh in which every
  database answers leaves in the cache exactly the routines and webhooks of the connected
  domains, and among the \<^verbatim>\<open>cron\<close> entries exactly one for each routine whose schedule parses and
  no other.
\<close>

theorem refresh_exact:
  fixes V :: "'v itself"
  assumes C: "cron_jobs C jobs parses" "jobs w0 = (\<lambda>_. None)" and c: "reached C w0 V c"
    and dbs: "domains_ok (dbs :: (string \<times> 'v db option) list)"
      "list_all (\<lambda>(domain, db). case db of None \<Rightarrow> True | Some s \<Rightarrow> healthy s) dbs"
  shows "(\<forall>k p. content (UpdateProgramCache C dbs c) k = Some p \<longleftrightarrow> p \<in> set (wanted dbs) \<and> k = GetId p)
    \<and> (\<forall>q. (\<exists>i. jobs (pc_watch (UpdateProgramCache C dbs c)) i = Some q) \<longleftrightarrow> q \<in> set (wanted dbs) \<and> runs parses q)
    \<and> (\<forall>i j q. jobs (pc_watch (UpdateProgramCache C dbs c)) i = Some q \<and> jobs (pc_watch (UpdateProgramCache C dbs c)) j = Some q \<longrightarrow> i = j)"
proof -
  let ?c = "UpdateProgramCache C dbs c"
  have ok: "cache_ok jobs parses ?c" using reached_ok [OF C reached.refresh [OF c]] .
  have "content ?c = map_of (rev (map (\<lambda>p. (GetId p, p)) (wanted dbs)))"
    using refresh_effect [OF C(1) reached_ok [OF C c], of dbs] update_domains_all [OF dbs(2), of C "ProgramCache_Begin c"] by auto
  then have cont: "content ?c k = Some p \<longleftrightarrow> p \<in> set (wanted dbs) \<and> k = GetId p" for k p
    by (simp only: map_of_keyed [OF wanted_keyed [OF dbs(1)]])
  have job: "jobs (pc_watch ?c) i = Some q \<longleftrightarrow> (\<exists>p. map_of (pc_m ?c) (GetId q) = Some p \<and> pr_eid p = i \<and> i \<noteq> 0 \<and> unstarted p = q)" for i q
    unfolding cache_ok_jobs [OF ok] has_job_def using cache_okD(1) [OF ok] by fastforce
  have "(\<exists>i. jobs (pc_watch ?c) i = Some q) \<longleftrightarrow> q \<in> set (wanted dbs) \<and> runs parses q" for q
  proof -
    have "(\<exists>i. jobs (pc_watch ?c) i = Some q) \<longleftrightarrow> content ?c (GetId q) = Some q \<and> runs parses q"
    proof (cases "map_of (pc_m ?c) (GetId q)")
      case (Some p)
      have "runs parses q = runs parses p" if "unstarted p = q" using that by auto
      with cache_okD(2) [OF ok Some] show ?thesis unfolding job content_def Some by auto
    qed (simp add: job content_def)
    then show ?thesis by (simp only: cont simp_thms)
  qed
  moreover have "i = j" if "jobs (pc_watch ?c) i = Some q \<and> jobs (pc_watch ?c) j = Some q" for i j q
    using that unfolding job by (elim conjE exE) simp
  ultimately show ?thesis using cont by (intro conjI allI impI)
qed

text \<open>A \<^verbatim>\<open>cron\<close> for the examples: the entries by number, a new one above all others.\<close>

definition list_jobs :: "(int \<times> ProgramRevision) list \<Rightarrow> int \<Rightarrow> ProgramRevision option" where
  "list_jobs w i = (if i \<le> 0 then None else map_of w i)"

definition list_cron :: "(int \<times> ProgramRevision) list cron_lib" where
  "list_cron = \<lparr>cl_AddFunc = (\<lambda>sch p w. if sch \<noteq> [] then let i = 1 + fold max (map fst w) 0 in ((i, None), (i, p) # w)
       else ((0, Some ''empty spec string''), w)),
     cl_Remove = (\<lambda>i w. filter (\<lambda>x. fst x \<noteq> i) w)\<rparr>"

lemma fold_max_ge: "(m :: int) \<le> fold max xs m \<and> (\<forall>x\<in>set xs. x \<le> fold max xs m)"
proof (induction xs arbitrary: m)
  case (Cons x xs)
  from Cons [of "max x m"] show ?case by auto
qed simp

lemma list_cron_jobs: "cron_jobs list_cron list_jobs (\<lambda>sch. sch \<noteq> [])"
proof -
  have "map_of w (1 + fold max (map fst w) 0) = None" for w :: "(int \<times> ProgramRevision) list"
    using fold_max_ge [of 0 "map fst w"] by (force simp: map_of_eq_None_iff)
  moreover have "\<not> 1 + fold max (map fst w) (0::int) \<le> 0" "0 < 1 + fold max (map fst w) (0::int)" for w :: "(int \<times> ProgramRevision) list"
    using fold_max_ge [of 0 "map fst w"] by simp_all
  moreover have "map_of (filter (\<lambda>x. fst x \<noteq> i) w) = (map_of w)(i := None)" for i :: int and w :: "(int \<times> ProgramRevision) list"
    using map_of_cut [of i w] by (simp add: cut_def)
  ultimately show ?thesis
    by (auto simp: cron_jobs_def list_cron_def list_jobs_def Let_def fun_eq_iff split: if_splits)
qed

definition domain_dbs :: "(string \<times> int db option) list" where
  "domain_dbs = [(''north'', Some (program_db\<lparr>programs := map (\<lambda>p. p\<lparr>pg_uuid := ''1a''\<rparr>) (programs program_db),
     revisions := map (\<lambda>r. r\<lparr>rv_program := ''1a''\<rparr>) (revisions program_db)\<rparr>)), (''south'', None)]"

theorem refresh_exact_witness:
  "let c = UpdateProgramCache list_cron domain_dbs \<lparr>pc_m = [], pc_deletes = [], pc_watch = []\<rparr> in
     map_option pr_Code (content c ''north/1a@1'') = Some ''a := 1'' \<and> (\<exists>i. map_option pr_Code (list_jobs (pc_watch c) i) = Some ''a := 1'')"
proof -
  let ?w = "[] :: (int \<times> ProgramRevision) list"
  let ?c = "\<lparr>pc_m = [], pc_deletes = [], pc_watch = ?w\<rparr>"
  have z: "list_jobs ?w = (\<lambda>_. None)" by (simp add: list_jobs_def fun_eq_iff)
  have r: "reached list_cron ?w TYPE(int) ?c" by (rule reached.init)
  have "domains_ok domain_dbs" by code_simp
  moreover have "list_all (\<lambda>(domain, db). case db of None \<Rightarrow> True | Some s \<Rightarrow> healthy s) domain_dbs"
    by (simp add: domain_dbs_def healthy_def program_db_def empty_db_def)
  ultimately have all: "\<And>k p. content (UpdateProgramCache list_cron domain_dbs ?c) k = Some p \<longleftrightarrow> p \<in> set (wanted domain_dbs) \<and> k = GetId p"
    "\<And>q. (\<exists>i. list_jobs (pc_watch (UpdateProgramCache list_cron domain_dbs ?c)) i = Some q) \<longleftrightarrow> q \<in> set (wanted domain_dbs) \<and> runs (\<lambda>sch. sch \<noteq> []) q"
    using refresh_exact [OF list_cron_jobs z r] by blast+
  have "list_ex (\<lambda>p. GetId p = ''north/1a@1'' \<and> pr_Code p = ''a := 1'' \<and> runs (\<lambda>sch. sch \<noteq> []) p) (wanted domain_dbs)" by code_simp
  then obtain p where p: "p \<in> set (wanted domain_dbs)" "GetId p = ''north/1a@1''" "pr_Code p = ''a := 1''" "runs (\<lambda>sch. sch \<noteq> []) p"
    by (auto simp: list_ex_iff)
  from all(1) [of "''north/1a@1''" p] all(2) [of p] p show ?thesis by (auto simp: Let_def)
qed

text \<open>
  A refresh that meets an unreachable database stops nothing: every key that was cached still
  is, with the same revision unless one of the databases read before wants another under it.  So
  a program that was deleted or deactivated in any domain keeps running until all of them answer.
\<close>

theorem broken_refresh_keeps:
  fixes V :: "'v itself"
  assumes C: "cron_jobs C jobs parses" "jobs w0 = (\<lambda>_. None)" and c: "reached C w0 V c"
    and broken: "\<not> fst (update_domains C (dbs :: (string \<times> 'v db option) list) (ProgramCache_Begin c))"
    and k: "content c k = Some p"
  shows "\<exists>p'. content (UpdateProgramCache C dbs c) k = Some p' \<and> (p' = p \<or> p' \<in> set (wanted dbs))
    \<and> (runs parses p' \<longrightarrow> (\<exists>i. jobs (pc_watch (UpdateProgramCache C dbs c)) i = Some p'))"
  using C(1) reached_ok [OF C c]
proof (cases rule: refresh_effect [where dbs = dbs])
  case answered
  with broken show ?thesis by simp
next
  case (broken ps)
  let ?c = "UpdateProgramCache C dbs c" and ?m = "map_of (rev (map (\<lambda>p. (GetId p, p)) ps))"
  have "content ?c k = Some (case ?m k of None \<Rightarrow> p | Some p' \<Rightarrow> p')"
    using broken(3) k by (auto simp: map_add_def split: option.splits)
  then obtain p' where p': "content ?c k = Some p'" "p' = p \<or> ?m k = Some p'" by (cases "?m k") auto
  have "?m k = Some p' \<Longrightarrow> p' \<in> set ps" by (drule map_of_SomeD) auto
  with p'(2) broken(2) have "p' = p \<or> p' \<in> set (wanted dbs)" by blast
  moreover have "\<exists>i. jobs (pc_watch ?c) i = Some p'" if r: "runs parses p'"
  proof -
    from p'(1) obtain q where q: "map_of (pc_m ?c) k = Some q" "p' = unstarted q" by (auto simp: content_def)
    with r cache_okD(2) [OF broken(4) q(1)] have "pr_eid q \<noteq> 0" by simp
    with q cache_ok_jobs [OF broken(4)] show ?thesis unfolding has_job_def by blast
  qed
  ultimately show ?thesis using p'(1) by blast
qed

theorem broken_refresh_keeps_witness:
  "let c = UpdateProgramCache list_cron domain_dbs \<lparr>pc_m = [], pc_deletes = [], pc_watch = []\<rparr>;
       down = [(''south'', Some ((program_db :: int db)\<lparr>faults := [Some (Plain ''down'')]\<rparr>))]
   in content (UpdateProgramCache list_cron down c) ''north/1a@1'' \<noteq> None"
proof -
  let ?w = "[] :: (int \<times> ProgramRevision) list"
  let ?c = "UpdateProgramCache list_cron domain_dbs \<lparr>pc_m = [], pc_deletes = [], pc_watch = ?w\<rparr>"
  let ?down = "[(''south'', Some ((program_db :: int db)\<lparr>faults := [Some (Plain ''down'')]\<rparr>))]"
  have z: "list_jobs ?w = (\<lambda>_. None)" by (simp add: list_jobs_def fun_eq_iff)
  have r: "reached list_cron ?w TYPE(int) ?c" by (intro reached.refresh reached.init)
  have b: "\<not> fst (update_domains list_cron ?down (ProgramCache_Begin ?c))"
    by (simp add: FindAllRoutineRevisions_def sel_def stmt_def)
  have "content ?c ''north/1a@1'' \<noteq> None" by code_simp
  then obtain p where "content ?c ''north/1a@1'' = Some p" by blast
  from broken_refresh_keeps [OF list_cron_jobs z r b this] show ?thesis by (auto simp: Let_def)
qed

end
