(* ===== verification/Workforce.thy ===== *)
theory Workforce
  imports Scheduler
begin

text \<open>
  The workers that run programs: \<^verbatim>\<open>pkg/workforce\<close>, \<^verbatim>\<open>api/juvuln/worker.go\<close>, the dispatch of a task
  (\<^verbatim>\<open>ProgramRevision.Execute\<close>), the handlers of \<^verbatim>\<open>api/juvuln/api.go\<close> and the loop of
  \<^verbatim>\<open>ProgramManager\<close>.  Times are nanoseconds; the list of pairs stands for the map of workers, in the
  order it is walked.  The HTTP client is an argument.
\<close>

section \<open>Workers\<close>

record Worker =
  wk_Id :: string
  wk_URI :: string
  wk_Languages :: "string list"
  wk_load :: int
  wk_timeout :: int
  wk_lastSeen :: int

type_synonym workforce = "(string \<times> Worker) list"

definition NewWorker :: "int \<Rightarrow> string \<Rightarrow> string \<Rightarrow> string list \<Rightarrow> int \<Rightarrow> Worker" where
  "NewWorker now wid uri langs timeout =
     \<lparr>wk_Id = wid, wk_URI = uri, wk_Languages = langs, wk_load = 0, wk_timeout = timeout, wk_lastSeen = now\<rparr>"

definition Worker_SetLoad :: "int \<Rightarrow> int \<Rightarrow> Worker \<Rightarrow> Worker" where
  "Worker_SetLoad now l w = w\<lparr>wk_load := l, wk_lastSeen := now\<rparr>"

definition GetLoad :: "Worker \<Rightarrow> int" where
  "GetLoad w = wk_load w"

definition Alive :: "int \<Rightarrow> Worker \<Rightarrow> bool" where
  "Alive now w \<longleftrightarrow> now < wk_lastSeen w + wk_timeout w"

section \<open>The workforce\<close>

definition Workforce_Add :: "string \<Rightarrow> Worker \<Rightarrow> workforce \<Rightarrow> workforce" where
  "Workforce_Add k w workers = put k w workers"

definition Workforce_Delete :: "string \<Rightarrow> workforce \<Rightarrow> workforce" where
  "Workforce_Delete k workers = cut k workers"

definition Workforce_Clear :: "workforce \<Rightarrow> workforce" where
  "Workforce_Clear workers = []"

definition Workforce_Exists :: "string \<Rightarrow> workforce \<Rightarrow> bool" where
  "Workforce_Exists k workers \<longleftrightarrow> map_of workers k \<noteq> None"

text \<open>\<^verbatim>\<open>sort.Sort\<close> leaves the order of equally loaded workers open; this is one of the orders.\<close>

definition GetAvailable :: "int \<Rightarrow> workforce \<Rightarrow> Worker res" where
  "GetAvailable now workers = (case sort_key GetLoad (filter (Alive now) (map snd workers)) of
       w # _ \<Rightarrow> Inr w | [] \<Rightarrow> Inl (Plain ''no available worker''))"

definition Workforce_SetLoad :: "int \<Rightarrow> string \<Rightarrow> int \<Rightarrow> workforce \<Rightarrow> workforce" where
  "Workforce_SetLoad now k l workers = map (\<lambda>(k', w). if k' = k then (k', Worker_SetLoad now l w) else (k', w)) workers"

definition ClearInactive :: "int \<Rightarrow> workforce \<Rightarrow> Worker list \<times> workforce" where
  "ClearInactive now workers = (map snd (filter (\<lambda>(k, w). \<not> Alive now w) workers), filter (\<lambda>(k, w). Alive now w) workers)"

section \<open>Running a program\<close>

record WorkerTask =
  wt_Language :: string
  wt_Deadline :: int
  wt_Domain :: string
  wt_ProgramUuid :: uuid
  wt_SourceCode :: string

definition worker_task :: "ProgramRevision \<Rightarrow> WorkerTask" where
  "worker_task p = \<lparr>wt_Language = pr_Language p, wt_Deadline = pr_Deadline p, wt_Domain = pr_Domain p,
     wt_ProgramUuid = pr_ProgramUuid p, wt_SourceCode = base64_EncodeToString (pr_Code p)\<rparr>"

text \<open>
  The result of \<^verbatim>\<open>Execute\<close> with the request it sent, if any: without a worker it returns nil and
  sends nothing.
\<close>

definition Execute :: "(string \<Rightarrow> WorkerTask \<Rightarrow> go_error option) \<Rightarrow> int \<Rightarrow> workforce \<Rightarrow> ProgramRevision
    \<Rightarrow> go_error option \<times> (string \<times> WorkerTask) option" where
  "Execute post now workers p = (case GetAvailable now workers of
       Inl _ \<Rightarrow> (None, None)
     | Inr w \<Rightarrow> (let uri = wk_URI w @ ''/v1/tasks'' in (post uri (worker_task p), Some (uri, worker_task p))))"

section \<open>Handlers\<close>

record NewSubscriber =
  ns_Authority :: string
  ns_Languages :: "string list"
  ns_Scheme :: string
  ns_Uuid :: string

definition WorkerSubscribe :: "int \<Rightarrow> int \<Rightarrow> NewSubscriber option \<Rightarrow> workforce \<Rightarrow> unit answer \<times> workforce" where
  "WorkerSubscribe now timeout body workers = (case body of
       None \<Rightarrow> (Problem ErrorMalformedRequest, workers)
     | Some sub \<Rightarrow> (Empty 201, Workforce_Add (ns_Uuid sub)
         (NewWorker now (ns_Uuid sub) (ns_Scheme sub @ ''://'' @ ns_Authority sub) (ns_Languages sub) timeout) workers))"

definition WorkerUnsubscribe :: "string \<Rightarrow> workforce \<Rightarrow> unit answer \<times> workforce" where
  "WorkerUnsubscribe wid workers = (Empty 204, Workforce_Delete wid workers)"

definition ForwardWebhook :: "workforce \<Rightarrow> unit answer \<times> workforce" where
  "ForwardWebhook workers = (Empty 501, workers)"

definition CheckWorker :: "string \<Rightarrow> workforce \<Rightarrow> unit answer \<times> workforce" where
  "CheckWorker wid workers = (if Workforce_Exists wid workers then Empty 204 else Problem ErrorNotFound, workers)"

text \<open>The load arrives as an \<^verbatim>\<open>int64\<close> and is converted to \<^verbatim>\<open>uint64\<close>.\<close>

definition WorkerLoadUpdate :: "int \<Rightarrow> string \<Rightarrow> int option \<Rightarrow> workforce \<Rightarrow> unit answer \<times> workforce" where
  "WorkerLoadUpdate now wid body workers =
     (if \<not> Workforce_Exists wid workers then (Problem ErrorNotFound, workers)
      else (case body of None \<Rightarrow> (Problem ErrorMalformedRequest, workers)
        | Some load \<Rightarrow> (Empty 204, Workforce_SetLoad now wid (load mod 2 ^ 64) workers)))"

record GetModuleAtRevisionParams =
  gm_Domain :: string
  gm_Module :: string
  gm_Language :: string
  gm_Revision :: string

text \<open>The answer carries the code and, as \<^verbatim>\<open>ETag\<close>, the hexadecimal MD5 of it.\<close>

definition GetModuleAtRevision ::
  "(string \<Rightarrow> string) \<Rightarrow> GetModuleAtRevisionParams \<Rightarrow> 'v db registry \<Rightarrow> (string \<times> string) answer" where
  "GetModuleAtRevision md5 p reg =
     (let reply = (\<lambda>r. case r of Inl e \<Rightarrow> Problem (ParseDBError e)
            | Inr code \<Rightarrow> JSON 200 (hex_EncodeToString (md5 code), code)) in
      case Domain_GetDB (gm_Domain p) reg of
        Inl _ \<Rightarrow> Problem ErrorNotFound
      | Inr db \<Rightarrow>
          if gm_Revision p = ''latest'' then reply (fst (GetNamedModuleCodeAtHead (gm_Module p) (gm_Language p) db))
          else (case Atoi (gm_Revision p) of
              None \<Rightarrow> Problem ErrorMalformedRequest
            | Some irev \<Rightarrow> reply (fst (GetNamedModuleCodeAtRevision (gm_Module p) (gm_Language p) (to_i32 irev) db))))"

section \<open>The manager's loop\<close>

text \<open>\<^verbatim>\<open>util.AtInterval\<close>: the time until the next multiple of the interval, by three readings of the clock.\<close>

definition AtInterval :: "int \<Rightarrow> int \<Rightarrow> int \<Rightarrow> int \<Rightarrow> int" where
  "AtInterval d now1 now2 now3 = now3 + ((now1 div d) * d + d - now2)"

datatype event = EveryMinute | EveryFiveSeconds

record 'c manager =
  mg_cache :: "'c ProgramCache"
  mg_workers :: workforce

definition manager_event :: "'c cron_lib \<Rightarrow> (string \<times> 'v db option) list \<Rightarrow> int \<Rightarrow> event \<Rightarrow> 'c manager \<Rightarrow> 'c manager" where
  "manager_event C dbs now ev s = (case ev of
       EveryMinute \<Rightarrow> s\<lparr>mg_cache := UpdateProgramCache C dbs (mg_cache s)\<rparr>
     | EveryFiveSeconds \<Rightarrow> s\<lparr>mg_workers := snd (ClearInactive now (mg_workers s))\<rparr>)"

section \<open>The worker that is chosen\<close>

lemma GetAvailable_Inl: "GetAvailable now ws = Inl e \<longleftrightarrow> e = Plain ''no available worker'' \<and> list_all (\<lambda>w. \<not> Alive now w) (map snd ws)"
proof (cases "sort_key GetLoad (filter (Alive now) (map snd ws))")
  case Nil
  then have "filter (Alive now) (map snd ws) = []" by (metis length_0_conv length_sort)
  with Nil show ?thesis by (auto simp: GetAvailable_def filter_empty_conv list_all_iff)
next
  case (Cons w rest)
  then have "w \<in> set (filter (Alive now) (map snd ws))" by (metis list.set_intros(1) set_sort)
  with Cons show ?thesis by (auto simp: GetAvailable_def list_all_iff)
qed

lemma GetAvailable_Inr:
  assumes "GetAvailable now ws = Inr w"
  shows "w \<in> set (map snd ws)" "Alive now w" "w' \<in> set (map snd ws) \<Longrightarrow> Alive now w' \<Longrightarrow> wk_load w \<le> wk_load w'"
proof -
  let ?xs = "filter (Alive now) (map snd ws)"
  obtain rest where s: "sort_key GetLoad ?xs = w # rest"
    using assms by (auto simp: GetAvailable_def split: list.splits)
  then have hd: "hd (sort_key GetLoad ?xs) = w" by simp
  have "?xs \<noteq> []" using s by auto
  from hd_sort_key_in [OF this, of GetLoad] hd show "w \<in> set (map snd ws)" "Alive now w" by auto
  show "w' \<in> set (map snd ws) \<Longrightarrow> Alive now w' \<Longrightarrow> wk_load w \<le> wk_load w'"
    using hd_sort_key_le [of w' ?xs GetLoad] hd by (simp add: GetLoad_def)
qed

lemma filter_snd: "filter P (map snd (filter (\<lambda>(k, w). P w) ws)) = filter P (map snd ws)"
  by (induction ws) auto

text \<open>Dismissing workers that are silent changes no later choice.\<close>

lemma GetAvailable_ClearInactive: "GetAvailable now (snd (ClearInactive now ws)) = GetAvailable now ws"
  by (simp add: GetAvailable_def ClearInactive_def filter_snd)

lemma no_silent_worker: "now \<le> later \<Longrightarrow> Alive later w \<Longrightarrow> Alive now w"
  by (simp add: Alive_def)

lemma GetAvailable_later:
  assumes "now \<le> later"
  shows "GetAvailable later (snd (ClearInactive now ws)) = GetAvailable later ws"
proof -
  have "filter (Alive later) (map snd (filter (\<lambda>(k, w). Alive now w) ws)) = filter (Alive later) (map snd ws)"
    using no_silent_worker [OF assms] by (induction ws) auto
  then show ?thesis by (simp add: GetAvailable_def ClearInactive_def)
qed

end
