(* ===== verification/Library.thy ===== *)
theory Library
  imports Workforce
begin

text \<open>
  The library of modules that programs import (\<^verbatim>\<open>api/malgomaj/library/library.go\<close>): a cache of module
  sources in front of the index server.  The HTTP request is an argument.  Items are values, as in the
  Go map: \<^verbatim>\<open>Start\<close> and \<^verbatim>\<open>Stop\<close> work on the caller's copy.  Timers that are due are a list of
  instants and keys; each deletes its key when it fires.
\<close>

record LibraryItem =
  li_Key :: string
  li_Code :: string
  li_lifetime :: int
  li_timer :: bool

record library =
  lb_cache :: "(string \<times> LibraryItem) list"
  lb_cacheTimeout :: int
  lb_timers :: "(int \<times> string) list"

datatype library_error =
    LibraryError int string
  | NetError string

text \<open>
  \<^verbatim>\<open>Stop\<close> calls itself on an item with a timer, with the item as it was: it does not return then.
\<close>

partial_function (option) LibraryItem_Stop :: "LibraryItem \<Rightarrow> LibraryItem option" where
  "LibraryItem_Stop l = (if li_timer l then LibraryItem_Stop l else Some (l\<lparr>li_timer := False\<rparr>))"

definition LibraryItem_Start :: "int \<Rightarrow> LibraryItem \<Rightarrow> library \<Rightarrow> (LibraryItem \<times> library) option" where
  "LibraryItem_Start now l lb = (case LibraryItem_Stop l of
       None \<Rightarrow> None
     | Some l' \<Rightarrow> Some (l'\<lparr>li_timer := True\<rparr>, lb\<lparr>lb_timers := (now + li_lifetime l', li_Key l') # lb_timers lb\<rparr>))"

definition library_init :: library where
  "library_init = \<lparr>lb_cache = [], lb_cacheTimeout = 1800000000000, lb_timers = []\<rparr>"

fun restart_items :: "int \<Rightarrow> int \<Rightarrow> LibraryItem list \<Rightarrow> library \<Rightarrow> library option" where
  "restart_items now timeout [] lb = Some lb"
| "restart_items now timeout (v # vs) lb = (case LibraryItem_Stop v of
       None \<Rightarrow> None
     | Some v' \<Rightarrow> (case LibraryItem_Start now (v'\<lparr>li_lifetime := timeout\<rparr>) lb of
           None \<Rightarrow> None
         | Some (_, lb') \<Rightarrow> restart_items now timeout vs lb'))"

definition Library_SetCacheTimeout :: "int \<Rightarrow> int \<Rightarrow> library \<Rightarrow> library option" where
  "Library_SetCacheTimeout now seconds lb =
     (let lb1 = lb\<lparr>lb_cacheTimeout := seconds * 1000000000\<rparr> in
      restart_items now (lb_cacheTimeout lb1) (map snd (lb_cache lb1)) lb1)"

record LibraryParams =
  lp_Domain :: string
  lp_Module :: string
  lp_Revision :: string
  lp_Language :: string

definition Library_GetId :: "LibraryParams \<Rightarrow> string" where
  "Library_GetId l = lp_Language l @ '':'' @ lp_Domain l @ ''/'' @ lp_Module l @ ''@'' @ lp_Revision l"

definition Library_Add :: "int \<Rightarrow> LibraryParams \<Rightarrow> string \<Rightarrow> library \<Rightarrow> library option" where
  "Library_Add now p code lb =
     (let k = Library_GetId p; l = \<lparr>li_Key = k, li_Code = code, li_lifetime = lb_cacheTimeout lb, li_timer = False\<rparr>;
          stopped = (case map_of (lb_cache lb) k of None \<Rightarrow> True | Some obj \<Rightarrow> LibraryItem_Stop obj \<noteq> None) in
      if stopped then map_option snd (LibraryItem_Start now l (lb\<lparr>lb_cache := put k l (lb_cache lb)\<rparr>)) else None)"

text \<open>The answer of the index server: a transport error, or a status and a body.\<close>

definition Library_Get :: "(LibraryParams \<Rightarrow> string + int \<times> string) \<Rightarrow> int \<Rightarrow> LibraryParams \<Rightarrow> library
    \<Rightarrow> ((library_error + LibraryItem) \<times> library) option" where
  "Library_Get http now p lb =
     (let k = Library_GetId p in
      case map_of (lb_cache lb) k of
        Some v \<Rightarrow> Some (Inr v, lb)
      | None \<Rightarrow>
          (case http p of
             Inl e \<Rightarrow> Some (Inl (NetError e), lb)
           | Inr (status, body) \<Rightarrow>
               if status = 404 then Some (Inl (LibraryError 404 ''no such resource''), lb)
               else if status \<noteq> 200 then Some (Inl (LibraryError 502 ''invalid response from library index server''), lb)
               else let v = \<lparr>li_Key = k, li_Code = body, li_lifetime = lb_cacheTimeout lb, li_timer = False\<rparr> in
                 map_option (\<lambda>(v', lb'). (Inr v', lb')) (LibraryItem_Start now v (lb\<lparr>lb_cache := put k v (lb_cache lb)\<rparr>))))"

definition Library_Delete :: "LibraryParams \<Rightarrow> library \<Rightarrow> library" where
  "Library_Delete p lb = lb\<lparr>lb_cache := cut (Library_GetId p) (lb_cache lb)\<rparr>"

text \<open>The timers that are due fire.\<close>

definition library_tick :: "int \<Rightarrow> library \<Rightarrow> library" where
  "library_tick now lb =
     (let due = map snd (filter (\<lambda>(t, k). t \<le> now) (lb_timers lb)) in
      lb\<lparr>lb_cache := filter (\<lambda>(k, v). k \<notin> set due) (lb_cache lb), lb_timers := filter (\<lambda>(t, k). \<not> t \<le> now) (lb_timers lb)\<rparr>)"

section \<open>Stop always returns\<close>

lemma Stop_returns: "\<not> li_timer l \<Longrightarrow> LibraryItem_Stop l = Some l"
  by (subst LibraryItem_Stop.simps) simp

lemma Stop_never_returns: "li_timer l \<Longrightarrow> LibraryItem_Stop l \<noteq> Some x"
proof
  assume t: "li_timer l" and s: "LibraryItem_Stop l = Some x"
  have "li_timer l \<longrightarrow> False"
    by (rule LibraryItem_Stop.raw_induct [where P = "\<lambda>l x. li_timer l \<longrightarrow> False", OF _ s]) (auto split: if_splits)
  with t show False by simp
qed

lemma Stop_code [code]: "LibraryItem_Stop l = (if li_timer l then None else Some l)"
  using Stop_returns [of l] Stop_never_returns [of l] by (cases "LibraryItem_Stop l") auto

lemma Start_returns: "\<not> li_timer l \<Longrightarrow>
    LibraryItem_Start now l lb = Some (l\<lparr>li_timer := True\<rparr>, lb\<lparr>lb_timers := (now + li_lifetime l, li_Key l) # lb_timers lb\<rparr>)"
  by (simp add: LibraryItem_Start_def Stop_returns)

text \<open>What happens to the cache: requests, administration and timers.\<close>

datatype library_event =
    Lib_get LibraryParams int "LibraryParams \<Rightarrow> string + int \<times> string"
  | Lib_add LibraryParams int string
  | Lib_delete LibraryParams
  | Lib_timeout int int
  | Lib_tick int

fun library_step :: "library_event \<Rightarrow> library \<Rightarrow> library option" where
  "library_step (Lib_get p now http) lb = map_option snd (Library_Get http now p lb)"
| "library_step (Lib_add p now code) lb = Library_Add now p code lb"
| "library_step (Lib_delete p) lb = Some (Library_Delete p lb)"
| "library_step (Lib_timeout now seconds) lb = Library_SetCacheTimeout now seconds lb"
| "library_step (Lib_tick now) lb = Some (library_tick now lb)"

fun library_events :: "library_event list \<Rightarrow> library \<Rightarrow> library option" where
  "library_events [] lb = Some lb"
| "library_events (e # es) lb = (case library_step e lb of None \<Rightarrow> None | Some lb' \<Rightarrow> library_events es lb')"

definition timers_unset :: "library \<Rightarrow> bool" where
  "timers_unset lb \<longleftrightarrow> list_all (\<lambda>(k, v). \<not> li_timer v \<and> li_Key v = k) (lb_cache lb)"

lemma timers_unset_put: "timers_unset lb \<Longrightarrow> \<not> li_timer v \<Longrightarrow> li_Key v = k \<Longrightarrow> timers_unset (lb\<lparr>lb_cache := put k v (lb_cache lb)\<rparr>)"
  by (auto simp: timers_unset_def list_all_iff dest!: set_put)

lemma timers_unset_timers [simp]: "timers_unset (lb\<lparr>lb_timers := ts\<rparr>) = timers_unset lb" "timers_unset (lb\<lparr>lb_cacheTimeout := n\<rparr>) = timers_unset lb"
  by (simp_all add: timers_unset_def)

lemma restart_returns:
  "list_all (\<lambda>v. \<not> li_timer v) vs \<Longrightarrow> \<exists>ts. restart_items now timeout vs lb = Some (lb\<lparr>lb_timers := ts\<rparr>)"
proof (induction vs arbitrary: lb)
  case Nil
  then show ?case by (auto intro: exI [of _ "lb_timers lb"])
next
  case (Cons v vs)
  then have v: "\<not> li_timer v" "list_all (\<lambda>v. \<not> li_timer v) vs" by auto
  from Cons.IH [OF v(2), of "lb\<lparr>lb_timers := (now + timeout, li_Key v) # lb_timers lb\<rparr>"] obtain ts where
    "restart_items now timeout vs (lb\<lparr>lb_timers := (now + timeout, li_Key v) # lb_timers lb\<rparr>) = Some (lb\<lparr>lb_timers := ts\<rparr>)" by auto
  with v(1) show ?case by (auto simp: Stop_returns Start_returns)
qed

lemma event_returns:
  assumes "timers_unset lb"
  shows "\<exists>lb'. library_step e lb = Some lb' \<and> timers_unset lb'"
proof (cases e)
  case (Lib_get p now http)
  show ?thesis
  proof (cases "map_of (lb_cache lb) (Library_GetId p)")
    case (Some v)
    with Lib_get assms show ?thesis by (simp add: Library_Get_def)
  next
    case None
    with Lib_get assms show ?thesis
      by (auto simp: Library_Get_def Let_def Start_returns timers_unset_put split: sum.splits)
  qed
next
  case (Lib_add p now code)
  have "LibraryItem_Stop v \<noteq> None" if "map_of (lb_cache lb) k = Some v" for k v
    using assms that by (auto simp: timers_unset_def list_all_iff Stop_returns dest!: map_of_SomeD)
  with Lib_add assms show ?thesis
    by (auto simp: Library_Add_def Let_def Start_returns timers_unset_put split: option.splits)
next
  case (Lib_delete p)
  with assms show ?thesis by (auto simp: Library_Delete_def timers_unset_def cut_def list_all_iff)
next
  case (Lib_timeout now seconds)
  have "list_all (\<lambda>v. \<not> li_timer v) (map snd (lb_cache lb))" using assms by (auto simp: timers_unset_def list_all_iff)
  from restart_returns [OF this, of now "seconds * 1000000000" "lb\<lparr>lb_cacheTimeout := seconds * 1000000000\<rparr>"] assms Lib_timeout show ?thesis
    by (auto simp: Library_SetCacheTimeout_def Let_def)
next
  case (Lib_tick now)
  with assms show ?thesis by (auto simp: library_tick_def timers_unset_def Let_def list_all_iff)
qed

text \<open>
  C40: The library never hangs.  \<^verbatim>\<open>Stop\<close> of an item with a timer would call itself forever, but no item in
  the cache ever has one: timers are started on copies.  So whatever the sequence of requests,
  additions, deletions, changes of the timeout and timers, every operation returns.
\<close>

theorem library_never_hangs:
  "(\<exists>lb. library_events es library_init = Some lb) \<and> (li_timer l \<longrightarrow> LibraryItem_Stop l = None)"
proof -
  have "\<exists>lb'. library_events es lb = Some lb'" if "timers_unset lb" for lb
    using that
  proof (induction es arbitrary: lb)
    case (Cons e es)
    from event_returns [OF Cons.prems, of e] obtain lb1 where "library_step e lb = Some lb1" "timers_unset lb1" by blast
    with Cons.IH show ?case by simp
  qed simp
  moreover have "timers_unset library_init" by (simp add: timers_unset_def library_init_def)
  moreover have "li_timer l \<longrightarrow> LibraryItem_Stop l = None" by (simp add: Stop_code)
  ultimately show ?thesis by blast
qed

theorem library_never_hangs_witness:
  "\<exists>lb. library_events [Lib_add \<lparr>lp_Domain = ''home'', lp_Module = ''m'', lp_Revision = ''1'', lp_Language = ''tengo''\<rparr> 0 ''x := 1'',
      Lib_timeout 5 60, Lib_tick 7] library_init = Some lb
    \<and> LibraryItem_Stop \<lparr>li_Key = ''k'', li_Code = [], li_lifetime = 1, li_timer = True\<rparr> = None"
proof -
  let ?l = "\<lparr>li_Key = ''k'', li_Code = [], li_lifetime = 1, li_timer = True\<rparr>"
  have "LibraryItem_Stop ?l = None" using library_never_hangs [of "[]" ?l] by simp
  with library_never_hangs [of "[Lib_add \<lparr>lp_Domain = ''home'', lp_Module = ''m'', lp_Revision = ''1'', lp_Language = ''tengo''\<rparr> 0 ''x := 1'',
      Lib_timeout 5 60, Lib_tick 7]" ?l] show ?thesis by blast
qed

end
