(* ===== verification/Runner.thy ===== *)
theory Runner
  imports Library
begin

text \<open>
  The runner of programs (\<^verbatim>\<open>api/malgomaj\<close>): the cache of compiled programs (\<^verbatim>\<open>program.go\<close>), Tengo programs with
  their imports (\<^verbatim>\<open>tengo_handler.go\<close>), the module through which a program answers a request (\<^verbatim>\<open>tengo_mod_cgi.go\<close>)
  and the handlers (\<^verbatim>\<open>api.go\<close>).  The Tengo compiler and interpreter are arguments, and so is the order in which
  a Go map is walked.  Requests are served one after the other.  The outer \<^const>\<open>None\<close> of a result means
  that an operation does not return.
\<close>

section \<open>The module cgi\<close>

datatype tengo_object =
    T_String string
  | T_Bytes string
  | T_Int int
  | T_Other string

fun TypeName :: "tengo_object \<Rightarrow> string" where
  "TypeName (T_String _) = ''string''"
| "TypeName (T_Bytes _) = ''bytes''"
| "TypeName (T_Int _) = ''int''"
| "TypeName (T_Other name) = name"

datatype tengo_error =
    ErrWrongNumArguments
  | ErrInvalidArgumentType string string string
  | ErrOther string

record cgiModule =
  cg_reqHeaders :: "(string \<times> string) list"
  cg_reqBody :: string
  cg_respBody :: string
  cg_respHeaders :: "(string \<times> string) list"
  cg_respStatus :: int

definition GetBody :: "tengo_object list \<Rightarrow> cgiModule \<Rightarrow> (tengo_error + tengo_object option) \<times> cgiModule" where
  "GetBody args cgi = (Inr (Some (T_Bytes (cg_reqBody cgi))), cgi)"

definition SetHeader :: "tengo_object list \<Rightarrow> cgiModule \<Rightarrow> (tengo_error + tengo_object option) \<times> cgiModule" where
  "SetHeader args cgi = (case args of
       [key, v] \<Rightarrow>
         (case key of
            T_String header \<Rightarrow>
              (case v of
                 T_String x \<Rightarrow> (Inr None, cgi\<lparr>cg_respHeaders := put header x (cg_respHeaders cgi)\<rparr>)
               | _ \<Rightarrow> (Inl (ErrInvalidArgumentType ''value'' ''string'' (TypeName v)), cgi))
          | _ \<Rightarrow> (Inl (ErrInvalidArgumentType ''key'' ''string'' (TypeName key)), cgi))
     | _ \<Rightarrow> (Inl ErrWrongNumArguments, cgi))"

definition SetStatus :: "tengo_object list \<Rightarrow> cgiModule \<Rightarrow> (tengo_error + tengo_object option) \<times> cgiModule" where
  "SetStatus args cgi = (case args of
       [arg] \<Rightarrow>
         (case arg of
            T_Int n \<Rightarrow> (Inr None, cgi\<lparr>cg_respStatus := n\<rparr>)
          | _ \<Rightarrow> (Inl (ErrInvalidArgumentType ''status'' ''int'' (TypeName arg)), cgi))
     | _ \<Rightarrow> (Inl ErrWrongNumArguments, cgi))"

definition WriteBody :: "tengo_object list \<Rightarrow> cgiModule \<Rightarrow> (tengo_error + tengo_object option) \<times> cgiModule" where
  "WriteBody args cgi =
     (let append_bytes = (\<lambda>b. (Inr (Some (T_Int (int (length b)))), cgi\<lparr>cg_respBody := cg_respBody cgi @ b\<rparr>)) in
      case args of
        [arg] \<Rightarrow>
          (case arg of
             T_String b \<Rightarrow> append_bytes b
           | T_Bytes b \<Rightarrow> append_bytes b
           | _ \<Rightarrow> (Inl (ErrInvalidArgumentType ''data'' ''string'' (TypeName arg)), cgi))
      | _ \<Rightarrow> (Inl ErrWrongNumArguments, cgi))"

text \<open>\<^verbatim>\<open>tengo.Format\<close> is an argument.\<close>

definition fmtSprintf :: "(string \<Rightarrow> tengo_object list \<Rightarrow> string + string) \<Rightarrow> tengo_object list \<Rightarrow> tengo_error + tengo_object" where
  "fmtSprintf Format args = (case args of
       [] \<Rightarrow> Inl ErrWrongNumArguments
     | T_String format # rest \<Rightarrow> if rest = [] then Inr (T_String format)
         else (case Format format rest of Inl e \<Rightarrow> Inl (ErrOther e) | Inr x \<Rightarrow> Inr (T_String x))
     | arg # _ \<Rightarrow> Inl (ErrInvalidArgumentType ''format'' ''string'' (TypeName arg)))"

text \<open>What \<^verbatim>\<open>logInfo\<close> and \<^verbatim>\<open>logError\<close> hand to the logger.\<close>

definition logInfo :: "(string \<Rightarrow> tengo_object list \<Rightarrow> string + string) \<Rightarrow> tengo_object list \<Rightarrow> tengo_error + string" where
  "logInfo Format args = (case args of
       [] \<Rightarrow> Inl ErrWrongNumArguments
     | T_String format # rest \<Rightarrow> if rest = [] then Inr format
         else (case Format format rest of Inl e \<Rightarrow> Inl (ErrOther e) | Inr x \<Rightarrow> Inr x)
     | arg # _ \<Rightarrow> Inl (ErrInvalidArgumentType ''format'' ''string'' (TypeName arg)))"

section \<open>Tengo programs\<close>

record 'b TengoProgram =
  tp_domain :: string
  tp_id :: string
  tp_deadline :: int
  tp_sourceCode :: string
  tp_byteCode :: "'b option"
  tp_cgi :: "cgiModule option"

text \<open>The package: compiling a source with the sources of its modules, and running under a deadline.\<close>

record 'b tengo_lib =
  tl_Compile :: "string \<Rightarrow> (string \<times> string) list \<Rightarrow> string + 'b"
  tl_RunContext :: "'b \<Rightarrow> int \<Rightarrow> cgiModule \<Rightarrow> string option \<times> cgiModule"

definition NewTengoProgram :: "string \<Rightarrow> string \<Rightarrow> int \<Rightarrow> string \<Rightarrow> 'b TengoProgram" where
  "NewTengoProgram domain pid deadline sourceCode = \<lparr>tp_domain = domain, tp_id = pid, tp_deadline = deadline,
     tp_sourceCode = sourceCode, tp_byteCode = None, tp_cgi = None\<rparr>"

definition Program_Id :: "'b TengoProgram \<Rightarrow> string" where
  "Program_Id p = tp_domain p @ ''/'' @ tp_id p"

definition Program_Equals :: "(string \<Rightarrow> string) \<Rightarrow> 'b TengoProgram \<Rightarrow> 'b TengoProgram \<Rightarrow> bool" where
  "Program_Equals md5 p b \<longleftrightarrow> Program_Id p = Program_Id b \<and> tp_deadline p = tp_deadline b \<and> md5 (tp_sourceCode p) = md5 (tp_sourceCode b)"

definition AllowedBaseModules :: "string list" where
  "AllowedBaseModules = [''base64'', ''enum'', ''hex'', ''json'', ''math'', ''rand'', ''text'', ''times'']"

definition ExtraModules :: "string list" where
  "ExtraModules = [''fmt'', ''http'', ''log'', ''cgi'']"

text \<open>
  \<^verbatim>\<open>import\("(.*)"\)\<close>, which stays on a line and is greedy: from the first opening of a line to its
  last closing.
\<close>

fun upto_last_close :: "string \<Rightarrow> string option" where
  "upto_last_close [] = None"
| "upto_last_close (c # cs) = (case upto_last_close cs of
       Some x \<Rightarrow> Some (c # x)
     | None \<Rightarrow> if HasPrefix (c # cs) (CHR 0x22 # '')'') then Some [] else None)"

definition line_import :: "string \<Rightarrow> string option" where
  "line_import line = Option.bind (str_index line (''import('' @ [CHR 0x22])) (\<lambda>n. upto_last_close (drop (n + 8) line))"

definition AllImports :: "(string list \<Rightarrow> string list) \<Rightarrow> 'b TengoProgram \<Rightarrow> string list" where
  "AllImports order p = order (dedup [] (List.map_filter line_import (split_on (CHR 10) (tp_sourceCode p))))"

definition Modules :: "(string list \<Rightarrow> string list) \<Rightarrow> 'b TengoProgram \<Rightarrow> string list" where
  "Modules order p = filter (\<lambda>imp. imp \<notin> set AllowedBaseModules \<and> imp \<notin> set ExtraModules) (AllImports order p)"

definition module_params :: "string \<Rightarrow> string \<Rightarrow> LibraryParams" where
  "module_params domain modname =
     (let sp = split_on (CHR ''@'') modname in
      case sp of
        [name, revision] \<Rightarrow> \<lparr>lp_Domain = domain, lp_Module = name, lp_Revision = revision, lp_Language = ''tengo''\<rparr>
      | _ \<Rightarrow> \<lparr>lp_Domain = domain, lp_Module = modname, lp_Revision = ''latest'', lp_Language = ''tengo''\<rparr>)"

fun get_modules :: "(LibraryParams \<Rightarrow> string + int \<times> string) \<Rightarrow> int \<Rightarrow> string \<Rightarrow> string list \<Rightarrow> library
    \<Rightarrow> ((library_error + (string \<times> string) list) \<times> library) option" where
  "get_modules http now domain [] lb = Some (Inr [], lb)"
| "get_modules http now domain (modname # names) lb =
     (case Library_Get http now (module_params domain modname) lb of
        None \<Rightarrow> None
      | Some (Inl e, lb1) \<Rightarrow> Some (Inl e, lb1)
      | Some (Inr v, lb1) \<Rightarrow>
          (case get_modules http now domain names lb1 of
             None \<Rightarrow> None
           | Some (Inl e, lb2) \<Rightarrow> Some (Inl e, lb2)
           | Some (Inr mods, lb2) \<Rightarrow> Some (Inr ((modname, li_Code v) # mods), lb2)))"

definition new_cgi :: cgiModule where
  "new_cgi = \<lparr>cg_reqHeaders = [], cg_reqBody = [], cg_respBody = [], cg_respHeaders = [], cg_respStatus = 0\<rparr>"

definition Program_Compile :: "'b tengo_lib \<Rightarrow> (LibraryParams \<Rightarrow> string + int \<times> string) \<Rightarrow> (string list \<Rightarrow> string list) \<Rightarrow> int
    \<Rightarrow> 'b TengoProgram \<Rightarrow> library \<Rightarrow> (library_error option \<times> 'b TengoProgram \<times> library) option" where
  "Program_Compile T http order now p lb =
     (let p1 = p\<lparr>tp_cgi := Some new_cgi\<rparr> in
      case get_modules http now (tp_domain p) (Modules order p) lb of
        None \<Rightarrow> None
      | Some (Inl e, lb') \<Rightarrow> Some (Some e, p1, lb')
      | Some (Inr mods, lb') \<Rightarrow>
          (case tl_Compile T (tp_sourceCode p) mods of
             Inl e \<Rightarrow> Some (Some (NetError e), p1\<lparr>tp_byteCode := None\<rparr>, lb')
           | Inr b \<Rightarrow> Some (None, p1\<lparr>tp_byteCode := Some b\<rparr>, lb')))"

text \<open>
  Running a program.  \<^verbatim>\<open>CreateTask\<close> compiles a program before it puts it into the cache, so that \<^verbatim>\<open>Run\<close> and
  \<^verbatim>\<open>RunWithHTTP\<close> find byte code; the branch that compiles is not taken.
\<close>

definition the_cgi :: "'b TengoProgram \<Rightarrow> cgiModule" where
  "the_cgi p = (case tp_cgi p of None \<Rightarrow> new_cgi | Some cgi \<Rightarrow> cgi)"

definition run_bytes :: "'b tengo_lib \<Rightarrow> 'b TengoProgram \<Rightarrow> cgiModule \<Rightarrow> string option \<times> 'b TengoProgram" where
  "run_bytes T p cgi = (case tp_byteCode p of
       None \<Rightarrow> (None, p)
     | Some b \<Rightarrow> (let (err, cgi') = tl_RunContext T b (tp_deadline p) cgi in (err, p\<lparr>tp_cgi := Some cgi'\<rparr>)))"

definition Program_Run :: "'b tengo_lib \<Rightarrow> 'b TengoProgram \<Rightarrow> unit answer option \<times> 'b TengoProgram" where
  "Program_Run T p = (case run_bytes T p (the_cgi p) of
       (Some e, p') \<Rightarrow> (Some (Problem (NewInternalServerError e)), p')
     | (None, p') \<Rightarrow> (Some (Empty 200), p'))"

text \<open>
  \<^verbatim>\<open>WriteHeader\<close> panics on a code that has not three digits (\<^const>\<open>None\<close>).  It sends the headers, so that
  those the program set, which come after it, are not sent.
\<close>

definition RunWithHTTP :: "'b tengo_lib \<Rightarrow> string \<Rightarrow> (string \<times> string) list \<Rightarrow> 'b TengoProgram \<Rightarrow> unit answer option \<times> 'b TengoProgram" where
  "RunWithHTTP T body headers p = (case tp_cgi p of
       None \<Rightarrow> (Some (Problem (NewInternalServerError ''program can not handle a CGI request'')), p)
     | Some cgi \<Rightarrow>
         (case run_bytes T p (cgi\<lparr>cg_reqHeaders := headers, cg_reqBody := body\<rparr>) of
            (Some e, p') \<Rightarrow> (Some (Problem (NewInternalServerError e)), p')
          | (None, p') \<Rightarrow>
              (let out = the_cgi p' in
               if cg_respStatus out < 100 \<or> 999 < cg_respStatus out then (None, p')
               else (Some (Text (cg_respStatus out) (cg_respBody out)), p'))))"

section \<open>The cache of programs\<close>

record 'b ProgramCacheItem =
  pi_program :: "'b TengoProgram"
  pi_expires :: int

record 'b runner =
  rn_m :: "(string \<times> 'b ProgramCacheItem) list"
  rn_timeout :: int
  rn_library :: library

definition runner_init :: "'b runner" where
  "runner_init = \<lparr>rn_m = [], rn_timeout = 0, rn_library = library_init\<rparr>"

definition SetCacheTimeout :: "int \<Rightarrow> 'b runner \<Rightarrow> 'b runner" where
  "SetCacheTimeout seconds st = st\<lparr>rn_timeout := seconds * 1000000000\<rparr>"

definition ProgramCacheAdd :: "int \<Rightarrow> 'b TengoProgram \<Rightarrow> 'b runner \<Rightarrow> 'b runner" where
  "ProgramCacheAdd now p st = st\<lparr>rn_m := put (Program_Id p) \<lparr>pi_program = p, pi_expires = now + rn_timeout st\<rparr> (rn_m st)\<rparr>"

definition ProgramCacheGet :: "string \<Rightarrow> 'b runner \<Rightarrow> 'b ProgramCacheItem option" where
  "ProgramCacheGet k st = map_of (rn_m st) k"

text \<open>The timers of the items that have expired fire.\<close>

definition runner_tick :: "int \<Rightarrow> 'b runner \<Rightarrow> 'b runner" where
  "runner_tick now st = st\<lparr>rn_m := filter (\<lambda>(k, item). \<not> pi_expires item \<le> now) (rn_m st)\<rparr>"

definition ProgramCacheGetLoad :: "'b runner \<Rightarrow> int" where
  "ProgramCacheGetLoad st = sum_list (map (\<lambda>(k, item). tp_deadline (pi_program item) div 1000000) (rn_m st))"

definition NewProgram :: "string \<Rightarrow> string \<Rightarrow> string \<Rightarrow> int \<Rightarrow> string \<Rightarrow> string + 'b TengoProgram" where
  "NewProgram domain pid language deadline sourceCode =
     (if language = ''tengo'' then Inr (NewTengoProgram domain pid deadline sourceCode)
      else Inl (''language '' @ language @ '' is not supported''))"

section \<open>Handlers\<close>

record NewTask =
  nt_Deadline :: int
  nt_Domain :: string
  nt_Http :: "(string \<times> (string \<times> string) list) option"
  nt_Language :: string
  nt_ProgramUuid :: string
  nt_SourceCode :: string

definition Task_GetId :: "NewTask \<Rightarrow> string" where
  "Task_GetId t = nt_Domain t @ ''/'' @ nt_ProgramUuid t"

fun compile_answer :: "library_error \<Rightarrow> unit answer" where
  "compile_answer (LibraryError code msg) = Problem (HTTPErr 500 (''library error ('' @ Itoa code @ '') '' @ msg) None)"
| "compile_answer (NetError msg) = Problem (NewInternalServerError msg)"

text \<open>The answer (\<^const>\<open>None\<close> is a panic), the program that ran, and the state.\<close>

definition run_item :: "'b tengo_lib \<Rightarrow> NewTask \<Rightarrow> 'b ProgramCacheItem \<Rightarrow> 'b runner \<Rightarrow> unit answer option \<times> 'b TengoProgram option \<times> 'b runner" where
  "run_item T t item st =
     (let (ans, p) = (case nt_Http t of
            Some (body, headers) \<Rightarrow> RunWithHTTP T body headers (pi_program item)
          | None \<Rightarrow> Program_Run T (pi_program item)) in
      (ans, Some (pi_program item), st\<lparr>rn_m := put (Task_GetId t) (item\<lparr>pi_program := p\<rparr>) (rn_m st)\<rparr>))"

definition CreateTask :: "'b tengo_lib \<Rightarrow> (LibraryParams \<Rightarrow> string + int \<times> string) \<Rightarrow> (string list \<Rightarrow> string list) \<Rightarrow> int
    \<Rightarrow> NewTask option \<Rightarrow> 'b runner \<Rightarrow> (unit answer option \<times> 'b TengoProgram option \<times> 'b runner) option" where
  "CreateTask T http order now task st = (case task of
       None \<Rightarrow> Some (Some (Problem ErrorMalformedRequest), None, st)
     | Some t \<Rightarrow>
         (case ProgramCacheGet (Task_GetId t) st of
            Some item \<Rightarrow> Some (run_item T t item st)
          | None \<Rightarrow>
              (case NewProgram (nt_Domain t) (nt_ProgramUuid t) (nt_Language t) (nt_Deadline t * 1000000) (nt_SourceCode t) of
                 Inl e \<Rightarrow> Some (Some (Problem (NewInternalServerError e)), None, st)
               | Inr prog \<Rightarrow>
                   (case Program_Compile T http order now prog (rn_library st) of
                      None \<Rightarrow> None
                    | Some (Some e, _, lb) \<Rightarrow> Some (Some (compile_answer e), None, st\<lparr>rn_library := lb\<rparr>)
                    | Some (None, prog', lb) \<Rightarrow>
                        (let st1 = ProgramCacheAdd now prog' (st\<lparr>rn_library := lb\<rparr>) in
                         Some (run_item T t \<lparr>pi_program = prog', pi_expires = now + rn_timeout st1\<rparr> st1))))))"

definition GetStatus :: "'b runner \<Rightarrow> int answer" where
  "GetStatus st = JSON 200 (ProgramCacheGetLoad st)"


section \<open>The code that arrives\<close>

text \<open>\<^verbatim>\<open>encoding/json\<close> reads a byte slice as base64, whose decoder skips line ends.\<close>

definition base64_value :: "char \<Rightarrow> nat option" where
  "base64_value c = (let n = of_char c in
     if 65 \<le> n \<and> n \<le> 90 then Some (n - 65) else if 97 \<le> n \<and> n \<le> 122 then Some (n - 71)
     else if 48 \<le> n \<and> n \<le> 57 then Some (n + 4) else if n = 43 then Some 62 else if n = 47 then Some 63 else None)"

fun base64_quads :: "string \<Rightarrow> string option" where
  "base64_quads [] = Some []"
| "base64_quads (a # b # c # d # s) = (case (base64_value a, base64_value b) of
       (Some i, Some j) \<Rightarrow>
         if d = CHR ''='' then
           (if s \<noteq> [] then None
            else if c = CHR ''='' then Some [char_of (i * 4 + j div 16)]
            else (case base64_value c of None \<Rightarrow> None
                  | Some k \<Rightarrow> Some [char_of (i * 4 + j div 16), char_of (j mod 16 * 16 + k div 4)]))
         else (case (base64_value c, base64_value d) of
             (Some k, Some l) \<Rightarrow> map_option (\<lambda>t. [char_of (i * 4 + j div 16), char_of (j mod 16 * 16 + k div 4), char_of (k mod 4 * 64 + l)] @ t)
               (base64_quads s)
           | _ \<Rightarrow> None)
     | _ \<Rightarrow> None)"
| "base64_quads _ = None"

definition base64_DecodeString :: "string \<Rightarrow> string option" where
  "base64_DecodeString s = base64_quads (filter (\<lambda>c. c \<noteq> CHR 10 \<and> c \<noteq> CHR 13) s)"

lemma base64_value_digit: "n < 64 \<Longrightarrow> base64_value (base64_digit n) = Some n"
  by (auto simp: base64_value_def base64_digit_def Let_def)

lemma base64_digit_plain: "n < 64 \<Longrightarrow> base64_digit n \<noteq> CHR ''='' \<and> base64_digit n \<noteq> CHR 10 \<and> base64_digit n \<noteq> CHR 13"
proof -
  assume "n < 64"
  then have "base64_value (base64_digit n) = Some n" by (rule base64_value_digit)
  then show ?thesis by (auto simp: base64_value_def)
qed

lemma digits64:
  fixes n :: nat
  assumes "d0 < 64" "d1 < 64" "d2 < 64" "n = ((d3 * 64 + d2) * 64 + d1) * 64 + d0"
  shows "n mod 64 = d0" "n div 64 mod 64 = d1" "n div 4096 mod 64 = d2" "n div 262144 = d3" "n div 4096 = d3 * 64 + d2"
proof -
  have 1: "n div 64 = (d3 * 64 + d2) * 64 + d1" using assms(1) by (simp add: assms(4))
  have "n div 4096 = n div 64 div 64" by (simp flip: div_mult2_eq)
  also have "\<dots> = d3 * 64 + d2" using assms(2) by (simp add: 1)
  finally show 2: "n div 4096 = d3 * 64 + d2" .
  have "n div 262144 = n div 4096 div 64" by (simp flip: div_mult2_eq)
  with 2 assms(3) show "n div 262144 = d3" by simp
  show "n mod 64 = d0" "n div 64 mod 64 = d1" "n div 4096 mod 64 = d2"
    unfolding 1 2 using assms(1-3) by (simp_all only: assms(4) mod_mult_self3 mod_less)
qed

lemma byte_parts:
  fixes c :: char and k l :: nat
  assumes "k * l = 256" "0 < l"
  obtains q r where "(of_char c :: nat) = q * l + r" "q < k" "r < l"
proof
  show "(of_char c :: nat) = of_char c div l * l + of_char c mod l" by simp
  have "(of_char c :: nat) < k * l" unfolding assms(1) by simp
  then show "(of_char c :: nat) div l < k" by (rule less_mult_imp_div_less)
  show "(of_char c :: nat) mod l < l" using assms(2) by simp
qed

lemma base64_quads_encode: "base64_quads (base64_EncodeToString s) = Some s"
proof (induction s rule: base64_EncodeToString.induct)
  case (2 a)
  obtain a1 a0 where a: "(of_char a :: nat) = a1 * 4 + a0" "a1 < 64" "a0 < 4" by (rule byte_parts [of 64 4 a]) simp_all
  define n where "n = (of_char a :: nat) * 16"
  have e: "n = ((0 * 64 + 0) * 64 + a1) * 64 + a0 * 16" by (simp add: n_def a(1))
  have d: "a0 * 16 < 64" using a(3) by simp
  note n = digits64 [OF d a(2) _ e]
  have "n div 64 = a1" using d unfolding e by simp
  note n = n(1) this
  have "char_of (a1 * 4 + a0) = a" unfolding a(1) [symmetric] by simp
  moreover have "base64_EncodeToString [a] = [base64_digit (n div 64), base64_digit (n mod 64), CHR ''='', CHR ''='']"
    by (simp only: base64_EncodeToString.simps Let_def n_def)
  ultimately show ?case using a(2,3) n by (simp add: base64_value_digit base64_digit_plain)
next
  case (3 a b)
  obtain a1 a0 where a: "(of_char a :: nat) = a1 * 4 + a0" "a1 < 64" "a0 < 4" by (rule byte_parts [of 64 4 a]) simp_all
  obtain b1 b0 where b: "(of_char b :: nat) = b1 * 16 + b0" "b1 < 16" "b0 < 16" by (rule byte_parts [of 16 16 b]) simp_all
  define n where "n = ((of_char a :: nat) * 256 + of_char b) * 4"
  have e: "n = ((0 * 64 + a1) * 64 + (a0 * 16 + b1)) * 64 + b0 * 4" by (simp add: n_def a(1) b(1))
  have d: "b0 * 4 < 64" "a0 * 16 + b1 < 64" using a(3) b(2,3) by simp_all
  have n: "n mod 64 = b0 * 4" "n div 64 mod 64 = a0 * 16 + b1" "n div 4096 = a1"
    using digits64(1,2,5) [OF d a(2) e] by simp_all
  have "char_of (a1 * 4 + a0) = a" "char_of (b1 * 16 + b0) = b" unfolding a(1) [symmetric] b(1) [symmetric] by simp_all
  moreover have "base64_EncodeToString [a, b] = [base64_digit (n div 4096), base64_digit (n div 64 mod 64), base64_digit (n mod 64), CHR ''='']"
    by (simp only: base64_EncodeToString.simps Let_def n_def)
  ultimately show ?case using a(2,3) b(2,3) n by (simp add: base64_value_digit base64_digit_plain)
next
  case (4 a b c s)
  obtain a1 a0 where a: "(of_char a :: nat) = a1 * 4 + a0" "a1 < 64" "a0 < 4" by (rule byte_parts [of 64 4 a]) simp_all
  obtain b1 b0 where b: "(of_char b :: nat) = b1 * 16 + b0" "b1 < 16" "b0 < 16" by (rule byte_parts [of 16 16 b]) simp_all
  obtain c1 c0 where c: "(of_char c :: nat) = c1 * 64 + c0" "c1 < 4" "c0 < 64" by (rule byte_parts [of 4 64 c]) simp_all
  define n where "n = ((of_char a :: nat) * 256 + of_char b) * 256 + of_char c"
  have e: "n = ((a1 * 64 + (a0 * 16 + b1)) * 64 + (b0 * 4 + c1)) * 64 + c0" by (simp add: n_def a(1) b(1) c(1))
  have d: "b0 * 4 + c1 < 64" "a0 * 16 + b1 < 64" using a(3) b(2,3) c(2) by simp_all
  note n = digits64(1-4) [OF c(3) d e]
  have "char_of (a1 * 4 + a0) = a" "char_of (b1 * 16 + b0) = b" "char_of (c1 * 64 + c0) = c" unfolding a(1) [symmetric] b(1) [symmetric] c(1) [symmetric] by simp_all
  moreover have "base64_EncodeToString (a # b # c # s) = [base64_digit (n div 262144), base64_digit (n div 4096 mod 64),
      base64_digit (n div 64 mod 64), base64_digit (n mod 64)] @ base64_EncodeToString s"
    by (simp only: base64_EncodeToString.simps Let_def n_def)
  ultimately show ?case using a(2,3) b(2,3) c(2,3) n 4 by (simp add: base64_value_digit base64_digit_plain)
qed simp

lemma base64_digit_code: "43 \<le> (of_char (base64_digit n) :: nat)"
  by (simp add: base64_digit_def) arith

lemma encode_no_newline: "c \<in> set (base64_EncodeToString s) \<Longrightarrow> 43 \<le> (of_char c :: nat)"
  by (induction s rule: base64_EncodeToString.induct) (auto simp: Let_def base64_digit_code)

lemma base64_roundtrip: "base64_DecodeString (base64_EncodeToString s) = Some s"
proof -
  have "filter (\<lambda>c. c \<noteq> CHR 10 \<and> c \<noteq> CHR 13) (base64_EncodeToString s) = base64_EncodeToString s"
    by (auto simp: filter_id_conv dest!: encode_no_newline)
  then show ?thesis by (simp add: base64_DecodeString_def base64_quads_encode)
qed

text \<open>The task that the runner reads from what \<^verbatim>\<open>ProgramRevision.Execute\<close> sends.\<close>

definition read_task :: "WorkerTask \<Rightarrow> NewTask option" where
  "read_task w = map_option (\<lambda>source. \<lparr>nt_Deadline = wt_Deadline w, nt_Domain = wt_Domain w, nt_Http = None, nt_Language = wt_Language w,
     nt_ProgramUuid = wt_ProgramUuid w, nt_SourceCode = source\<rparr>) (base64_DecodeString (wt_SourceCode w))"

lemma read_task_sent: "read_task (worker_task p) = Some \<lparr>nt_Deadline = pr_Deadline p, nt_Domain = pr_Domain p, nt_Http = None,
    nt_Language = pr_Language p, nt_ProgramUuid = pr_ProgramUuid p, nt_SourceCode = pr_Code p\<rparr>"
  by (simp add: read_task_def worker_task_def base64_roundtrip)


section \<open>Which code runs\<close>

text \<open>The states of a runner with its cache timeout, and the tasks it was given, with their times.\<close>

inductive serves :: "'b tengo_lib \<Rightarrow> int \<Rightarrow> (int \<times> NewTask) list \<Rightarrow> 'b runner \<Rightarrow> bool" for T timeout where
  fresh: "serves T timeout [] (runner_init\<lparr>rn_timeout := timeout\<rparr>)"
| task: "serves T timeout h st \<Longrightarrow> CreateTask T http order now (Some t) st = Some (ans, exe, st') \<Longrightarrow> serves T timeout (h @ [(now, t)]) st'"
| tick: "serves T timeout h st \<Longrightarrow> serves T timeout h (runner_tick now st)"
| library: "serves T timeout h st \<Longrightarrow> serves T timeout h (st\<lparr>rn_library := lb\<rparr>)"

definition came_from :: "int \<Rightarrow> (int \<times> NewTask) list \<Rightarrow> string \<Rightarrow> 'b ProgramCacheItem \<Rightarrow> bool" where
  "came_from timeout h k item \<longleftrightarrow> (\<exists>(t0, t)\<in>set h. k = Task_GetId t \<and> tp_domain (pi_program item) = nt_Domain t
     \<and> tp_id (pi_program item) = nt_ProgramUuid t \<and> tp_sourceCode (pi_program item) = nt_SourceCode t \<and> pi_expires item = t0 + timeout)"

definition cache_origin :: "int \<Rightarrow> (int \<times> NewTask) list \<Rightarrow> 'b runner \<Rightarrow> bool" where
  "cache_origin timeout h st \<longleftrightarrow> rn_timeout st = timeout \<and> (\<forall>(k, item)\<in>set (rn_m st). came_from timeout h k item)"

lemma came_from_mono: "came_from timeout h k item \<Longrightarrow> came_from timeout (h @ h') k item"
  by (auto simp: came_from_def)

lemma cache_origin_mono: "cache_origin timeout h st \<Longrightarrow> cache_origin timeout (h @ h') st"
  using came_from_mono by (fastforce simp: cache_origin_def)

lemma run_static:
  "tp_sourceCode (snd (Program_Run T p)) = tp_sourceCode p \<and> tp_domain (snd (Program_Run T p)) = tp_domain p \<and> tp_id (snd (Program_Run T p)) = tp_id p"
  "tp_sourceCode (snd (RunWithHTTP T b hs p)) = tp_sourceCode p \<and> tp_domain (snd (RunWithHTTP T b hs p)) = tp_domain p
     \<and> tp_id (snd (RunWithHTTP T b hs p)) = tp_id p"
  by (auto simp: Program_Run_def RunWithHTTP_def run_bytes_def Let_def split: option.splits prod.splits)

lemma run_item_origin:
  assumes "run_item T t item st = (ans, exe, st')" "cache_origin timeout h st" "came_from timeout h (Task_GetId t) item"
  shows "exe = Some (pi_program item) \<and> cache_origin timeout h st'"
proof -
  obtain p where p: "exe = Some (pi_program item)" "st' = st\<lparr>rn_m := put (Task_GetId t) (item\<lparr>pi_program := p\<rparr>) (rn_m st)\<rparr>"
    "tp_sourceCode p = tp_sourceCode (pi_program item)" "tp_domain p = tp_domain (pi_program item)" "tp_id p = tp_id (pi_program item)"
    using assms(1) run_static(1) [of T "pi_program item"] run_static(2) [of T _ _ "pi_program item"]
    by (auto simp: run_item_def Let_def split: option.splits prod.splits) (metis snd_conv)+
  then have "came_from timeout h (Task_GetId t) (item\<lparr>pi_program := p\<rparr>)" using assms(3) by (auto simp: came_from_def)
  with p assms(2) show ?thesis by (auto simp: cache_origin_def dest!: set_put)
qed

lemma compile_static:
  assumes "Program_Compile T http order now p lb = Some (e, p', lb')"
  shows "tp_sourceCode p' = tp_sourceCode p \<and> tp_domain p' = tp_domain p \<and> tp_id p' = tp_id p"
  using assms by (auto simp: Program_Compile_def Let_def split: option.splits sum.splits prod.splits)

lemma CreateTask_origin:
  assumes "CreateTask T http order now (Some t) st = Some (ans, exe, st')" "cache_origin timeout h st"
  shows "cache_origin timeout (h @ [(now, t)]) st'
    \<and> (\<forall>p. exe = Some p \<longrightarrow> (\<exists>item. p = pi_program item \<and> (map_of (rn_m st) (Task_GetId t) = Some item
         \<or> tp_sourceCode p = nt_SourceCode t \<and> tp_domain p = nt_Domain t \<and> tp_id p = nt_ProgramUuid t)))"
proof (cases "ProgramCacheGet (Task_GetId t) st")
  case (Some item)
  then have r: "run_item T t item st = (ans, exe, st')" using assms(1) by (simp add: CreateTask_def)
  have "(Task_GetId t, item) \<in> set (rn_m st)" using Some by (simp add: ProgramCacheGet_def map_of_SomeD)
  then have "came_from timeout h (Task_GetId t) item" using assms(2) by (auto simp: cache_origin_def)
  from run_item_origin [OF r assms(2) this] Some cache_origin_mono show ?thesis by (auto simp: ProgramCacheGet_def)
next
  case None
  let ?new = "NewProgram (nt_Domain t) (nt_ProgramUuid t) (nt_Language t) (nt_Deadline t * 1000000) (nt_SourceCode t)"
  show ?thesis
  proof (cases "\<exists>prog prog' lb. ?new = Inr prog \<and> Program_Compile T http order now prog (rn_library st) = Some (None, prog', lb)")
    case False
    then have "exe = None \<and> (\<exists>lb. st' = st\<lparr>rn_library := lb\<rparr>)" using assms(1) None
      by (auto simp: CreateTask_def split: sum.splits option.splits prod.splits intro: exI [of _ "rn_library st"])
    then show ?thesis using cache_origin_mono [OF assms(2), of "[(now, t)]"] by (auto simp: cache_origin_def)
  next
    case True
    then obtain prog prog' lb where c: "?new = Inr prog" "Program_Compile T http order now prog (rn_library st) = Some (None, prog', lb)" by blast
    let ?item = "\<lparr>pi_program = prog', pi_expires = now + rn_timeout st\<rparr>"
    let ?st1 = "ProgramCacheAdd now prog' (st\<lparr>rn_library := lb\<rparr>)"
    have p: "tp_sourceCode prog' = nt_SourceCode t" "tp_domain prog' = nt_Domain t" "tp_id prog' = nt_ProgramUuid t"
      using c(1) compile_static [OF c(2)] by (auto simp: NewProgram_def NewTengoProgram_def split: if_splits)
    have from_t: "came_from timeout (h @ [(now, t)]) (Task_GetId t) ?item" using p assms(2) by (auto simp: came_from_def cache_origin_def)
    have "Program_Id prog' = Task_GetId t" using p by (simp add: Program_Id_def Task_GetId_def)
    then have "cache_origin timeout (h @ [(now, t)]) ?st1" using from_t cache_origin_mono [OF assms(2), of "[(now, t)]"]
      by (auto simp: cache_origin_def ProgramCacheAdd_def dest!: set_put)
    moreover have "run_item T t ?item ?st1 = (ans, exe, st')" using assms(1) None c by (simp add: CreateTask_def Let_def ProgramCacheAdd_def)
    ultimately have "exe = Some prog' \<and> cache_origin timeout (h @ [(now, t)]) st'" using run_item_origin from_t by fastforce
    with p show ?thesis by (auto intro: exI [of _ ?item])
  qed
qed

lemma serves_origin: "serves T timeout h st \<Longrightarrow> cache_origin timeout h st"
proof (induction rule: serves.induct)
  case fresh
  then show ?case by (simp add: cache_origin_def runner_init_def)
next
  case (task h st http order now t ans exe st')
  then show ?case using CreateTask_origin by blast
next
  case (tick h st now)
  then show ?case by (auto simp: cache_origin_def runner_tick_def)
next
  case (library h st lb)
  then show ?case by (simp add: cache_origin_def)
qed

lemma Task_GetId_inj: "Task_GetId t = Task_GetId t' \<Longrightarrow> slash \<notin> set (nt_ProgramUuid t) \<Longrightarrow> slash \<notin> set (nt_ProgramUuid t') \<Longrightarrow>
    nt_Domain t = nt_Domain t' \<and> nt_ProgramUuid t = nt_ProgramUuid t'"
  using last_split [of "nt_Domain t" slash "nt_ProgramUuid t" "nt_Domain t'" "nt_ProgramUuid t'"] by (simp add: Task_GetId_def)

text \<open>The program that runs for a task was sent as this task, or as one for the same program less than the timeout ago.\<close>

lemma running_code_recent:
  assumes "serves T timeout h st" "CreateTask T http order now (Some t) (runner_tick now st) = Some (ans, Some p, st')"
    "\<And>t0 t'. (t0, t') \<in> set h \<Longrightarrow> slash \<notin> set (nt_ProgramUuid t')" "slash \<notin> set (nt_ProgramUuid t)"
  obtains t0 t' where "(t0, t') \<in> set (h @ [(now, t)])" "now < t0 + timeout \<or> t' = t" "nt_Domain t' = nt_Domain t" "nt_ProgramUuid t' = nt_ProgramUuid t"
    "tp_domain p = nt_Domain t" "tp_id p = nt_ProgramUuid t" "tp_sourceCode p = nt_SourceCode t'"
proof -
  have o: "cache_origin timeout h (runner_tick now st)" using assms(1) by (intro serves_origin serves.tick)
  from CreateTask_origin [OF assms(2) o] consider
      (cached) item where "p = pi_program item" "map_of (rn_m (runner_tick now st)) (Task_GetId t) = Some item"
    | (compiled) "tp_sourceCode p = nt_SourceCode t" "tp_domain p = nt_Domain t" "tp_id p = nt_ProgramUuid t" by auto
  then show thesis
  proof cases
    case cached
    then have i: "(Task_GetId t, item) \<in> set (rn_m (runner_tick now st))" by (simp add: map_of_SomeD)
    then have "now < pi_expires item" by (auto simp: runner_tick_def)
    moreover obtain t0 t' where t': "(t0, t') \<in> set h" "Task_GetId t = Task_GetId t'" "tp_domain p = nt_Domain t'" "tp_id p = nt_ProgramUuid t'"
      "tp_sourceCode p = nt_SourceCode t'" "pi_expires item = t0 + timeout"
      using o i cached(1) by (auto simp: cache_origin_def came_from_def)
    ultimately show thesis using Task_GetId_inj [OF t'(2) assms(4) assms(3) [OF t'(1)]] by (intro that [of t0 t']) auto
  next
    case compiled
    then show thesis by (intro that [of now t]) auto
  qed
qed


section \<open>Answers of cached programs\<close>

text \<open>
  A program answers a request through the buffer of its module, which is emptied when the program is
  compiled and not between requests: while a program stays in the cache, the answer to a request begins with the
  answer to the one before it, whoever sent that.  The hypothesis: a script reaches the
  buffer through \<^const>\<open>WriteBody\<close> only, which appends.
\<close>

theorem responses_leak:
  assumes "\<And>b d cgi. \<exists>out. cg_respBody (snd (tl_RunContext T b d cgi)) = cg_respBody cgi @ out"
    "RunWithHTTP T body1 headers1 p = (Some (Text c1 answer1), p1)" "RunWithHTTP T body2 headers2 p1 = (Some (Text c2 answer2), p2)"
  shows "prefix answer1 answer2"
proof -
  have run: "answer = cg_respBody (the_cgi p') \<and> (tp_cgi p' \<noteq> None) \<and> prefix (cg_respBody (the_cgi p)) answer"
    if "RunWithHTTP T body headers p = (Some (Text c answer), p')" for body headers p c answer p'
  proof -
    from that obtain cgi where cgi: "tp_cgi p = Some cgi" by (auto simp: RunWithHTTP_def split: option.splits)
    let ?cgi = "cgi\<lparr>cg_reqHeaders := headers, cg_reqBody := body\<rparr>"
    from that cgi have r: "run_bytes T p ?cgi = (None, p')" "answer = cg_respBody (the_cgi p')"
      by (auto simp: RunWithHTTP_def Let_def split: option.splits prod.splits if_splits)
    show ?thesis
    proof (cases "tp_byteCode p")
      case None
      with r cgi show ?thesis by (auto simp: run_bytes_def)
    next
      case (Some b)
      with r(1) obtain cgi' where "tl_RunContext T b (tp_deadline p) ?cgi = (None, cgi')" "p' = p\<lparr>tp_cgi := Some cgi'\<rparr>"
        by (auto simp: run_bytes_def split: prod.splits)
      with assms(1) [of b "tp_deadline p" ?cgi] r(2) cgi show ?thesis by (auto simp: the_cgi_def)
    qed
  qed
  from run [OF assms(2)] run [OF assms(3)] show ?thesis by metis
qed

definition greeter :: "string tengo_lib" where
  "greeter = \<lparr>tl_Compile = (\<lambda>source mods. Inr source),
     tl_RunContext = (\<lambda>b deadline cgi. (None, snd (WriteBody [T_String (b @ cg_reqBody cgi)] (snd (SetStatus [T_Int 200] cgi)))))\<rparr>"

theorem responses_leak_witness:
  "let p = (NewTengoProgram ''home'' ''1a'' 1 ''hello'')\<lparr>tp_byteCode := Some ''hello '', tp_cgi := Some new_cgi\<rparr>;
       (a1, p1) = RunWithHTTP greeter ''ann, '' [] p; (a2, p2) = RunWithHTTP greeter ''bob'' [] p1
   in a1 = Some (Text 200 ''hello ann, '') \<and> a2 = Some (Text 200 ''hello ann, hello bob'') \<and> prefix ''hello ann, '' ''hello ann, hello bob''"
proof -
  define p where "p = (NewTengoProgram ''home'' ''1a'' 1 ''hello'')\<lparr>tp_byteCode := Some ''hello '', tp_cgi := Some new_cgi\<rparr>"
  obtain a1 p1 where 1: "RunWithHTTP greeter ''ann, '' [] p = (a1, p1)" by force
  obtain a2 p2 where 2: "RunWithHTTP greeter ''bob'' [] p1 = (a2, p2)" by force
  have "fst (RunWithHTTP greeter ''ann, '' [] p) = Some (Text 200 ''hello ann, '')
      \<and> fst (RunWithHTTP greeter ''bob'' [] (snd (RunWithHTTP greeter ''ann, '' [] p))) = Some (Text 200 ''hello ann, hello bob'')"
    unfolding p_def by code_simp
  with 1 2 have a: "a1 = Some (Text 200 ''hello ann, '')" "a2 = Some (Text 200 ''hello ann, hello bob'')" by simp_all
  have "\<exists>out. cg_respBody (snd (tl_RunContext greeter b d cgi)) = cg_respBody cgi @ out" for b d cgi
    by (simp add: greeter_def WriteBody_def SetStatus_def)
  from responses_leak [OF this 1 [unfolded a] 2 [unfolded a]] have "prefix ''hello ann, '' ''hello ann, hello bob''" .
  with 1 2 a show ?thesis by (simp add: p_def [symmetric])
qed

end
